(* ===== verification/Prelude.thy ===== *)
theory Prelude
  imports Main "HOL-Library.Word" "HOL-Library.Char_ord" "HOL-Library.List_Lexorder"
begin

unbundle bit_operations_syntax

text \<open>
  Shared vocabulary of the development: machine integers, run-time faults, the C string
  functions the sources use (\<^verbatim>\<open>strtok\<close>, \<^verbatim>\<open>tolower\<close>, \<^verbatim>\<open>strtol\<close> and friends,
  the integer conversions of \<^verbatim>\<open>printf\<close>), the standard \<^verbatim>\<open>bsearch\<close>, and the
  generic locales that several components instantiate.
\<close>

section \<open>Machine integers\<close>

type_synonym u8 = "8 word"
type_synonym u32 = "32 word"
type_synonym u64 = "64 word"

text \<open>Facts that reduce a fault-free run to its result.\<close>

named_theorems run_simps
named_theorems frame_simps
named_theorems keep_intros

section \<open>Faults\<close>

text \<open>
  What a run of the C code can end in instead of returning. A definition that can fault has
  a result of type \<open>fault + 'a\<close>: \<open>Inl\<close> is the fault, \<open>Inr\<close> the value.
\<close>

datatype fault =
    NullDeref        \<comment> \<open>a NULL pointer is dereferenced or passed to a string function\<close>
  | UseAfterFree     \<comment> \<open>freed storage is read or written\<close>
  | DoubleFree       \<comment> \<open>freed storage is freed again\<close>
  | BadFree          \<comment> \<open>free of storage that malloc did not return\<close>
  | DivZero          \<comment> \<open>integer division by zero\<close>
  | IntOverflow      \<comment> \<open>signed overflow of an \<^verbatim>\<open>int\<close>\<close>
  | OutOfBounds      \<comment> \<open>a write past the end of an array\<close>
  | Uninit           \<comment> \<open>a value that has not been initialised is used\<close>
  | FatalExit        \<comment> \<open>LOG(LOG_FATAL, ...) ends the process\<close>
  | CleanExit        \<comment> \<open>not a fault: the code calls exit(0)\<close>

type_synonym 'a res = "fault + 'a"

definition bindE :: "'a res \<Rightarrow> ('a \<Rightarrow> 'b res) \<Rightarrow> 'b res" where
  "bindE r f = (case r of Inl e \<Rightarrow> Inl e | Inr a \<Rightarrow> f a)"

lemma bindE_simps [simp, run_simps]:
  "bindE (Inl e) f = Inl e"
  "bindE (Inr a) f = f a"
  by (simp_all add: bindE_def)

lemma bindE_Inr_conv: "bindE r f = Inr b \<longleftrightarrow> (\<exists>a. r = Inr a \<and> f a = Inr b)"
  by (cases r) auto

lemma bindE_Inl_conv:
  "bindE r f = Inl e \<longleftrightarrow> r = Inl e \<or> (\<exists>a. r = Inr a \<and> f a = Inl e)"
  by (cases r) auto

lemma bindE_split:
  "P (bindE r f) \<longleftrightarrow> (\<forall>e. r = Inl e \<longrightarrow> P (Inl e)) \<and> (\<forall>a. r = Inr a \<longrightarrow> P (f a))"
  by (cases r) auto

text \<open>A loop over a list that stops at the first fault, and one that cannot fault.\<close>

fun foldE :: "('a \<Rightarrow> 's \<Rightarrow> 's res) \<Rightarrow> 'a list \<Rightarrow> 's \<Rightarrow> 's res" where
  "foldE f [] s = Inr s"
| "foldE f (x # xs) s = bindE (f x s) (foldE f xs)"

lemma foldE_append: "foldE f (xs @ ys) s = bindE (foldE f xs s) (foldE f ys)"
  by (induction xs arbitrary: s) (auto simp: bindE_def split: sum.splits)

lemma foldE_inv:
  assumes "foldE f xs s = Inr s'" and "P s"
    and "\<And>x t t'. x \<in> set xs \<Longrightarrow> P t \<Longrightarrow> f x t = Inr t' \<Longrightarrow> P t'"
  shows "P s'"
  using assms
proof (induction xs arbitrary: s)
  case Nil
  then show ?case by simp
next
  case (Cons x xs)
  from Cons.prems(1) obtain t where t: "f x s = Inr t" "foldE f xs t = Inr s'"
    by (auto simp: bindE_Inr_conv)
  from Cons.prems(2,3) t(1) have "P t" by auto
  with Cons.IH [OF t(2)] Cons.prems(3) show ?case by auto
qed

lemma foldE_total:
  assumes "P s"
    and "\<And>x t. x \<in> set xs \<Longrightarrow> P t \<Longrightarrow> \<exists>t'. f x t = Inr t' \<and> P t'"
  shows "\<exists>s'. foldE f xs s = Inr s' \<and> P s'"
  using assms
proof (induction xs arbitrary: s)
  case Nil
  then show ?case by simp
next
  case (Cons x xs)
  from Cons.prems obtain t where "f x s = Inr t" "P t" by auto
  with Cons.IH [of t] Cons.prems(2) show ?case by auto
qed

lemma fold_inv:
  assumes "P s" and "\<And>x t. x \<in> set xs \<Longrightarrow> P t \<Longrightarrow> P (f x t)"
  shows "P (fold f xs s)"
  using assms by (induction xs arbitrary: s) auto

text \<open>Looking a list up by a key that no two elements share.\<close>

lemma map_of_keyed:
  assumes "distinct (map f xs)"
  shows "map_of (map (\<lambda>e. (f e, e)) xs) k = Some e \<longleftrightarrow> e \<in> set xs \<and> f e = k"
  using assms by (subst map_of_eq_Some_iff) (auto simp: comp_def)

lemma filter_upt_empty:
  "filter (\<lambda>i. P (xs ! i)) [0..<length xs] = [] \<longleftrightarrow> (\<forall>x \<in> set xs. \<not> P x)"
  by (auto simp: filter_empty_conv all_set_conv_all_nth)

end
