(* ===== verification/CString.thy ===== *)
theory CString
  imports Prelude
begin

text \<open>
  The C library's string and conversion functions as gnhast calls them, in the C locale:
  character classes, \<^verbatim>\<open>tolower\<close>, \<^verbatim>\<open>strcasecmp\<close>, \<^verbatim>\<open>strtok\<close> with a one-character
  delimiter, the integer conversions of \<^verbatim>\<open>printf\<close>, \<^verbatim>\<open>atoi\<close>/\<^verbatim>\<open>strtol\<close>/\<^verbatim>\<open>strtoul\<close>/
  \<^verbatim>\<open>strtoll\<close> (LP64, saturating as the standard says), \<^verbatim>\<open>qsort\<close> and \<^verbatim>\<open>bsearch\<close>.
  A C string is a char list without the terminating NUL; \<^verbatim>\<open>strcmp\<close> is the lexicographic
  order on lists of unsigned bytes.
\<close>

section \<open>Characters\<close>

abbreviation chr_code :: "char \<Rightarrow> nat" where
  "chr_code c \<equiv> of_char c"

definition is_digit :: "char \<Rightarrow> bool" where
  "is_digit c \<longleftrightarrow> 48 \<le> chr_code c \<and> chr_code c \<le> 57"

definition is_upper :: "char \<Rightarrow> bool" where
  "is_upper c \<longleftrightarrow> 65 \<le> chr_code c \<and> chr_code c \<le> 90"

definition is_lower :: "char \<Rightarrow> bool" where
  "is_lower c \<longleftrightarrow> 97 \<le> chr_code c \<and> chr_code c \<le> 122"

definition is_alpha :: "char \<Rightarrow> bool" where
  "is_alpha c \<longleftrightarrow> is_upper c \<or> is_lower c"

definition is_space :: "char \<Rightarrow> bool" where
  "is_space c \<longleftrightarrow> chr_code c = 32 \<or> (9 \<le> chr_code c \<and> chr_code c \<le> 13)"

definition c_tolower :: "char \<Rightarrow> char" where
  "c_tolower c = (if is_upper c then char_of (chr_code c + 32) else c)"

definition strcaseeq :: "string \<Rightarrow> string \<Rightarrow> bool" where
  "strcaseeq a b \<longleftrightarrow> map c_tolower a = map c_tolower b"

lemma c_tolower_id: "\<not> is_upper c \<Longrightarrow> c_tolower c = c"
  by (simp add: c_tolower_def)

lemma c_tolower_not_upper: "\<not> is_upper (c_tolower c)"
  by (simp add: c_tolower_def is_upper_def)

lemma c_tolower_idem [simp]: "c_tolower (c_tolower c) = c_tolower c"
  by (simp add: c_tolower_id c_tolower_not_upper)

section \<open>Tokens\<close>

text \<open>
  The successive results of \<^verbatim>\<open>strtok(s, d)\<close>, \<^verbatim>\<open>strtok(NULL, d)\<close>, \dots for a one-character
  delimiter set: the maximal non-empty runs of other characters.
\<close>

function strtok :: "char \<Rightarrow> string \<Rightarrow> string list" where
  "strtok d [] = []"
| "strtok d (c # s) =
     (if c = d then strtok d s
      else (c # takeWhile (\<lambda>x. x \<noteq> d) s) # strtok d (dropWhile (\<lambda>x. x \<noteq> d) s))"
  by pat_completeness auto
termination
  by (relation "measure (\<lambda>(d, s). length s)") (auto simp: le_imp_less_Suc length_dropWhile_le)

text \<open>The strings of a list with a one-character separator between them.\<close>

fun join :: "char \<Rightarrow> string list \<Rightarrow> string" where
  "join d [] = []"
| "join d [x] = x"
| "join d (x # y # xs) = x @ d # join d (y # xs)"

lemma strtok_nonempty: "t \<in> set (strtok d s) \<Longrightarrow> t \<noteq> [] \<and> d \<notin> set t"
  by (induction d s rule: strtok.induct) (auto split: if_splits dest: set_takeWhileD)

lemma strtok_word:
  assumes "x \<noteq> []" and "d \<notin> set x"
  shows "strtok d x = [x]" and "strtok d (x @ d # s) = x # strtok d s"
proof -
  obtain c t where x: "x = c # t" using assms(1) by (cases x) auto
  have t: "takeWhile (\<lambda>z. z \<noteq> d) t = t" "dropWhile (\<lambda>z. z \<noteq> d) t = []"
    using assms(2) x by (auto simp: takeWhile_eq_all_conv dropWhile_eq_Nil_conv)
  have ts: "takeWhile (\<lambda>z. z \<noteq> d) (t @ d # s) = t" "dropWhile (\<lambda>z. z \<noteq> d) (t @ d # s) = d # s"
    using assms(2) x by (auto simp: takeWhile_append dropWhile_append)
  show "strtok d x = [x]"
    using assms(2) x by (auto simp add: t simp del: takeWhile_eq_all_conv dropWhile_eq_Nil_conv)
  show "strtok d (x @ d # s) = x # strtok d s" using assms(2) x ts by auto
qed

lemma strtok_join:
  "(\<And>x. x \<in> set xs \<Longrightarrow> x \<noteq> [] \<and> d \<notin> set x) \<Longrightarrow> strtok d (join d xs) = xs"
  by (induction d xs rule: join.induct) (simp_all add: strtok_word)

lemma set_join: "set (join d xs) \<subseteq> insert d (\<Union> (set ` set xs))"
  by (induction d xs rule: join.induct) auto

section \<open>Printing integers\<close>

definition digit_char :: "nat \<Rightarrow> char" where
  "digit_char n = char_of (48 + n)"

fun nat_dec :: "nat \<Rightarrow> string" where
  "nat_dec n = (if n < 10 then [digit_char n] else nat_dec (n div 10) @ [digit_char (n mod 10)])"

declare nat_dec.simps [simp del]

text \<open>\<^verbatim>\<open>%d\<close> and \<^verbatim>\<open>%jd\<close> of a signed value, \<^verbatim>\<open>%u\<close> of an unsigned one.\<close>

definition int_dec :: "int \<Rightarrow> string" where
  "int_dec i = (if i < 0 then CHR ''-'' # nat_dec (nat (- i)) else nat_dec (nat i))"

lemma digit_char_code: "n < 10 \<Longrightarrow> chr_code (digit_char n) = 48 + n"
  by (simp add: digit_char_def)

lemma nat_dec_digits: "c \<in> set (nat_dec n) \<Longrightarrow> is_digit c"
proof (induction n rule: nat_dec.induct)
  case (1 n)
  show ?case
  proof (cases "n < 10")
    case True
    with 1(2) show ?thesis
      by (simp add: nat_dec.simps [of n] is_digit_def digit_char_code)
  next
    case False
    with 1 show ?thesis
      by (auto simp: nat_dec.simps [of n] is_digit_def digit_char_code)
  qed
qed

lemma nat_dec_nonempty [simp]: "nat_dec n \<noteq> []"
  by (subst nat_dec.simps) simp

section \<open>Reading integers\<close>

fun scan_dec :: "nat \<Rightarrow> string \<Rightarrow> nat" where
  "scan_dec a [] = a"
| "scan_dec a (c # s) = (if is_digit c then scan_dec (10 * a + (chr_code c - 48)) s else a)"

text \<open>Leading white space and an optional sign.\<close>

fun scan_sign :: "string \<Rightarrow> bool \<times> string" where
  "scan_sign [] = (False, [])"
| "scan_sign (c # s) =
     (if c = CHR ''-'' then (True, s) else if c = CHR ''+'' then (False, s) else (False, c # s))"

definition c_strtol :: "string \<Rightarrow> int" where
  "c_strtol s =
     (let (neg, t) = scan_sign (dropWhile is_space s);
          v = int (scan_dec 0 t);
          w = (if neg then - v else v)
      in max (- (2 ^ 63)) (min (2 ^ 63 - 1) w))"

definition c_strtoul :: "string \<Rightarrow> u64" where
  "c_strtoul s =
     (let (neg, t) = scan_sign (dropWhile is_space s);
          v = scan_dec 0 t
      in if v \<ge> 2 ^ 64 then - 1
         else if neg then - of_nat v else of_nat v)"

text \<open>\<^verbatim>\<open>atoi\<close> is \<^verbatim>\<open>(int)strtol(s, NULL, 10)\<close>; the results are kept as bit patterns.\<close>

definition c_atoi :: "string \<Rightarrow> u32" where
  "c_atoi s = word_of_int (c_strtol s)"

definition c_strtoll :: "string \<Rightarrow> u64" where
  "c_strtoll s = word_of_int (c_strtol s)"

definition c_strtou32 :: "string \<Rightarrow> u32" where
  "c_strtou32 s = ucast (c_strtoul s)"

lemma scan_dec_append:
  "(\<And>c. c \<in> set s \<Longrightarrow> is_digit c) \<Longrightarrow> scan_dec a (s @ r) = scan_dec (scan_dec a s) r"
  by (induction s arbitrary: a) auto

lemma scan_nat_dec: "scan_dec 0 (nat_dec n) = n"
proof (induction n rule: nat_dec.induct)
  case (1 n)
  show ?case
  proof (cases "n < 10")
    case True
    then show ?thesis by (simp add: nat_dec.simps [of n] is_digit_def digit_char_code)
  next
    case False
    then have "scan_dec 0 (nat_dec n) = 10 * (n div 10) + n mod 10"
      using 1 nat_dec_digits [of _ "n div 10"]
      by (simp add: nat_dec.simps [of n] scan_dec_append is_digit_def digit_char_code)
    then show ?thesis by simp
  qed
qed

lemma digit_not_special:
  assumes "is_digit c"
  shows "\<not> is_space c" "c \<noteq> CHR ''-''" "c \<noteq> CHR ''+''" "c \<noteq> CHR '' ''"
    "c \<noteq> CHR 0x22" "c \<noteq> CHR '':''" "c \<noteq> CHR 0x5C" "c \<noteq> CHR 0x00" "c \<noteq> CHR '',''"
  using assms by (auto simp: is_digit_def is_space_def)

lemma nat_dec_hd:
  obtains c t where "nat_dec n = c # t" and "is_digit c"
  using nat_dec_nonempty [of n] nat_dec_digits [of _ n] by (cases "nat_dec n") auto

lemma dropWhile_space_nat_dec [simp]: "dropWhile is_space (nat_dec n) = nat_dec n"
  by (rule nat_dec_hd [of n]) (simp add: digit_not_special)

lemma scan_sign_nat_dec [simp]: "scan_sign (nat_dec n) = (False, nat_dec n)"
  by (rule nat_dec_hd [of n]) (simp add: digit_not_special)

lemma c_strtol_int_dec:
  assumes "- (2 ^ 63) \<le> i" and "i < 2 ^ 63"
  shows "c_strtol (int_dec i) = i"
  using assms by (auto simp: c_strtol_def int_dec_def scan_nat_dec Let_def is_space_def)

lemma c_strtoul_int_dec:
  assumes "- (2 ^ 63) \<le> i" and "i < 2 ^ 63"
  shows "c_strtoul (int_dec i) = word_of_int i"
proof (cases "i < 0")
  case True
  then have "of_nat (nat (- i)) = (- word_of_int i :: u64)"
    by (simp add: of_nat_nat)
  moreover from True assms have "nat (- i) < 2 ^ 64" by (simp add: nat_less_iff)
  ultimately show ?thesis
    using True by (simp add: c_strtoul_def int_dec_def scan_nat_dec Let_def is_space_def)
next
  case False
  moreover from assms have "nat i < 2 ^ 64" by (simp add: nat_less_iff)
  ultimately show ?thesis
    by (simp add: c_strtoul_def int_dec_def scan_nat_dec Let_def of_nat_nat)
qed


section \<open>Printing and reading one number\<close>

text \<open>
  The protocol sends numbers as text: one side prints with a conversion of \<^verbatim>\<open>printf\<close>, the
  other reads with one of the \<^verbatim>\<open>strtol\<close> family. The contract of such a pair: reading gives
  back the value, and the text is a non-empty word of digits and a sign, which no tokenizer
  of the protocol breaks.
\<close>

definition word_char :: "char \<Rightarrow> bool" where
  "word_char c \<longleftrightarrow> is_digit c \<or> c = CHR ''-''"

locale number_text =
  fixes show_num :: "'a \<Rightarrow> string"
    and read_num :: "string \<Rightarrow> 'a"
  assumes read_show: "read_num (show_num x) = x"
    and show_nonempty: "show_num x \<noteq> []"
    and show_chars: "c \<in> set (show_num x) \<Longrightarrow> word_char c"
begin

lemma show_inject: "show_num x = show_num y \<longleftrightarrow> x = y"
  using read_show by metis

lemma show_safe:
  "CHR '' '' \<notin> set (show_num x)" "CHR 0x22 \<notin> set (show_num x)"
  "CHR '':'' \<notin> set (show_num x)" "CHR 0x00 \<notin> set (show_num x)"
  by (auto dest!: show_chars simp: word_char_def is_digit_def)

end

lemma int_dec_nonempty [simp]: "int_dec i \<noteq> []"
  by (simp add: int_dec_def)

lemma int_dec_chars: "c \<in> set (int_dec i) \<Longrightarrow> word_char c"
  by (auto simp: int_dec_def word_char_def dest: nat_dec_digits split: if_splits)

text \<open>\<^verbatim>\<open>%d\<close> of an \<^verbatim>\<open>int\<close> or a \<^verbatim>\<open>uint32_t\<close>: both are printed as the signed 32-bit value.\<close>

definition fmt_d :: "u32 \<Rightarrow> string" where
  "fmt_d w = int_dec (sint w)"

text \<open>\<^verbatim>\<open>%u\<close> of a \<^verbatim>\<open>uint32_t\<close>, \<^verbatim>\<open>%jd\<close> of an \<^verbatim>\<open>int64_t\<close>.\<close>

definition fmt_u :: "u32 \<Rightarrow> string" where
  "fmt_u w = nat_dec (unat w)"

definition fmt_jd :: "u64 \<Rightarrow> string" where
  "fmt_jd w = int_dec (sint w)"

lemma sint_u32_range: "- (2 ^ 63) \<le> sint (w :: u32)" "sint (w :: u32) < 2 ^ 63"
  using sint_range_size [of w] by (simp_all add: word_size)

lemma sint_u64_range: "- (2 ^ 63) \<le> sint (w :: u64)" "sint (w :: u64) < 2 ^ 63"
  using sint_range_size [of w] by (simp_all add: word_size)

text \<open>A 32-bit value survives the detour through \<^verbatim>\<open>long\<close>.\<close>

lemma ucast_scast_u32 [simp]: "ucast (scast (w :: u32) :: u64) = w"
  by (rule bit_word_eqI) (auto simp: bit_simps)

lemma ucast_ucast_u32 [simp]: "ucast (ucast (w :: u32) :: u64) = w"
  by (rule bit_word_eqI) (auto simp: bit_simps)

interpretation d_atoi: number_text fmt_d c_atoi
  by unfold_locales
    (simp_all add: fmt_d_def c_atoi_def c_strtol_int_dec sint_u32_range int_dec_chars
      del: power_numeral)

interpretation d_strtoul: number_text fmt_d c_strtou32
  by unfold_locales
    (simp_all add: fmt_d_def c_strtou32_def c_strtoul_int_dec sint_u32_range int_dec_chars del: power_numeral)

interpretation jd_strtoll: number_text fmt_jd c_strtoll
  by unfold_locales
    (simp_all add: fmt_jd_def c_strtoll_def c_strtol_int_dec sint_u64_range int_dec_chars
      del: power_numeral)

lemma fmt_u_int_dec: "fmt_u w = int_dec (uint w)"
  by (simp add: fmt_u_def int_dec_def flip: unat_eq_nat_uint)

lemma uint_u32_range: "- (2 ^ 63) \<le> uint (w :: u32)" "uint (w :: u32) < 2 ^ 63"
  using uint_lt2p [of w] by (auto intro: order_trans [OF _ uint_ge_0])

interpretation u_strtoul: number_text fmt_u c_strtou32
  by unfold_locales
    (simp_all add: fmt_u_int_dec c_strtou32_def c_strtoul_int_dec uint_u32_range int_dec_chars del: power_numeral)

section \<open>Sorting and searching tables\<close>

text \<open>
  \<^verbatim>\<open>qsort\<close> with \<^verbatim>\<open>strcmp\<close> on the name field. The tables of gnhast have pairwise distinct
  names, so the result does not depend on the sorting algorithm.
\<close>

definition c_qsort :: "('b \<Rightarrow> string) \<Rightarrow> 'b list \<Rightarrow> 'b list" where
  "c_qsort name tab = sort_key name tab"

text \<open>The search loop of \<^verbatim>\<open>bsearch\<close>: the half-open range [l, u) still to be searched.\<close>

function bsearch_loop :: "string \<Rightarrow> ('b \<Rightarrow> string) \<Rightarrow> 'b list \<Rightarrow> nat \<Rightarrow> nat \<Rightarrow> 'b option" where
  "bsearch_loop k name tab l u =
     (if l < u then
        (let i = (l + u) div 2; n = name (tab ! i)
         in if k < n then bsearch_loop k name tab l i
            else if n < k then bsearch_loop k name tab (i + 1) u
            else Some (tab ! i))
      else None)"
  by pat_completeness auto
termination
  by (relation "measure (\<lambda>(k, name, tab, l, u). u - l)") auto

declare bsearch_loop.simps [simp del]

definition c_bsearch :: "string \<Rightarrow> ('b \<Rightarrow> string) \<Rightarrow> 'b list \<Rightarrow> 'b option" where
  "c_bsearch k name tab = bsearch_loop k name tab 0 (length tab)"

lemma bsearch_loop_sound:
  "bsearch_loop k name tab l u = Some e \<Longrightarrow> u \<le> length tab \<Longrightarrow> e \<in> set tab \<and> name e = k"
proof (induction k name tab l u rule: bsearch_loop.induct)
  case (1 k name tab l u)
  show ?case
  proof (cases "l < u")
    case True
    then show ?thesis
      using 1 by (auto simp: bsearch_loop.simps [of k name tab l u] Let_def split: if_splits)
  next
    case False
    with "1.prems" show ?thesis by (simp add: bsearch_loop.simps [of k name tab l u])
  qed
qed

lemma bsearch_loop_complete:
  "sorted (map name tab) \<Longrightarrow> u \<le> length tab \<Longrightarrow> l \<le> j \<Longrightarrow> j < u \<Longrightarrow> name (tab ! j) = k
    \<Longrightarrow> \<exists>e. bsearch_loop k name tab l u = Some e"
proof (induction k name tab l u rule: bsearch_loop.induct)
  case (1 k name tab l u)
  let ?i = "(l + u) div 2"
  have i: "l \<le> ?i" "?i < u" using "1.prems"(3,4) by auto
  have mono: "name (tab ! a) \<le> name (tab ! b)" if "a \<le> b" "b < u" for a b
    using sorted_nth_mono [OF "1.prems"(1), of a b] that "1.prems"(2) by simp
  consider "k < name (tab ! ?i)" | "name (tab ! ?i) < k" | "name (tab ! ?i) = k"
    by fastforce
  then show ?case
  proof cases
    case 1
    then have "j < ?i" using mono [of ?i j] "1.prems"(4,5) by (meson leD leI)
    then show ?thesis
      using "1.IH"(1) [OF _ refl refl 1] "1.prems" i 1
      by (simp add: bsearch_loop.simps [of k name tab l u] Let_def)
  next
    case 2
    then have "?i < j" using mono [of j ?i] i "1.prems"(5) by (meson leD leI)
    then show ?thesis
      using "1.IH"(2) [OF _ refl refl _ 2] "1.prems" i 2
      by (auto simp add: bsearch_loop.simps [of k name tab l u] Let_def)
  next
    case 3
    then show ?thesis using i by (simp add: bsearch_loop.simps [of k name tab l u] Let_def)
  qed
qed

text \<open>Searching the sorted table is a keyed lookup in the table as written.\<close>

lemma c_bsearch_c_qsort:
  assumes "distinct (map name tab)"
  shows "c_bsearch k name (c_qsort name tab) = map_of (map (\<lambda>e. (name e, e)) tab) k"
proof -
  let ?s = "c_qsort name tab" and ?m = "map_of (map (\<lambda>e. (name e, e)) tab)"
  have set: "set ?s = set tab" by (simp add: c_qsort_def)
  have m: "?m k = Some e" if "e \<in> set tab" "name e = k" for e
    using that assms by (auto intro!: map_of_is_SomeI simp: comp_def)
  show ?thesis
  proof (cases "c_bsearch k name ?s")
    case (Some e)
    then have "e \<in> set tab" "name e = k"
      using bsearch_loop_sound [of k name ?s 0 "length ?s" e] set by (auto simp: c_bsearch_def)
    with m Some show ?thesis by simp
  next
    case None
    have "k \<notin> name ` set tab"
    proof
      assume "k \<in> name ` set tab"
      then obtain j where "j < length ?s" "name (?s ! j) = k"
        using set by (metis imageE in_set_conv_nth)
      then show False
        using bsearch_loop_complete [of name ?s "length ?s" 0 j k] None
        by (simp add: c_bsearch_def c_qsort_def)
    qed
    then have "?m k = None" by (auto simp: map_of_eq_None_iff)
    with None show ?thesis by simp
  qed
qed

end
