(* ===== verification/Gnhast.thy ===== *)
theory Gnhast
  imports CString
begin

text \<open>
  The data model of \<^verbatim>\<open>common/gnhast.h\<close> and \<^verbatim>\<open>common/commands.h\<close>: the enumerations of
  device types, protocols, subtypes and sub-commands with their codes, the argument table of
  \<^verbatim>\<open>common/netparser.c\<close>, the name maps of \<^verbatim>\<open>common/devices.c\<close>, and the structures
  \<^verbatim>\<open>device_t\<close>, \<^verbatim>\<open>client_t\<close>, \<^verbatim>\<open>device_group_t\<close>, \<^verbatim>\<open>wrap_device_t\<close>, \<^verbatim>\<open>alarm_t\<close>.

  A pointer to a device, client or group is a number. The data union is a word of 64 bits
  (little-endian: \<^verbatim>\<open>state\<close> is its low byte, \<^verbatim>\<open>count\<close> its low half). The membership bits
  \<^verbatim>\<open>onq\<close> are booleans, one for each bit the code tests.
\<close>

section \<open>Enumerations\<close>

datatype (plugins only: code size) dev_type =
    DEVICE_NONE | DEVICE_SWITCH | DEVICE_DIMMER | DEVICE_SENSOR | DEVICE_TIMER |
    DEVICE_BLIND

definition dev_types :: "dev_type list" where
  "dev_types =
    [DEVICE_NONE, DEVICE_SWITCH, DEVICE_DIMMER, DEVICE_SENSOR, DEVICE_TIMER, DEVICE_BLIND]"

datatype (plugins only: code size) proto =
    PROTO_NONE | PROTO_INSTEON_V1 | PROTO_INSTEON_V2 | PROTO_INSTEON_V2CS |
    PROTO_SENSOR_OWFS | PROTO_SENSOR_BRULTECH_GEM | PROTO_SENSOR_BRULTECH_ECM1240 |
    PROTO_SENSOR_WMR918 | PROTO_SENSOR_AD2USB | PROTO_SENSOR_ICADDY |
    PROTO_SENSOR_VENSTAR | PROTO_CONTROL_URTSI | PROTO_COLLECTOR | PROTO_CAMERA_AXIS |
    PROTO_TUXEDO | PROTO_NEPTUNE_APEX | PROTO_CALCULATED | PROTO_BALBOA | PROTO_GENERIC |
    PROTO_UNUSED1 | PROTO_UNUSED2 | PROTO_UNUSED3 | PROTO_UNUSED4 | PROTO_UNUSED5 |
    PROTO_UNUSED6 | PROTO_UNUSED7 | PROTO_UNUSED8 | PROTO_UNUSED9 | PROTO_UNUSED10 |
    PROTO_UNUSED11 | PROTO_UNUSED12 | PROTO_UNUSED13 | PROTO_UNUSED14 |
    PROTO_MAINS_SWITCH | PROTO_WEATHER | PROTO_SENSOR | PROTO_SENSOR_INDOOR |
    PROTO_SENSOR_OUTDOOR | PROTO_SENSOR_ELEC | PROTO_POWERUSE | PROTO_IRRIGATION |
    PROTO_ENTRY | PROTO_ALARM | PROTO_BATTERY | PROTO_CAMERA | PROTO_AQUARIUM |
    PROTO_SOLAR | PROTO_POOL | PROTO_WATERHEATER | PROTO_LIGHT | PROTO_AV |
    PROTO_THERMOSTAT | PROTO_SETTINGS | PROTO_BLIND

definition protos :: "proto list" where
  "protos =
    [PROTO_NONE, PROTO_INSTEON_V1, PROTO_INSTEON_V2, PROTO_INSTEON_V2CS, PROTO_SENSOR_OWFS,
    PROTO_SENSOR_BRULTECH_GEM, PROTO_SENSOR_BRULTECH_ECM1240, PROTO_SENSOR_WMR918,
    PROTO_SENSOR_AD2USB, PROTO_SENSOR_ICADDY, PROTO_SENSOR_VENSTAR, PROTO_CONTROL_URTSI,
    PROTO_COLLECTOR, PROTO_CAMERA_AXIS, PROTO_TUXEDO, PROTO_NEPTUNE_APEX, PROTO_CALCULATED,
    PROTO_BALBOA, PROTO_GENERIC, PROTO_UNUSED1, PROTO_UNUSED2, PROTO_UNUSED3,
    PROTO_UNUSED4, PROTO_UNUSED5, PROTO_UNUSED6, PROTO_UNUSED7, PROTO_UNUSED8,
    PROTO_UNUSED9, PROTO_UNUSED10, PROTO_UNUSED11, PROTO_UNUSED12, PROTO_UNUSED13,
    PROTO_UNUSED14, PROTO_MAINS_SWITCH, PROTO_WEATHER, PROTO_SENSOR, PROTO_SENSOR_INDOOR,
    PROTO_SENSOR_OUTDOOR, PROTO_SENSOR_ELEC, PROTO_POWERUSE, PROTO_IRRIGATION, PROTO_ENTRY,
    PROTO_ALARM, PROTO_BATTERY, PROTO_CAMERA, PROTO_AQUARIUM, PROTO_SOLAR, PROTO_POOL,
    PROTO_WATERHEATER, PROTO_LIGHT, PROTO_AV, PROTO_THERMOSTAT, PROTO_SETTINGS, PROTO_BLIND]"

datatype (plugins only: code size) subtype =
    SUBTYPE_NONE | SUBTYPE_SWITCH | SUBTYPE_OUTLET | SUBTYPE_TEMP | SUBTYPE_HUMID |
    SUBTYPE_COUNTER | SUBTYPE_PRESSURE | SUBTYPE_SPEED | SUBTYPE_DIR | SUBTYPE_PH |
    SUBTYPE_WETNESS | SUBTYPE_HUB | SUBTYPE_LUX | SUBTYPE_VOLTAGE | SUBTYPE_WATTSEC |
    SUBTYPE_WATT | SUBTYPE_AMPS | SUBTYPE_RAINRATE | SUBTYPE_WEATHER |
    SUBTYPE_ALARMSTATUS | SUBTYPE_NUMBER | SUBTYPE_PERCENTAGE | SUBTYPE_FLOWRATE |
    SUBTYPE_DISTANCE | SUBTYPE_VOLUME | SUBTYPE_TIMER | SUBTYPE_THMODE | SUBTYPE_THSTATE |
    SUBTYPE_SMNUMBER | SUBTYPE_BLIND | SUBTYPE_COLLECTOR | SUBTYPE_TRIGGER | SUBTYPE_ORP |
    SUBTYPE_SALINITY | SUBTYPE_DAYLIGHT | SUBTYPE_MOONPH | SUBTYPE_TRISTATE | SUBTYPE_BOOL

definition subtypes :: "subtype list" where
  "subtypes =
    [SUBTYPE_NONE, SUBTYPE_SWITCH, SUBTYPE_OUTLET, SUBTYPE_TEMP, SUBTYPE_HUMID,
    SUBTYPE_COUNTER, SUBTYPE_PRESSURE, SUBTYPE_SPEED, SUBTYPE_DIR, SUBTYPE_PH,
    SUBTYPE_WETNESS, SUBTYPE_HUB, SUBTYPE_LUX, SUBTYPE_VOLTAGE, SUBTYPE_WATTSEC,
    SUBTYPE_WATT, SUBTYPE_AMPS, SUBTYPE_RAINRATE, SUBTYPE_WEATHER, SUBTYPE_ALARMSTATUS,
    SUBTYPE_NUMBER, SUBTYPE_PERCENTAGE, SUBTYPE_FLOWRATE, SUBTYPE_DISTANCE, SUBTYPE_VOLUME,
    SUBTYPE_TIMER, SUBTYPE_THMODE, SUBTYPE_THSTATE, SUBTYPE_SMNUMBER, SUBTYPE_BLIND,
    SUBTYPE_COLLECTOR, SUBTYPE_TRIGGER, SUBTYPE_ORP, SUBTYPE_SALINITY, SUBTYPE_DAYLIGHT,
    SUBTYPE_MOONPH, SUBTYPE_TRISTATE, SUBTYPE_BOOL]"

datatype (plugins only: code size) sc =
    SC_UID | SC_NAME | SC_RATE | SC_RRDNAME | SC_DEVTYPE | SC_PROTO | SC_SUBTYPE |
    SC_SWITCH | SC_DIMMER | SC_TEMP | SC_HUMID | SC_LUX | SC_PRESSURE | SC_COUNT |
    SC_SPEED | SC_DIR | SC_WETNESS | SC_PH | SC_VOLTAGE | SC_WATTSEC | SC_WATT | SC_AMPS |
    SC_RAINRATE | SC_CLIENT | SC_SCALE | SC_WEATHER | SC_HIWAT | SC_LOWAT | SC_HANDLER |
    SC_HARGS | SC_TAGS | SC_ALARMSTATUS | SC_NUMBER | SC_PERCENTAGE | SC_FLOWRATE |
    SC_DISTANCE | SC_VOLUME | SC_TIMER | SC_THMODE | SC_THSTATE | SC_SMNUMBER |
    SC_GROUPLIST | SC_DEVLIST | SC_COLLECTOR | SC_BLIND | SC_ALSEV | SC_ALTEXT | SC_ALUID |
    SC_TRIGGER | SC_ORP | SC_SALINITY | SC_ALCHAN | SC_SPAM | SC_DAYLIGHT | SC_MOONPH |
    SC_TRISTATE

definition scs :: "sc list" where
  "scs =
    [SC_UID, SC_NAME, SC_RATE, SC_RRDNAME, SC_DEVTYPE, SC_PROTO, SC_SUBTYPE, SC_SWITCH,
    SC_DIMMER, SC_TEMP, SC_HUMID, SC_LUX, SC_PRESSURE, SC_COUNT, SC_SPEED, SC_DIR,
    SC_WETNESS, SC_PH, SC_VOLTAGE, SC_WATTSEC, SC_WATT, SC_AMPS, SC_RAINRATE, SC_CLIENT,
    SC_SCALE, SC_WEATHER, SC_HIWAT, SC_LOWAT, SC_HANDLER, SC_HARGS, SC_TAGS,
    SC_ALARMSTATUS, SC_NUMBER, SC_PERCENTAGE, SC_FLOWRATE, SC_DISTANCE, SC_VOLUME,
    SC_TIMER, SC_THMODE, SC_THSTATE, SC_SMNUMBER, SC_GROUPLIST, SC_DEVLIST, SC_COLLECTOR,
    SC_BLIND, SC_ALSEV, SC_ALTEXT, SC_ALUID, SC_TRIGGER, SC_ORP, SC_SALINITY, SC_ALCHAN,
    SC_SPAM, SC_DAYLIGHT, SC_MOONPH, SC_TRISTATE]"

text \<open>The enumerator with a given code, and the code of an enumerator.\<close>

definition enum_at :: "'e list \<Rightarrow> nat \<Rightarrow> 'e option" where
  "enum_at es n = (if n < length es then Some (es ! n) else None)"

fun enum_index :: "'e \<Rightarrow> 'e list \<Rightarrow> nat" where
  "enum_index e [] = 0"
| "enum_index e (x # xs) = (if x = e then 0 else Suc (enum_index e xs))"

definition dev_type_of :: "u8 \<Rightarrow> dev_type option" where
  "dev_type_of w = enum_at dev_types (unat w)"

definition proto_of :: "u8 \<Rightarrow> proto option" where
  "proto_of w = enum_at protos (unat w)"

definition subtype_of :: "u8 \<Rightarrow> subtype option" where
  "subtype_of w = enum_at subtypes (unat w)"

definition dev_type_code :: "dev_type \<Rightarrow> u8" where
  "dev_type_code t = of_nat (enum_index t dev_types)"

definition proto_code :: "proto \<Rightarrow> u8" where
  "proto_code p = of_nat (enum_index p protos)"

definition subtype_code :: "subtype \<Rightarrow> u8" where
  "subtype_code s = of_nat (enum_index s subtypes)"

lemma enum_at_index: "e \<in> set es \<Longrightarrow> enum_at es (enum_index e es) = Some e"
  by (induction es) (auto simp: enum_at_def split: if_splits)

lemma enum_index_less: "e \<in> set es \<Longrightarrow> enum_index e es < length es"
  by (induction es) auto

lemma dev_type_of_code [simp]: "dev_type_of (dev_type_code t) = Some t"
  by (cases t) (simp_all add: dev_type_of_def dev_type_code_def dev_types_def enum_at_def)

lemma proto_of_code [simp]: "proto_of (proto_code p) = Some p"
  by (cases p) (simp_all add: proto_of_def proto_code_def protos_def enum_at_def)

lemma subtype_of_code [simp]: "subtype_of (subtype_code s) = Some s"
  by (cases s) (simp_all add: subtype_of_def subtype_code_def subtypes_def enum_at_def)

section \<open>Sub-commands and the argument table\<close>

datatype ptype = PTDOUBLE | PTFLOAT | PTCHAR | PTINT | PTLONG | PTUINT | PTLL

type_synonym argentry = "string \<times> sc \<times> ptype"

definition argtable :: "argentry list" where
  "argtable =
    [(''uid'', SC_UID, PTCHAR), (''name'', SC_NAME, PTCHAR), (''rate'', SC_RATE, PTINT),
    (''rrdname'', SC_RRDNAME, PTCHAR), (''devt'', SC_DEVTYPE, PTINT),
    (''proto'', SC_PROTO, PTINT), (''subt'', SC_SUBTYPE, PTINT),
    (''switch'', SC_SWITCH, PTINT), (''dimmer'', SC_DIMMER, PTDOUBLE),
    (''temp'', SC_TEMP, PTDOUBLE), (''humid'', SC_HUMID, PTDOUBLE),
    (''lux'', SC_LUX, PTDOUBLE), (''pres'', SC_PRESSURE, PTDOUBLE),
    (''speed'', SC_SPEED, PTDOUBLE), (''dir'', SC_DIR, PTDOUBLE),
    (''count'', SC_COUNT, PTUINT), (''wet'', SC_WETNESS, PTDOUBLE),
    (''ph'', SC_PH, PTDOUBLE), (''wsec'', SC_WATTSEC, PTLL),
    (''volts'', SC_VOLTAGE, PTDOUBLE), (''watt'', SC_WATT, PTDOUBLE),
    (''amps'', SC_AMPS, PTDOUBLE), (''rain'', SC_RAINRATE, PTDOUBLE),
    (''client'', SC_CLIENT, PTCHAR), (''scale'', SC_SCALE, PTINT),
    (''weather'', SC_WEATHER, PTINT), (''hiwat'', SC_HIWAT, PTDOUBLE),
    (''lowat'', SC_LOWAT, PTDOUBLE), (''handler'', SC_HANDLER, PTCHAR),
    (''hargs'', SC_HARGS, PTCHAR), (''tags'', SC_TAGS, PTCHAR),
    (''flow'', SC_FLOWRATE, PTDOUBLE), (''distance'', SC_DISTANCE, PTDOUBLE),
    (''alarm'', SC_ALARMSTATUS, PTINT), (''number'', SC_NUMBER, PTLL),
    (''pct'', SC_PERCENTAGE, PTDOUBLE), (''volume'', SC_VOLUME, PTDOUBLE),
    (''timer'', SC_TIMER, PTUINT), (''thmode'', SC_THMODE, PTINT),
    (''thstate'', SC_THSTATE, PTINT), (''smnum'', SC_SMNUMBER, PTINT),
    (''glist'', SC_GROUPLIST, PTCHAR), (''dlist'', SC_DEVLIST, PTCHAR),
    (''collector'', SC_COLLECTOR, PTINT), (''blind'', SC_BLIND, PTINT),
    (''alsev'', SC_ALSEV, PTINT), (''altext'', SC_ALTEXT, PTCHAR),
    (''aluid'', SC_ALUID, PTCHAR), (''trigger'', SC_TRIGGER, PTUINT),
    (''orp'', SC_ORP, PTDOUBLE), (''salinity'', SC_SALINITY, PTDOUBLE),
    (''alchan'', SC_ALCHAN, PTUINT), (''spamhandler'', SC_SPAM, PTINT),
    (''daylight'', SC_DAYLIGHT, PTINT), (''tristate'', SC_TRISTATE, PTINT),
    (''moonph'', SC_MOONPH, PTDOUBLE)]"

section \<open>Name maps\<close>

definition devtype_map :: "(dev_type \<times> string) list" where
  "devtype_map =
    [(DEVICE_NONE, ''NONE''), (DEVICE_SWITCH, ''switch''), (DEVICE_DIMMER, ''dimmer''),
    (DEVICE_SENSOR, ''sensor''), (DEVICE_TIMER, ''timer''), (DEVICE_BLIND, ''blind'')]"

definition devproto_map :: "(proto \<times> string) list" where
  "devproto_map =
    [(PROTO_NONE, ''NONE''), (PROTO_INSTEON_V1, ''insteon-v1''),
    (PROTO_INSTEON_V2, ''insteon-v2''), (PROTO_INSTEON_V2CS, ''insteon-v2cs''),
    (PROTO_SENSOR_OWFS, ''sensor-owfs''), (PROTO_SENSOR_BRULTECH_GEM, ''brultech-gem''),
    (PROTO_SENSOR_BRULTECH_ECM1240, ''brultech-ecm1240''),
    (PROTO_SENSOR_WMR918, ''wmr918''), (PROTO_SENSOR_AD2USB, ''ad2usb''),
    (PROTO_SENSOR_ICADDY, ''icaddy''), (PROTO_SENSOR_VENSTAR, ''venstar''),
    (PROTO_CONTROL_URTSI, ''urtsi''), (PROTO_COLLECTOR, ''collector''),
    (PROTO_CAMERA_AXIS, ''axiscamera''), (PROTO_TUXEDO, ''tuxedo''),
    (PROTO_NEPTUNE_APEX, ''neptuneapex''), (PROTO_CALCULATED, ''calculated''),
    (PROTO_BALBOA, ''balboa''), (PROTO_GENERIC, ''generic''), (PROTO_UNUSED1, ''unused1''),
    (PROTO_UNUSED2, ''unused2''), (PROTO_UNUSED3, ''unused3''),
    (PROTO_UNUSED4, ''unused4''), (PROTO_UNUSED5, ''unused5''),
    (PROTO_UNUSED6, ''unused6''), (PROTO_UNUSED7, ''unused7''),
    (PROTO_UNUSED8, ''unused8''), (PROTO_UNUSED9, ''unused9''),
    (PROTO_UNUSED10, ''unused10''), (PROTO_UNUSED11, ''unused11''),
    (PROTO_UNUSED12, ''unused12''), (PROTO_UNUSED13, ''unused13''),
    (PROTO_UNUSED14, ''unused14''), (PROTO_MAINS_SWITCH, ''mains_switch''),
    (PROTO_WEATHER, ''weather''), (PROTO_SENSOR, ''sensor''),
    (PROTO_SENSOR_INDOOR, ''sensor_indoor''), (PROTO_SENSOR_OUTDOOR, ''sensor_outdoor''),
    (PROTO_SENSOR_ELEC, ''sensor_elec''), (PROTO_POWERUSE, ''poweruse''),
    (PROTO_IRRIGATION, ''irrigation''), (PROTO_ENTRY, ''entry''), (PROTO_ALARM, ''alarm''),
    (PROTO_BATTERY, ''battery''), (PROTO_CAMERA, ''camera''),
    (PROTO_AQUARIUM, ''aquarium''), (PROTO_SOLAR, ''solar''), (PROTO_POOL, ''pool''),
    (PROTO_WATERHEATER, ''waterheater''), (PROTO_LIGHT, ''light''), (PROTO_AV, ''av''),
    (PROTO_THERMOSTAT, ''thermostat''), (PROTO_SETTINGS, ''settings''),
    (PROTO_BLIND, ''blind'')]"

definition devsubtype_map :: "(subtype \<times> string) list" where
  "devsubtype_map =
    [(SUBTYPE_NONE, ''NONE''), (SUBTYPE_SWITCH, ''switch''), (SUBTYPE_OUTLET, ''outlet''),
    (SUBTYPE_TEMP, ''temp''), (SUBTYPE_HUMID, ''humid''), (SUBTYPE_COUNTER, ''counter''),
    (SUBTYPE_PRESSURE, ''pressure''), (SUBTYPE_SPEED, ''windspeed''),
    (SUBTYPE_DIR, ''winddir''), (SUBTYPE_PH, ''ph''), (SUBTYPE_WETNESS, ''wetness''),
    (SUBTYPE_HUB, ''hub''), (SUBTYPE_LUX, ''lux''), (SUBTYPE_VOLTAGE, ''voltage''),
    (SUBTYPE_WATTSEC, ''wattsec''), (SUBTYPE_WATT, ''watt''), (SUBTYPE_AMPS, ''amps''),
    (SUBTYPE_RAINRATE, ''rainrate''), (SUBTYPE_WEATHER, ''weather''),
    (SUBTYPE_ALARMSTATUS, ''alarmstatus''), (SUBTYPE_NUMBER, ''number''),
    (SUBTYPE_PERCENTAGE, ''percentage''), (SUBTYPE_FLOWRATE, ''flowrate''),
    (SUBTYPE_DISTANCE, ''distance''), (SUBTYPE_VOLUME, ''volume''),
    (SUBTYPE_TIMER, ''timer''), (SUBTYPE_THMODE, ''thmode''),
    (SUBTYPE_THSTATE, ''thstate''), (SUBTYPE_SMNUMBER, ''smnumber''),
    (SUBTYPE_BLIND, ''blind''), (SUBTYPE_COLLECTOR, ''collector''),
    (SUBTYPE_TRIGGER, ''trigger''), (SUBTYPE_ORP, ''orp''),
    (SUBTYPE_SALINITY, ''salinity''), (SUBTYPE_DAYLIGHT, ''daylight''),
    (SUBTYPE_MOONPH, ''moonph''), (SUBTYPE_TRISTATE, ''tristate''),
    (SUBTYPE_BOOL, ''bool'')]"
text \<open>\<^verbatim>\<open>init_argcomm\<close> sorts the table once at start-up; every lookup is on the sorted table.\<close>

definition arg_name :: "argentry \<Rightarrow> string" where
  "arg_name e = fst e"

definition arg_num :: "argentry \<Rightarrow> sc" where
  "arg_num e = fst (snd e)"

definition arg_type :: "argentry \<Rightarrow> ptype" where
  "arg_type e = snd (snd e)"

definition init_argcomm :: "argentry list \<Rightarrow> argentry list" where
  "init_argcomm tab = c_qsort arg_name tab"

definition find_arg_byid :: "argentry list \<Rightarrow> sc \<Rightarrow> nat option" where
  "find_arg_byid tab n =
     (let is = filter (\<lambda>i. arg_num (tab ! i) = n) [0..<length tab]
      in if is = [] then None else Some (hd is))"

text \<open>The macro \<^verbatim>\<open>ARGNM\<close>.\<close>

definition argnm :: "sc \<Rightarrow> string" where
  "argnm n =
     (case find_arg_byid (init_argcomm argtable) n of
        None \<Rightarrow> ''fail''
      | Some i \<Rightarrow> arg_name (init_argcomm argtable ! i))"

definition sc_name :: "sc \<Rightarrow> string" where
  "sc_name n = (case map_of (map (\<lambda>(s, m, t). (m, s)) argtable) n of None \<Rightarrow> ''fail'' | Some s \<Rightarrow> s)"

definition sc_type :: "sc \<Rightarrow> ptype" where
  "sc_type n = (case map_of (map (\<lambda>(s, m, t). (m, t)) argtable) n of None \<Rightarrow> PTCHAR | Some t \<Rightarrow> t)"

lemma find_arg_byid_Some:
  assumes "find_arg_byid tab n = Some i"
  shows "i < length tab" "arg_num (tab ! i) = n"
proof -
  let ?is = "filter (\<lambda>i. arg_num (tab ! i) = n) [0..<length tab]"
  from assms have "?is \<noteq> []" "hd ?is = i"
    by (auto simp add: find_arg_byid_def Let_def simp del: filter_empty_conv split: if_splits)
  then have "i \<in> set ?is" using hd_in_set by blast
  then show "i < length tab" "arg_num (tab ! i) = n" by simp_all
qed

lemma find_arg_byid_None:
  "find_arg_byid tab n = None \<longleftrightarrow> (\<forall>e \<in> set tab. arg_num e \<noteq> n)"
  using filter_upt_empty [of "\<lambda>e. arg_num e = n" tab]
  by (auto simp add: find_arg_byid_def Let_def simp del: filter_empty_conv)

lemma argtable_facts:
  "distinct (map arg_name argtable)" "distinct (map arg_num argtable)"
  by (simp_all add: argtable_def arg_name_def arg_num_def)

lemma set_init_argcomm [simp]: "set (init_argcomm tab) = set tab"
  by (simp add: init_argcomm_def c_qsort_def)

lemma find_arg_byid_sorted:
  assumes "e \<in> set argtable"
  obtains i where "find_arg_byid (init_argcomm argtable) (arg_num e) = Some i"
    and "init_argcomm argtable ! i = e"
proof -
  have "find_arg_byid (init_argcomm argtable) (arg_num e) \<noteq> None"
    using assms by (auto simp: find_arg_byid_None)
  then obtain i where i: "find_arg_byid (init_argcomm argtable) (arg_num e) = Some i" by auto
  from find_arg_byid_Some [OF this]
  have "init_argcomm argtable ! i \<in> set argtable" "arg_num (init_argcomm argtable ! i) = arg_num e"
    using set_init_argcomm nth_mem by blast+
  with assms argtable_facts(2) have "init_argcomm argtable ! i = e"
    by (metis distinct_map inj_onD)
  with i that show thesis by blast
qed

lemma sc_in_argtable: "(sc_name n, n, sc_type n) \<in> set argtable"
  by (cases n) (simp_all add: sc_name_def sc_type_def argtable_def)

lemma argnm_name [simp, code]: "argnm n = sc_name n"
  using find_arg_byid_sorted [OF sc_in_argtable [of n]]
  by (metis arg_name_def arg_num_def argnm_def fst_conv option.simps(5) snd_conv)

text \<open>The \<^verbatim>\<open>bsearch\<close> of \<^verbatim>\<open>parse_command\<close> finds the entry with the given name.\<close>

definition arg_lookup :: "string \<Rightarrow> argentry option" where
  "arg_lookup k = c_bsearch k arg_name (init_argcomm argtable)"

lemma arg_lookup_map_of [code]: "arg_lookup k = map_of (map (\<lambda>e. (arg_name e, e)) argtable) k"
  by (simp add: arg_lookup_def init_argcomm_def c_bsearch_c_qsort argtable_facts)

lemma arg_lookup_iff: "arg_lookup k = Some e \<longleftrightarrow> e \<in> set argtable \<and> arg_name e = k"
  unfolding arg_lookup_map_of by (rule map_of_keyed) (rule argtable_facts)

lemma arg_lookup_sc_name [simp]: "arg_lookup (sc_name n) = Some (sc_name n, n, sc_type n)"
  using sc_in_argtable [of n] by (simp add: arg_lookup_iff arg_name_def)

lemma arg_lookup_Some:
  assumes "arg_lookup k = Some (s, n, t)"
  shows "s = k \<and> t = sc_type n \<and> k = sc_name n"
proof -
  have e: "(s, n, t) \<in> set argtable" "s = k"
    using assms by (auto simp: arg_lookup_iff arg_name_def)
  with sc_in_argtable [of n] argtable_facts(2) have "(s, n, t) = (sc_name n, n, sc_type n)"
    by (metis arg_num_def distinct_map fst_conv inj_onD snd_conv)
  with e show ?thesis by simp
qed

lemma sc_name_simps [simp, code]:
  "sc_name SC_UID = ''uid''" "sc_name SC_NAME = ''name''" "sc_name SC_RATE = ''rate''"
  "sc_name SC_RRDNAME = ''rrdname''" "sc_name SC_DEVTYPE = ''devt''"
  "sc_name SC_PROTO = ''proto''" "sc_name SC_SUBTYPE = ''subt''"
  "sc_name SC_SWITCH = ''switch''" "sc_name SC_DIMMER = ''dimmer''"
  "sc_name SC_TEMP = ''temp''" "sc_name SC_HUMID = ''humid''" "sc_name SC_LUX = ''lux''"
  "sc_name SC_PRESSURE = ''pres''" "sc_name SC_SPEED = ''speed''" "sc_name SC_DIR = ''dir''"
  "sc_name SC_COUNT = ''count''" "sc_name SC_WETNESS = ''wet''" "sc_name SC_PH = ''ph''"
  "sc_name SC_WATTSEC = ''wsec''" "sc_name SC_VOLTAGE = ''volts''"
  "sc_name SC_WATT = ''watt''" "sc_name SC_AMPS = ''amps''" "sc_name SC_RAINRATE = ''rain''"
  "sc_name SC_CLIENT = ''client''" "sc_name SC_SCALE = ''scale''"
  "sc_name SC_WEATHER = ''weather''" "sc_name SC_HIWAT = ''hiwat''"
  "sc_name SC_LOWAT = ''lowat''" "sc_name SC_HANDLER = ''handler''"
  "sc_name SC_HARGS = ''hargs''" "sc_name SC_TAGS = ''tags''"
  "sc_name SC_FLOWRATE = ''flow''" "sc_name SC_DISTANCE = ''distance''"
  "sc_name SC_ALARMSTATUS = ''alarm''" "sc_name SC_NUMBER = ''number''"
  "sc_name SC_PERCENTAGE = ''pct''" "sc_name SC_VOLUME = ''volume''"
  "sc_name SC_TIMER = ''timer''" "sc_name SC_THMODE = ''thmode''"
  "sc_name SC_THSTATE = ''thstate''" "sc_name SC_SMNUMBER = ''smnum''"
  "sc_name SC_GROUPLIST = ''glist''" "sc_name SC_DEVLIST = ''dlist''"
  "sc_name SC_COLLECTOR = ''collector''" "sc_name SC_BLIND = ''blind''"
  "sc_name SC_ALSEV = ''alsev''" "sc_name SC_ALTEXT = ''altext''"
  "sc_name SC_ALUID = ''aluid''" "sc_name SC_TRIGGER = ''trigger''"
  "sc_name SC_ORP = ''orp''" "sc_name SC_SALINITY = ''salinity''"
  "sc_name SC_ALCHAN = ''alchan''" "sc_name SC_SPAM = ''spamhandler''"
  "sc_name SC_DAYLIGHT = ''daylight''" "sc_name SC_TRISTATE = ''tristate''"
  "sc_name SC_MOONPH = ''moonph''"
  by (simp_all add: sc_name_def argtable_def)

lemma sc_type_simps [simp, code]:
  "sc_type SC_UID = PTCHAR" "sc_type SC_NAME = PTCHAR" "sc_type SC_RATE = PTINT"
  "sc_type SC_RRDNAME = PTCHAR" "sc_type SC_DEVTYPE = PTINT" "sc_type SC_PROTO = PTINT"
  "sc_type SC_SUBTYPE = PTINT" "sc_type SC_SWITCH = PTINT" "sc_type SC_DIMMER = PTDOUBLE"
  "sc_type SC_TEMP = PTDOUBLE" "sc_type SC_HUMID = PTDOUBLE" "sc_type SC_LUX = PTDOUBLE"
  "sc_type SC_PRESSURE = PTDOUBLE" "sc_type SC_SPEED = PTDOUBLE" "sc_type SC_DIR = PTDOUBLE"
  "sc_type SC_COUNT = PTUINT" "sc_type SC_WETNESS = PTDOUBLE" "sc_type SC_PH = PTDOUBLE"
  "sc_type SC_WATTSEC = PTLL" "sc_type SC_VOLTAGE = PTDOUBLE" "sc_type SC_WATT = PTDOUBLE"
  "sc_type SC_AMPS = PTDOUBLE" "sc_type SC_RAINRATE = PTDOUBLE" "sc_type SC_CLIENT = PTCHAR"
  "sc_type SC_SCALE = PTINT" "sc_type SC_WEATHER = PTINT" "sc_type SC_HIWAT = PTDOUBLE"
  "sc_type SC_LOWAT = PTDOUBLE" "sc_type SC_HANDLER = PTCHAR" "sc_type SC_HARGS = PTCHAR"
  "sc_type SC_TAGS = PTCHAR" "sc_type SC_FLOWRATE = PTDOUBLE"
  "sc_type SC_DISTANCE = PTDOUBLE" "sc_type SC_ALARMSTATUS = PTINT"
  "sc_type SC_NUMBER = PTLL" "sc_type SC_PERCENTAGE = PTDOUBLE"
  "sc_type SC_VOLUME = PTDOUBLE" "sc_type SC_TIMER = PTUINT" "sc_type SC_THMODE = PTINT"
  "sc_type SC_THSTATE = PTINT" "sc_type SC_SMNUMBER = PTINT" "sc_type SC_GROUPLIST = PTCHAR"
  "sc_type SC_DEVLIST = PTCHAR" "sc_type SC_COLLECTOR = PTINT" "sc_type SC_BLIND = PTINT"
  "sc_type SC_ALSEV = PTINT" "sc_type SC_ALTEXT = PTCHAR" "sc_type SC_ALUID = PTCHAR"
  "sc_type SC_TRIGGER = PTUINT" "sc_type SC_ORP = PTDOUBLE" "sc_type SC_SALINITY = PTDOUBLE"
  "sc_type SC_ALCHAN = PTUINT" "sc_type SC_SPAM = PTINT" "sc_type SC_DAYLIGHT = PTINT"
  "sc_type SC_TRISTATE = PTINT" "sc_type SC_MOONPH = PTDOUBLE"
  by (simp_all add: sc_type_def argtable_def)

text \<open>Argument names are lower-case words, so they pass the tokenizers unharmed.\<close>

lemma sc_name_chars: "c \<in> set (sc_name n) \<Longrightarrow> is_lower c"
  by (cases n) (auto simp: is_lower_def)

lemma sc_name_nonempty [simp]: "sc_name n \<noteq> []"
  by (cases n) simp_all

end
