(* ===== verification/Dbl.thy ===== *)
theory Dbl
  imports CString
begin

text \<open>
  C's \<^verbatim>\<open>double\<close> as IEEE 754 binary64 bit patterns: comparison, the four operations the scale
  conversions use (rounded to nearest, ties to even), \<^verbatim>\<open>strtod\<close>, \<^verbatim>\<open>printf("%f")\<close>,
  \<^verbatim>\<open>lrint\<close>/\<^verbatim>\<open>llrint\<close> and conversion from integers. Every finite double is an integer
  multiple of 2^-1074, so exact values are integers or fractions of integers and everything
  here computes. Out of range and NaN results of \<^verbatim>\<open>lrint\<close> and the sign of a default NaN are
  those of x86-64; the payload of \<^verbatim>\<open>nan(...)\<close> input is not modelled.
\<close>

type_synonym dbl = u64

section \<open>Bit patterns\<close>

definition dbl_neg :: "dbl \<Rightarrow> bool" where
  "dbl_neg x = bit x 63"

definition dbl_exp :: "dbl \<Rightarrow> nat" where
  "dbl_exp x = unat x div 2 ^ 52 mod 2 ^ 11"

definition dbl_frac :: "dbl \<Rightarrow> nat" where
  "dbl_frac x = unat x mod 2 ^ 52"

definition dbl_is_nan :: "dbl \<Rightarrow> bool" where
  "dbl_is_nan x \<longleftrightarrow> dbl_exp x = 2047 \<and> dbl_frac x \<noteq> 0"

definition dbl_is_inf :: "dbl \<Rightarrow> bool" where
  "dbl_is_inf x \<longleftrightarrow> dbl_exp x = 2047 \<and> dbl_frac x = 0"

text \<open>The significand and the number of doublings it takes from units of 2^-1074.\<close>

definition dbl_mant :: "dbl \<Rightarrow> nat" where
  "dbl_mant x = (if dbl_exp x = 0 then dbl_frac x else 2 ^ 52 + dbl_frac x)"

definition dbl_shift :: "dbl \<Rightarrow> nat" where
  "dbl_shift x = dbl_exp x - 1"

text \<open>The value in units of 2^-1074; an infinity lies beyond every finite value.\<close>

definition dbl_units :: "dbl \<Rightarrow> int" where
  "dbl_units x = (if dbl_neg x then -1 else 1) * (int (dbl_mant x) * 2 ^ dbl_shift x)"

definition dbl_lt :: "dbl \<Rightarrow> dbl \<Rightarrow> bool" where
  "dbl_lt a b \<longleftrightarrow> \<not> dbl_is_nan a \<and> \<not> dbl_is_nan b \<and> dbl_units a < dbl_units b"

definition dbl_eq :: "dbl \<Rightarrow> dbl \<Rightarrow> bool" where
  "dbl_eq a b \<longleftrightarrow> \<not> dbl_is_nan a \<and> \<not> dbl_is_nan b \<and> dbl_units a = dbl_units b"

lemma dbl_lt_irrefl: "\<not> dbl_lt a a"
  by (simp add: dbl_lt_def)

lemma dbl_lt_trans: "dbl_lt a b \<Longrightarrow> dbl_lt b c \<Longrightarrow> dbl_lt a c"
  by (simp add: dbl_lt_def)

lemma dbl_total:
  "\<not> dbl_is_nan a \<Longrightarrow> \<not> dbl_is_nan b \<Longrightarrow> dbl_lt a b \<or> dbl_eq a b \<or> dbl_lt b a"
  by (auto simp: dbl_lt_def dbl_eq_def)

section \<open>Rounding\<close>

fun nbits :: "nat \<Rightarrow> nat" where
  "nbits n = (if n = 0 then 0 else Suc (nbits (n div 2)))"

declare nbits.simps [simp del]

definition half_even :: "nat \<Rightarrow> nat \<Rightarrow> nat" where
  "half_even n d =
     (let q = n div d; r = n mod d
      in if d < 2 * r \<or> (2 * r = d \<and> odd q) then q + 1 else q)"

text \<open>The fraction n / (d * 2^x).\<close>

definition scale_frac :: "int \<Rightarrow> nat \<Rightarrow> nat \<Rightarrow> nat \<times> nat" where
  "scale_frac x n d = (if 0 \<le> x then (n, d * 2 ^ nat x) else (n * 2 ^ nat (- x), d))"

text \<open>
  The magnitude bits of n / d: the exponent x of the unit in the last place is the least one
  (not below -1074) that brings the quotient under 2^53; a carry of the rounding and the step
  from subnormal to normal come out right by adding; too large values become infinity.
\<close>

definition dbl_ulp :: "nat \<Rightarrow> nat \<Rightarrow> int" where
  "dbl_ulp n d =
     (let x0 = max (- 1074) (int (nbits n) - int (nbits d) - 53);
          (a, b) = scale_frac x0 n d
      in if 2 ^ 53 \<le> a div b then x0 + 1 else x0)"

definition dbl_mag :: "nat \<Rightarrow> nat \<Rightarrow> nat" where
  "dbl_mag n d =
     (if n = 0 then 0
      else let x = dbl_ulp n d; (a, b) = scale_frac x n d
           in min (2047 * 2 ^ 52) (nat (x + 1074) * 2 ^ 52 + half_even a b))"

definition dbl_pack :: "bool \<Rightarrow> nat \<Rightarrow> dbl" where
  "dbl_pack neg m = of_nat (m + (if neg then 2 ^ 63 else 0))"

definition dbl_inf :: "bool \<Rightarrow> dbl" where
  "dbl_inf neg = dbl_pack neg (2047 * 2 ^ 52)"

text \<open>The exact magnitude of a finite double as a fraction.\<close>

definition dbl_ratio :: "dbl \<Rightarrow> nat \<times> nat" where
  "dbl_ratio x =
     (if 1074 \<le> dbl_shift x then (dbl_mant x * 2 ^ (dbl_shift x - 1074), 1)
      else (dbl_mant x, 2 ^ (1074 - dbl_shift x)))"

section \<open>Arithmetic\<close>

definition dbl_quiet :: "dbl \<Rightarrow> dbl" where
  "dbl_quiet x = x OR 0x8000000000000"

definition dbl_default_nan :: dbl where
  "dbl_default_nan = 0xFFF8000000000000"

definition dbl_is_zero :: "dbl \<Rightarrow> bool" where
  "dbl_is_zero x \<longleftrightarrow> dbl_exp x = 0 \<and> dbl_frac x = 0"

definition dbl_mul :: "dbl \<Rightarrow> dbl \<Rightarrow> dbl" where
  "dbl_mul a b =
     (let neg = (dbl_neg a \<noteq> dbl_neg b); (n1, d1) = dbl_ratio a; (n2, d2) = dbl_ratio b
      in if dbl_is_nan a then dbl_quiet a
         else if dbl_is_nan b then dbl_quiet b
         else if dbl_is_inf a \<or> dbl_is_inf b
           then (if dbl_is_zero a \<or> dbl_is_zero b then dbl_default_nan else dbl_inf neg)
         else dbl_pack neg (dbl_mag (n1 * n2) (d1 * d2)))"

definition dbl_div :: "dbl \<Rightarrow> dbl \<Rightarrow> dbl" where
  "dbl_div a b =
     (let neg = (dbl_neg a \<noteq> dbl_neg b); (n1, d1) = dbl_ratio a; (n2, d2) = dbl_ratio b
      in if dbl_is_nan a then dbl_quiet a
         else if dbl_is_nan b then dbl_quiet b
         else if dbl_is_inf a then (if dbl_is_inf b then dbl_default_nan else dbl_inf neg)
         else if dbl_is_inf b then dbl_pack neg 0
         else if dbl_is_zero b
           then (if dbl_is_zero a then dbl_default_nan else dbl_inf neg)
         else dbl_pack neg (dbl_mag (n1 * d2) (d1 * n2)))"

definition dbl_add :: "dbl \<Rightarrow> dbl \<Rightarrow> dbl" where
  "dbl_add a b =
     (let (n1, d1) = dbl_ratio a; (n2, d2) = dbl_ratio b;
          s1 = (if dbl_neg a then - int (n1 * d2) else int (n1 * d2));
          s2 = (if dbl_neg b then - int (n2 * d1) else int (n2 * d1));
          s = s1 + s2
      in if dbl_is_nan a then dbl_quiet a
         else if dbl_is_nan b then dbl_quiet b
         else if dbl_is_inf a
           then (if dbl_is_inf b \<and> dbl_neg a \<noteq> dbl_neg b then dbl_default_nan else a)
         else if dbl_is_inf b then b
         else if s = 0 then dbl_pack (dbl_neg a \<and> dbl_neg b) 0
         else dbl_pack (s < 0) (dbl_mag (nat \<bar>s\<bar>) (d1 * d2)))"

definition dbl_flip :: "dbl \<Rightarrow> dbl" where
  "dbl_flip x = x XOR 0x8000000000000000"

definition dbl_sub :: "dbl \<Rightarrow> dbl \<Rightarrow> dbl" where
  "dbl_sub a b = (if dbl_is_nan b \<and> \<not> dbl_is_nan a then dbl_quiet b else dbl_add a (dbl_flip b))"

text \<open>The double nearest to n / d, as a decimal literal of the sources denotes it.\<close>

definition dbl_lit :: "nat \<Rightarrow> nat \<Rightarrow> dbl" where
  "dbl_lit n d = dbl_pack False (dbl_mag n d)"

definition dbl_of_int :: "int \<Rightarrow> dbl" where
  "dbl_of_int i = dbl_pack (i < 0) (dbl_mag (nat \<bar>i\<bar>) 1)"

text \<open>\<^verbatim>\<open>lrint\<close> and \<^verbatim>\<open>llrint\<close>: to nearest, ties to even; the x86-64 integer indefinite otherwise.\<close>

definition dbl_lrint :: "dbl \<Rightarrow> u64" where
  "dbl_lrint x =
     (let (n, d) = dbl_ratio x; m = half_even n d; i = (if dbl_neg x then - int m else int m)
      in if dbl_exp x = 2047 \<or> i < - (2 ^ 63) \<or> 2 ^ 63 \<le> i then 0x8000000000000000
         else word_of_int i)"

text \<open>Zero, the most common double here, is evaluated without powers of two.\<close>

lemma dbl_lrint_code [code]:
  "dbl_lrint x =
     (if x = 0 then 0
      else let (n, d) = dbl_ratio x; m = half_even n d; i = (if dbl_neg x then - int m else int m)
           in if dbl_exp x = 2047 \<or> i < - (2 ^ 63) \<or> 2 ^ 63 \<le> i then 0x8000000000000000
              else word_of_int i)"
  by (simp add: dbl_lrint_def dbl_ratio_def dbl_shift_def dbl_exp_def dbl_mant_def dbl_frac_def
      half_even_def dbl_neg_def)

section \<open>printf with \<^verbatim>\<open>%f\<close>\<close>

definition pad_zeros :: "nat \<Rightarrow> string \<Rightarrow> string" where
  "pad_zeros k s = replicate (k - length s) (CHR ''0'') @ s"

definition fmt_f :: "dbl \<Rightarrow> string" where
  "fmt_f x =
     (let sgn = (if dbl_neg x then ''-'' else ''''); (n, d) = dbl_ratio x;
          u = half_even (n * 10 ^ 6) d
      in if dbl_is_nan x then sgn @ ''nan''
         else if dbl_is_inf x then sgn @ ''inf''
         else sgn @ nat_dec (u div 10 ^ 6) @ ''.'' @ pad_zeros 6 (nat_dec (u mod 10 ^ 6)))"

section \<open>strtod\<close>

definition digit_of :: "nat \<Rightarrow> char \<Rightarrow> nat option" where
  "digit_of base c =
     (if is_digit c then Some (chr_code c - 48)
      else if base = 16 \<and> 97 \<le> chr_code (c_tolower c) \<and> chr_code (c_tolower c) \<le> 102
        then Some (chr_code (c_tolower c) - 87)
      else None)"

text \<open>Accumulate digits: the value, how many there were, the rest.\<close>

fun scan_digits :: "nat \<Rightarrow> nat \<Rightarrow> nat \<Rightarrow> string \<Rightarrow> nat \<times> nat \<times> string" where
  "scan_digits base a k [] = (a, k, [])"
| "scan_digits base a k (c # s) =
     (case digit_of base c of
        Some v \<Rightarrow> scan_digits base (base * a + v) (Suc k) s
      | None \<Rightarrow> (a, k, c # s))"

definition scan_exponent :: "char \<Rightarrow> string \<Rightarrow> int" where
  "scan_exponent mark s =
     (case s of
        c # t \<Rightarrow>
          if c_tolower c = mark
          then let (neg, u) = scan_sign t; (e, k, _) = scan_digits 10 0 0 u
               in (if k = 0 then 0 else if neg then - int e else int e)
          else 0
      | [] \<Rightarrow> 0)"

definition frac_pow :: "nat \<Rightarrow> nat \<Rightarrow> int \<Rightarrow> nat \<times> nat" where
  "frac_pow b n e = (if 0 \<le> e then (n * b ^ nat e, 1) else (n, b ^ nat (- e)))"

definition strtod_base :: "nat \<Rightarrow> char \<Rightarrow> nat \<Rightarrow> nat \<Rightarrow> string \<Rightarrow> (nat \<times> nat) option" where
  "strtod_base base mark pbase per s =
     (let (a, k, r) = scan_digits base 0 0 s;
          (b, j, r') = (case r of c # t \<Rightarrow> if c = CHR ''.'' then scan_digits base a 0 t else (a, 0, r)
                                | [] \<Rightarrow> (a, 0, r))
      in if k + j = 0 then None
         else Some (frac_pow pbase b (scan_exponent mark r' - int (per * j))))"

fun is_prefix_ci :: "string \<Rightarrow> string \<Rightarrow> bool" where
  "is_prefix_ci [] s = True"
| "is_prefix_ci (c # p) [] = False"
| "is_prefix_ci (c # p) (d # s) = (c = c_tolower d \<and> is_prefix_ci p s)"

definition c_strtod :: "string \<Rightarrow> dbl" where
  "c_strtod s =
     (let (neg, t) = scan_sign (dropWhile is_space s)
      in if is_prefix_ci ''inf'' t then dbl_inf neg
         else if is_prefix_ci ''nan'' t then dbl_pack neg 0x7FF8000000000000
         else
           (let hex = (if is_prefix_ci ''0x'' t
                       then strtod_base 16 (CHR ''p'') 2 4 (drop 2 t) else None)
            in case (case hex of Some f \<Rightarrow> Some f | None \<Rightarrow> strtod_base 10 (CHR ''e'') 10 1 t) of
                 Some (n, d) \<Rightarrow> dbl_pack neg (dbl_mag n d)
               | None \<Rightarrow> 0))"

section \<open>Exactly representable values\<close>

lemma nbits_pos: "n \<noteq> 0 \<Longrightarrow> 0 < nbits n"
  by (subst nbits.simps) simp

lemma nbits_bounds: "n < 2 ^ nbits n \<and> (n \<noteq> 0 \<longrightarrow> 2 ^ (nbits n - 1) \<le> n)"
proof (induction n rule: nbits.induct)
  case (1 n)
  show ?case
  proof (cases "n = 0")
    case True
    then show ?thesis by (simp add: nbits.simps)
  next
    case False
    with 1 have IH: "n div 2 < 2 ^ nbits (n div 2)" "n div 2 \<noteq> 0 \<longrightarrow> 2 ^ (nbits (n div 2) - 1) \<le> n div 2"
      by auto
    have up: "n < 2 ^ Suc (nbits (n div 2))" using IH(1) by simp
    have lo: "2 ^ nbits (n div 2) \<le> n"
    proof (cases "n div 2 = 0")
      case True
      with False show ?thesis by (simp add: nbits.simps)
    next
      case nz: False
      with IH(2) have "2 * 2 ^ (nbits (n div 2) - 1) \<le> n" by auto
      with nbits_pos [OF nz] show ?thesis by (cases "nbits (n div 2)") auto
    qed
    from False up lo show ?thesis by (simp add: nbits.simps [of n])
  qed
qed

lemma nbits_unique:
  assumes "2 ^ k \<le> n" and "n < 2 ^ Suc k"
  shows "nbits n = Suc k"
proof -
  have n: "n \<noteq> 0" using assms(1) by (metis not_less_zero le_zero_eq power_not_zero zero_neq_numeral)
  then have b: "n < 2 ^ nbits n" "2 ^ (nbits n - 1) \<le> n" using nbits_bounds by auto
  have "(2::nat) ^ k < 2 ^ nbits n" using assms(1) b(1) by linarith
  then have "k < nbits n" by simp
  moreover have "(2::nat) ^ (nbits n - 1) < 2 ^ Suc k" using assms(2) b(2) by linarith
  then have "nbits n - 1 < Suc k" by (rule power_less_imp_less_exp [rotated]) simp
  ultimately show ?thesis by linarith
qed

lemma nbits_shift:
  assumes "n \<noteq> 0"
  shows "nbits (n * 2 ^ k) = nbits n + k"
proof -
  obtain j where j: "nbits n = Suc j" using nbits_pos [OF assms] by (cases "nbits n") auto
  with nbits_bounds [of n] assms have "2 ^ j \<le> n" "n < 2 ^ Suc j" by auto
  then have "2 ^ (j + k) \<le> n * 2 ^ k" "n * 2 ^ k < 2 ^ Suc (j + k)"
    by (simp_all add: power_add)
  then have "nbits (n * 2 ^ k) = Suc (j + k)" by (rule nbits_unique)
  with j show ?thesis by simp
qed

lemma nbits_pow2: "nbits (2 ^ k) = Suc k"
  by (rule nbits_unique) simp_all

text \<open>Scaling a power-of-two fraction down to a unit it is a multiple of leaves no remainder.\<close>

lemma scale_frac_exact:
  assumes "x + int b \<le> int a" and "scale_frac x (m * 2 ^ a) (2 ^ b) = (A, B)"
  shows "A div B = m * 2 ^ nat (int a - int b - x)" and "A mod B = 0" and "0 < B"
proof -
  have "A = m * 2 ^ nat (int a - int b - x) * B \<and> 0 < B"
  proof (cases "0 \<le> x")
    case True
    with assms have "nat (int a - int b - x) + (b + nat x) = a" by linarith
    with True assms(2) show ?thesis
      by (auto simp: scale_frac_def simp flip: power_add)
  next
    case False
    with assms(1) have "nat (int a - int b - x) + b = a + nat (- x)" by linarith
    with False assms(2) show ?thesis
      by (auto simp: scale_frac_def simp flip: power_add)
  qed
  then show "A div B = m * 2 ^ nat (int a - int b - x)" "A mod B = 0" "0 < B" by auto
qed

lemma half_even_exact: "n mod d = 0 \<Longrightarrow> 0 < d \<Longrightarrow> half_even n d = n div d"
  by (simp add: half_even_def Let_def)

text \<open>
  A significand m that fits, in its canonical position (E the exponent of its last bit: either
  the smallest, or m has all 53 bits), is rounded to itself.
\<close>

lemma dbl_mag_exact:
  assumes m: "m \<noteq> 0" "m < 2 ^ 53"
    and E: "E = int a - int b" "- 1074 \<le> E" "E = - 1074 \<or> 2 ^ 52 \<le> m"
  shows "dbl_mag (m * 2 ^ a) (2 ^ b) = min (2047 * 2 ^ 52) (nat (E + 1074) * 2 ^ 52 + m)"
proof -
  have lenM: "nbits m \<le> 53"
  proof (rule ccontr)
    assume "\<not> nbits m \<le> 53"
    then have "2 ^ 53 \<le> (2::nat) ^ (nbits m - 1)" by (intro power_increasing) auto
    with nbits_bounds [of m] m show False by auto
  qed
  let ?k = "int (nbits (m * 2 ^ a)) - int (nbits (2 ^ b))"
  have k: "?k = int (nbits m) + E - 1" using m(1) E(1) by (simp add: nbits_shift nbits_pow2)
  define x0 where "x0 = max (- 1074) (?k - 53)"
  have x0: "x0 \<le> E" using E(2) k lenM by (simp add: x0_def)
  obtain A B where AB: "scale_frac x0 (m * 2 ^ a) (2 ^ b) = (A, B)" by fastforce
  from scale_frac_exact [OF _ AB] x0 E(1) have q: "A div B = m * 2 ^ nat (E - x0)" by simp
  have ulp: "dbl_ulp (m * 2 ^ a) (2 ^ b) = E"
  proof (cases "E = - 1074")
    case True
    then have "x0 = E" using x0 by (simp add: x0_def)
    with q m(2) AB show ?thesis by (simp add: dbl_ulp_def Let_def flip: x0_def)
  next
    case False
    with E(3) have big: "2 ^ 52 \<le> m" by simp
    with m(2) have "nbits m = Suc 52" by (intro nbits_unique) auto
    then have "x0 = E - 1" using k False E(2) by (simp add: x0_def)
    with q big AB show ?thesis by (simp add: dbl_ulp_def Let_def flip: x0_def)
  qed
  obtain C D where CD: "scale_frac E (m * 2 ^ a) (2 ^ b) = (C, D)" by fastforce
  from scale_frac_exact [OF _ CD] E(1) have "C div D = m" "C mod D = 0" "0 < D" by simp_all
  then show ?thesis using m(1) CD by (simp add: dbl_mag_def ulp Let_def half_even_exact)
qed

lemma dbl_frac_less: "dbl_frac x < 2 ^ 52"
  by (simp add: dbl_frac_def)

lemma dbl_exp_less: "dbl_exp x < 2 ^ 11"
  by (simp add: dbl_exp_def)

lemma unat_u64_less: "unat (x :: u64) < 2 ^ 64"
  using unsigned_less [of x] by simp

lemma u64_top: "unat (x :: u64) div 2 ^ 63 < 2"
  using unat_u64_less [of x] by (simp add: less_mult_imp_div_less)

lemma dbl_neg_top: "unat x div 2 ^ 63 = (if dbl_neg x then 1 else 0)"
proof -
  have "dbl_neg x \<longleftrightarrow> bit (unat x) 63" by (simp add: dbl_neg_def bit_unsigned_iff)
  also have "\<dots> \<longleftrightarrow> odd (unat x div 2 ^ 63)" by (rule bit_iff_odd)
  finally show ?thesis using u64_top [of x] by (auto simp: less_2_cases_iff)
qed

lemma dbl_split: "unat x = (if dbl_neg x then 2 ^ 63 else 0) + dbl_exp x * 2 ^ 52 + dbl_frac x"
proof -
  have "unat x div 2 ^ 52 = unat x div 2 ^ 52 div 2 ^ 11 * 2 ^ 11 + unat x div 2 ^ 52 mod 2 ^ 11"
    by (simp only: div_mult_mod_eq)
  moreover have "unat x div 2 ^ 52 div 2 ^ 11 = unat x div 2 ^ 63"
    by (simp flip: div_mult2_eq)
  ultimately have "unat x = (unat x div 2 ^ 63 * 2 ^ 11 + dbl_exp x) * 2 ^ 52 + dbl_frac x"
    unfolding dbl_exp_def dbl_frac_def by (metis div_mult_mod_eq)
  then show ?thesis unfolding dbl_neg_top by (auto split: if_splits)
qed

lemma dbl_pack_parts:
  "dbl_pack (dbl_neg x) (dbl_exp x * 2 ^ 52 + dbl_frac x) = x"
proof -
  have "of_nat (unat x) = x" by simp
  then show ?thesis unfolding dbl_pack_def by (subst (asm) dbl_split) (simp add: ac_simps)
qed

text \<open>Rounding the exact value of a finite double gives the same double back.\<close>

theorem dbl_round_exact:
  assumes "dbl_exp x \<noteq> 2047"
  shows "dbl_pack (dbl_neg x) (case dbl_ratio x of (n, d) \<Rightarrow> dbl_mag n d) = x"
proof (cases "dbl_mant x = 0")
  case True
  then have "dbl_exp x = 0" "dbl_frac x = 0" by (auto simp: dbl_mant_def split: if_splits)
  with True dbl_pack_parts [of x] show ?thesis by (simp add: dbl_ratio_def dbl_mag_def)
next
  case False
  define a where "a = dbl_shift x - 1074"
  define b where "b = 1074 - dbl_shift x"
  define E where "E = int a - int b"
  have E: "E = int (dbl_shift x) - 1074" by (simp add: E_def a_def b_def)
  have ratio: "dbl_ratio x = (dbl_mant x * 2 ^ a, 2 ^ b)"
    by (simp add: dbl_ratio_def a_def b_def)
  have m: "dbl_mant x < 2 ^ 53" using dbl_frac_less [of x] by (simp add: dbl_mant_def)
  have "E = - 1074 \<or> 2 ^ 52 \<le> dbl_mant x"
    by (simp add: E dbl_shift_def dbl_mant_def)
  then have "dbl_mag (dbl_mant x * 2 ^ a) (2 ^ b)
      = min (2047 * 2 ^ 52) (nat (E + 1074) * 2 ^ 52 + dbl_mant x)"
    by (intro dbl_mag_exact [OF False m E_def]) (simp_all add: E)
  also have "nat (E + 1074) * 2 ^ 52 + dbl_mant x = dbl_exp x * 2 ^ 52 + dbl_frac x"
    by (cases "dbl_exp x") (simp_all add: E dbl_shift_def dbl_mant_def)
  also have "dbl_exp x \<le> 2046" using assms dbl_exp_less [of x] by simp
  then have "dbl_exp x * 2 ^ 52 + dbl_frac x \<le> 2047 * 2 ^ 52"
    using dbl_frac_less [of x] by simp
  then have "min (2047 * 2 ^ 52) (dbl_exp x * 2 ^ 52 + dbl_frac x) = dbl_exp x * 2 ^ 52 + dbl_frac x"
    by simp
  finally show ?thesis using dbl_pack_parts [of x] by (simp add: ratio)
qed

end
