(* ===== verification/Structs.thy ===== *)
theory Structs
  imports Gnhast Dbl
begin

text \<open>
  The structures of \<^verbatim>\<open>common/gnhast.h\<close>: devices, device groups, clients, feeds, alarms. A
  pointer is a number; an optional C string is \<open>None\<close> for NULL. \<^verbatim>\<open>char **\<close> arrays
  (\<^verbatim>\<open>hargs\<close>, \<^verbatim>\<open>tags\<close>) keep what the allocator knows about them, so that a second
  \<^verbatim>\<open>free\<close>, or the \<^verbatim>\<open>free\<close> of a string literal, is visible.
\<close>

type_synonym dptr = nat
type_synonym cptr = nat
type_synonym gptr = nat

section \<open>String arrays\<close>

datatype cell =
    Heap string   \<comment> \<open>a string from \<^verbatim>\<open>strdup\<close>\<close>
  | Lit string    \<comment> \<open>a string literal\<close>
  | NullStr       \<comment> \<open>NULL\<close>
  | FreedStr      \<comment> \<open>a dangling pointer\<close>

datatype strarr =
    NullArr
  | FreedArr
  | Arr "cell list"

text \<open>Reading a string through a pointer.\<close>

fun cell_str :: "cell \<Rightarrow> string res" where
  "cell_str (Heap s) = Inr s"
| "cell_str (Lit s) = Inr s"
| "cell_str NullStr = Inl NullDeref"
| "cell_str FreedStr = Inl UseAfterFree"

text \<open>\<^verbatim>\<open>printf("%s")\<close> prints NULL as \<open>(null)\<close> with the GNU C library.\<close>

definition null_text :: string where
  "null_text = ''(null)''"

fun cell_fmt :: "cell \<Rightarrow> string res" where
  "cell_fmt NullStr = Inr null_text"
| "cell_fmt (Heap s) = Inr s"
| "cell_fmt (Lit s) = Inr s"
| "cell_fmt FreedStr = Inl UseAfterFree"

definition opt_fmt :: "string option \<Rightarrow> string" where
  "opt_fmt s = (case s of None \<Rightarrow> null_text | Some t \<Rightarrow> t)"

text \<open>\<^verbatim>\<open>free\<close> of one string, and of an array of pointers.\<close>

fun free_cell :: "cell \<Rightarrow> unit res" where
  "free_cell (Heap s) = Inr ()"
| "free_cell (Lit s) = Inl BadFree"
| "free_cell NullStr = Inr ()"
| "free_cell FreedStr = Inl DoubleFree"

fun free_arr :: "strarr \<Rightarrow> unit res" where
  "free_arr NullArr = Inr ()"
| "free_arr FreedArr = Inl DoubleFree"
| "free_arr (Arr cs) = Inr ()"

text \<open>Element \<open>i\<close> of an array.\<close>

fun arr_nth :: "strarr \<Rightarrow> nat \<Rightarrow> cell res" where
  "arr_nth NullArr i = Inl NullDeref"
| "arr_nth FreedArr i = Inl UseAfterFree"
| "arr_nth (Arr cs) i = (if i < length cs then Inr (cs ! i) else Inl OutOfBounds)"

text \<open>\<^verbatim>\<open>for (j = 0; j < n; j++) free(a[j]);\<close>\<close>

definition free_cells :: "strarr \<Rightarrow> nat \<Rightarrow> unit res" where
  "free_cells a n = foldE (\<lambda>j _. bindE (arr_nth a j) free_cell) [0..<n] ()"

text \<open>The first \<open>n\<close> elements, read as strings or printed.\<close>

definition arr_strs :: "(cell \<Rightarrow> string res) \<Rightarrow> strarr \<Rightarrow> nat \<Rightarrow> string list res" where
  "arr_strs rd a n =
     foldE (\<lambda>j acc. bindE (arr_nth a j) (\<lambda>c. bindE (rd c) (\<lambda>s. Inr (acc @ [s])))) [0..<n] []"

lemma foldE_nth_heap:
  assumes "\<And>j acc. j < length xs \<Longrightarrow> f j acc = Inr (g (xs ! j) acc)"
  shows "foldE f [0..<length xs] s = Inr (fold g xs s)"
  using assms
proof (induction xs arbitrary: f s rule: rev_induct)
  case Nil
  then show ?case by simp
next
  case (snoc x xs)
  have "foldE f [0..<length xs] s = Inr (fold g xs s)"
    by (rule snoc.IH) (use snoc.prems in \<open>auto simp: nth_append\<close>)
  then show ?case using snoc.prems [of "length xs"] by (simp add: foldE_append)
qed

lemma fold_snoc_map: "fold (\<lambda>c acc. acc @ [h c]) xs acc = acc @ map h xs"
  by (induction xs arbitrary: acc) simp_all

lemma arr_strs_heap [simp]:
  assumes "n = length ss" and "rd = cell_str \<or> rd = cell_fmt"
  shows "arr_strs rd (Arr (map Heap ss)) n = Inr ss"
proof -
  have "arr_strs rd (Arr (map Heap ss)) (length ss) = Inr (fold (\<lambda>c acc. acc @ [id c]) ss [])"
    unfolding arr_strs_def by (rule foldE_nth_heap) (use assms(2) in auto)
  then show ?thesis by (simp add: assms(1) fold_snoc_map)
qed

lemma free_cells_heap [simp]:
  assumes "n = length ss"
  shows "free_cells (Arr (map Heap ss)) n = Inr ()"
proof -
  have "free_cells (Arr (map Heap ss)) (length ss) = Inr (fold (\<lambda>c acc. ()) ss ())"
    unfolding free_cells_def by (rule foldE_nth_heap) auto
  then show ?thesis by (simp add: assms)
qed

lemma free_cells_0 [simp]: "free_cells a 0 = Inr ()"
  by (simp add: free_cells_def)

lemma arr_strs_0 [simp]: "arr_strs rd a 0 = Inr []"
  by (simp add: arr_strs_def)

text \<open>The arrays that the parsers build: every element came from \<^verbatim>\<open>strdup\<close>.\<close>

definition arr_ok :: "strarr \<Rightarrow> nat \<Rightarrow> bool" where
  "arr_ok a n \<longleftrightarrow> (a = NullArr \<and> n = 0) \<or> (\<exists>ss. a = Arr (map Heap ss) \<and> n = length ss)"

lemma arr_okI [intro]: "n = length ss \<Longrightarrow> arr_ok (Arr (map Heap ss)) n"
  by (auto simp: arr_ok_def)

lemma arr_ok_free: "arr_ok a n \<Longrightarrow> free_cells a n = Inr () \<and> free_arr a = Inr ()"
  by (auto simp: arr_ok_def)

section \<open>Structures\<close>

record device =
  d_uid :: string
  d_loc :: "string option"
  d_name :: "string option"
  d_rrdname :: "string option"
  d_proto :: u8
  d_type :: u8
  d_subtype :: u8
  d_scale :: u8
  d_data :: u64
  d_last :: u64
  d_lowat :: u64
  d_hiwat :: u64
  d_change :: u64
  d_collector :: "cptr option"
  d_handler :: "string option"
  d_hargs :: strarr
  d_nrofhargs :: nat
  d_tags :: strarr
  d_nroftags :: nat
  d_localdata :: "string option"
  d_last_upd :: int
  d_onq_client :: bool
  d_onq_all :: bool
  d_flags :: u32
  d_watchers :: "cptr list"

text \<open>What \<^verbatim>\<open>smalloc(device_t)\<close> followed by \<^verbatim>\<open>dev->uid = uid\<close> gives: everything else zero.\<close>

definition new_device :: "string \<Rightarrow> device" where
  "new_device uid =
     \<lparr>d_uid = uid, d_loc = None, d_name = None, d_rrdname = None, d_proto = 0, d_type = 0,
      d_subtype = 0, d_scale = 0, d_data = 0, d_last = 0, d_lowat = 0, d_hiwat = 0,
      d_change = 0, d_collector = None, d_handler = None, d_hargs = NullArr, d_nrofhargs = 0,
      d_tags = NullArr, d_nroftags = 0, d_localdata = None, d_last_upd = 0,
      d_onq_client = False, d_onq_all = False, d_flags = 0, d_watchers = []\<rparr>"

text \<open>A \<^verbatim>\<open>wrap_device_t\<close> on a client's feed list; \<^verbatim>\<open>int\<close> values are mathematical integers.\<close>

record feed =
  f_dev :: dptr
  f_rate :: int
  f_scale :: int
  f_last_fired :: int

record client =
  c_provider :: bool
  c_pid :: int
  c_devices :: "dptr list"
  c_wdevices :: "feed list"
  c_tev :: bool
  c_timer_gcd :: int
  c_close_on_empty :: bool
  c_name :: "string option"
  c_addr :: "string option"
  c_host :: "string option"
  c_port :: nat
  c_updates :: u32
  c_feeds :: u32
  c_watched :: u32
  c_sentdata :: u32
  c_lastupd :: int
  c_alarmwatch :: int
  c_alchan :: u32
  c_coll_dev :: "dptr option"
  c_in :: "string list"   \<comment> \<open>complete lines waiting in the input buffer of the bufferevent\<close>
  c_out :: string         \<comment> \<open>the bytes in its output buffer\<close>

definition new_client :: client where
  "new_client =
     \<lparr>c_provider = False, c_pid = 0, c_devices = [], c_wdevices = [], c_tev = False,
      c_timer_gcd = 0, c_close_on_empty = False, c_name = None, c_addr = None, c_host = None,
      c_port = 0, c_updates = 0, c_feeds = 0, c_watched = 0, c_sentdata = 0, c_lastupd = 0,
      c_alarmwatch = 0, c_alchan = 0, c_coll_dev = None, c_in = [], c_out = []\<rparr>"

text \<open>A group; its members and children are the wrapped devices and groups in list order.\<close>

record group =
  g_uid :: string
  g_name :: "string option"
  g_subgroup :: int
  g_members :: "dptr list"
  g_children :: "gptr list"

definition new_group :: "string \<Rightarrow> group" where
  "new_group uid = \<lparr>g_uid = uid, g_name = None, g_subgroup = 0, g_members = [], g_children = []\<rparr>"

record alarm =
  al_uid :: string
  al_text :: "string option"
  al_sev :: int
  al_chan :: u32

section \<open>Flags\<close>

text \<open>The macros \<^verbatim>\<open>SET_FLAG\<close>, \<^verbatim>\<open>CLEAR_FLAG\<close>, \<^verbatim>\<open>QUERY_FLAG\<close> and \<^verbatim>\<open>CHECK_MASK\<close>.\<close>

definition SET_FLAG :: "u32 \<Rightarrow> nat \<Rightarrow> u32" where
  "SET_FLAG x p = x OR push_bit (p mod 32) 1"

definition CLEAR_FLAG :: "u32 \<Rightarrow> nat \<Rightarrow> u32" where
  "CLEAR_FLAG x p = x AND NOT (push_bit (p mod 32) 1)"

definition QUERY_FLAG :: "u32 \<Rightarrow> nat \<Rightarrow> bool" where
  "QUERY_FLAG x p \<longleftrightarrow> x AND push_bit (p mod 32) 1 \<noteq> 0"

definition CHECK_MASK :: "u32 \<Rightarrow> u32 \<Rightarrow> bool" where
  "CHECK_MASK x p \<longleftrightarrow> p AND x \<noteq> 0"

abbreviation (input) DEVFLAG_SPAMHANDLER :: nat where "DEVFLAG_SPAMHANDLER \<equiv> 0"
abbreviation (input) DEVFLAG_NODATA :: nat where "DEVFLAG_NODATA \<equiv> 1"
abbreviation (input) DEVFLAG_CHANGEHANDLER :: nat where "DEVFLAG_CHANGEHANDLER \<equiv> 2"
abbreviation (input) ACHAN_GENERIC :: nat where "ACHAN_GENERIC \<equiv> 0"

lemma QUERY_FLAG_bit: "QUERY_FLAG x p \<longleftrightarrow> bit x (p mod 32)"
proof -
  have "x AND push_bit (p mod 32) 1 = (if bit x (p mod 32) then push_bit (p mod 32) 1 else 0)"
    by (rule bit_word_eqI) (auto simp: bit_simps)
  moreover have "p mod 32 < 32" by simp
  then have "push_bit (p mod 32) 1 \<noteq> (0 :: u32)"
    by (auto dest!: arg_cong [of _ _ "\<lambda>w. bit w (p mod 32)"] simp: bit_simps)
  ultimately show ?thesis unfolding QUERY_FLAG_def by (auto split: if_splits)
qed

lemma QUERY_SET_FLAG: "QUERY_FLAG (SET_FLAG x p) q \<longleftrightarrow> q mod 32 = p mod 32 \<or> QUERY_FLAG x q"
  by (auto simp: QUERY_FLAG_bit SET_FLAG_def bit_simps)

lemma QUERY_CLEAR_FLAG: "QUERY_FLAG (CLEAR_FLAG x p) q \<longleftrightarrow> q mod 32 \<noteq> p mod 32 \<and> QUERY_FLAG x q"
  by (auto simp: QUERY_FLAG_bit CLEAR_FLAG_def bit_simps)

lemmas flag_simps [simp] = QUERY_SET_FLAG QUERY_CLEAR_FLAG

end
