(* ===== verification/Devices.thy ===== *)
theory Devices
  imports Structs
begin

text \<open>
  \<^verbatim>\<open>common/devices.c\<close>, the operations on one device: typed access to the data union
  (\<^verbatim>\<open>get_data_dev\<close>, \<^verbatim>\<open>store_data_dev\<close>), its printing, the watermark test that decides whether
  the handler runs, and the parsers of handler arguments and tags. A variable the caller
  passes by address is the word it held before the call.
\<close>

section \<open>Typed access to the data union\<close>

datatype dataloc = DATALOC_DATA | DATALOC_LAST | DATALOC_LOWAT | DATALOC_HIWAT | DATALOC_CHANGE

datatype datatype_t = DATATYPE_UINT | DATATYPE_DOUBLE | DATATYPE_LL

text \<open>An access writes 1, 4 or 8 bytes; the other bytes of the target stay.\<close>

datatype width = W8 | W32 | W64

fun width_bits :: "width \<Rightarrow> nat" where
  "width_bits W8 = 8"
| "width_bits W32 = 32"
| "width_bits W64 = 64"

definition copy :: "width \<Rightarrow> u64 \<Rightarrow> u64 \<Rightarrow> u64" where
  "copy w src dst = (dst AND NOT (mask (width_bits w))) OR (src AND mask (width_bits w))"

lemma bit_copy: "bit (copy w src dst) n \<longleftrightarrow> (if n < width_bits w then bit src n else bit dst n)"
proof (cases "n < 64")
  case True
  then show ?thesis
    by (simp add: copy_def bit_or_iff bit_and_iff bit_not_iff bit_mask_iff)
next
  case False
  then have "\<not> bit x n" for x :: u64 by (auto dest: bit_imp_le_length)
  then show ?thesis by simp
qed

text \<open>The laws of a slot that overwrites a fixed part of a word.\<close>

locale data_slot =
  fixes put :: "u64 \<Rightarrow> u64 \<Rightarrow> u64"
  assumes put_put: "put x (put y z) = put x z"
    and put_same: "put x x = x"
    and put_read: "put (put x y) z = put x z"
begin

text \<open>What one slot stored, another access through the same slot reads, whatever lies around it.\<close>

lemma read_back: "put (put v old) buf = put v buf"
  by (rule put_read)

lemma store_twice: "put (put v1 (put v2 old)) buf = put v1 buf"
  by (simp add: put_read)

lemma put_determined: "put x z = put y z \<longleftrightarrow> (\<forall>b. put x b = put y b)"
  using put_put put_read by metis

end

lemma copy_laws:
  "copy w x (copy w y z) = copy w x z" "copy w x x = x" "copy w (copy w x y) z = copy w x z"
  by (rule bit_word_eqI, simp add: bit_copy)+

interpretation slot: data_slot "copy w" for w
  by unfold_locales (simp_all add: copy_laws)

lemma copy_W64 [simp]: "copy W64 x y = x"
  by (rule bit_word_eqI) (simp add: bit_copy)

definition data_loc :: "dataloc \<Rightarrow> device \<Rightarrow> u64" where
  "data_loc loc dev =
     (case loc of
        DATALOC_DATA \<Rightarrow> d_data dev
      | DATALOC_LAST \<Rightarrow> d_last dev
      | DATALOC_LOWAT \<Rightarrow> d_lowat dev
      | DATALOC_HIWAT \<Rightarrow> d_hiwat dev
      | DATALOC_CHANGE \<Rightarrow> d_change dev)"

definition set_loc :: "dataloc \<Rightarrow> u64 \<Rightarrow> device \<Rightarrow> device" where
  "set_loc loc v dev =
     (case loc of
        DATALOC_DATA \<Rightarrow> dev\<lparr>d_data := v\<rparr>
      | DATALOC_LAST \<Rightarrow> dev\<lparr>d_last := v\<rparr>
      | DATALOC_LOWAT \<Rightarrow> dev\<lparr>d_lowat := v\<rparr>
      | DATALOC_HIWAT \<Rightarrow> dev\<lparr>d_hiwat := v\<rparr>
      | DATALOC_CHANGE \<Rightarrow> dev\<lparr>d_change := v\<rparr>)"

text \<open>The inner \<^verbatim>\<open>switch\<close> of \<^verbatim>\<open>get_data_dev\<close>.\<close>

definition get_subtype_width :: "subtype \<Rightarrow> width option" where
  "get_subtype_width st =
     (case st of
        SUBTYPE_TRIGGER \<Rightarrow> Some W32
      | SUBTYPE_ORP \<Rightarrow> Some W64 | SUBTYPE_SALINITY \<Rightarrow> Some W64 | SUBTYPE_MOONPH \<Rightarrow> Some W64
      | SUBTYPE_TEMP \<Rightarrow> Some W64
      | SUBTYPE_HUMID \<Rightarrow> Some W64 | SUBTYPE_PERCENTAGE \<Rightarrow> Some W64
      | SUBTYPE_TIMER \<Rightarrow> Some W32 | SUBTYPE_COUNTER \<Rightarrow> Some W32
      | SUBTYPE_PRESSURE \<Rightarrow> Some W64
      | SUBTYPE_SPEED \<Rightarrow> Some W64
      | SUBTYPE_DIR \<Rightarrow> Some W64
      | SUBTYPE_PH \<Rightarrow> Some W64
      | SUBTYPE_WETNESS \<Rightarrow> Some W64
      | SUBTYPE_LUX \<Rightarrow> Some W64
      | SUBTYPE_WATTSEC \<Rightarrow> Some W64
      | SUBTYPE_VOLTAGE \<Rightarrow> Some W64
      | SUBTYPE_WATT \<Rightarrow> Some W64
      | SUBTYPE_AMPS \<Rightarrow> Some W64
      | SUBTYPE_RAINRATE \<Rightarrow> Some W64
      | SUBTYPE_SWITCH \<Rightarrow> Some W8 | SUBTYPE_WEATHER \<Rightarrow> Some W8 | SUBTYPE_ALARMSTATUS \<Rightarrow> Some W8
      | SUBTYPE_THMODE \<Rightarrow> Some W8 | SUBTYPE_THSTATE \<Rightarrow> Some W8 | SUBTYPE_SMNUMBER \<Rightarrow> Some W8
      | SUBTYPE_COLLECTOR \<Rightarrow> Some W8 | SUBTYPE_BLIND \<Rightarrow> Some W8 | SUBTYPE_DAYLIGHT \<Rightarrow> Some W8
      | SUBTYPE_TRISTATE \<Rightarrow> Some W8
      | SUBTYPE_NUMBER \<Rightarrow> Some W64
      | SUBTYPE_FLOWRATE \<Rightarrow> Some W64
      | SUBTYPE_DISTANCE \<Rightarrow> Some W64
      | SUBTYPE_VOLUME \<Rightarrow> Some W64
      | _ \<Rightarrow> None)"

definition get_width :: "device \<Rightarrow> width option" where
  "get_width dev =
     (case dev_type_of (d_type dev) of
        Some DEVICE_SWITCH \<Rightarrow> Some W8
      | Some DEVICE_DIMMER \<Rightarrow> Some W64
      | Some DEVICE_SENSOR \<Rightarrow> Option.bind (subtype_of (d_subtype dev)) get_subtype_width
      | Some DEVICE_TIMER \<Rightarrow> Option.bind (subtype_of (d_subtype dev)) get_subtype_width
      | _ \<Rightarrow> None)"

definition get_data_dev :: "device \<Rightarrow> dataloc \<Rightarrow> u64 \<Rightarrow> u64" where
  "get_data_dev dev loc buf =
     (case get_width dev of None \<Rightarrow> buf | Some w \<Rightarrow> copy w (data_loc loc dev) buf)"

text \<open>The inner \<^verbatim>\<open>switch\<close> of \<^verbatim>\<open>store_data_dev\<close>.\<close>

definition store_subtype_width :: "subtype \<Rightarrow> width option" where
  "store_subtype_width st =
     (case st of
        SUBTYPE_TRIGGER \<Rightarrow> Some W32
      | SUBTYPE_ORP \<Rightarrow> Some W64 | SUBTYPE_SALINITY \<Rightarrow> Some W64 | SUBTYPE_MOONPH \<Rightarrow> Some W64
      | SUBTYPE_TEMP \<Rightarrow> Some W64
      | SUBTYPE_HUMID \<Rightarrow> Some W64 | SUBTYPE_PERCENTAGE \<Rightarrow> Some W64
      | SUBTYPE_TIMER \<Rightarrow> Some W32 | SUBTYPE_COUNTER \<Rightarrow> Some W32
      | SUBTYPE_PRESSURE \<Rightarrow> Some W64
      | SUBTYPE_SPEED \<Rightarrow> Some W64
      | SUBTYPE_DIR \<Rightarrow> Some W64
      | SUBTYPE_PH \<Rightarrow> Some W64
      | SUBTYPE_WETNESS \<Rightarrow> Some W64
      | SUBTYPE_LUX \<Rightarrow> Some W64
      | SUBTYPE_VOLTAGE \<Rightarrow> Some W64
      | SUBTYPE_WATTSEC \<Rightarrow> Some W64
      | SUBTYPE_WATT \<Rightarrow> Some W64
      | SUBTYPE_AMPS \<Rightarrow> Some W64
      | SUBTYPE_RAINRATE \<Rightarrow> Some W64
      | SUBTYPE_SWITCH \<Rightarrow> Some W8 | SUBTYPE_WEATHER \<Rightarrow> Some W8 | SUBTYPE_ALARMSTATUS \<Rightarrow> Some W8
      | SUBTYPE_THMODE \<Rightarrow> Some W8 | SUBTYPE_THSTATE \<Rightarrow> Some W8 | SUBTYPE_SMNUMBER \<Rightarrow> Some W8
      | SUBTYPE_COLLECTOR \<Rightarrow> Some W8 | SUBTYPE_BLIND \<Rightarrow> Some W8 | SUBTYPE_DAYLIGHT \<Rightarrow> Some W8
      | SUBTYPE_TRISTATE \<Rightarrow> Some W8
      | SUBTYPE_NUMBER \<Rightarrow> Some W64
      | SUBTYPE_VOLUME \<Rightarrow> Some W64
      | SUBTYPE_DISTANCE \<Rightarrow> Some W64
      | SUBTYPE_FLOWRATE \<Rightarrow> Some W64
      | _ \<Rightarrow> None)"

definition store_width :: "device \<Rightarrow> width option" where
  "store_width dev =
     (case dev_type_of (d_type dev) of
        Some DEVICE_SWITCH \<Rightarrow> Some W8
      | Some DEVICE_DIMMER \<Rightarrow> Some W64
      | Some DEVICE_SENSOR \<Rightarrow> Option.bind (subtype_of (d_subtype dev)) store_subtype_width
      | Some DEVICE_TIMER \<Rightarrow> Option.bind (subtype_of (d_subtype dev)) store_subtype_width
      | Some DEVICE_BLIND \<Rightarrow> Option.bind (subtype_of (d_subtype dev)) store_subtype_width
      | _ \<Rightarrow> None)"

text \<open>\<open>data\<close> is the word at the address passed in, as far as the access reads it.\<close>

definition store_data_dev :: "device \<Rightarrow> dataloc \<Rightarrow> u64 \<Rightarrow> device" where
  "store_data_dev dev loc data =
     (let dev1 = (if loc = DATALOC_DATA
                  then dev\<lparr>d_last := d_data dev, d_flags := CLEAR_FLAG (d_flags dev) DEVFLAG_NODATA\<rparr>
                  else dev)
      in case store_width dev1 of
           None \<Rightarrow> dev1
         | Some w \<Rightarrow> set_loc loc (copy w data (data_loc loc dev1)) dev1)"

definition datatype_dev :: "device \<Rightarrow> datatype_t" where
  "datatype_dev dev =
     (if dev_type_of (d_type dev) = Some DEVICE_DIMMER then DATATYPE_DOUBLE
      else case subtype_of (d_subtype dev) of
             None \<Rightarrow> DATATYPE_DOUBLE
           | Some st \<Rightarrow>
               (case st of
                  SUBTYPE_SWITCH \<Rightarrow> DATATYPE_UINT | SUBTYPE_TIMER \<Rightarrow> DATATYPE_UINT
                | SUBTYPE_COUNTER \<Rightarrow> DATATYPE_UINT | SUBTYPE_OUTLET \<Rightarrow> DATATYPE_UINT
                | SUBTYPE_WEATHER \<Rightarrow> DATATYPE_UINT | SUBTYPE_ALARMSTATUS \<Rightarrow> DATATYPE_UINT
                | SUBTYPE_THMODE \<Rightarrow> DATATYPE_UINT | SUBTYPE_THSTATE \<Rightarrow> DATATYPE_UINT
                | SUBTYPE_SMNUMBER \<Rightarrow> DATATYPE_UINT | SUBTYPE_COLLECTOR \<Rightarrow> DATATYPE_UINT
                | SUBTYPE_BLIND \<Rightarrow> DATATYPE_UINT | SUBTYPE_DAYLIGHT \<Rightarrow> DATATYPE_UINT
                | SUBTYPE_TRIGGER \<Rightarrow> DATATYPE_UINT | SUBTYPE_TRISTATE \<Rightarrow> DATATYPE_UINT
                | SUBTYPE_WATTSEC \<Rightarrow> DATATYPE_LL | SUBTYPE_NUMBER \<Rightarrow> DATATYPE_LL
                | _ \<Rightarrow> DATATYPE_DOUBLE))"

definition print_data_dev :: "device \<Rightarrow> dataloc \<Rightarrow> string" where
  "print_data_dev dev loc =
     (case datatype_dev dev of
        DATATYPE_UINT \<Rightarrow> fmt_d (ucast (get_data_dev dev loc 0))
      | DATATYPE_LL \<Rightarrow> fmt_jd (get_data_dev dev loc 0)
      | DATATYPE_DOUBLE \<Rightarrow> fmt_f (get_data_dev dev loc 0))"

section \<open>Laws of the access functions\<close>

fun datatype_bits :: "datatype_t \<Rightarrow> nat" where
  "datatype_bits DATATYPE_UINT = 32"
| "datatype_bits DATATYPE_DOUBLE = 64"
| "datatype_bits DATATYPE_LL = 64"

lemma subtype_widths: "get_subtype_width = store_subtype_width"
  by (rule ext) (simp add: get_subtype_width_def store_subtype_width_def split: subtype.split)

lemma get_store_width: "get_width dev = Some w \<Longrightarrow> store_width dev = Some w"
  by (auto simp: get_width_def store_width_def subtype_widths split: option.splits dev_type.splits)

lemma subtype_width_bound:
  "get_subtype_width st = Some w \<Longrightarrow> dev_type_of (d_type dev) \<noteq> Some DEVICE_DIMMER
    \<Longrightarrow> subtype_of (d_subtype dev) = Some st \<Longrightarrow> width_bits w \<le> datatype_bits (datatype_dev dev)"
  by (cases st) (auto simp: get_subtype_width_def datatype_dev_def)

lemma width_bits_le: "width_bits w \<le> 64"
  by (cases w) simp_all

lemma datatype_dimmer: "dev_type_of (d_type dev) = Some DEVICE_DIMMER \<Longrightarrow> datatype_dev dev = DATATYPE_DOUBLE"
  by (simp add: datatype_dev_def)

lemma store_width_bound:
  assumes "store_width dev = Some w"
  shows "width_bits w \<le> datatype_bits (datatype_dev dev)"
proof (cases "datatype_dev dev")
  case DATATYPE_UINT
  then have nd: "dev_type_of (d_type dev) \<noteq> Some DEVICE_DIMMER" using datatype_dimmer by fastforce
  consider "w = W8" | st where "subtype_of (d_subtype dev) = Some st" "get_subtype_width st = Some w"
    using assms nd
    by (auto simp: store_width_def bind_eq_Some_conv subtype_widths
        split: option.splits dev_type.splits)
  then show ?thesis
  proof cases
    case 1
    then show ?thesis by (simp add: DATATYPE_UINT)
  next
    case 2
    with subtype_width_bound [of st w dev] nd show ?thesis by simp
  qed
qed (simp_all add: width_bits_le)

lemma loc_set_loc [simp]:
  "data_loc l (set_loc m v dev) = (if l = m then v else data_loc l dev)"
  by (cases l; cases m) (simp_all add: data_loc_def set_loc_def)

lemma set_loc_frame [simp]:
  "d_type (set_loc l v dev) = d_type dev" "d_subtype (set_loc l v dev) = d_subtype dev"
  "d_proto (set_loc l v dev) = d_proto dev" "d_scale (set_loc l v dev) = d_scale dev"
  "d_uid (set_loc l v dev) = d_uid dev" "d_name (set_loc l v dev) = d_name dev"
  "d_rrdname (set_loc l v dev) = d_rrdname dev" "d_flags (set_loc l v dev) = d_flags dev"
  "d_handler (set_loc l v dev) = d_handler dev" "d_collector (set_loc l v dev) = d_collector dev"
  "d_watchers (set_loc l v dev) = d_watchers dev" "d_onq_all (set_loc l v dev) = d_onq_all dev"
  "d_onq_client (set_loc l v dev) = d_onq_client dev" "d_loc (set_loc l v dev) = d_loc dev"
  "d_hargs (set_loc l v dev) = d_hargs dev" "d_nrofhargs (set_loc l v dev) = d_nrofhargs dev"
  "d_tags (set_loc l v dev) = d_tags dev" "d_nroftags (set_loc l v dev) = d_nroftags dev"
  "d_localdata (set_loc l v dev) = d_localdata dev" "d_last_upd (set_loc l v dev) = d_last_upd dev"
  by (cases l; simp add: set_loc_def)+

text \<open>Storing touches the data slots and, for current data, the no-data flag; nothing else.\<close>

lemma store_frame [simp]:
  "d_type (store_data_dev dev l v) = d_type dev"
  "d_subtype (store_data_dev dev l v) = d_subtype dev"
  "d_proto (store_data_dev dev l v) = d_proto dev" "d_scale (store_data_dev dev l v) = d_scale dev"
  "d_uid (store_data_dev dev l v) = d_uid dev" "d_name (store_data_dev dev l v) = d_name dev"
  "d_rrdname (store_data_dev dev l v) = d_rrdname dev"
  "d_handler (store_data_dev dev l v) = d_handler dev"
  "d_collector (store_data_dev dev l v) = d_collector dev"
  "d_watchers (store_data_dev dev l v) = d_watchers dev"
  "d_onq_all (store_data_dev dev l v) = d_onq_all dev"
  "d_onq_client (store_data_dev dev l v) = d_onq_client dev"
  "d_loc (store_data_dev dev l v) = d_loc dev"
  "d_hargs (store_data_dev dev l v) = d_hargs dev"
  "d_nrofhargs (store_data_dev dev l v) = d_nrofhargs dev"
  "d_tags (store_data_dev dev l v) = d_tags dev"
  "d_nroftags (store_data_dev dev l v) = d_nroftags dev"
  "d_localdata (store_data_dev dev l v) = d_localdata dev"
  "d_last_upd (store_data_dev dev l v) = d_last_upd dev"
  by (simp_all add: store_data_dev_def Let_def split: option.split)

lemma store_width_cong:
  "d_type a = d_type b \<Longrightarrow> d_subtype a = d_subtype b \<Longrightarrow> store_width a = store_width b"
  by (simp only: store_width_def)

lemma get_width_cong:
  "d_type a = d_type b \<Longrightarrow> d_subtype a = d_subtype b \<Longrightarrow> get_width a = get_width b"
  by (simp only: get_width_def)

lemma datatype_dev_cong:
  "d_type a = d_type b \<Longrightarrow> d_subtype a = d_subtype b \<Longrightarrow> datatype_dev a = datatype_dev b"
  by (simp only: datatype_dev_def)

lemma store_loc:
  "data_loc m (store_data_dev dev l v) =
     (if m = l then (case store_width dev of None \<Rightarrow> data_loc l dev
                     | Some w \<Rightarrow> copy w v (data_loc l dev))
      else if l = DATALOC_DATA \<and> m = DATALOC_LAST then d_data dev
      else data_loc m dev)"
proof -
  have w: "store_width (dev\<lparr>d_last := a, d_flags := x\<rparr>) = store_width dev" for a x
    by (rule store_width_cong) simp_all
  have d: "data_loc m (dev\<lparr>d_last := a, d_flags := x\<rparr>)
      = (if m = DATALOC_LAST then a else data_loc m dev)" for a x m
    by (cases m) (simp_all add: data_loc_def)
  show ?thesis
    by (simp add: store_data_dev_def Let_def w d split: option.split)
qed

lemma store_flags [simp]:
  "d_flags (store_data_dev dev l v) =
     (if l = DATALOC_DATA then CLEAR_FLAG (d_flags dev) DEVFLAG_NODATA else d_flags dev)"
  by (simp add: store_data_dev_def Let_def split: option.split)

lemma get_width_store [simp]: "get_width (store_data_dev dev l v) = get_width dev"
  by (rule get_width_cong) simp_all

lemma datatype_dev_store [simp]: "datatype_dev (store_data_dev dev l v) = datatype_dev dev"
  by (rule datatype_dev_cong) simp_all

text \<open>Reading back gives the stored bytes, in every slot and for every readable device.\<close>

lemma get_store_same:
  assumes "get_width dev = Some w"
  shows "get_data_dev (store_data_dev dev l v) l buf = copy w v buf"
  using assms get_store_width [OF assms]
  by (simp add: get_data_dev_def store_loc slot.read_back)

lemma get_store_other:
  assumes "m \<noteq> l" and "\<not> (l = DATALOC_DATA \<and> m = DATALOC_LAST)"
  shows "get_data_dev (store_data_dev dev l v) m buf = get_data_dev dev m buf"
  using assms by (auto simp: get_data_dev_def store_loc split: option.split)

lemma data_loc_DATA: "data_loc DATALOC_DATA dev = d_data dev"
  by (simp add: data_loc_def)

lemma get_store_last:
  "get_data_dev (store_data_dev dev DATALOC_DATA v) DATALOC_LAST buf = get_data_dev dev DATALOC_DATA buf"
  by (simp add: get_data_dev_def store_loc data_loc_DATA split: option.split)

section \<open>Watermarks\<close>

text \<open>
  \<^verbatim>\<open>device_watermark\<close>. The four local variables of the chosen type are passed to
  \<^verbatim>\<open>get_data_dev\<close> without being initialised: \<open>j 0\<close>, \dots, \<open>j 3\<close> are the words they hold (low,
  high, current, last). An access narrower than the variable leaves its upper bytes as they are.
\<close>

definition device_watermark :: "(nat \<Rightarrow> u64) \<Rightarrow> device \<Rightarrow> int" where
  "device_watermark j dev =
     (let lw = get_data_dev dev DATALOC_LOWAT (j 0); hw = get_data_dev dev DATALOC_HIWAT (j 1);
          cur = get_data_dev dev DATALOC_DATA (j 2); prv = get_data_dev dev DATALOC_LAST (j 3);
          spam = QUERY_FLAG (d_flags dev) DEVFLAG_SPAMHANDLER
      in if QUERY_FLAG (d_flags dev) DEVFLAG_CHANGEHANDLER then
           (case datatype_dev dev of
              DATATYPE_UINT \<Rightarrow> if (ucast cur :: u32) \<noteq> ucast prv then 1 else 0
            | DATATYPE_LL \<Rightarrow> if cur \<noteq> prv then 1 else 0
            | DATATYPE_DOUBLE \<Rightarrow> if \<not> dbl_eq cur prv then 1 else 0)
         else
           (case datatype_dev dev of
              DATATYPE_UINT \<Rightarrow>
                (let lwu = ucast lw :: u32; hwu = ucast hw; du = ucast cur; pdu = ucast prv
                 in if lwu = 0 \<and> hwu = 0 then 2
                    else if spam then (if du < lwu then -1 else if hwu < du then 1 else 0)
                    else if du < lwu \<and> lwu < pdu then -1
                    else if hwu < du \<and> pdu < hwu then 1 else 0)
            | DATATYPE_LL \<Rightarrow>
                (if lw = 0 \<and> hw = 0 then 2
                 else if spam then (if cur <s lw then -1 else if hw <s cur then 1 else 0)
                 else if cur <s lw \<and> lw <s prv then -1
                 else if hw <s cur \<and> prv <s hw then 1 else 0)
            | DATATYPE_DOUBLE \<Rightarrow>
                (if dbl_eq lw 0 \<and> dbl_eq hw 0 then 2
                 else if spam then (if dbl_lt cur lw then -1 else if dbl_lt hw cur then 1 else 0)
                 else if dbl_lt cur lw \<and> dbl_lt lw prv then -1
                 else if dbl_lt hw cur \<and> dbl_lt prv hw then 1 else 0)))"

text \<open>
  What the comment of the function promises, over an abstract strict order: the answer to
  \<open>below\<close> and \<open>above\<close> of the current and the previous value.
\<close>

definition watermark_spec ::
    "bool \<Rightarrow> bool \<Rightarrow> bool \<Rightarrow> bool \<Rightarrow> ('v \<Rightarrow> 'v \<Rightarrow> bool) \<Rightarrow> 'v \<Rightarrow> 'v \<Rightarrow> 'v \<Rightarrow> 'v \<Rightarrow> int" where
  "watermark_spec change changed unset spam lt lo hi cur prev =
     (if change then (if changed then 1 else 0)
      else if unset then 2
      else if lt cur lo \<and> (spam \<or> lt lo prev) then -1
      else if lt hi cur \<and> (spam \<or> lt prev hi) then 1
      else 0)"

text \<open>The value of a slot as its datatype denotes it.\<close>

definition uint_value :: "device \<Rightarrow> dataloc \<Rightarrow> u32" where
  "uint_value dev loc = ucast (get_data_dev dev loc 0)"

text \<open>The whole variable is written, so its old contents do not matter.\<close>

definition full_access :: "device \<Rightarrow> bool" where
  "full_access dev \<longleftrightarrow> (\<exists>w. get_width dev = Some w \<and> datatype_bits (datatype_dev dev) \<le> width_bits w)"

lemma full_access_code [code]:
  "full_access dev \<longleftrightarrow>
     (case get_width dev of None \<Rightarrow> False | Some w \<Rightarrow> datatype_bits (datatype_dev dev) \<le> width_bits w)"
  by (simp add: full_access_def split: option.split)

lemma copy_low:
  assumes "32 \<le> width_bits w"
  shows "(ucast (copy w v x) :: u32) = ucast v"
  by (rule bit_word_eqI) (use assms in \<open>auto simp: bit_simps bit_copy\<close>)

lemma full_access_uint:
  assumes "full_access dev" and "datatype_dev dev = DATATYPE_UINT"
  shows "(ucast (get_data_dev dev l x) :: u32) = uint_value dev l"
  using assms by (auto simp: full_access_def uint_value_def get_data_dev_def copy_low)

lemma full_access_64:
  assumes "full_access dev" and "datatype_dev dev \<noteq> DATATYPE_UINT"
  shows "get_data_dev dev l x = data_loc l dev"
proof -
  obtain w where w: "get_width dev = Some w" "datatype_bits (datatype_dev dev) \<le> width_bits w"
    using assms(1) by (auto simp: full_access_def)
  with assms(2) have "w = W64" by (cases "datatype_dev dev"; cases w) auto
  with w show ?thesis by (simp add: get_data_dev_def)
qed

section \<open>Handler arguments and tags\<close>

definition free_ptr :: "strarr \<Rightarrow> strarr res" where
  "free_ptr a = bindE (free_arr a) (\<lambda>_. Inr (if a = NullArr then NullArr else FreedArr))"

definition parse_hargs :: "device \<Rightarrow> string option \<Rightarrow> device res" where
  "parse_hargs dev data =
     (case data of
        None \<Rightarrow> Inr dev
      | Some s \<Rightarrow>
          if length s < 1 then
            bindE (free_cells (d_hargs dev) (d_nrofhargs dev)) (\<lambda>_.
            bindE (free_ptr (d_hargs dev)) (\<lambda>a.
              Inr (dev\<lparr>d_hargs := a, d_nrofhargs := 0\<rparr>)))
          else
            bindE (free_cells (d_hargs dev) (d_nrofhargs dev)) (\<lambda>_.
            bindE (free_ptr (d_hargs dev)) (\<lambda>_.
              let ts = strtok (CHR '','') s
              in Inr (dev\<lparr>d_hargs := Arr (map Heap ts), d_nrofhargs := length ts\<rparr>))))"

text \<open>
  \<^verbatim>\<open>parse_tags\<close>. Clearing the tags tests \<^verbatim>\<open>dev->hargs\<close> before it frees \<^verbatim>\<open>dev->tags\<close>: the
  array is freed only when there are handler arguments, the strings in it always.
\<close>

definition free_tag_cells :: "strarr \<Rightarrow> nat \<Rightarrow> strarr" where
  "free_tag_cells a n =
     (case a of Arr cs \<Rightarrow> Arr (replicate (min n (length cs)) FreedStr @ drop n cs) | _ \<Rightarrow> a)"

definition parse_tags :: "device \<Rightarrow> string option \<Rightarrow> device res" where
  "parse_tags dev data =
     (case data of
        None \<Rightarrow> Inr dev
      | Some s \<Rightarrow>
          if length s < 1 then
            bindE (free_cells (d_tags dev) (d_nroftags dev)) (\<lambda>_.
            bindE (if d_hargs dev \<noteq> NullArr then free_ptr (d_tags dev)
                   else Inr (free_tag_cells (d_tags dev) (d_nroftags dev))) (\<lambda>a.
              Inr (dev\<lparr>d_tags := a, d_nroftags := 0\<rparr>)))
          else
            bindE (free_cells (d_tags dev) (d_nroftags dev)) (\<lambda>_.
            bindE (free_ptr (d_tags dev)) (\<lambda>_.
              let ts = strtok (CHR '','') s;
                  cells = map Heap ts @ (if odd (length ts) then [Lit ''junk''] else [])
              in Inr (dev\<lparr>d_tags := Arr cells, d_nroftags := length cells\<rparr>))))"

section \<open>Countdown timers\<close>

text \<open>One device in the loop of \<^verbatim>\<open>cb_timerdev_update\<close>, run once a second.\<close>

definition timer_tick :: "u64 \<Rightarrow> device \<Rightarrow> device" where
  "timer_tick junk dev =
     (if dev_type_of (d_type dev) = Some DEVICE_TIMER \<and> subtype_of (d_subtype dev) = Some SUBTYPE_TIMER
      then let count = ucast (get_data_dev dev DATALOC_DATA junk) :: u32
           in if count \<noteq> 0 then store_data_dev dev DATALOC_DATA (ucast (count - 1)) else dev
      else dev)"

section \<open>Facts about watermarks, argument arrays and timers\<close>

lemma watermark_meets_spec:
  assumes "full_access dev"
  shows "device_watermark j dev =
    (let change = QUERY_FLAG (d_flags dev) DEVFLAG_CHANGEHANDLER;
         spam = QUERY_FLAG (d_flags dev) DEVFLAG_SPAMHANDLER;
         u = uint_value dev; w = (\<lambda>l. data_loc l dev)
     in case datatype_dev dev of
          DATATYPE_UINT \<Rightarrow>
            watermark_spec change (u DATALOC_DATA \<noteq> u DATALOC_LAST)
              (u DATALOC_LOWAT = 0 \<and> u DATALOC_HIWAT = 0) spam (<)
              (u DATALOC_LOWAT) (u DATALOC_HIWAT) (u DATALOC_DATA) (u DATALOC_LAST)
        | DATATYPE_LL \<Rightarrow>
            watermark_spec change (w DATALOC_DATA \<noteq> w DATALOC_LAST)
              (w DATALOC_LOWAT = 0 \<and> w DATALOC_HIWAT = 0) spam (<s)
              (w DATALOC_LOWAT) (w DATALOC_HIWAT) (w DATALOC_DATA) (w DATALOC_LAST)
        | DATATYPE_DOUBLE \<Rightarrow>
            watermark_spec change (\<not> dbl_eq (w DATALOC_DATA) (w DATALOC_LAST))
              (dbl_eq (w DATALOC_LOWAT) 0 \<and> dbl_eq (w DATALOC_HIWAT) 0) spam dbl_lt
              (w DATALOC_LOWAT) (w DATALOC_HIWAT) (w DATALOC_DATA) (w DATALOC_LAST))"
proof (cases "datatype_dev dev")
  case DATATYPE_UINT
  then show ?thesis
    by (simp add: device_watermark_def watermark_spec_def Let_def full_access_uint [OF assms])
next
  case DATATYPE_DOUBLE
  then show ?thesis
    by (simp add: device_watermark_def watermark_spec_def Let_def full_access_64 [OF assms])
next
  case DATATYPE_LL
  then show ?thesis
    by (simp add: device_watermark_def watermark_spec_def Let_def full_access_64 [OF assms])
qed

text \<open>
  A variable read with one byte keeps three bytes of whatever was there: for the one-byte
  devices the answer depends on them.
\<close>

lemma watermark_uninit:
  assumes "get_width dev = Some W8" and "datatype_dev dev = DATATYPE_UINT"
    and "\<not> QUERY_FLAG (d_flags dev) DEVFLAG_CHANGEHANDLER"
    and "uint_value dev DATALOC_LOWAT = 0" and "uint_value dev DATALOC_HIWAT = 0"
  shows "device_watermark (\<lambda>_. 0) dev = 2"
    and "device_watermark (\<lambda>i. if i = 0 then 256 else 0) dev \<noteq> 2"
proof -
  have get: "(ucast (get_data_dev dev l 0) :: u32) = uint_value dev l" for l
    by (simp add: uint_value_def)
  show "device_watermark (\<lambda>_. 0) dev = 2"
    using assms(3) by (simp add: device_watermark_def assms(2,4,5) get Let_def)
  have "bit (ucast (get_data_dev dev DATALOC_LOWAT 256) :: u32) 8"
    by (simp add: get_data_dev_def assms(1) bit_unsigned_iff bit_copy)
  then have "(ucast (get_data_dev dev DATALOC_LOWAT 256) :: u32) \<noteq> 0" by auto
  then show "device_watermark (\<lambda>i. if i = 0 then 256 else 0) dev \<noteq> 2"
    using assms(3) by (simp add: device_watermark_def assms(2) Let_def)
qed

text \<open>Argument arrays: what the parsers build is again well formed.\<close>

lemma free_ptr_ok: "arr_ok a n \<Longrightarrow> \<exists>b. free_ptr a = Inr b"
  by (auto simp: free_ptr_def arr_ok_def)

lemma parse_hargs_ok:
  assumes "arr_ok (d_hargs dev) (d_nrofhargs dev)" and "s \<noteq> []"
  shows "parse_hargs dev (Some s) =
    Inr (dev\<lparr>d_hargs := Arr (map Heap (strtok (CHR '','') s)), d_nrofhargs := length (strtok (CHR '','') s)\<rparr>)"
proof -
  have l: "\<not> length s < 1" using assms(2) by (cases s) auto
  from free_ptr_ok [OF assms(1)] obtain b where "free_ptr (d_hargs dev) = Inr b" ..
  with l arr_ok_free [OF assms(1)] show ?thesis
    by (simp add: parse_hargs_def Let_def del: One_nat_def)
qed

lemma parse_tags_ok:
  assumes "arr_ok (d_tags dev) (d_nroftags dev)" and "s \<noteq> []"
  shows "parse_tags dev (Some s) =
    (let cells = map Heap (strtok (CHR '','') s) @ (if odd (length (strtok (CHR '','') s)) then [Lit ''junk''] else [])
     in Inr (dev\<lparr>d_tags := Arr cells, d_nroftags := length cells\<rparr>))"
proof -
  have l: "\<not> length s < 1" using assms(2) by (cases s) auto
  from free_ptr_ok [OF assms(1)] obtain b where "free_ptr (d_tags dev) = Inr b" ..
  with l arr_ok_free [OF assms(1)] show ?thesis
    by (simp add: parse_tags_def Let_def del: One_nat_def)
qed

text \<open>Parsing handler arguments changes nothing else in the device.\<close>

lemma parse_hargs_frame:
  assumes "parse_hargs dev data = Inr dev'"
  shows "\<exists>a n. dev' = dev\<lparr>d_hargs := a, d_nrofhargs := n\<rparr>"
proof (cases data)
  case None
  with assms have "dev' = dev\<lparr>d_hargs := d_hargs dev, d_nrofhargs := d_nrofhargs dev\<rparr>"
    by (simp add: parse_hargs_def)
  then show ?thesis by blast
next
  case (Some s)
  with assms show ?thesis
    by (auto simp: parse_hargs_def bindE_Inr_conv Let_def split: if_splits)
qed

lemma parse_tags_frame:
  assumes "parse_tags dev data = Inr dev'"
  shows "\<exists>a n. dev' = dev\<lparr>d_tags := a, d_nroftags := n\<rparr>"
proof (cases data)
  case None
  with assms have "dev' = dev\<lparr>d_tags := d_tags dev, d_nroftags := d_nroftags dev\<rparr>"
    by (simp add: parse_tags_def)
  then show ?thesis by blast
next
  case (Some s)
  with assms show ?thesis
    by (auto simp: parse_tags_def bindE_Inr_conv Let_def split: if_splits)
qed

lemma timer_tick_frame [simp]:
  "d_type (timer_tick j dev) = d_type dev" "d_subtype (timer_tick j dev) = d_subtype dev"
  "d_uid (timer_tick j dev) = d_uid dev" "d_collector (timer_tick j dev) = d_collector dev"
  "d_watchers (timer_tick j dev) = d_watchers dev" "d_onq_all (timer_tick j dev) = d_onq_all dev"
  "d_onq_client (timer_tick j dev) = d_onq_client dev"
  by (simp_all add: timer_tick_def Let_def)

lemma timer_widths:
  assumes "dev_type_of (d_type dev) = Some DEVICE_TIMER" "subtype_of (d_subtype dev) = Some SUBTYPE_TIMER"
  shows "get_width dev = Some W32" "store_width dev = Some W32"
  using assms by (simp_all add: get_width_def store_width_def get_subtype_width_def store_subtype_width_def)

lemma timer_tick_value:
  assumes "dev_type_of (d_type dev) = Some DEVICE_TIMER" "subtype_of (d_subtype dev) = Some SUBTYPE_TIMER"
  shows "uint_value (timer_tick j dev) DATALOC_DATA
    = (if uint_value dev DATALOC_DATA = 0 then 0 else uint_value dev DATALOC_DATA - 1)"
proof -
  note w = timer_widths [OF assms]
  have u: "(ucast (get_data_dev dev DATALOC_DATA j) :: u32) = uint_value dev DATALOC_DATA"
    by (simp add: get_data_dev_def w uint_value_def copy_low)
  show ?thesis
    by (simp add: timer_tick_def assms u Let_def)
      (simp add: uint_value_def get_store_same [OF w(1)] copy_low)
qed

end
