(* ===== verification/Netparser.thy ===== *)
theory Netparser
  imports Structs
begin

text \<open>
  \<^verbatim>\<open>common/netparser.c\<close>: splitting a line of the protocol into words
  (\<^verbatim>\<open>parse_netcommand\<close>), turning words into typed arguments (\<^verbatim>\<open>parse_command\<close>), and the
  searches in argument lists. An argument list is the array up to its terminator.
\<close>

section \<open>Words of a line\<close>

abbreviation (input) quote_char :: char where "quote_char \<equiv> CHR 0x22"
abbreviation (input) backslash :: char where "backslash \<equiv> CHR 0x5C"

text \<open>
  The inner loop, between quotes: the characters copied to the buffer, and the rest of the
  line from the closing quote (or the end) on. A backslash hides a quote and nothing else.
\<close>

fun nc_quoted :: "string \<Rightarrow> string \<times> string" where
  "nc_quoted [] = ([], [])"
| "nc_quoted (c # s) =
     (if c = quote_char then ([], c # s)
      else if c = backslash \<and> s \<noteq> [] \<and> hd s = quote_char
        then apfst (Cons quote_char) (nc_quoted (tl s))
      else apfst (Cons c) (nc_quoted s))"

definition nc_unquote :: "string \<Rightarrow> string \<times> string" where
  "nc_unquote buf =
     (case buf of
        c # s \<Rightarrow>
          if c = quote_char then
            (let (w, r) = nc_quoted s in (w, case r of q # r' \<Rightarrow> r' | [] \<Rightarrow> []))
          else ([], buf)
      | [] \<Rightarrow> ([], buf))"

lemma nc_quoted_length: "length (fst (nc_quoted s)) + length (snd (nc_quoted s)) \<le> length s"
  by (induction s rule: nc_quoted.induct) auto

lemma nc_unquote_length:
  assumes "nc_unquote buf = (w, r)"
  shows "length w + length r \<le> length buf"
proof (cases buf)
  case Nil
  with assms show ?thesis by (simp add: nc_unquote_def)
next
  case (Cons c s)
  obtain w' r' where q: "nc_quoted s = (w', r')" by fastforce
  from nc_quoted_length [of s] assms Cons q show ?thesis
    by (auto simp: nc_unquote_def split: if_splits list.splits)
qed

text \<open>The outer loop; \<open>w\<close> is what the word buffer holds.\<close>

function nc_words :: "string \<Rightarrow> string \<Rightarrow> string list" where
  "nc_words buf w =
     (let (q, buf1) = nc_unquote buf; w1 = w @ q
      in case buf1 of
           [] \<Rightarrow> [w1]
         | c # s \<Rightarrow>
             if c = CHR '' '' then w1 # nc_words (dropWhile (\<lambda>x. x = CHR '' '') s) []
             else nc_words s (w1 @ [c]))"
  by pat_completeness auto
termination
proof (relation "measure (\<lambda>(buf, w). length buf)", goal_cases)
  case 1
  then show ?case by simp
next
  case (2 buf w x q buf1 w1 c s)
  then have "length buf1 \<le> length buf" using nc_unquote_length by (metis le_add2 le_trans)
  with 2 show ?case using length_dropWhile_le [of "\<lambda>x. x = CHR '' ''" s] by simp
next
  case (3 buf w x q buf1 w1 c s)
  then have "length buf1 \<le> length buf" using nc_unquote_length by (metis le_add2 le_trans)
  with 3 show ?case by simp
qed

declare nc_words.simps [simp del]

definition parse_netcommand :: "string \<Rightarrow> string list option" where
  "parse_netcommand buf = (if buf = [] then None else Some (nc_words buf []))"

lemma nc_words_nonempty: "nc_words buf w \<noteq> []"
  by (induction buf w rule: nc_words.induct)
    (subst nc_words.simps, auto simp: Let_def split: prod.split list.split)

text \<open>
  The words with the separators between them are no longer than the line, so neither the
  word buffer (one byte more than the line) nor the count of words overruns.
\<close>

lemma nc_words_bound:
  "sum_list (map length (nc_words buf w)) + length (nc_words buf w) \<le> length w + length buf + 1"
proof (induction buf w rule: nc_words.induct)
  case (1 buf w)
  obtain q b where q: "nc_unquote buf = (q, b)" by fastforce
  then have len: "length q + length b \<le> length buf" by (rule nc_unquote_length)
  show ?case
  proof (cases b)
    case Nil
    with q len show ?thesis by (simp add: nc_words.simps [of buf])
  next
    case (Cons c s)
    show ?thesis
    proof (cases "c = CHR '' ''")
      case True
      let ?r = "dropWhile (\<lambda>x. x = CHR '' '') s"
      have "sum_list (map length (nc_words ?r [])) + length (nc_words ?r []) \<le> length ?r + 1"
        using "1.IH"(1) [OF q [symmetric] refl refl Cons True] by simp
      moreover have "length ?r \<le> length s" by (rule length_dropWhile_le)
      ultimately show ?thesis
        using q len Cons True by (simp add: nc_words.simps [of buf])
    next
      case False
      then show ?thesis
        using "1.IH"(2) [OF q [symmetric] refl refl Cons False] q len Cons
        by (simp add: nc_words.simps [of buf])
    qed
  qed
qed

text \<open>What the C code sees of a line: the bytes up to the first NUL.\<close>

definition c_string :: "string \<Rightarrow> string" where
  "c_string s = takeWhile (\<lambda>c. c \<noteq> CHR 0x00) s"

section \<open>Typed arguments\<close>

text \<open>
  The argument union: a string, or eight bytes. No entry of the table has the type
  \<^verbatim>\<open>PTFLOAT\<close> or \<^verbatim>\<open>PTLONG\<close> (lemma \<open>sc_type_used\<close>), so \<^verbatim>\<open>strtof\<close> is never called. The array is zeroed when it is allocated, so
  the bytes above an \<^verbatim>\<open>int\<close> are zero.
\<close>

datatype argval = AStr string | ANum u64

record parg =
  a_cword :: sc
  a_type :: ptype
  a_arg :: argval

definition arg_value :: "ptype \<Rightarrow> string \<Rightarrow> argval" where
  "arg_value t s =
     (case t of
        PTDOUBLE \<Rightarrow> ANum (c_strtod s)
      | PTFLOAT \<Rightarrow> ANum 0
      | PTCHAR \<Rightarrow> AStr s
      | PTINT \<Rightarrow> ANum (ucast (c_atoi s))
      | PTUINT \<Rightarrow> ANum (ucast (c_strtou32 s))
      | PTLONG \<Rightarrow> ANum (c_strtoll s)
      | PTLL \<Rightarrow> ANum (c_strtoll s))"

text \<open>One word: no colon, or an unknown name, and it is skipped.\<close>

definition parse_arg :: "string \<Rightarrow> parg option" where
  "parse_arg word =
     (if CHR '':'' \<notin> set word then None
      else
        (let cp = map c_tolower (takeWhile (\<lambda>c. c \<noteq> CHR '':'') word);
             tmp = tl (dropWhile (\<lambda>c. c \<noteq> CHR '':'') word)
         in case arg_lookup cp of
              None \<Rightarrow> None
            | Some (s, n, t) \<Rightarrow> Some \<lparr>a_cword = n, a_type = t, a_arg = arg_value t tmp\<rparr>))"

text \<open>The words after the first, up to an empty one.\<close>

definition parse_args :: "string list \<Rightarrow> parg list" where
  "parse_args ws = List.map_filter parse_arg (takeWhile (\<lambda>w. w \<noteq> []) ws)"

definition parse_command :: "string list \<Rightarrow> parg list option" where
  "parse_command words = (if words = [] then None else Some (parse_args (tl words)))"

text \<open>\<^verbatim>\<open>find_arg_by_id\<close>, with \<open>None\<close> for -1.\<close>

fun find_arg_by_id :: "parg list \<Rightarrow> sc \<Rightarrow> nat option" where
  "find_arg_by_id [] n = None"
| "find_arg_by_id (a # args) n =
     (if a_cword a = n then Some 0 else map_option Suc (find_arg_by_id args n))"

text \<open>The string or the number of an argument, as the handlers read it.\<close>

definition arg_c :: "parg \<Rightarrow> string" where
  "arg_c a = (case a_arg a of AStr s \<Rightarrow> s | ANum _ \<Rightarrow> [])"

definition arg_ll :: "parg \<Rightarrow> u64" where
  "arg_ll a = (case a_arg a of AStr _ \<Rightarrow> 0 | ANum v \<Rightarrow> v)"

definition arg_u :: "parg \<Rightarrow> u32" where
  "arg_u a = ucast (arg_ll a)"

definition arg_i :: "parg \<Rightarrow> int" where
  "arg_i a = sint (arg_u a)"

text \<open>
  The handlers' loops \<^verbatim>\<open>for (i=0; args[i].cword != -1; i++) switch (args[i].cword)\<close> with an
  assignment for each sub-command leave the last value given.
\<close>

definition args_of :: "parg list \<Rightarrow> sc \<Rightarrow> parg list" where
  "args_of args n = filter (\<lambda>a. a_cword a = n) args"

definition last_of :: "('a \<Rightarrow> 'b) \<Rightarrow> 'b \<Rightarrow> 'a list \<Rightarrow> 'b" where
  "last_of f z xs = (if xs = [] then z else f (last xs))"

definition str_arg :: "parg list \<Rightarrow> sc \<Rightarrow> string option" where
  "str_arg args n = last_of (\<lambda>a. Some (arg_c a)) None (args_of args n)"

definition int_arg :: "parg list \<Rightarrow> sc \<Rightarrow> int \<Rightarrow> int" where
  "int_arg args n z = last_of arg_i z (args_of args n)"

definition u_arg :: "parg list \<Rightarrow> sc \<Rightarrow> u32 \<Rightarrow> u32" where
  "u_arg args n z = last_of arg_u z (args_of args n)"

section \<open>Laws of the parsers\<close>

lemma sc_type_used: "sc_type n \<noteq> PTFLOAT \<and> sc_type n \<noteq> PTLONG"
  by (cases n) simp_all

text \<open>An argument has the type its sub-command has in the table, and a value of that type.\<close>

definition parg_ok :: "parg \<Rightarrow> bool" where
  "parg_ok a \<longleftrightarrow> a_type a = sc_type (a_cword a) \<and>
     (case a_arg a of AStr _ \<Rightarrow> a_type a = PTCHAR | ANum _ \<Rightarrow> a_type a \<noteq> PTCHAR)"

lemma parse_arg_ok: "parse_arg w = Some a \<Longrightarrow> parg_ok a"
  by (auto simp: parse_arg_def parg_ok_def arg_value_def Let_def dest: arg_lookup_Some
      split: if_splits option.splits ptype.splits)

lemma parse_args_ok: "a \<in> set (parse_args ws) \<Longrightarrow> parg_ok a"
  by (auto simp: parse_args_def map_filter_def intro: parse_arg_ok)

lemma parse_args_length: "length (parse_args ws) \<le> length ws"
proof -
  have "length (parse_args ws) \<le> length (takeWhile (\<lambda>w. w \<noteq> []) ws)"
    by (simp add: parse_args_def map_filter_def)
  then show ?thesis using length_takeWhile_le le_trans by blast
qed

lemma find_arg_by_id_Some:
  "find_arg_by_id args n = Some i \<Longrightarrow> i < length args \<and> a_cword (args ! i) = n"
  by (induction args arbitrary: i) (auto split: if_splits)

lemma find_arg_by_id_None: "find_arg_by_id args n = None \<longleftrightarrow> (\<forall>a \<in> set args. a_cword a \<noteq> n)"
  by (induction args) auto

text \<open>Names match in any case.\<close>

lemma parse_arg_name:
  assumes "map c_tolower k = sc_name n" and "CHR '':'' \<notin> set k"
  shows "parse_arg (k @ CHR '':'' # v) = Some \<lparr>a_cword = n, a_type = sc_type n, a_arg = arg_value (sc_type n) v\<rparr>"
proof -
  have "takeWhile (\<lambda>c. c \<noteq> CHR '':'') (k @ CHR '':'' # v) = k"
    "dropWhile (\<lambda>c. c \<noteq> CHR '':'') (k @ CHR '':'' # v) = CHR '':'' # v"
    using assms(2) by (auto simp: takeWhile_append dropWhile_append)
  with assms(1) show ?thesis by (simp add: parse_arg_def Let_def)
qed

lemma lower_safe:
  assumes "is_lower c"
  shows "c \<noteq> CHR '':''" "c \<noteq> CHR '' ''" "c \<noteq> CHR 0x22" "\<not> is_upper c" "c \<noteq> CHR 0x00"
  using assms by (auto simp: is_lower_def is_upper_def)

lemma sc_name_safe:
  "CHR '':'' \<notin> set (sc_name n)" "CHR '' '' \<notin> set (sc_name n)" "CHR 0x22 \<notin> set (sc_name n)"
  "CHR 0x00 \<notin> set (sc_name n)"
  using lower_safe sc_name_chars by blast+

lemma sc_name_tolower [simp]: "map c_tolower (sc_name n) = sc_name n"
  by (rule map_idI) (simp add: c_tolower_id sc_name_chars lower_safe)

lemma parse_arg_sc_name:
  "parse_arg (sc_name n @ CHR '':'' # v) = Some \<lparr>a_cword = n, a_type = sc_type n, a_arg = arg_value (sc_type n) v\<rparr>"
  by (rule parse_arg_name) (simp_all add: sc_name_safe)

text \<open>How the splitter reads the texts that the message builders write.\<close>

lemma nc_words_end [simp]: "nc_words [] w = [w]"
  by (simp add: nc_words.simps [of "[]"] nc_unquote_def)

lemma nc_words_space:
  "nc_words (CHR '' '' # s) w = w # nc_words (dropWhile (\<lambda>x. x = CHR '' '') s) []"
  by (simp add: nc_words.simps [of "CHR '' '' # s"] nc_unquote_def)

lemma nc_words_char:
  "c \<noteq> CHR '' '' \<Longrightarrow> c \<noteq> quote_char \<Longrightarrow> nc_words (c # s) w = nc_words s (w @ [c])"
  by (simp add: nc_words.simps [of "c # s"] nc_unquote_def)

text \<open>A word of a message that needs no quotes, and a text that survives quoting.\<close>

definition plain :: "string \<Rightarrow> bool" where
  "plain s \<longleftrightarrow> CHR '' '' \<notin> set s \<and> quote_char \<notin> set s"

definition quotable :: "string \<Rightarrow> bool" where
  "quotable s \<longleftrightarrow> quote_char \<notin> set s \<and> (s = [] \<or> last s \<noteq> backslash)"

lemma plain_append [simp]: "plain (a @ b) \<longleftrightarrow> plain a \<and> plain b"
  by (auto simp: plain_def)

lemma plain_Nil [simp]: "plain []"
  by (simp add: plain_def)

lemma plain_sc_name [simp]: "plain (sc_name n)"
  by (simp add: plain_def sc_name_safe)

lemma nc_words_plain: "plain a \<Longrightarrow> nc_words (a @ s) w = nc_words s (w @ a)"
  by (induction a arbitrary: w) (auto simp: plain_def nc_words_char)

lemma nc_quoted_text: "quotable a \<Longrightarrow> nc_quoted (a @ quote_char # s) = (a, quote_char # s)"
proof (induction a)
  case Nil
  then show ?case by simp
next
  case (Cons c a)
  then have "quotable a" by (auto simp: quotable_def split: if_splits)
  with Cons show ?case
    by (cases a) (auto simp: quotable_def)
qed

lemma nc_words_quoted:
  assumes "quotable a" and "s = [] \<or> hd s \<noteq> quote_char"
  shows "nc_words (quote_char # a @ quote_char # s) w = nc_words s (w @ a)"
proof -
  have u: "nc_unquote (quote_char # a @ quote_char # s) = (a, s)"
    by (simp add: nc_unquote_def nc_quoted_text assms(1))
  show ?thesis
  proof (cases s)
    case Nil
    with u show ?thesis by (simp add: nc_words.simps [of "quote_char # _"])
  next
    case (Cons c r)
    with u assms(2) show ?thesis
      by (cases "c = CHR '' ''")
        (simp_all add: nc_words.simps [of "quote_char # _"] nc_words_space nc_words_char)
  qed
qed

end
