(* ===== verification/Gncoll.thy ===== *)
theory Gncoll
  imports Devices Netparser
begin

text \<open>
  \<^verbatim>\<open>common/gncoll.c\<close> and \<^verbatim>\<open>common/gncoll.h\<close>: scale conversions and the builders of the
  protocol's messages. A builder returns the bytes it writes to the bufferevent, the empty
  string when it refuses; \<^verbatim>\<open>what\<close> bit masks are words of 32 bits, and a shift count is taken
  modulo 32 as x86 does where C leaves it undefined.
\<close>

section \<open>Scales\<close>

text \<open>The conversion macros of \<^verbatim>\<open>common/common.h\<close>.\<close>

definition CTOF :: "dbl \<Rightarrow> dbl" where "CTOF x = dbl_add (dbl_mul x (dbl_lit 18 10)) (dbl_lit 32 1)"
definition FTOC :: "dbl \<Rightarrow> dbl" where "FTOC x = dbl_div (dbl_sub x (dbl_lit 32 1)) (dbl_lit 18 10)"
definition CTOK :: "dbl \<Rightarrow> dbl" where "CTOK x = dbl_add x (dbl_lit 27315 100)"
definition KTOC :: "dbl \<Rightarrow> dbl" where "KTOC x = dbl_sub x (dbl_lit 27315 100)"
definition KTOF :: "dbl \<Rightarrow> dbl" where "KTOF x = CTOF (KTOC x)"
definition FTOR :: "dbl \<Rightarrow> dbl" where "FTOR x = dbl_add x (dbl_lit 45967 100)"
definition RTOF :: "dbl \<Rightarrow> dbl" where "RTOF x = dbl_sub x (dbl_lit 45967 100)"
definition BARO_INTOMB :: "dbl \<Rightarrow> dbl" where "BARO_INTOMB x = dbl_mul x (dbl_lit 338639 10000)"
definition BARO_MBTOIN :: "dbl \<Rightarrow> dbl" where "BARO_MBTOIN x = dbl_mul x (dbl_lit 2953 100000)"
definition BARO_MMTOMB :: "dbl \<Rightarrow> dbl" where "BARO_MMTOMB x = dbl_mul x (dbl_lit 1333224 1000000)"
definition BARO_MBTOMM :: "dbl \<Rightarrow> dbl" where "BARO_MBTOMM x = dbl_mul x (dbl_lit 750062 1000000)"
definition INTOMM :: "dbl \<Rightarrow> dbl" where "INTOMM x = dbl_mul x (dbl_lit 254 10)"
definition MMTOIN :: "dbl \<Rightarrow> dbl" where "MMTOIN x = dbl_mul x (dbl_lit 393701 10000000)"
definition MBTOCB :: "dbl \<Rightarrow> dbl" where "MBTOCB x = dbl_mul x (dbl_lit 1 10)"
definition CBTOMB :: "dbl \<Rightarrow> dbl" where "CBTOMB x = dbl_mul x (dbl_lit 10 1)"
definition KPHTOMPH :: "dbl \<Rightarrow> dbl" where "KPHTOMPH x = dbl_mul x (dbl_lit 621371 1000000)"
definition MSTOMPH :: "dbl \<Rightarrow> dbl" where "MSTOMPH x = dbl_mul x (dbl_lit 223694 100000)"
definition KNOTSTOMPH :: "dbl \<Rightarrow> dbl" where "KNOTSTOMPH x = dbl_mul x (dbl_lit 115078 100000)"
definition MPHTOKPH :: "dbl \<Rightarrow> dbl" where "MPHTOKPH x = dbl_mul x (dbl_lit 160934 100000)"
definition MPHTOMS :: "dbl \<Rightarrow> dbl" where "MPHTOMS x = dbl_mul x (dbl_lit 44704 100000)"
definition MPHTOKNOTS :: "dbl \<Rightarrow> dbl" where "MPHTOKNOTS x = dbl_mul x (dbl_lit 868976 1000000)"
definition LIGHT_LUXTOWM2 :: "dbl \<Rightarrow> dbl" where "LIGHT_LUXTOWM2 x = dbl_mul x (dbl_lit 79 10000)"
definition LIGHT_WM2TOLUX :: "dbl \<Rightarrow> dbl" where "LIGHT_WM2TOLUX x = dbl_div x (dbl_lit 79 10000)"

datatype tscale = TSCALE_F | TSCALE_C | TSCALE_K | TSCALE_R
datatype baroscale = BAROSCALE_IN | BAROSCALE_MM | BAROSCALE_MB | BAROSCALE_CB
datatype lengthscale = LENGTH_IN | LENGTH_MM
datatype speedscale = SPEED_MPH | SPEED_KNOTS | SPEED_MS | SPEED_KPH
datatype lightscale = LIGHT_LUX | LIGHT_WM2

definition tscales :: "tscale list" where "tscales = [TSCALE_F, TSCALE_C, TSCALE_K, TSCALE_R]"
definition baroscales :: "baroscale list" where
  "baroscales = [BAROSCALE_IN, BAROSCALE_MM, BAROSCALE_MB, BAROSCALE_CB]"
definition lengthscales :: "lengthscale list" where "lengthscales = [LENGTH_IN, LENGTH_MM]"
definition speedscales :: "speedscale list" where
  "speedscales = [SPEED_MPH, SPEED_KNOTS, SPEED_MS, SPEED_KPH]"
definition lightscales :: "lightscale list" where "lightscales = [LIGHT_LUX, LIGHT_WM2]"

text \<open>The enumerator of an \<^verbatim>\<open>int\<close>; none for a value out of range, where no \<^verbatim>\<open>case\<close> applies.\<close>

definition scale_at :: "'e list \<Rightarrow> int \<Rightarrow> 'e option" where
  "scale_at es i = (if i < 0 then None else enum_at es (nat i))"

definition gn_scale_temp :: "dbl \<Rightarrow> int \<Rightarrow> int \<Rightarrow> dbl" where
  "gn_scale_temp temp cur new =
     (let d = (case scale_at tscales cur of
                 Some TSCALE_K \<Rightarrow> KTOF temp
               | Some TSCALE_C \<Rightarrow> CTOF temp
               | Some TSCALE_R \<Rightarrow> RTOF temp
               | _ \<Rightarrow> temp)
      in case scale_at tscales new of
           Some TSCALE_K \<Rightarrow> CTOK (FTOC d)
         | Some TSCALE_C \<Rightarrow> FTOC d
         | Some TSCALE_R \<Rightarrow> FTOR d
         | _ \<Rightarrow> d)"

definition gn_scale_pressure :: "dbl \<Rightarrow> int \<Rightarrow> int \<Rightarrow> dbl" where
  "gn_scale_pressure press cur new =
     (let d = (case scale_at baroscales cur of
                 Some BAROSCALE_IN \<Rightarrow> BARO_INTOMB press
               | Some BAROSCALE_MM \<Rightarrow> BARO_MMTOMB press
               | Some BAROSCALE_CB \<Rightarrow> CBTOMB press
               | _ \<Rightarrow> press)
      in case scale_at baroscales new of
           Some BAROSCALE_IN \<Rightarrow> BARO_MBTOIN d
         | Some BAROSCALE_MM \<Rightarrow> BARO_MBTOMM d
         | Some BAROSCALE_CB \<Rightarrow> MBTOCB d
         | _ \<Rightarrow> d)"

definition gn_scale_speed :: "dbl \<Rightarrow> int \<Rightarrow> int \<Rightarrow> dbl" where
  "gn_scale_speed speed cur new =
     (let d = (case scale_at speedscales cur of
                 Some SPEED_KNOTS \<Rightarrow> KNOTSTOMPH speed
               | Some SPEED_MS \<Rightarrow> MSTOMPH speed
               | Some SPEED_KPH \<Rightarrow> KPHTOMPH speed
               | _ \<Rightarrow> speed)
      in case scale_at speedscales new of
           Some SPEED_KNOTS \<Rightarrow> MPHTOKNOTS d
         | Some SPEED_MS \<Rightarrow> MPHTOMS d
         | Some SPEED_KPH \<Rightarrow> MPHTOKPH d
         | _ \<Rightarrow> d)"

definition gn_scale_length :: "dbl \<Rightarrow> int \<Rightarrow> int \<Rightarrow> dbl" where
  "gn_scale_length len cur new =
     (let d = (case scale_at lengthscales cur of Some LENGTH_MM \<Rightarrow> MMTOIN len | _ \<Rightarrow> len)
      in case scale_at lengthscales new of Some LENGTH_MM \<Rightarrow> INTOMM d | _ \<Rightarrow> d)"

definition gn_scale_light :: "dbl \<Rightarrow> int \<Rightarrow> int \<Rightarrow> dbl" where
  "gn_scale_light light cur new =
     (let d = (case scale_at lightscales cur of Some LIGHT_WM2 \<Rightarrow> LIGHT_WM2TOLUX light | _ \<Rightarrow> light)
      in case scale_at lightscales new of Some LIGHT_WM2 \<Rightarrow> LIGHT_LUXTOWM2 d | _ \<Rightarrow> d)"

definition gn_maybe_scale :: "device \<Rightarrow> int \<Rightarrow> dbl \<Rightarrow> dbl" where
  "gn_maybe_scale dev scale val =
     (let cur = int (unat (d_scale dev))
      in if cur = scale then val
         else case subtype_of (d_subtype dev) of
                Some SUBTYPE_TEMP \<Rightarrow> gn_scale_temp val cur scale
              | Some SUBTYPE_PRESSURE \<Rightarrow> gn_scale_pressure val cur scale
              | Some SUBTYPE_SPEED \<Rightarrow> gn_scale_speed val cur scale
              | Some SUBTYPE_RAINRATE \<Rightarrow> gn_scale_length val cur scale
              | Some SUBTYPE_LUX \<Rightarrow> gn_scale_light val cur scale
              | _ \<Rightarrow> val)"

text \<open>The bits of the \<^verbatim>\<open>what\<close> argument of \<^verbatim>\<open>gn_update_device\<close>.\<close>

definition GNC_NOSCALE :: u32 where "GNC_NOSCALE = push_bit 0 1"
definition GNC_UPD_NAME :: u32 where "GNC_UPD_NAME = push_bit 1 1"
definition GNC_UPD_RRDNAME :: u32 where "GNC_UPD_RRDNAME = push_bit 2 1"
definition GNC_UPD_CACTI :: u32 where "GNC_UPD_CACTI = push_bit 3 1"
definition GNC_UPD_HANDLER :: u32 where "GNC_UPD_HANDLER = push_bit 4 1"
definition GNC_UPD_HARGS :: u32 where "GNC_UPD_HARGS = push_bit 5 1"
definition GNC_UPD_WATER :: u32 where "GNC_UPD_WATER = push_bit 6 1"
definition GNC_UPD_FULL :: u32 where "GNC_UPD_FULL = push_bit 7 1"
definition GNC_UPD_TAGS :: u32 where "GNC_UPD_TAGS = push_bit 17 1"

definition GNC_UPD_SCALE :: "int \<Rightarrow> u32" where
  "GNC_UPD_SCALE x = push_bit (nat ((8 + x) mod 32)) 1"

definition ffs :: "u32 \<Rightarrow> nat" where
  "ffs w = (case filter (bit w) [0..<32] of [] \<Rightarrow> 0 | i # _ \<Rightarrow> i + 1)"

definition GNC_GET_SCALE :: "u32 \<Rightarrow> int" where
  "GNC_GET_SCALE x = int (ffs (drop_bit 9 (x AND 0xff00)))"

definition QUERY_BIT :: "u32 \<Rightarrow> u32 \<Rightarrow> bool" where
  "QUERY_BIT x p \<longleftrightarrow> x AND p \<noteq> 0"

section \<open>Messages\<close>

abbreviation (input) newline :: char where "newline \<equiv> CHR 0x0A"

text \<open>\<^verbatim>\<open>"%s:%s"\<close> and \<^verbatim>\<open>"%s:\"%s\""\<close> with \<^verbatim>\<open>ARGNM(n)\<close>.\<close>

definition kv :: "sc \<Rightarrow> string \<Rightarrow> string" where
  "kv n v = argnm n @ CHR '':'' # v"

definition kvq :: "sc \<Rightarrow> string \<Rightarrow> string" where
  "kvq n v = argnm n @ CHR '':'' # quote_char # v @ [quote_char]"

text \<open>\<^verbatim>\<open>%d\<close> of a \<^verbatim>\<open>uint8_t\<close>.\<close>

definition fmt_b :: "u8 \<Rightarrow> string" where
  "fmt_b w = nat_dec (unat w)"

definition unregistered :: "device \<Rightarrow> bool" where
  "unregistered dev \<longleftrightarrow> d_type dev = 0 \<or> d_subtype dev = 0 \<or> d_proto dev = 0"

definition gn_register_device :: "device \<Rightarrow> string" where
  "gn_register_device dev =
     (case d_name dev of
        None \<Rightarrow> []
      | Some name \<Rightarrow>
          if unregistered dev then []
          else
            ''reg '' @ kv SC_UID (d_uid dev) @ '' '' @ kvq SC_NAME name @ '' '' @
            (case d_rrdname dev of None \<Rightarrow> [] | Some r \<Rightarrow> kv SC_RRDNAME r @ '' '') @
            (if d_scale dev \<noteq> 0 then kv SC_SCALE (fmt_b (d_scale dev)) @ '' '' else []) @
            kv SC_DEVTYPE (fmt_b (d_type dev)) @ '' '' @ kv SC_PROTO (fmt_b (d_proto dev)) @ '' '' @
            kv SC_SUBTYPE (fmt_b (d_subtype dev)) @ [newline])"

text \<open>The value of \<^verbatim>\<open>spamhandler\<close> for a device.\<close>

definition spam_text :: "device \<Rightarrow> string" where
  "spam_text dev =
     (if QUERY_FLAG (d_flags dev) DEVFLAG_SPAMHANDLER then ''1''
      else if QUERY_FLAG (d_flags dev) DEVFLAG_CHANGEHANDLER then ''2''
      else ''0'')"

text \<open>\<^verbatim>\<open>for (i = 0; i < n && a[i] != NULL; i++)\<close>, printing \<^verbatim>\<open>%s\<close> with commas in between.\<close>

fun until_null :: "strarr \<Rightarrow> nat \<Rightarrow> nat \<Rightarrow> string list res" where
  "until_null a i 0 = Inr []"
| "until_null a i (Suc n) =
     bindE (arr_nth a i) (\<lambda>c.
       if c = NullStr then Inr []
       else bindE (cell_fmt c) (\<lambda>s. bindE (until_null a (i + 1) n) (\<lambda>r. Inr (s # r))))"

definition list_arg :: "sc \<Rightarrow> strarr \<Rightarrow> nat \<Rightarrow> string res" where
  "list_arg n a k =
     (if a \<noteq> NullArr \<and> 0 < k
      then bindE (until_null a 0 k) (\<lambda>ss. Inr ('' '' @ kv n (join (CHR '','') ss)))
      else Inr [])"

definition gn_modify_device :: "device \<Rightarrow> string res" where
  "gn_modify_device dev =
     (case d_name dev of
        None \<Rightarrow> Inr []
      | Some name \<Rightarrow>
          let u1 = get_data_dev dev DATALOC_LOWAT 0; u2 = get_data_dev dev DATALOC_HIWAT u1;
              water =
                (case datatype_dev dev of
                   DATATYPE_UINT \<Rightarrow>
                     '' '' @ kv SC_LOWAT (fmt_d (ucast u1)) @ '' '' @ kv SC_HIWAT (fmt_d (ucast u2)) @ '' ''
                 | DATATYPE_LL \<Rightarrow>
                     '' '' @ kv SC_LOWAT (fmt_jd u1) @ '' '' @ kv SC_HIWAT (fmt_jd u2)
                 | DATATYPE_DOUBLE \<Rightarrow>
                     '' '' @ kv SC_LOWAT (fmt_f u1) @ '' '' @ kv SC_HIWAT (fmt_f u2));
              handler =
                (case d_handler dev of
                   None \<Rightarrow> []
                 | Some h \<Rightarrow> '' '' @ kv SC_HANDLER h @ '' '' @ kv SC_SPAM (spam_text dev) @ '' '')
          in bindE (list_arg SC_HARGS (d_hargs dev) (d_nrofhargs dev)) (\<lambda>hargs.
             bindE (list_arg SC_TAGS (d_tags dev) (d_nroftags dev)) (\<lambda>tags.
               Inr (''mod '' @ kv SC_UID (d_uid dev) @ '' '' @ kvq SC_NAME name @ '' '' @
                 (case d_rrdname dev of None \<Rightarrow> [] | Some r \<Rightarrow> kv SC_RRDNAME r @ '' '') @
                 (if d_scale dev \<noteq> 0 then kv SC_SCALE (fmt_b (d_scale dev)) @ '' '' else []) @
                 water @ handler @ hargs @ tags @ [newline]))))"

definition gn_register_devgroup_nameonly :: "group \<Rightarrow> string" where
  "gn_register_devgroup_nameonly g =
     (case g_name g of
        None \<Rightarrow> []
      | Some name \<Rightarrow> ''regg '' @ kv SC_UID (g_uid g) @ '' '' @ kvq SC_NAME name @ '' '' @ [newline])"

text \<open>A group with the uids of its children and of its members.\<close>

definition gn_register_devgroup :: "group \<Rightarrow> string list \<Rightarrow> string list \<Rightarrow> string" where
  "gn_register_devgroup g children members =
     (case g_name g of
        None \<Rightarrow> []
      | Some name \<Rightarrow>
          ''regg '' @ kv SC_UID (g_uid g) @ '' '' @ kvq SC_NAME name @ '' '' @
          (if children = [] then [] else kv SC_GROUPLIST (join (CHR '','') children)) @ '' '' @
          (if members = [] then [] else kv SC_DEVLIST (join (CHR '','') members)) @ [newline])"

text \<open>\<^verbatim>\<open>ARGDEV(dev)\<close>: the argument that carries the device's data.\<close>

definition argdev_sc :: "device \<Rightarrow> sc option" where
  "argdev_sc dev =
     (if dev_type_of (d_type dev) = Some DEVICE_DIMMER then Some SC_DIMMER
      else case subtype_of (d_subtype dev) of
        None \<Rightarrow> None
      | Some st \<Rightarrow>
         (case st of
            SUBTYPE_TEMP \<Rightarrow> Some SC_TEMP | SUBTYPE_HUMID \<Rightarrow> Some SC_HUMID
          | SUBTYPE_LUX \<Rightarrow> Some SC_LUX | SUBTYPE_COUNTER \<Rightarrow> Some SC_COUNT
          | SUBTYPE_PRESSURE \<Rightarrow> Some SC_PRESSURE | SUBTYPE_SPEED \<Rightarrow> Some SC_SPEED
          | SUBTYPE_DIR \<Rightarrow> Some SC_DIR | SUBTYPE_SWITCH \<Rightarrow> Some SC_SWITCH
          | SUBTYPE_OUTLET \<Rightarrow> Some SC_SWITCH | SUBTYPE_WETNESS \<Rightarrow> Some SC_WETNESS
          | SUBTYPE_PH \<Rightarrow> Some SC_PH | SUBTYPE_VOLTAGE \<Rightarrow> Some SC_VOLTAGE
          | SUBTYPE_WATTSEC \<Rightarrow> Some SC_WATTSEC | SUBTYPE_WATT \<Rightarrow> Some SC_WATT
          | SUBTYPE_AMPS \<Rightarrow> Some SC_AMPS | SUBTYPE_RAINRATE \<Rightarrow> Some SC_RAINRATE
          | SUBTYPE_WEATHER \<Rightarrow> Some SC_WEATHER | SUBTYPE_ALARMSTATUS \<Rightarrow> Some SC_ALARMSTATUS
          | SUBTYPE_NUMBER \<Rightarrow> Some SC_NUMBER | SUBTYPE_PERCENTAGE \<Rightarrow> Some SC_PERCENTAGE
          | SUBTYPE_FLOWRATE \<Rightarrow> Some SC_FLOWRATE | SUBTYPE_DISTANCE \<Rightarrow> Some SC_DISTANCE
          | SUBTYPE_VOLUME \<Rightarrow> Some SC_VOLUME | SUBTYPE_TIMER \<Rightarrow> Some SC_TIMER
          | SUBTYPE_THMODE \<Rightarrow> Some SC_THMODE | SUBTYPE_THSTATE \<Rightarrow> Some SC_THSTATE
          | SUBTYPE_SMNUMBER \<Rightarrow> Some SC_SMNUMBER | SUBTYPE_COLLECTOR \<Rightarrow> Some SC_COLLECTOR
          | SUBTYPE_BLIND \<Rightarrow> Some SC_BLIND | SUBTYPE_TRIGGER \<Rightarrow> Some SC_TRIGGER
          | SUBTYPE_ORP \<Rightarrow> Some SC_ORP | SUBTYPE_SALINITY \<Rightarrow> Some SC_SALINITY
          | SUBTYPE_DAYLIGHT \<Rightarrow> Some SC_DAYLIGHT | SUBTYPE_TRISTATE \<Rightarrow> Some SC_TRISTATE
          | SUBTYPE_MOONPH \<Rightarrow> Some SC_MOONPH
          | _ \<Rightarrow> None))"

text \<open>\<^verbatim>\<open>find_arg_bydev\<close>, with \<open>None\<close> for -1, and the macro that prints the name.\<close>

definition find_arg_bydev :: "device \<Rightarrow> nat option" where
  "find_arg_bydev dev = Option.bind (argdev_sc dev) (find_arg_byid (init_argcomm argtable))"

definition argdev :: "device \<Rightarrow> string" where
  "argdev dev =
     (case find_arg_bydev dev of
        None \<Rightarrow> ''fail''
      | Some i \<Rightarrow> arg_name (init_argcomm argtable ! i))"

text \<open>Handler arguments and tags in an update, each in quotes: \<^verbatim>\<open>hargs:"a","b" \<close>.\<close>

definition quoted_list :: "sc \<Rightarrow> strarr \<Rightarrow> nat \<Rightarrow> string res" where
  "quoted_list n a k =
     bindE (arr_strs cell_fmt a k) (\<lambda>ss.
       Inr (argnm n @ '':'' @ join (CHR '','') (map (\<lambda>s. quote_char # s @ [quote_char]) ss) @ '' ''))"

definition gn_update_cacti :: "device \<Rightarrow> int \<Rightarrow> string" where
  "gn_update_cacti dev scale =
     (let v = get_data_dev dev DATALOC_DATA 0
      in opt_fmt (d_rrdname dev) @ '':'' @
         (case datatype_dev dev of
            DATATYPE_UINT \<Rightarrow> fmt_d (ucast v)
          | DATATYPE_LL \<Rightarrow> fmt_jd v
          | DATATYPE_DOUBLE \<Rightarrow> fmt_f (gn_maybe_scale dev scale v)) @ [newline])"

definition update_values :: "device \<Rightarrow> int \<Rightarrow> bool \<Rightarrow> string" where
  "update_values dev scale water =
     (let v = get_data_dev dev DATALOC_DATA 0; lo = get_data_dev dev DATALOC_LOWAT v;
          hi = get_data_dev dev DATALOC_HIWAT lo
      in case datatype_dev dev of
           DATATYPE_UINT \<Rightarrow>
             argdev dev @ '':'' @ fmt_d (ucast v) @
             (if water then '' '' @ kv SC_LOWAT (fmt_d (ucast lo)) @ '' '' @
                kv SC_HIWAT (fmt_d (ucast hi)) @ '' '' else [])
         | DATATYPE_LL \<Rightarrow>
             argdev dev @ '':'' @ fmt_jd v @
             (if water then '' '' @ kv SC_LOWAT (fmt_jd lo) @ '' '' @ kv SC_HIWAT (fmt_jd hi) else [])
         | DATATYPE_DOUBLE \<Rightarrow>
             argdev dev @ '':'' @ fmt_f (gn_maybe_scale dev scale v) @
             (if water then '' '' @ kv SC_LOWAT (fmt_f lo) @ '' '' @ kv SC_HIWAT (fmt_f hi) else []))"

definition gn_update_device :: "device \<Rightarrow> u32 \<Rightarrow> string res" where
  "gn_update_device dev what =
     (case d_name dev of
        None \<Rightarrow> Inr []
      | Some name \<Rightarrow>
          if unregistered dev then Inr []
          else
            let scale = (if QUERY_BIT what GNC_NOSCALE then int (unat (d_scale dev)) else GNC_GET_SCALE what);
                full = QUERY_BIT what GNC_UPD_FULL
            in if QUERY_BIT what GNC_UPD_CACTI then Inr (gn_update_cacti dev scale)
               else
                 bindE (if (QUERY_BIT what GNC_UPD_HARGS \<or> full) \<and> 0 < d_nrofhargs dev \<and> d_hargs dev \<noteq> NullArr
                        then quoted_list SC_HARGS (d_hargs dev) (d_nrofhargs dev) else Inr []) (\<lambda>hargs.
                 bindE (if (QUERY_BIT what GNC_UPD_TAGS \<or> full) \<and> 0 < d_nroftags dev \<and> d_tags dev \<noteq> NullArr
                        then quoted_list SC_TAGS (d_tags dev) (d_nroftags dev) else Inr []) (\<lambda>tags.
                   Inr (''upd '' @ kv SC_UID (d_uid dev) @ '' '' @
                     (if QUERY_BIT what GNC_UPD_NAME \<or> full then kvq SC_NAME name @ '' '' else []) @
                     (case d_rrdname dev of
                        Some r \<Rightarrow> if QUERY_BIT what GNC_UPD_RRDNAME \<or> full then kv SC_RRDNAME r @ '' '' else []
                      | None \<Rightarrow> []) @
                     (case d_handler dev of
                        Some h \<Rightarrow> if QUERY_BIT what GNC_UPD_HANDLER \<or> full then kv SC_HANDLER h @ '' '' else []
                      | None \<Rightarrow> []) @
                     hargs @ tags @
                     (if full then
                        kv SC_DEVTYPE (fmt_b (d_type dev)) @ '' '' @ kv SC_PROTO (fmt_b (d_proto dev)) @ '' '' @
                        kv SC_SUBTYPE (fmt_b (d_subtype dev)) @ '' '' @ kv SC_SPAM (spam_text dev) @ '' '' @
                        (if d_scale dev \<noteq> 0 then kv SC_SCALE (fmt_b (d_scale dev)) @ '' '' else [])
                      else []) @
                     update_values dev scale (QUERY_BIT what GNC_UPD_WATER \<or> full) @ [newline]))))"

definition gn_disconnect :: string where "gn_disconnect = ''disconnect'' @ [newline]"
definition gn_ping :: string where "gn_ping = ''ping'' @ [newline]"
definition gn_imalive :: string where "gn_imalive = ''imalive'' @ [newline]"
definition gn_get_apiv :: string where "gn_get_apiv = ''getapiv'' @ [newline]"

text \<open>\<^verbatim>\<open>%0.3d\<close>: at least three digits.\<close>

definition fmt_03 :: "int \<Rightarrow> string" where
  "fmt_03 i = (if i < 0 then ''-'' else []) @ pad_zeros 3 (nat_dec (nat \<bar>i\<bar>))"

definition gn_client_name :: "string option \<Rightarrow> int \<Rightarrow> string" where
  "gn_client_name name collector_instance =
     (case name of
        None \<Rightarrow> []
      | Some s \<Rightarrow> ''client client:'' @ s @ ''-'' @ fmt_03 collector_instance @ [newline])"

definition gn_setalarm :: "string \<Rightarrow> string option \<Rightarrow> int \<Rightarrow> u32 \<Rightarrow> string" where
  "gn_setalarm aluid altext alsev alchan =
     ''setalarm '' @ kv SC_ALUID aluid @ '' '' @
     (case altext of None \<Rightarrow> [] | Some txt \<Rightarrow> kvq SC_ALTEXT txt @ '' '') @
     kv SC_ALSEV (int_dec alsev) @ '' '' @ kv SC_ALCHAN (fmt_u alchan) @ [newline]"

section \<open>Scale bits\<close>

lemma gn_maybe_scale_same: "gn_maybe_scale dev (int (unat (d_scale dev))) v = v"
  by (simp add: gn_maybe_scale_def)

text \<open>A mask that uses none of the bits 8 to 15.\<close>

definition scale_free :: "u32 \<Rightarrow> bool" where
  "scale_free m \<longleftrightarrow> m AND 0xff00 = 0"

lemma and_or_distrib: "(a OR b) AND c = (a AND c) OR (b AND (c :: u32))"
  by (rule bit_word_eqI) (auto simp: bit_simps)

lemma scale_bits:
  assumes "scale_free m" and "0 \<le> x" and "x \<le> 7"
  shows "GNC_GET_SCALE (m OR GNC_UPD_SCALE x) = x"
proof -
  have m: "GNC_GET_SCALE (m OR s) = GNC_GET_SCALE s" for s
    using assms(1) and_or_distrib [of m s "0xff00"] by (simp add: scale_free_def GNC_GET_SCALE_def)
  have "\<forall>x \<in> set [0, 1, 2, 3, 4, 5, 6, 7]. GNC_GET_SCALE (GNC_UPD_SCALE x) = x" by code_simp
  moreover from assms(2,3) have "x \<in> set [0, 1, 2, 3, 4, 5, 6, 7]" by auto
  ultimately show ?thesis unfolding m by blast
qed

section \<open>How a message is read back\<close>

lemma kv_simp: "kv n v = sc_name n @ CHR '':'' # v"
  by (simp add: kv_def)

lemma plain_kv: "plain (kv n v) \<longleftrightarrow> plain v"
  by (auto simp: kv_simp plain_def sc_name_safe)

lemma sc_name_hd: "hd (sc_name n @ s) \<noteq> CHR '' ''"
  using sc_name_chars [of "hd (sc_name n)" n] by (auto simp: lower_safe)

lemma dropWhile_kv [simp]:
  "dropWhile (\<lambda>x. x = CHR '' '') (kv n v @ s) = kv n v @ s"
  "dropWhile (\<lambda>x. x = CHR '' '') (kvq n v @ s) = kvq n v @ s"
  "dropWhile (\<lambda>x. x = CHR '' '') (kv n v) = kv n v"
  using sc_name_hd [of n]
  by (auto simp: kv_def kvq_def dropWhile_eq_self_iff)

lemma nc_words_kv: "plain v \<Longrightarrow> nc_words (kv n v @ CHR '' '' # s) [] = kv n v # nc_words (dropWhile (\<lambda>x. x = CHR '' '') s) []"
  by (simp add: nc_words_plain plain_kv nc_words_space)

lemma nc_words_kv_end: "plain v \<Longrightarrow> nc_words (kv n v) [] = [kv n v]"
  using nc_words_plain [of "kv n v" "[]" "[]"] by (simp add: plain_kv)

lemma nc_words_kvq:
  assumes "quotable v"
  shows "nc_words (kvq n v @ CHR '' '' # s) [] = kv n v # nc_words (dropWhile (\<lambda>x. x = CHR '' '') s) []"
proof -
  have "plain (sc_name n @ '':'')" by (simp add: plain_def sc_name_safe)
  then have "nc_words (kvq n v @ CHR '' '' # s) [] =
      nc_words (quote_char # v @ quote_char # CHR '' '' # s) (sc_name n @ '':'')"
    using nc_words_plain [of "sc_name n @ '':''" _ "[]"] by (simp add: kvq_def)
  also have "\<dots> = nc_words (CHR '' '' # s) ((sc_name n @ '':'') @ v)"
    by (rule nc_words_quoted) (use assms in simp_all)
  finally show ?thesis by (simp add: nc_words_space kv_simp)
qed

lemma parse_arg_kv:
  "parse_arg (kv n v) = Some \<lparr>a_cword = n, a_type = sc_type n, a_arg = arg_value (sc_type n) v\<rparr>"
  by (simp add: kv_simp parse_arg_sc_name)

lemma kv_nonempty [simp]: "kv n v \<noteq> []"
  by (simp add: kv_simp)

text \<open>The arguments of a message whose words are the given pairs.\<close>

definition pairs_args :: "(sc \<times> string) list \<Rightarrow> parg list" where
  "pairs_args ps = map (\<lambda>(n, v). \<lparr>a_cword = n, a_type = sc_type n, a_arg = arg_value (sc_type n) v\<rparr>) ps"

lemma parse_args_pairs: "parse_args (map (\<lambda>(n, v). kv n v) ps) = pairs_args ps"
proof -
  have "takeWhile (\<lambda>w. w \<noteq> []) (map (\<lambda>(n, v). kv n v) ps) = map (\<lambda>(n, v). kv n v) ps"
    by (auto simp: takeWhile_eq_all_conv)
  then show ?thesis
    by (simp add: parse_args_def pairs_args_def map_filter_def)
      (induction ps; force simp: parse_arg_kv)
qed

text \<open>What a device must be like for its registration to survive the wire.\<close>

definition wire_ok :: "device \<Rightarrow> bool" where
  "wire_ok dev \<longleftrightarrow> plain (d_uid dev) \<and> (case d_name dev of None \<Rightarrow> False | Some n \<Rightarrow> quotable n) \<and>
     (case d_rrdname dev of None \<Rightarrow> True | Some r \<Rightarrow> plain r) \<and> \<not> unregistered dev"

definition register_pairs :: "device \<Rightarrow> (sc \<times> string) list" where
  "register_pairs dev =
     [(SC_UID, d_uid dev), (SC_NAME, the (d_name dev))] @
     (case d_rrdname dev of None \<Rightarrow> [] | Some r \<Rightarrow> [(SC_RRDNAME, r)]) @
     (if d_scale dev \<noteq> 0 then [(SC_SCALE, fmt_b (d_scale dev))] else []) @
     [(SC_DEVTYPE, fmt_b (d_type dev)), (SC_PROTO, fmt_b (d_proto dev)), (SC_SUBTYPE, fmt_b (d_subtype dev))]"

lemma plain_fmt_b [simp]: "plain (fmt_b w)"
  by (auto simp: plain_def fmt_b_def dest: nat_dec_digits digit_not_special)

lemma register_words:
  assumes "wire_ok dev"
  shows "parse_netcommand (butlast (gn_register_device dev))
    = Some (''reg'' # map (\<lambda>(n, v). kv n v) (register_pairs dev))"
proof -
  from assms obtain name where n: "d_name dev = Some name" "quotable name" "plain (d_uid dev)"
      "\<not> unregistered dev"
    by (auto simp: wire_ok_def split: option.splits)
  have reg: "nc_words (''reg '' @ s) [] = ''reg'' # nc_words (dropWhile (\<lambda>x. x = CHR '' '') s) []" for s
    using nc_words_plain [of "''reg''" "CHR '' '' # s" "[]"] by (simp add: plain_def nc_words_space)
  show ?thesis
    using n assms
    by (cases "d_rrdname dev"; cases "d_scale dev = 0")
      (simp_all add: gn_register_device_def parse_netcommand_def butlast_append
        reg [simplified] nc_words_kv nc_words_kvq nc_words_kv_end register_pairs_def wire_ok_def)
qed

text \<open>An 8-bit number printed with \<^verbatim>\<open>%d\<close> and read with \<^verbatim>\<open>atoi\<close> into a \<^verbatim>\<open>uint8_t\<close>.\<close>

definition read_u8 :: "string \<Rightarrow> u8" where
  "read_u8 s = ucast (c_atoi s)"

lemma uint_u8_range: "- (2 ^ 63) \<le> uint (w :: u8)" "uint (w :: u8) < 2 ^ 63"
  using uint_lt2p [of w] by (auto intro: order_trans [OF _ uint_ge_0])

lemma fmt_b_int_dec: "fmt_b w = int_dec (uint w)"
  by (simp add: fmt_b_def int_dec_def flip: unat_eq_nat_uint)

lemma ucast_ucast_u8 [simp]: "ucast (ucast (w :: u8) :: u32) = w"
  by (rule bit_word_eqI) (auto simp: bit_simps)

interpretation b_atoi: number_text fmt_b read_u8
  by unfold_locales
    (simp_all add: fmt_b_int_dec read_u8_def c_atoi_def c_strtol_int_dec uint_u8_range int_dec_chars
      del: power_numeral)

end
