(* ===== verification/Registry.thy ===== *)
theory Registry
  imports Devices Gncoll
begin

text \<open>
  The tables of \<^verbatim>\<open>common/devices.c\<close>: the store of devices and groups, the two red-black
  trees by uid (as maps; inserting a key that is present leaves the tree as it is), the queues
  \<^verbatim>\<open>alldevs\<close> and \<^verbatim>\<open>allgroups\<close>, and the operations on them. Devices and groups are never
  freed.
\<close>

section \<open>State\<close>

record registry =
  dmem :: "dptr \<Rightarrow> device"
  dnext :: dptr
  devtab :: "string \<Rightarrow> dptr option"
  alldevs :: "dptr list"
  nrofdevs :: nat
  gmem :: "gptr \<Rightarrow> group"
  gnext :: gptr
  grptab :: "string \<Rightarrow> gptr option"
  allgroups :: "gptr list"

definition empty_registry :: registry where
  "empty_registry =
     \<lparr>dmem = (\<lambda>_. new_device []), dnext = 0, devtab = (\<lambda>_. None), alldevs = [], nrofdevs = 0,
      gmem = (\<lambda>_. new_group []), gnext = 0, grptab = (\<lambda>_. None), allgroups = []\<rparr>"

definition upd_dev :: "dptr \<Rightarrow> (device \<Rightarrow> device) \<Rightarrow> 'a registry_scheme \<Rightarrow> 'a registry_scheme" where
  "upd_dev p f st = st\<lparr>dmem := (dmem st)(p := f (dmem st p))\<rparr>"

definition upd_grp :: "gptr \<Rightarrow> (group \<Rightarrow> group) \<Rightarrow> 'a registry_scheme \<Rightarrow> 'a registry_scheme" where
  "upd_grp g f st = st\<lparr>gmem := (gmem st)(g := f (gmem st g))\<rparr>"

text \<open>A fresh device record (\<^verbatim>\<open>smalloc(device_t)\<close> with its uid filled in).\<close>

definition alloc_dev :: "device \<Rightarrow> 'a registry_scheme \<Rightarrow> dptr \<times> 'a registry_scheme" where
  "alloc_dev dev st = (dnext st, st\<lparr>dmem := (dmem st)(dnext st := dev), dnext := dnext st + 1\<rparr>)"

section \<open>Operations\<close>

definition find_device_byuid :: "'a registry_scheme \<Rightarrow> string \<Rightarrow> dptr option" where
  "find_device_byuid st uid = devtab st uid"

definition find_devgroup_byuid :: "'a registry_scheme \<Rightarrow> string \<Rightarrow> gptr option" where
  "find_devgroup_byuid st uid = grptab st uid"

text \<open>\<^verbatim>\<open>rb_tree_insert_node\<close>.\<close>

definition rb_insert :: "string \<Rightarrow> nat \<Rightarrow> (string \<Rightarrow> nat option) \<Rightarrow> (string \<Rightarrow> nat option)" where
  "rb_insert k p t = (if t k = None then t(k \<mapsto> p) else t)"

definition insert_device :: "dptr \<Rightarrow> 'a registry_scheme \<Rightarrow> 'a registry_scheme" where
  "insert_device p st =
     (let st1 = st\<lparr>devtab := rb_insert (d_uid (dmem st p)) p (devtab st), nrofdevs := nrofdevs st + 1\<rparr>;
          st2 = (if \<not> d_onq_all (dmem st1 p)
                 then upd_dev p (\<lambda>d. d\<lparr>d_onq_all := True\<rparr>) (st1\<lparr>alldevs := alldevs st1 @ [p]\<rparr>)
                 else st1)
      in upd_dev p (\<lambda>d. d\<lparr>d_flags := SET_FLAG (d_flags d) DEVFLAG_NODATA\<rparr>) st2)"

text \<open>A new group is never on the queue yet, so the test of \<^verbatim>\<open>GROUPONQ_ALL\<close> succeeds.\<close>

definition new_devgroup :: "string \<Rightarrow> 'a registry_scheme \<Rightarrow> gptr \<times> 'a registry_scheme" where
  "new_devgroup uid st =
     (let g = gnext st
      in (g, st\<lparr>gmem := (gmem st)(g := new_group uid), gnext := g + 1,
                grptab := rb_insert uid g (grptab st), allgroups := allgroups st @ [g]\<rparr>))"

definition add_dev_group :: "dptr \<Rightarrow> gptr \<Rightarrow> 'a registry_scheme \<Rightarrow> 'a registry_scheme" where
  "add_dev_group p g st = upd_grp g (\<lambda>r. r\<lparr>g_members := g_members r @ [p]\<rparr>) st"

definition remove_dev_group :: "dptr \<Rightarrow> gptr \<Rightarrow> 'a registry_scheme \<Rightarrow> 'a registry_scheme" where
  "remove_dev_group p g st = upd_grp g (\<lambda>r. r\<lparr>g_members := remove1 p (g_members r)\<rparr>) st"

definition add_group_group :: "gptr \<Rightarrow> gptr \<Rightarrow> 'a registry_scheme \<Rightarrow> 'a registry_scheme" where
  "add_group_group g1 g2 st =
     upd_grp g1 (\<lambda>r. r\<lparr>g_subgroup := g_subgroup r + 1\<rparr>)
       (upd_grp g2 (\<lambda>r. r\<lparr>g_children := g_children r @ [g1]\<rparr>) st)"

definition remove_group_group :: "gptr \<Rightarrow> gptr \<Rightarrow> 'a registry_scheme \<Rightarrow> 'a registry_scheme" where
  "remove_group_group g1 g2 st =
     (if g1 \<in> set (g_children (gmem st g2))
      then upd_grp g2 (\<lambda>r. r\<lparr>g_children := remove1 g1 (g_children r)\<rparr>)
             (upd_grp g1 (\<lambda>r. r\<lparr>g_subgroup := g_subgroup r - 1\<rparr>) st)
      else st)"

definition dev_in_group :: "dptr \<Rightarrow> gptr \<Rightarrow> 'a registry_scheme \<Rightarrow> bool" where
  "dev_in_group p g st \<longleftrightarrow> p \<in> set (g_members (gmem st g))"

definition group_in_group :: "gptr \<Rightarrow> gptr \<Rightarrow> 'a registry_scheme \<Rightarrow> bool" where
  "group_in_group h g st \<longleftrightarrow> h \<in> set (g_children (gmem st g))"

text \<open>The timer callback; \<open>notimerupdate\<close> is the global of that name.\<close>

definition cb_timerdev_update :: "bool \<Rightarrow> u64 \<Rightarrow> 'a registry_scheme \<Rightarrow> 'a registry_scheme" where
  "cb_timerdev_update notimerupdate junk st =
     (if notimerupdate then st else fold (\<lambda>p. upd_dev p (timer_tick junk)) (alldevs st) st)"

text \<open>\<^verbatim>\<open>gn_register_devgroup\<close> on a group of the store.\<close>

definition register_devgroup_msg :: "'a registry_scheme \<Rightarrow> gptr \<Rightarrow> string" where
  "register_devgroup_msg st g =
     gn_register_devgroup (gmem st g)
       (map (\<lambda>h. g_uid (gmem st h)) (g_children (gmem st g)))
       (map (\<lambda>p. d_uid (dmem st p)) (g_members (gmem st g)))"

section \<open>Frame rules\<close>

lemma upd_dev_simps [simp, frame_simps]:
  "dmem (upd_dev p f st) = (dmem st)(p := f (dmem st p))"
  "dnext (upd_dev p f st) = dnext st" "devtab (upd_dev p f st) = devtab st"
  "alldevs (upd_dev p f st) = alldevs st" "nrofdevs (upd_dev p f st) = nrofdevs st"
  "gmem (upd_dev p f st) = gmem st" "gnext (upd_dev p f st) = gnext st"
  "grptab (upd_dev p f st) = grptab st" "allgroups (upd_dev p f st) = allgroups st"
  "registry.more (upd_dev p f st) = registry.more st"
  by (simp_all add: upd_dev_def)

lemma upd_grp_simps [simp, frame_simps]:
  "gmem (upd_grp g f st) = (gmem st)(g := f (gmem st g))"
  "dmem (upd_grp g f st) = dmem st"
  "dnext (upd_grp g f st) = dnext st" "devtab (upd_grp g f st) = devtab st"
  "alldevs (upd_grp g f st) = alldevs st" "nrofdevs (upd_grp g f st) = nrofdevs st"
  "gnext (upd_grp g f st) = gnext st"
  "grptab (upd_grp g f st) = grptab st" "allgroups (upd_grp g f st) = allgroups st"
  "registry.more (upd_grp g f st) = registry.more st"
  by (simp_all add: upd_grp_def)

lemma insert_device_simps [simp, frame_simps]:
  "dnext (insert_device p st) = dnext st"
  "devtab (insert_device p st) = rb_insert (d_uid (dmem st p)) p (devtab st)"
  "alldevs (insert_device p st) = (if d_onq_all (dmem st p) then alldevs st else alldevs st @ [p])"
  "nrofdevs (insert_device p st) = nrofdevs st + 1"
  "gmem (insert_device p st) = gmem st" "gnext (insert_device p st) = gnext st"
  "grptab (insert_device p st) = grptab st" "allgroups (insert_device p st) = allgroups st"
  "dmem (insert_device p st) = (dmem st)(p := (dmem st p)\<lparr>d_onq_all := True,
      d_flags := SET_FLAG (d_flags (dmem st p)) DEVFLAG_NODATA\<rparr>)"
  by (auto simp: insert_device_def Let_def fun_eq_iff)

lemma new_devgroup_simps [simp, frame_simps]:
  "dnext (snd (new_devgroup u st)) = dnext st"
  "devtab (snd (new_devgroup u st)) = devtab st"
  "alldevs (snd (new_devgroup u st)) = alldevs st"
  "nrofdevs (snd (new_devgroup u st)) = nrofdevs st"
  "dmem (snd (new_devgroup u st)) = dmem st"
  "gnext (snd (new_devgroup u st)) = gnext st + 1"
  "gmem (snd (new_devgroup u st)) = (gmem st)(gnext st := new_group u)"
  "grptab (snd (new_devgroup u st)) = rb_insert u (gnext st) (grptab st)"
  "allgroups (snd (new_devgroup u st)) = allgroups st @ [gnext st]"
  "fst (new_devgroup u st) = gnext st"
  by (simp_all add: new_devgroup_def Let_def)

section \<open>Keyed tables\<close>

text \<open>A tree and a queue that hold the same records, each under its own key.\<close>

definition keyed_ok :: "(nat \<Rightarrow> string) \<Rightarrow> (string \<Rightarrow> nat option) \<Rightarrow> nat list \<Rightarrow> bool" where
  "keyed_ok key t q \<longleftrightarrow> distinct q \<and> (\<forall>u p. t u = Some p \<longleftrightarrow> p \<in> set q \<and> key p = u)"

text \<open>
  The interface of such a table: inserting a fresh record puts it under its key and at the end
  of the queue and leaves the other keys alone. Devices and groups both provide it.
\<close>

locale keyed_table =
  fixes key_of :: "'s \<Rightarrow> nat \<Rightarrow> string"
    and lookup :: "'s \<Rightarrow> string \<Rightarrow> nat option"
    and queue :: "'s \<Rightarrow> nat list"
    and insert_rec :: "nat \<Rightarrow> 's \<Rightarrow> 's"
    and fresh :: "nat \<Rightarrow> 's \<Rightarrow> bool"
  assumes insert_lookup:
      "fresh p s \<Longrightarrow> lookup (insert_rec p s) = rb_insert (key_of (insert_rec p s) p) p (lookup s)"
    and insert_queue: "fresh p s \<Longrightarrow> queue (insert_rec p s) = queue s @ [p]"
    and insert_key: "fresh p s \<Longrightarrow> q \<noteq> p \<Longrightarrow> key_of (insert_rec p s) q = key_of s q"
    and fresh_new: "fresh p s \<Longrightarrow> p \<notin> set (queue s)"
begin

lemma lookup_iff:
  "keyed_ok (key_of s) (lookup s) (queue s) \<Longrightarrow> lookup s u = Some p \<longleftrightarrow> p \<in> set (queue s) \<and> key_of s p = u"
  by (simp add: keyed_ok_def)

lemma keys_distinct:
  assumes "keyed_ok (key_of s) (lookup s) (queue s)" "p \<in> set (queue s)" "q \<in> set (queue s)"
    and "key_of s p = key_of s q"
  shows "p = q"
proof -
  from assms have "lookup s (key_of s p) = Some p" "lookup s (key_of s p) = Some q"
    by (auto simp: lookup_iff)
  then show ?thesis by simp
qed

lemma lookup_inserted:
  assumes "fresh p s" "lookup s (key_of (insert_rec p s) p) = None"
  shows "lookup (insert_rec p s) (key_of (insert_rec p s) p) = Some p"
  using assms by (simp add: insert_lookup rb_insert_def)

lemma lookup_other:
  assumes "fresh p s" "u \<noteq> key_of (insert_rec p s) p"
  shows "lookup (insert_rec p s) u = lookup s u"
  using assms by (simp add: insert_lookup rb_insert_def)

lemma insert_keyed_ok:
  assumes "keyed_ok (key_of s) (lookup s) (queue s)" "fresh p s"
    and "lookup s (key_of (insert_rec p s) p) = None"
  shows "keyed_ok (key_of (insert_rec p s)) (lookup (insert_rec p s)) (queue (insert_rec p s))"
proof -
  let ?k = "key_of (insert_rec p s) p"
  have absent: "key_of s q \<noteq> ?k" if "q \<in> set (queue s)" for q
    using lookup_iff [OF assms(1), of ?k q] assms(3) that by auto
  have other: "key_of (insert_rec p s) q = key_of s q" if "q \<in> set (queue s)" for q
    using insert_key [OF assms(2)] fresh_new [OF assms(2)] that by metis
  have "lookup (insert_rec p s) u = Some q \<longleftrightarrow>
      q \<in> set (queue s @ [p]) \<and> key_of (insert_rec p s) q = u" for u q
  proof (cases "u = ?k")
    case True
    then show ?thesis
      using lookup_inserted [OF assms(2,3)] absent other by auto
  next
    case False
    then show ?thesis
      using lookup_other [OF assms(2), of u] lookup_iff [OF assms(1), of u q] other
        fresh_new [OF assms(2)] by auto
  qed
  then show ?thesis
    using assms(1) fresh_new [OF assms(2)] insert_queue [OF assms(2)]
    by (simp add: keyed_ok_def)
qed

end

definition dev_key :: "'a registry_scheme \<Rightarrow> dptr \<Rightarrow> string" where
  "dev_key st p = d_uid (dmem st p)"

definition grp_key :: "'a registry_scheme \<Rightarrow> gptr \<Rightarrow> string" where
  "grp_key st g = g_uid (gmem st g)"

definition dev_fresh :: "dptr \<Rightarrow> 'a registry_scheme \<Rightarrow> bool" where
  "dev_fresh p st \<longleftrightarrow> \<not> d_onq_all (dmem st p) \<and> p \<notin> set (alldevs st)"

definition grp_fresh :: "gptr \<Rightarrow> 'a registry_scheme \<Rightarrow> bool" where
  "grp_fresh g st \<longleftrightarrow> g = gnext st \<and> g \<notin> set (allgroups st)"

lemma find_eta: "find_device_byuid st = devtab st" "find_devgroup_byuid st = grptab st"
  by (simp_all add: find_device_byuid_def find_devgroup_byuid_def fun_eq_iff)

interpretation devt: keyed_table dev_key find_device_byuid alldevs insert_device dev_fresh
  by unfold_locales (auto simp: dev_key_def find_eta dev_fresh_def)

interpretation grpt: keyed_table grp_key find_devgroup_byuid allgroups "\<lambda>g st. snd (new_devgroup u st)" grp_fresh
  for u
  by unfold_locales (auto simp: grp_key_def find_eta grp_fresh_def new_group_def)

section \<open>Well-formed registries\<close>

definition grp_ok :: "'a registry_scheme \<Rightarrow> gptr \<Rightarrow> bool" where
  "grp_ok st g \<longleftrightarrow>
     g < gnext st \<and> set (g_members (gmem st g)) \<subseteq> set (alldevs st) \<and>
     set (g_children (gmem st g)) \<subseteq> set (allgroups st)"

definition reg_ok :: "'a registry_scheme \<Rightarrow> bool" where
  "reg_ok st \<longleftrightarrow>
     keyed_ok (dev_key st) (find_device_byuid st) (alldevs st) \<and>
     keyed_ok (grp_key st) (find_devgroup_byuid st) (allgroups st) \<and>
     nrofdevs st = length (alldevs st) \<and>
     (\<forall>p \<in> set (alldevs st). p < dnext st \<and> d_onq_all (dmem st p)) \<and>
     (\<forall>g \<in> set (allgroups st). grp_ok st g)"

text \<open>The part of the state the invariant looks at; operations that keep it keep the invariant.\<close>

definition reg_view ::
    "'a registry_scheme \<Rightarrow> (dptr \<Rightarrow> string \<times> bool) \<times> dptr \<times> (string \<Rightarrow> dptr option) \<times> dptr list \<times> nat \<times>
      (gptr \<Rightarrow> group) \<times> gptr \<times> (string \<Rightarrow> gptr option) \<times> gptr list" where
  "reg_view st = (\<lambda>p. (d_uid (dmem st p), d_onq_all (dmem st p)), dnext st, devtab st, alldevs st,
     nrofdevs st, gmem st, gnext st, grptab st, allgroups st)"

lemma reg_view_ok: "reg_view a = reg_view b \<Longrightarrow> reg_ok a = reg_ok b"
  by (auto simp: reg_view_def reg_ok_def grp_ok_def keyed_ok_def dev_key_def grp_key_def
      find_device_byuid_def find_devgroup_byuid_def fun_eq_iff)

lemma reg_view_upd_dev [simp]:
  assumes "d_uid (f (dmem st p)) = d_uid (dmem st p)" "d_onq_all (f (dmem st p)) = d_onq_all (dmem st p)"
  shows "reg_view (upd_dev p f st) = reg_view st"
  using assms by (simp add: reg_view_def fun_eq_iff)

lemma reg_ok_upd_dev:
  assumes "reg_ok st" "d_uid (f (dmem st p)) = d_uid (dmem st p)"
    "d_onq_all (f (dmem st p)) = d_onq_all (dmem st p)"
  shows "reg_ok (upd_dev p f st)"
  using assms reg_view_ok [OF reg_view_upd_dev] by blast

lemma reg_ok_empty: "reg_ok empty_registry"
  by (simp add: reg_ok_def empty_registry_def keyed_ok_def find_device_byuid_def find_devgroup_byuid_def)

lemma reg_ok_find:
  "reg_ok st \<Longrightarrow> find_device_byuid st u = Some p \<longleftrightarrow> p \<in> set (alldevs st) \<and> d_uid (dmem st p) = u"
  using devt.lookup_iff [of st u p] by (simp add: reg_ok_def dev_key_def)

lemma reg_ok_find_grp:
  "reg_ok st \<Longrightarrow> find_devgroup_byuid st u = Some g \<longleftrightarrow> g \<in> set (allgroups st) \<and> g_uid (gmem st g) = u"
  using grpt.lookup_iff [of st u g] by (simp add: reg_ok_def grp_key_def)

lemma reg_ok_insert:
  assumes "reg_ok st" "p < dnext st" "dev_fresh p st" "find_device_byuid st (d_uid (dmem st p)) = None"
  shows "reg_ok (insert_device p st)"
proof -
  have k: "dev_key (insert_device p st) p = d_uid (dmem st p)" by (simp add: dev_key_def)
  have "keyed_ok (dev_key (insert_device p st)) (find_device_byuid (insert_device p st)) (alldevs (insert_device p st))"
    by (rule devt.insert_keyed_ok) (use assms k in \<open>auto simp: reg_ok_def\<close>)
  moreover have "grp_key (insert_device p st) = grp_key st"
    by (simp add: grp_key_def fun_eq_iff)
  moreover have "find_devgroup_byuid (insert_device p st) = find_devgroup_byuid st"
    by (simp add: find_devgroup_byuid_def fun_eq_iff)
  ultimately show ?thesis
    using assms by (auto simp: reg_ok_def grp_ok_def dev_fresh_def)
qed

lemma reg_ok_new_devgroup:
  assumes "reg_ok st" "find_devgroup_byuid st u = None"
  shows "reg_ok (snd (new_devgroup u st))"
proof -
  let ?s = "snd (new_devgroup u st)"
  have lt: "g < gnext st" if "g \<in> set (allgroups st)" for g
    using assms(1) that by (auto simp: reg_ok_def grp_ok_def)
  then have fresh: "grp_fresh (gnext st) st" by (auto simp: grp_fresh_def)
  have k: "grp_key ?s (gnext st) = u" by (simp add: grp_key_def new_group_def)
  have "keyed_ok (grp_key ?s) (find_devgroup_byuid ?s) (allgroups ?s)"
    using grpt.insert_keyed_ok [of st "gnext st" u] fresh assms k by (simp add: reg_ok_def)
  moreover have "dev_key ?s = dev_key st" "find_device_byuid ?s = find_device_byuid st"
    by (simp_all add: dev_key_def find_eta fun_eq_iff)
  ultimately show ?thesis
    using assms(1) lt by (auto simp: reg_ok_def grp_ok_def new_group_def intro: less_SucI)
qed

text \<open>An update of a group that keeps its uid and its lists inside the tables.\<close>

lemma reg_ok_upd_grp:
  assumes "reg_ok st" "g_uid (f (gmem st g)) = g_uid (gmem st g)"
    and "g \<in> set (allgroups st) \<Longrightarrow> set (g_members (f (gmem st g))) \<subseteq> set (alldevs st) \<and>
      set (g_children (f (gmem st g))) \<subseteq> set (allgroups st)"
  shows "reg_ok (upd_grp g f st)"
proof -
  have "grp_key (upd_grp g f st) = grp_key st" "dev_key (upd_grp g f st) = dev_key st"
    "find_devgroup_byuid (upd_grp g f st) = find_devgroup_byuid st"
    "find_device_byuid (upd_grp g f st) = find_device_byuid st"
    using assms(2) by (auto simp: grp_key_def dev_key_def find_eta fun_eq_iff)
  with assms(1,3) show ?thesis by (auto simp: reg_ok_def grp_ok_def)
qed

lemma reg_ok_group_lists:
  assumes "reg_ok st" "g \<in> set (allgroups st)"
  shows "set (g_members (gmem st g)) \<subseteq> set (alldevs st)"
    "set (g_children (gmem st g)) \<subseteq> set (allgroups st)"
  using assms by (auto simp: reg_ok_def grp_ok_def)

lemma reg_ok_upd_grp_sub:
  assumes "reg_ok st" "g_uid (f (gmem st g)) = g_uid (gmem st g)"
    and "set (g_members (f (gmem st g))) \<subseteq> set (g_members (gmem st g))"
    and "set (g_children (f (gmem st g))) \<subseteq> set (g_children (gmem st g))"
  shows "reg_ok (upd_grp g f st)"
  using assms(1,2) by (rule reg_ok_upd_grp) (use assms reg_ok_group_lists [OF assms(1)] in blast)

lemma reg_ok_add_dev_group:
  assumes "reg_ok st" "p \<in> set (alldevs st)"
  shows "reg_ok (add_dev_group p g st)"
  unfolding add_dev_group_def
  by (rule reg_ok_upd_grp) (use assms reg_ok_group_lists [OF assms(1)] in auto)

lemma reg_ok_remove_dev_group: "reg_ok st \<Longrightarrow> reg_ok (remove_dev_group p g st)"
  unfolding remove_dev_group_def by (rule reg_ok_upd_grp_sub) (simp_all add: set_remove1_subset)

lemma reg_ok_add_group_group:
  assumes "reg_ok st" "h \<in> set (allgroups st)"
  shows "reg_ok (add_group_group h g st)"
proof -
  have "reg_ok (upd_grp g (\<lambda>r. r\<lparr>g_children := g_children r @ [h]\<rparr>) st)"
    by (rule reg_ok_upd_grp) (use assms reg_ok_group_lists [OF assms(1)] in auto)
  then show ?thesis
    unfolding add_group_group_def by (rule reg_ok_upd_grp_sub) simp_all
qed

lemma in_remove1D: "x \<in> set (remove1 h xs) \<Longrightarrow> x \<in> set xs"
  by (rule subsetD [OF set_remove1_subset])

lemma reg_ok_remove_group_group:
  assumes "reg_ok st"
  shows "reg_ok (remove_group_group h g st)"
proof -
  have "reg_ok (upd_grp h (\<lambda>r. r\<lparr>g_subgroup := g_subgroup r - 1\<rparr>) st)"
    using assms by (rule reg_ok_upd_grp_sub) simp_all
  then have "reg_ok (upd_grp g (\<lambda>r. r\<lparr>g_children := remove1 h (g_children r)\<rparr>)
      (upd_grp h (\<lambda>r. r\<lparr>g_subgroup := g_subgroup r - 1\<rparr>) st))"
    by (rule reg_ok_upd_grp_sub) (auto split: if_splits intro: in_remove1D)
  with assms show ?thesis by (simp add: remove_group_group_def)
qed

lemma fold_upd_dev_view:
  assumes "\<And>d. d_uid (f d) = d_uid d \<and> d_onq_all (f d) = d_onq_all d"
  shows "reg_view (fold (\<lambda>p. upd_dev p f) ps st) = reg_view st"
  using assms by (induction ps arbitrary: st) simp_all

text \<open>A pass over distinct devices changes each of them once.\<close>

lemma fold_upd_dev:
  "distinct ps \<Longrightarrow> dmem (fold (\<lambda>p. upd_dev p f) ps st) q
    = (if q \<in> set ps then f (dmem st q) else dmem st q)"
  by (induction ps arbitrary: st) auto

lemma fold_upd_dev_more [simp]:
  "registry.more (fold (\<lambda>p. upd_dev p f) ps st) = registry.more st"
  by (induction ps arbitrary: st) simp_all

lemma cb_timerdev_view: "reg_view (cb_timerdev_update b j st) = reg_view st"
  by (simp add: cb_timerdev_update_def fold_upd_dev_view)

lemma cb_timerdev_dmem:
  "reg_ok st \<Longrightarrow> dmem (cb_timerdev_update False j st) p
    = (if p \<in> set (alldevs st) then timer_tick j (dmem st p) else dmem st p)"
  by (simp add: cb_timerdev_update_def fold_upd_dev reg_ok_def keyed_ok_def)

end
