(* ===== verification/Common.thy ===== *)
theory Common
  imports Structs "HOL-Library.Signed_Division"
begin

text \<open>
  The computing helpers of \<^verbatim>\<open>common/common.c\<close>: \<^verbatim>\<open>mk_rrdname\<close>, \<^verbatim>\<open>lcm\<close>, \<^verbatim>\<open>gcd\<close> and
  \<^verbatim>\<open>hex_decode\<close>. A C \<^verbatim>\<open>int\<close> is a mathematical integer; the values at which the code would
  overflow or trap are faults.
\<close>

section \<open>Names for rrd files\<close>

definition rrd_char :: "char \<Rightarrow> bool" where
  "rrd_char c \<longleftrightarrow> is_alpha c \<or> c = CHR ''_'' \<or> is_digit c"

text \<open>The loop of \<^verbatim>\<open>mk_rrdname\<close>: \<open>i\<close> characters are in the buffer, \<open>l\<close> is the length of the input.\<close>

fun mk_rrdname_loop :: "nat \<Rightarrow> nat \<Rightarrow> string \<Rightarrow> string" where
  "mk_rrdname_loop l i [] = []"
| "mk_rrdname_loop l i (c # p) =
     (if i < l \<and> i < 19 then
        (if rrd_char c then c # mk_rrdname_loop l (i + 1) p else mk_rrdname_loop l i p)
      else [])"

definition mk_rrdname :: "string \<Rightarrow> string" where
  "mk_rrdname orig = mk_rrdname_loop (length orig) 0 orig"

lemma mk_rrdname_loop_take:
  "i + length p \<le> l \<Longrightarrow> i \<le> 19 \<Longrightarrow> mk_rrdname_loop l i p = take (19 - i) (filter rrd_char p)"
proof (induction p arbitrary: i)
  case Nil
  then show ?case by simp
next
  case (Cons c p)
  then show ?case
    by (cases "i < 19") (auto simp: Suc_diff_Suc take_Cons')
qed

lemma mk_rrdname_take: "mk_rrdname s = take 19 (filter rrd_char s)"
  by (simp add: mk_rrdname_def mk_rrdname_loop_take)

section \<open>Greatest common divisor and least common multiple\<close>

text \<open>\<^verbatim>\<open>b % a\<close> truncates towards zero; \<^verbatim>\<open>INT_MIN % -1\<close> overflows.\<close>

definition c_mod :: "int \<Rightarrow> int \<Rightarrow> int res" where
  "c_mod b a =
     (if a = 0 then Inl DivZero
      else if a = -1 \<and> b = - (2 ^ 31) then Inl IntOverflow
      else Inr (b smod a))"

lemma smod_less: "a \<noteq> 0 \<Longrightarrow> \<bar>b smod a\<bar> < \<bar>a :: int\<bar>"
  by (simp add: signed_modulo_int_def abs_mult sgn_if abs_mod_less)

lemma c_mod_less: "c_mod b a = Inr r \<Longrightarrow> \<bar>r\<bar> < \<bar>a\<bar>"
  using smod_less [of a b] by (auto simp: c_mod_def split: if_splits)

function c_gcd :: "int \<Rightarrow> int \<Rightarrow> int res" where
  "c_gcd a b =
     (if a = 0 then Inr b
      else (case c_mod b a of Inl e \<Rightarrow> Inl e | Inr r \<Rightarrow> c_gcd r a))"
  by pat_completeness auto
termination
  by (relation "measure (\<lambda>(a, b). nat \<bar>a\<bar>)") (auto simp: c_mod_less)

declare c_gcd.simps [simp del]

text \<open>The search of \<^verbatim>\<open>lcm\<close> from \<open>temp\<close> on; past \<^verbatim>\<open>INT_MAX\<close> the increment overflows.\<close>

function c_lcm_loop :: "int \<Rightarrow> int \<Rightarrow> int \<Rightarrow> int res" where
  "c_lcm_loop a b temp =
     (case c_mod temp b of
        Inl e \<Rightarrow> Inl e
      | Inr r \<Rightarrow>
          (case (if r = 0 then c_mod temp a else Inr 1) of
             Inl e \<Rightarrow> Inl e
           | Inr q \<Rightarrow>
               if r = 0 \<and> q = 0 then Inr temp
               else if 2 ^ 31 - 1 \<le> temp then Inl IntOverflow
               else c_lcm_loop a b (temp + 1)))"
  by pat_completeness auto
termination
  by (relation "measure (\<lambda>(a, b, temp). nat (2 ^ 31 - 1 - temp))") auto

declare c_lcm_loop.simps [simp del]

definition c_lcm :: "int \<Rightarrow> int \<Rightarrow> int res" where
  "c_lcm a b = c_lcm_loop a b a"

lemma smod_dvd: "(a :: int) \<noteq> 0 \<Longrightarrow> b smod a = 0 \<longleftrightarrow> a dvd b"
  by (auto simp: signed_modulo_int_def sgn_if mod_eq_0_iff_dvd abs_if)

lemma gcd_smod:
  fixes a b :: int
  shows "gcd (b smod a) a = gcd a b"
proof -
  have "gcd a b = gcd a (b sdiv a * a + b smod a)" by (simp only: sdiv_mult_smod_eq)
  also have "\<dots> = gcd a (b smod a)" by (rule gcd_add_mult)
  finally show ?thesis by (simp add: gcd.commute)
qed

lemma c_gcd_correct: "c_gcd a b = Inr g \<Longrightarrow> \<bar>g\<bar> = gcd a b"
proof (induction a b arbitrary: g rule: c_gcd.induct)
  case (1 a b)
  show ?case
  proof (cases "a = 0")
    case True
    with "1.prems" show ?thesis by (simp add: c_gcd.simps [of 0])
  next
    case False
    with "1.prems" obtain r where r: "c_mod b a = Inr r" "c_gcd r a = Inr g"
      by (auto simp: c_gcd.simps [of a] split: sum.splits)
    then have "\<bar>g\<bar> = gcd r a" using "1.IH" [OF False r(1)] by blast
    moreover have "r = b smod a" using r(1) by (auto simp: c_mod_def split: if_splits)
    ultimately show ?thesis using gcd_smod by simp
  qed
qed

lemma c_gcd_nonneg: "0 \<le> a \<Longrightarrow> 0 \<le> b \<Longrightarrow> \<exists>g \<ge> 0. c_gcd a b = Inr g"
proof (induction a b rule: c_gcd.induct)
  case (1 a b)
  show ?case
  proof (cases "a = 0")
    case True
    with "1.prems" show ?thesis by (simp add: c_gcd.simps [of 0])
  next
    case False
    with "1.prems" have r: "c_mod b a = Inr (b smod a)" "0 \<le> b smod a"
      by (auto simp: c_mod_def signed_modulo_int_def sgn_if)
    with "1.IH" [OF False r(1)] "1.prems" False show ?thesis
      by (simp add: c_gcd.simps [of a])
  qed
qed

lemma c_gcd_gcd:
  assumes "0 \<le> a" and "0 \<le> b"
  shows "c_gcd a b = Inr (gcd a b)"
  using c_gcd_nonneg [OF assms] c_gcd_correct by (metis abs_of_nonneg)

lemma c_mod_pos: "0 < a \<Longrightarrow> c_mod b a = Inr (b smod a)"
  by (simp add: c_mod_def)

lemma c_lcm_loop_correct:
  assumes "0 < a" and "0 < b" and "lcm a b < 2 ^ 31"
  shows "0 < temp \<Longrightarrow> temp \<le> lcm a b \<Longrightarrow> c_lcm_loop a b temp = Inr (lcm a b)"
proof (induction "nat (lcm a b - temp)" arbitrary: temp)
  case 0
  then have "temp = lcm a b" by simp
  with assms show ?case
    by (simp add: c_lcm_loop.simps [of a b] c_mod_pos smod_dvd)
next
  case (Suc n)
  from Suc.hyps(2) have less: "temp < lcm a b" by simp
  have "\<not> (b dvd temp \<and> a dvd temp)"
  proof
    assume "b dvd temp \<and> a dvd temp"
    then have "lcm a b dvd temp" by simp
    with Suc.prems(1) have "lcm a b \<le> temp" by (rule zdvd_imp_le [rotated])
    with less show False by simp
  qed
  moreover have "c_lcm_loop a b (temp + 1) = Inr (lcm a b)"
    by (rule Suc.hyps(1)) (use Suc less in auto)
  ultimately show ?case
    using assms less by (subst c_lcm_loop.simps) (auto simp: c_mod_pos smod_dvd)
qed

lemma c_lcm_correct:
  assumes "0 < a" and "0 < b" and "lcm a b < 2 ^ 31"
  shows "c_lcm a b = Inr (lcm a b)"
proof -
  have "a \<le> lcm a b" using assms by (intro zdvd_imp_le) (simp_all add: lcm_pos_int)
  with c_lcm_loop_correct [OF assms, of a] assms(1) show ?thesis by (simp add: c_lcm_def)
qed

section \<open>Decoding hexadecimal text\<close>

text \<open>
  The macro \<^verbatim>\<open>HEXOF\<close>: the digit value, and 83 more than the (signed) character code for a
  character that is no digit (\<^verbatim>\<open>'\255'\<close> is octal, -83 as a \<^verbatim>\<open>char\<close>). Only the low 8 bits
  reach the output.
\<close>

definition hexof :: "char \<Rightarrow> u8" where
  "hexof x =
     (let c = chr_code x
      in of_nat c -
         (if 48 \<le> c \<and> c \<le> 57 then 48
          else if 97 \<le> c \<and> c \<le> 102 then 87
          else if 65 \<le> c \<and> c \<le> 70 then 55
          else 173))"

text \<open>
  The loop of \<^verbatim>\<open>hex_decode\<close> at offset \<open>k\<close> of the input. The two characters of a step are
  read without looking for the end of the string in between.
\<close>

fun hex_decode_loop :: "nat \<Rightarrow> nat \<Rightarrow> string \<Rightarrow> u8 list res" where
  "hex_decode_loop len k [] = Inr []"
| "hex_decode_loop len k [c] = (if k + 2 \<le> len then Inl OutOfBounds else Inr [])"
| "hex_decode_loop len k (c # d # p) =
     (if k + 2 \<le> len then
        bindE (hex_decode_loop len (k + 2) p) (\<lambda>out. Inr ((push_bit 4 (hexof c) + hexof d) # out))
      else Inr [])"

definition hex_decode :: "string \<Rightarrow> nat \<Rightarrow> u8 list option res" where
  "hex_decode inp len =
     (if len mod 2 = 1 then Inr None
      else bindE (hex_decode_loop len 0 inp) (\<lambda>out. Inr (Some out)))"

text \<open>The text that decodes to given bytes: two hexadecimal digits each, in either case.\<close>

definition hex_digit :: "bool \<Rightarrow> nat \<Rightarrow> char" where
  "hex_digit upper n = (if n < 10 then char_of (48 + n) else if upper then char_of (55 + n) else char_of (87 + n))"

definition hex_byte :: "bool \<Rightarrow> u8 \<Rightarrow> string" where
  "hex_byte upper w = [hex_digit upper (unat w div 16), hex_digit upper (unat w mod 16)]"

definition hex_text :: "bool \<Rightarrow> u8 list \<Rightarrow> string" where
  "hex_text upper ws = concat (map (hex_byte upper) ws)"

lemma hexof_digit: "n < 16 \<Longrightarrow> hexof (hex_digit upper n) = of_nat n"
  by (auto simp: hexof_def hex_digit_def Let_def)

lemma hex_byte_value:
  "push_bit 4 (of_nat (unat (w :: u8) div 16) :: u8) + of_nat (unat w mod 16) = w"
proof -
  have "(of_nat (unat w div 16 * 16 + unat w mod 16) :: u8) = w" by (simp only: div_mult_mod_eq) simp
  then show ?thesis
    unfolding of_nat_add of_nat_mult by (simp add: push_bit_eq_mult mult.commute)
qed

lemma hex_decode_loop_text:
  "length ws * 2 + k \<le> len \<Longrightarrow> hex_decode_loop len k (hex_text upper ws) = Inr ws"
proof (induction ws arbitrary: k)
  case Nil
  then show ?case by (simp add: hex_text_def)
next
  case (Cons w ws)
  have "hex_decode_loop len (Suc (Suc k)) (hex_text upper ws) = Inr ws"
    using Cons.IH [of "k + 2"] Cons.prems by simp
  moreover have "unat w < 256" using unsigned_less [of w] by simp
  then have "unat w div 16 < 16" by simp
  ultimately show ?case
    using Cons.prems hex_byte_value [of w]
    by (simp add: hex_text_def hex_byte_def hexof_digit)
qed

end
