(* ===== verification/Confparser.thy ===== *)
theory Confparser
  imports Registry Common
begin

text \<open>
  \<^verbatim>\<open>common/confparser.c\<close>: the value parsers and printers of the configuration options, and
  the conversion between devices and groups and their sections in the configuration kept by
  libconfuse. A section is a record of its options; an unset string is \<open>None\<close>, an unset
  number reads as 0. Reading and writing the files themselves is libconfuse's work.
\<close>

section \<open>Option values\<close>

text \<open>A chain of \<^verbatim>\<open>strcasecmp\<close> tests; \<open>None\<close> is the error return.\<close>

fun parse_table :: "(string \<times> 'v) list \<Rightarrow> string \<Rightarrow> 'v option" where
  "parse_table [] value = None"
| "parse_table ((name, v) # tab) value =
     (if strcaseeq value name then Some v else parse_table tab value)"

text \<open>A table of names in the order of their codes, as the printing loops index it.\<close>

definition name_lookup :: "('e \<times> string) list \<Rightarrow> string \<Rightarrow> 'e option" where
  "name_lookup tab value = map_of (map (\<lambda>(i, s). (s, i)) tab) value"

definition name_print :: "('e \<times> string) list \<Rightarrow> int \<Rightarrow> string" where
  "name_print tab i =
     (if 0 < i \<and> i < int (length tab) then snd (tab ! nat i) else snd (tab ! 0))"

definition conf_parse_bool :: "string \<Rightarrow> int option" where
  "conf_parse_bool = parse_table
     [(''yes'', 1), (''true'', 1), (''1'', 1), (''no'', 0), (''false'', 0), (''0'', 0)]"

definition conf_parse_spamhandler :: "string \<Rightarrow> int option" where
  "conf_parse_spamhandler = parse_table
     [(''yes'', 1), (''true'', 1), (''1'', 1), (''spam'', 1), (''no'', 0), (''false'', 0),
      (''0'', 0), (''2'', 2), (''change'', 2), (''onchange'', 2)]"

definition conf_parse_proto :: "string \<Rightarrow> u8 option" where
  "conf_parse_proto value = map_option proto_code (name_lookup devproto_map value)"

definition conf_print_proto :: "int \<Rightarrow> string" where
  "conf_print_proto i = name_print devproto_map i"

definition conf_parse_type :: "string \<Rightarrow> u8 option" where
  "conf_parse_type value = map_option dev_type_code (name_lookup devtype_map value)"

definition conf_print_type :: "int \<Rightarrow> string" where
  "conf_print_type i = name_print devtype_map i"

definition conf_parse_subtype :: "string \<Rightarrow> u8 option" where
  "conf_parse_subtype value = map_option subtype_code (name_lookup devsubtype_map value)"

definition conf_print_subtype :: "int \<Rightarrow> string" where
  "conf_print_subtype i = name_print devsubtype_map i"

definition conf_print_bool :: "int \<Rightarrow> string" where
  "conf_print_bool i = (if i = 1 then ''yes'' else ''no'')"

definition conf_print_spamhandler :: "int \<Rightarrow> string" where
  "conf_print_spamhandler i = (if i = 1 then ''yes'' else if i = 2 then ''onchange'' else ''no'')"

definition conf_parse_tscale :: "string \<Rightarrow> tscale option" where
  "conf_parse_tscale = parse_table
     [(''F'', TSCALE_F), (''FAHRENHEIT'', TSCALE_F), (''C'', TSCALE_C), (''CELCIUS'', TSCALE_C),
      (''K'', TSCALE_K), (''KELVIN'', TSCALE_K), (''R'', TSCALE_R), (''RANKINE'', TSCALE_R)]"

definition conf_print_tscale :: "int \<Rightarrow> string" where
  "conf_print_tscale i =
     (case scale_at tscales i of
        Some TSCALE_F \<Rightarrow> ''F'' | Some TSCALE_C \<Rightarrow> ''C'' | Some TSCALE_K \<Rightarrow> ''K'' | _ \<Rightarrow> ''C'')"

definition conf_parse_speedscale :: "string \<Rightarrow> speedscale option" where
  "conf_parse_speedscale = parse_table
     [(''MPH'', SPEED_MPH), (''MS'', SPEED_MS), (''KPH'', SPEED_KPH), (''KNOTS'', SPEED_KNOTS)]"

definition conf_print_speedscale :: "int \<Rightarrow> string" where
  "conf_print_speedscale i =
     (case scale_at speedscales i of
        Some SPEED_MS \<Rightarrow> ''ms'' | Some SPEED_KPH \<Rightarrow> ''kph'' | Some SPEED_KNOTS \<Rightarrow> ''knots'' | _ \<Rightarrow> ''mph'')"

definition conf_parse_lscale :: "string \<Rightarrow> lengthscale option" where
  "conf_parse_lscale = parse_table
     [(''IN'', LENGTH_IN), (''INCHES'', LENGTH_IN), (''MM'', LENGTH_MM), (''MILLIMETER'', LENGTH_MM)]"

definition conf_print_lscale :: "int \<Rightarrow> string" where
  "conf_print_lscale i = (case scale_at lengthscales i of Some LENGTH_MM \<Rightarrow> ''mm'' | _ \<Rightarrow> ''in'')"

definition conf_parse_baroscale :: "string \<Rightarrow> baroscale option" where
  "conf_parse_baroscale = parse_table
     [(''IN'', BAROSCALE_IN), (''INCHES'', BAROSCALE_IN), (''MM'', BAROSCALE_MM),
      (''MB'', BAROSCALE_MB), (''HPA'', BAROSCALE_MB), (''CB'', BAROSCALE_CB)]"

definition conf_print_baroscale :: "int \<Rightarrow> string" where
  "conf_print_baroscale i =
     (case scale_at baroscales i of
        Some BAROSCALE_IN \<Rightarrow> ''in'' | Some BAROSCALE_MM \<Rightarrow> ''mm'' | Some BAROSCALE_MB \<Rightarrow> ''mb''
      | Some BAROSCALE_CB \<Rightarrow> ''cb'' | None \<Rightarrow> ''mb'')"

definition conf_parse_lightscale :: "string \<Rightarrow> lightscale option" where
  "conf_parse_lightscale = parse_table
     [(''WM2'', LIGHT_WM2), (''W/M2'', LIGHT_WM2), (''W/M^2'', LIGHT_WM2), (''LUX'', LIGHT_LUX)]"

definition conf_print_lightscale :: "int \<Rightarrow> string" where
  "conf_print_lightscale i = (case scale_at lightscales i of Some LIGHT_WM2 \<Rightarrow> ''wm2'' | _ \<Rightarrow> ''lux'')"

datatype salinity = SALINITY_PPT | SALINITY_SG | SALINITY_COND

definition salinities :: "salinity list" where
  "salinities = [SALINITY_PPT, SALINITY_SG, SALINITY_COND]"

definition conf_parse_salinescale :: "string \<Rightarrow> salinity option" where
  "conf_parse_salinescale = parse_table
     [(''PPT'', SALINITY_PPT), (''SG'', SALINITY_SG), (''SALINITY_COND'', SALINITY_COND), (''MS'', SALINITY_COND)]"

definition conf_print_salinescale :: "int \<Rightarrow> string" where
  "conf_print_salinescale i =
     (case scale_at salinities i of Some SALINITY_SG \<Rightarrow> ''sg'' | Some SALINITY_COND \<Rightarrow> ''ms'' | _ \<Rightarrow> ''ppt'')"

definition conf_validate_port :: "int \<Rightarrow> bool" where
  "conf_validate_port value \<longleftrightarrow> 0 < value"

definition conf_validate_rrdname :: "string \<Rightarrow> bool" where
  "conf_validate_rrdname value \<longleftrightarrow> length value \<le> 19 \<and> list_all rrd_char value"

section \<open>The configuration\<close>

record devsec =
  cs_title :: string
  cs_name :: "string option"
  cs_loc :: "string option"
  cs_rrdname :: "string option"
  cs_subtype :: int
  cs_type :: int
  cs_proto :: int
  cs_tscale :: int
  cs_baroscale :: int
  cs_speedscale :: int
  cs_lengthscale :: int
  cs_lightscale :: int
  cs_multimodel :: "string option"
  cs_handler :: "string option"
  cs_hargs :: "string option list"
  cs_tags :: "string option list"
  cs_spamhandler :: int
  cs_hiwat :: dbl
  cs_lowat :: dbl

record grpsec =
  gs_title :: string
  gs_name :: "string option"
  gs_devices :: "string option list"
  gs_devgroups :: "string option list"

record conf =
  cf_devices :: "devsec list"
  cf_devgroups :: "grpsec list"

text \<open>
  \<^verbatim>\<open>cfg_setopt\<close> of libconfuse looks for a section of the same title before it adds one, so
  no two sections of one kind share a title.
\<close>

definition conf_ok :: "conf \<Rightarrow> bool" where
  "conf_ok cf \<longleftrightarrow> distinct (map cs_title (cf_devices cf)) \<and> distinct (map gs_title (cf_devgroups cf))"

definition new_devsec :: "string \<Rightarrow> devsec" where
  "new_devsec title =
     \<lparr>cs_title = title, cs_name = None, cs_loc = None, cs_rrdname = None, cs_subtype = 0,
      cs_type = 0, cs_proto = 0, cs_tscale = 0, cs_baroscale = 0, cs_speedscale = 0,
      cs_lengthscale = 0, cs_lightscale = 0, cs_multimodel = None, cs_handler = None,
      cs_hargs = [], cs_tags = [], cs_spamhandler = 0, cs_hiwat = 0, cs_lowat = 0\<rparr>"

definition new_grpsec :: "string \<Rightarrow> grpsec" where
  "new_grpsec title = \<lparr>gs_title = title, gs_name = None, gs_devices = [], gs_devgroups = []\<rparr>"

text \<open>\<^verbatim>\<open>cfg_setnstr\<close>: overwrite value \<open>i\<close> of a list, or add one at its end.\<close>

definition setn :: "'v list \<Rightarrow> nat \<Rightarrow> 'v \<Rightarrow> 'v list" where
  "setn xs i v = (if i < length xs then xs[i := v] else xs @ [v])"

definition setn_all :: "'v list \<Rightarrow> 'v list \<Rightarrow> 'v list" where
  "setn_all xs vs = fold (\<lambda>(i, v) xs. setn xs i v) (enumerate 0 vs) xs"

text \<open>The index of the first section with a title.\<close>

fun find_titled :: "('s \<Rightarrow> string) \<Rightarrow> string \<Rightarrow> 's list \<Rightarrow> nat option" where
  "find_titled f t [] = None"
| "find_titled f t (s # ss) = (if t = f s then Some 0 else map_option Suc (find_titled f t ss))"

definition find_devconf_byuid :: "conf \<Rightarrow> string \<Rightarrow> nat option" where
  "find_devconf_byuid cfg uid = find_titled cs_title uid (cf_devices cfg)"

definition find_devgrpconf_byuid :: "conf \<Rightarrow> string \<Rightarrow> nat option" where
  "find_devgrpconf_byuid cfg uid = find_titled gs_title uid (cf_devgroups cfg)"

section \<open>Devices and their sections\<close>

fun cell_opt :: "cell \<Rightarrow> string option res" where
  "cell_opt (Heap s) = Inr (Some s)"
| "cell_opt (Lit s) = Inr (Some s)"
| "cell_opt NullStr = Inr None"
| "cell_opt FreedStr = Inl UseAfterFree"

text \<open>\<^verbatim>\<open>for (i = 0; i < n; i++) cfg_setnstr(devconf, ..., a[i], i);\<close>\<close>

definition set_strs :: "strarr \<Rightarrow> nat \<Rightarrow> string option list \<Rightarrow> string option list res" where
  "set_strs a n xs =
     (if 0 < n \<and> a \<noteq> NullArr
      then foldE (\<lambda>i xs. bindE (arr_nth a i) (\<lambda>c. bindE (cell_opt c) (\<lambda>v. Inr (setn xs i v)))) [0..<n] xs
      else Inr xs)"

definition or_else :: "'v option \<Rightarrow> 'v option \<Rightarrow> 'v option" where
  "or_else a b = (case a of None \<Rightarrow> b | Some _ \<Rightarrow> a)"

definition set_scale :: "device \<Rightarrow> devsec \<Rightarrow> devsec" where
  "set_scale dev sec =
     (let v = int (unat (d_scale dev))
      in if d_subtype dev \<noteq> 0 \<and> d_scale dev \<noteq> 0 then
           (case subtype_of (d_subtype dev) of
              Some SUBTYPE_TEMP \<Rightarrow> sec\<lparr>cs_tscale := v\<rparr>
            | Some SUBTYPE_SPEED \<Rightarrow> sec\<lparr>cs_speedscale := v\<rparr>
            | Some SUBTYPE_PRESSURE \<Rightarrow> sec\<lparr>cs_baroscale := v\<rparr>
            | Some SUBTYPE_RAINRATE \<Rightarrow> sec\<lparr>cs_lengthscale := v\<rparr>
            | Some SUBTYPE_LUX \<Rightarrow> sec\<lparr>cs_lightscale := v\<rparr>
            | _ \<Rightarrow> sec)
         else sec)"

definition spam_code :: "device \<Rightarrow> int" where
  "spam_code dev =
     (if QUERY_FLAG (d_flags dev) DEVFLAG_CHANGEHANDLER then 2
      else if QUERY_FLAG (d_flags dev) DEVFLAG_SPAMHANDLER then 1 else 0)"

text \<open>A watermark as the configuration's \<^verbatim>\<open>double\<close>, and back.\<close>

definition water_to_dbl :: "datatype_t \<Rightarrow> u64 \<Rightarrow> dbl" where
  "water_to_dbl t v =
     (case t of
        DATATYPE_UINT \<Rightarrow> dbl_of_int (uint (ucast v :: u32))
      | DATATYPE_LL \<Rightarrow> dbl_of_int (sint v)
      | DATATYPE_DOUBLE \<Rightarrow> v)"

definition dbl_to_water :: "datatype_t \<Rightarrow> dbl \<Rightarrow> u64" where
  "dbl_to_water t x =
     (case t of
        DATATYPE_UINT \<Rightarrow> ucast (ucast (dbl_lrint x) :: u32)
      | DATATYPE_LL \<Rightarrow> dbl_lrint x
      | DATATYPE_DOUBLE \<Rightarrow> x)"

definition set_waters :: "device \<Rightarrow> devsec \<Rightarrow> devsec" where
  "set_waters dev sec =
     (let t = datatype_dev dev; lo = get_data_dev dev DATALOC_LOWAT 0; hi = get_data_dev dev DATALOC_HIWAT lo
      in sec\<lparr>cs_lowat := water_to_dbl t lo, cs_hiwat := water_to_dbl t hi\<rparr>)"

definition fill_devsec :: "device \<Rightarrow> devsec \<Rightarrow> devsec res" where
  "fill_devsec dev sec =
     (let sec1 = sec\<lparr>cs_loc := or_else (d_loc dev) (cs_loc sec), cs_name := or_else (d_name dev) (cs_name sec),
                     cs_rrdname := or_else (d_rrdname dev) (cs_rrdname sec),
                     cs_handler := or_else (d_handler dev) (cs_handler sec)\<rparr>
      in bindE (set_strs (d_hargs dev) (d_nrofhargs dev) (cs_hargs sec1)) (\<lambda>hs.
         bindE (set_strs (d_tags dev) (d_nroftags dev) (cs_tags sec1)) (\<lambda>ts.
           let sec2 = sec1\<lparr>cs_hargs := hs, cs_tags := ts\<rparr>;
               sec3 = (if d_subtype dev \<noteq> 0 then sec2\<lparr>cs_subtype := int (unat (d_subtype dev))\<rparr> else sec2);
               sec4 = (set_scale dev sec3)\<lparr>cs_spamhandler := spam_code dev\<rparr>;
               sec5 = (if d_type dev \<noteq> 0 then sec4\<lparr>cs_type := int (unat (d_type dev))\<rparr> else sec4);
               sec6 = (if d_proto dev \<noteq> 0 then sec5\<lparr>cs_proto := int (unat (d_proto dev))\<rparr> else sec5)
           in Inr (set_waters dev sec6))))"

text \<open>The section of a device, created at the end when there is none.\<close>

definition with_devsec :: "conf \<Rightarrow> string \<Rightarrow> nat \<times> devsec list" where
  "with_devsec cfg uid =
     (case find_devconf_byuid cfg uid of
        Some i \<Rightarrow> (i, cf_devices cfg)
      | None \<Rightarrow> (length (cf_devices cfg), cf_devices cfg @ [new_devsec uid]))"

definition new_conf_from_dev :: "conf \<Rightarrow> device \<Rightarrow> conf res" where
  "new_conf_from_dev cfg dev =
     (let (i, secs) = with_devsec cfg (d_uid dev)
      in bindE (fill_devsec dev (secs ! i)) (\<lambda>sec. Inr (cfg\<lparr>cf_devices := secs[i := sec]\<rparr>)))"

definition with_grpsec :: "conf \<Rightarrow> string \<Rightarrow> nat \<times> grpsec list" where
  "with_grpsec cfg uid =
     (case find_devgrpconf_byuid cfg uid of
        Some i \<Rightarrow> (i, cf_devgroups cfg)
      | None \<Rightarrow> (length (cf_devgroups cfg), cf_devgroups cfg @ [new_grpsec uid]))"

definition new_conf_from_devgrp :: "'a registry_scheme \<Rightarrow> conf \<Rightarrow> gptr \<Rightarrow> conf" where
  "new_conf_from_devgrp st cfg g =
     (let grp = gmem st g; (i, secs) = with_grpsec cfg (g_uid grp); sec = secs ! i;
          ms = map (\<lambda>p. Some (d_uid (dmem st p))) (g_members grp);
          cs = map (\<lambda>h. Some (g_uid (gmem st h))) (g_children grp)
      in cfg\<lparr>cf_devgroups := secs[i := sec\<lparr>gs_name := or_else (g_name grp) (gs_name sec),
           gs_devices := setn_all (gs_devices sec) ms, gs_devgroups := setn_all (gs_devgroups sec) cs\<rparr>]\<rparr>)"

text \<open>\<^verbatim>\<open>strdup\<close> of the values of a string list.\<close>

definition dup_list :: "string option list \<Rightarrow> cell list res" where
  "dup_list vs = foldE (\<lambda>v cs. case v of None \<Rightarrow> Inl NullDeref | Some s \<Rightarrow> Inr (cs @ [Heap s])) vs []"

definition conf_scale :: "devsec \<Rightarrow> u8 \<Rightarrow> u8 \<Rightarrow> u8" where
  "conf_scale sec st old =
     (case subtype_of st of
        Some SUBTYPE_TEMP \<Rightarrow> word_of_int (cs_tscale sec)
      | Some SUBTYPE_SPEED \<Rightarrow> word_of_int (cs_speedscale sec)
      | Some SUBTYPE_PRESSURE \<Rightarrow> word_of_int (cs_baroscale sec)
      | Some SUBTYPE_RAINRATE \<Rightarrow> word_of_int (cs_lengthscale sec)
      | Some SUBTYPE_LUX \<Rightarrow> word_of_int (cs_lightscale sec)
      | _ \<Rightarrow> old)"

definition load_waters :: "devsec \<Rightarrow> device \<Rightarrow> device" where
  "load_waters sec dev =
     (let t = datatype_dev dev
      in store_data_dev (store_data_dev dev DATALOC_LOWAT (dbl_to_water t (cs_lowat sec)))
           DATALOC_HIWAT (dbl_to_water t (cs_hiwat sec)))"

definition load_flags :: "devsec \<Rightarrow> device \<Rightarrow> device" where
  "load_flags sec dev =
     (if cs_spamhandler sec = 1 then dev\<lparr>d_flags := SET_FLAG (d_flags dev) DEVFLAG_SPAMHANDLER\<rparr>
      else if cs_spamhandler sec = 2 then dev\<lparr>d_flags := SET_FLAG (d_flags dev) DEVFLAG_CHANGEHANDLER\<rparr>
      else dev)"

text \<open>
  The body of \<^verbatim>\<open>new_dev_from_conf\<close> for a section that was found. An odd number of tags makes
  the code write behind the end of the array it has just allocated.
\<close>

definition load_dev :: "devsec \<Rightarrow> device \<Rightarrow> device res" where
  "load_dev sec dev =
     (let dev1 = dev\<lparr>d_loc := Some (case cs_loc sec of None \<Rightarrow> d_uid dev | Some l \<Rightarrow> l),
                     d_name := or_else (cs_name sec) (d_name dev),
                     d_rrdname := or_else (cs_rrdname sec) (d_rrdname dev),
                     d_handler := or_else (cs_handler sec) (d_handler dev)\<rparr>
      in bindE (if cs_hargs sec \<noteq> []
                then bindE (dup_list (cs_hargs sec)) (\<lambda>cs.
                       Inr (dev1\<lparr>d_hargs := Arr cs, d_nrofhargs := length cs\<rparr>))
                else Inr dev1) (\<lambda>dev2.
         bindE (if cs_tags sec \<noteq> []
                then bindE (dup_list (cs_tags sec)) (\<lambda>cs.
                       if odd (length cs) then Inl OutOfBounds
                       else Inr (dev2\<lparr>d_tags := Arr cs, d_nroftags := length cs\<rparr>))
                else Inr dev2) (\<lambda>dev3.
           let st = word_of_int (cs_subtype sec);
               dev4 = dev3\<lparr>d_proto := word_of_int (cs_proto sec), d_type := word_of_int (cs_type sec),
                           d_subtype := st, d_scale := conf_scale sec st (d_scale dev3),
                           d_localdata :=
                             (if cs_multimodel sec \<noteq> None \<and>
                                 subtype_of st \<in> {Some SUBTYPE_HUMID, Some SUBTYPE_LUX, Some SUBTYPE_PRESSURE,
                                   Some SUBTYPE_COUNTER}
                              then cs_multimodel sec else d_localdata dev3)\<rparr>
           in Inr (load_flags sec (load_waters sec dev4)))))"

definition new_dev_from_conf ::
    "conf \<Rightarrow> string \<Rightarrow> 'a registry_scheme \<Rightarrow> (dptr option \<times> 'a registry_scheme) res" where
  "new_dev_from_conf cfg uid st =
     (case find_devconf_byuid cfg uid of
        None \<Rightarrow> Inr (None, st)
      | Some i \<Rightarrow>
          let (p, st1) = (case find_device_byuid st uid of
                            Some p \<Rightarrow> (p, st)
                          | None \<Rightarrow> alloc_dev (new_device uid) st)
          in bindE (load_dev (cf_devices cfg ! i) (dmem st1 p)) (\<lambda>d.
               Inr (Some p, upd_dev p (\<lambda>_. d) st1)))"

text \<open>\<^verbatim>\<open>init_devtable\<close> with \<^verbatim>\<open>readconf\<close> set: one device for each section.\<close>

definition init_devtable :: "conf \<Rightarrow> registry res" where
  "init_devtable cfg =
     foldE (\<lambda>sec st. bindE (new_dev_from_conf cfg (cs_title sec) st) (\<lambda>(p, st1).
              case p of None \<Rightarrow> Inl NullDeref | Some q \<Rightarrow> Inr (insert_device q st1)))
       (cf_devices cfg) empty_registry"

text \<open>\<^verbatim>\<open>parse_devgroups\<close>: first all groups with their devices, then their children.\<close>

definition load_group :: "grpsec \<Rightarrow> 'a registry_scheme \<Rightarrow> 'a registry_scheme res" where
  "load_group sec st =
     (let (g, st1) = new_devgroup (gs_title sec) st
      in case gs_name sec of
           None \<Rightarrow> Inl NullDeref
         | Some name \<Rightarrow>
             foldE (\<lambda>v st. case v of None \<Rightarrow> Inl NullDeref
                | Some u \<Rightarrow> (case find_device_byuid st u of None \<Rightarrow> Inr st | Some p \<Rightarrow> Inr (add_dev_group p g st)))
               (gs_devices sec) (upd_grp g (\<lambda>r. r\<lparr>g_name := Some name\<rparr>) st1))"

definition chain_group :: "grpsec \<Rightarrow> 'a registry_scheme \<Rightarrow> 'a registry_scheme res" where
  "chain_group sec st =
     (case find_devgroup_byuid st (gs_title sec) of
        None \<Rightarrow> Inr st
      | Some g \<Rightarrow>
          foldE (\<lambda>v st. case v of None \<Rightarrow> Inl NullDeref
             | Some u \<Rightarrow> (case find_devgroup_byuid st u of None \<Rightarrow> Inr st | Some h \<Rightarrow> Inr (add_group_group h g st)))
            (gs_devgroups sec) st)"

definition parse_devgroups :: "conf \<Rightarrow> 'a registry_scheme \<Rightarrow> 'a registry_scheme res" where
  "parse_devgroups cfg st =
     bindE (foldE load_group (cf_devgroups cfg) st) (\<lambda>st1. foldE chain_group (cf_devgroups cfg) st1)"

section \<open>Dumping\<close>

abbreviation (input) CONF_DUMP_DEVONLY :: nat where "CONF_DUMP_DEVONLY \<equiv> 0"
abbreviation (input) CONF_DUMP_NOCOLLECTOR :: nat where "CONF_DUMP_NOCOLLECTOR \<equiv> 2"
abbreviation (input) CONF_DUMP_GROUPONLY :: nat where "CONF_DUMP_GROUPONLY \<equiv> 1"

text \<open>
  \<^verbatim>\<open>dump_conf\<close>: the sections brought up to date, and those written to the file; \<open>can_open\<close>
  is whether \<^verbatim>\<open>fopen\<close> succeeds.
\<close>

definition is_collector :: "u8 \<Rightarrow> bool" where
  "is_collector st \<longleftrightarrow> subtype_of st = Some SUBTYPE_COLLECTOR"

definition refresh_conf :: "'a registry_scheme \<Rightarrow> dptr list \<Rightarrow> conf \<Rightarrow> conf res" where
  "refresh_conf st ps cfg = foldE (\<lambda>p cfg. new_conf_from_dev cfg (dmem st p)) ps cfg"

definition dump_conf :: "'a registry_scheme \<Rightarrow> u32 \<Rightarrow> bool \<Rightarrow> conf \<Rightarrow> (conf \<times> conf option) res" where
  "dump_conf st flags can_open cfg =
     (if \<not> can_open then Inr (cfg, None)
      else
        let noc = QUERY_FLAG flags CONF_DUMP_NOCOLLECTOR; devonly = QUERY_FLAG flags CONF_DUMP_DEVONLY;
            grponly = QUERY_FLAG flags CONF_DUMP_GROUPONLY
        in bindE (refresh_conf st
                    (filter (\<lambda>p. noc \<and> \<not> is_collector (d_subtype (dmem st p))) (alldevs st)) cfg) (\<lambda>cfg1.
             Inr (cfg1, Some
               \<lparr>cf_devices =
                  (if devonly \<and> noc
                   then filter (\<lambda>s. cs_subtype s \<noteq> int (unat (subtype_code SUBTYPE_COLLECTOR))) (cf_devices cfg1)
                   else if \<not> devonly \<and> \<not> grponly then cf_devices cfg1 else []),
                cf_devgroups =
                  (if grponly then cf_devgroups cfg1
                   else if \<not> devonly then cf_devgroups cfg1 else [])\<rparr>)))"

section \<open>Laws\<close>

lemma mk_rrdname_valid: "conf_validate_rrdname (mk_rrdname s)"
  by (auto simp: conf_validate_rrdname_def mk_rrdname_take list_all_iff dest: in_set_takeD)

lemma valid_mk_rrdname: "conf_validate_rrdname s \<Longrightarrow> mk_rrdname s = s"
  by (simp add: conf_validate_rrdname_def mk_rrdname_take list_all_iff)

text \<open>The name maps are indexed by their codes, and no two entries of one map share a name.\<close>

lemma name_map_ids:
  "map fst devtype_map = dev_types" "map fst devproto_map = protos" "map fst devsubtype_map = subtypes"
  by (simp_all add: devtype_map_def dev_types_def devproto_map_def protos_def devsubtype_map_def subtypes_def)

lemma name_map_distinct:
  "distinct (map snd devtype_map)" "distinct (map snd devproto_map)" "distinct (map snd devsubtype_map)"
  by (simp_all add: devtype_map_def devproto_map_def devsubtype_map_def)

lemma name_lookup_nth:
  assumes "distinct (map snd tab)" "i < length tab"
  shows "name_lookup tab (snd (tab ! i)) = Some (fst (tab ! i))"
proof -
  have "distinct (map fst (map (\<lambda>(e, s). (s, e)) tab))"
    using assms(1) by (simp add: comp_def case_prod_unfold)
  moreover have "(snd (tab ! i), fst (tab ! i)) \<in> set (map (\<lambda>(e, s). (s, e)) tab)"
    using assms(2) by (force simp: in_set_conv_nth)
  ultimately show ?thesis unfolding name_lookup_def by (rule map_of_is_SomeI)
qed

text \<open>Printing the code of an enumerator and parsing the text gives the code back.\<close>

lemma print_parse:
  assumes "distinct (map snd tab)" "map fst tab = es" "e \<in> set es" "es \<noteq> []"
  shows "name_lookup tab (name_print tab (int (enum_index e es))) = Some e"
proof -
  let ?i = "enum_index e es"
  have len: "length tab = length es" using assms(2) by (metis length_map)
  have i: "?i < length es" using assms(3) by (rule enum_index_less)
  have p: "name_print tab (int ?i) = snd (tab ! ?i)"
    using i len by (cases "?i = 0") (simp_all add: name_print_def)
  have "fst (tab ! ?i) = es ! ?i" using i len assms(2) by (metis nth_map)
  also have "\<dots> = e" using enum_at_index [OF assms(3)] i by (simp add: enum_at_def)
  finally show ?thesis using name_lookup_nth [OF assms(1), of ?i] p i len by simp
qed

lemma enum_code_nat:
  assumes "enum_index e es < length es" "length es < 256"
  shows "unat (of_nat (enum_index e es) :: u8) = enum_index e es"
  using assms by (simp add: unat_of_nat take_bit_nat_eq_self)

lemma type_print_parse: "conf_parse_type (conf_print_type (int (unat (dev_type_code t)))) = Some (dev_type_code t)"
proof -
  have t: "t \<in> set dev_types" by (cases t) (simp_all add: dev_types_def)
  have "unat (dev_type_code t) = enum_index t dev_types"
    unfolding dev_type_code_def by (rule enum_code_nat [OF enum_index_less [OF t]]) (simp add: dev_types_def)
  moreover have "dev_types \<noteq> []" by (simp add: dev_types_def)
  ultimately show ?thesis
    using print_parse [OF name_map_distinct(1) name_map_ids(1) t]
    by (simp add: conf_parse_type_def conf_print_type_def)
qed

lemma proto_print_parse: "conf_parse_proto (conf_print_proto (int (unat (proto_code p)))) = Some (proto_code p)"
proof -
  have p: "p \<in> set protos" by (cases p) (simp_all add: protos_def)
  have "unat (proto_code p) = enum_index p protos"
    unfolding proto_code_def by (rule enum_code_nat [OF enum_index_less [OF p]]) (simp add: protos_def)
  moreover have "protos \<noteq> []" by (simp add: protos_def)
  ultimately show ?thesis
    using print_parse [OF name_map_distinct(2) name_map_ids(2) p]
    by (simp add: conf_parse_proto_def conf_print_proto_def)
qed

lemma subtype_print_parse:
  "conf_parse_subtype (conf_print_subtype (int (unat (subtype_code s)))) = Some (subtype_code s)"
proof -
  have s: "s \<in> set subtypes" by (cases s) (simp_all add: subtypes_def)
  have "unat (subtype_code s) = enum_index s subtypes"
    unfolding subtype_code_def by (rule enum_code_nat [OF enum_index_less [OF s]]) (simp add: subtypes_def)
  moreover have "subtypes \<noteq> []" by (simp add: subtypes_def)
  ultimately show ?thesis
    using print_parse [OF name_map_distinct(3) name_map_ids(3) s]
    by (simp add: conf_parse_subtype_def conf_print_subtype_def)
qed

end
