(* ===== verification/Alarms.thy ===== *)
theory Alarms
  imports Structs Netparser
begin

text \<open>
  \<^verbatim>\<open>common/alarms.c\<close>: the list of alarms, searched by uid, and the operation that creates,
  updates and deletes one. The abstract view is a map from uids to text, severity and channels.
\<close>

section \<open>The list\<close>

definition find_alarm_by_aluid :: "string \<Rightarrow> alarm list \<Rightarrow> alarm option" where
  "find_alarm_by_aluid aluid as = find (\<lambda>a. aluid = al_uid a) as"

text \<open>Writing through, and unlinking, the alarm that the search returned.\<close>

fun upd_alarm :: "string \<Rightarrow> (alarm \<Rightarrow> alarm) \<Rightarrow> alarm list \<Rightarrow> alarm list" where
  "upd_alarm u f [] = []"
| "upd_alarm u f (a # as) = (if u = al_uid a then f a # as else a # upd_alarm u f as)"

fun del_alarm :: "string \<Rightarrow> alarm list \<Rightarrow> alarm list" where
  "del_alarm u [] = []"
| "del_alarm u (a # as) = (if u = al_uid a then as else a # del_alarm u as)"

text \<open>The update of an existing alarm. A severity of -1 means that none was given.\<close>

definition change_alarm :: "string option \<Rightarrow> int \<Rightarrow> u32 \<Rightarrow> alarm \<Rightarrow> alarm" where
  "change_alarm altext alsev alchan a =
     a\<lparr>al_text := (if al_text a \<noteq> None \<and> altext \<noteq> None then altext else al_text a),
       al_sev := (if alsev \<noteq> -1 then alsev else al_sev a),
       al_chan := (if alchan < 1 then SET_FLAG alchan ACHAN_GENERIC else alchan)\<rparr>"

text \<open>\<^verbatim>\<open>update_alarm\<close>: the alarm it returns (\<open>None\<close> for NULL) and the new list.\<close>

definition update_alarm ::
    "string \<Rightarrow> string option \<Rightarrow> int \<Rightarrow> u32 \<Rightarrow> alarm list \<Rightarrow> alarm option \<times> alarm list" where
  "update_alarm aluid altext alsev alchan as =
     (case find_alarm_by_aluid aluid as of
        None \<Rightarrow>
          if alsev = 0 then (None, as)
          else (case altext of
                  None \<Rightarrow> (None, as)
                | Some t \<Rightarrow>
                    let a = \<lparr>al_uid = aluid, al_text = Some t, al_sev = alsev, al_chan = alchan\<rparr>
                    in (Some a, as @ [a]))
      | Some a \<Rightarrow>
          if alsev = 0 then (None, del_alarm aluid as)
          else (Some (change_alarm altext alsev alchan a),
                upd_alarm aluid (change_alarm altext alsev alchan) as))"

text \<open>
  \<^verbatim>\<open>cmd_alarm\<close>, a collector's handler of an alarm message; the collector's own callback
  \<^verbatim>\<open>coll_alarm_cb\<close> gets the alarm and the uid, here as the result.
\<close>

definition cmd_alarm :: "parg list \<Rightarrow> alarm list \<Rightarrow> int \<times> (alarm option \<times> string) option \<times> alarm list" where
  "cmd_alarm args as =
     (case str_arg args SC_ALUID of
        None \<Rightarrow> (-1, None, as)
      | Some aluid \<Rightarrow>
          let (a, as') = update_alarm aluid (str_arg args SC_ALTEXT) (int_arg args SC_ALSEV 0)
                           (u_arg args SC_ALCHAN 1) as
          in (0, Some (a, aluid), as'))"

section \<open>The abstract view\<close>

definition alarm_map :: "alarm list \<Rightarrow> string \<Rightarrow> alarm option" where
  "alarm_map as u = find_alarm_by_aluid u as"

definition alarms_ok :: "alarm list \<Rightarrow> bool" where
  "alarms_ok as \<longleftrightarrow> distinct (map al_uid as)"

text \<open>What one update means for the map.\<close>

definition alarm_spec ::
    "string \<Rightarrow> string option \<Rightarrow> int \<Rightarrow> u32 \<Rightarrow> (string \<Rightarrow> alarm option) \<Rightarrow> (string \<Rightarrow> alarm option)" where
  "alarm_spec u txt sev chan m =
     (if sev = 0 then m(u := None)
      else case m u of
             Some a \<Rightarrow> m(u \<mapsto> change_alarm txt sev chan a)
           | None \<Rightarrow>
               (case txt of
                  None \<Rightarrow> m
                | Some t \<Rightarrow> m(u \<mapsto> \<lparr>al_uid = u, al_text = Some t, al_sev = sev, al_chan = chan\<rparr>)))"

lemma change_alarm_uid [simp]: "al_uid (change_alarm t s c a) = al_uid a"
  by (simp add: change_alarm_def)

lemma alarm_map_simps [simp]:
  "alarm_map [] = (\<lambda>_. None)"
  "alarm_map (a # as) = (\<lambda>u. if u = al_uid a then Some a else alarm_map as u)"
  by (auto simp: alarm_map_def find_alarm_by_aluid_def fun_eq_iff)

lemma alarm_map_append:
  "alarm_map (as @ bs) u = (case alarm_map as u of None \<Rightarrow> alarm_map bs u | Some a \<Rightarrow> Some a)"
  by (induction as) auto

lemma alarm_map_None: "alarm_map as u = None \<longleftrightarrow> u \<notin> al_uid ` set as"
  by (induction as) auto

lemma alarm_map_Some: "alarm_map as u = Some a \<Longrightarrow> a \<in> set as \<and> al_uid a = u"
  by (induction as) (auto split: if_splits)

lemma map_upd_alarm:
  "(\<And>a. al_uid (f a) = al_uid a) \<Longrightarrow> map al_uid (upd_alarm u f as) = map al_uid as"
  by (induction as) auto

lemma alarm_map_upd:
  "(\<And>a. al_uid (f a) = al_uid a) \<Longrightarrow>
    alarm_map (upd_alarm u f as) = (alarm_map as)(u := map_option f (alarm_map as u))"
  by (induction as) (auto simp: fun_eq_iff)

lemma set_del_alarm: "set (del_alarm u as) \<subseteq> set as"
  by (induction as) auto

lemma distinct_del_alarm: "distinct (map al_uid as) \<Longrightarrow> distinct (map al_uid (del_alarm u as))"
  by (induction as) (use set_del_alarm in fastforce)+

lemma alarm_map_del:
  "distinct (map al_uid as) \<Longrightarrow> alarm_map (del_alarm u as) = (alarm_map as)(u := None)"
proof (induction as)
  case Nil
  then show ?case by simp
next
  case (Cons a as)
  then have "alarm_map as (al_uid a) = None" by (simp add: alarm_map_None)
  with Cons show ?case by (auto simp: fun_eq_iff)
qed

lemma update_alarm_ok:
  assumes "alarms_ok as"
  shows "alarms_ok (snd (update_alarm u t s c as))"
proof (cases "find_alarm_by_aluid u as")
  case None
  then have "u \<notin> al_uid ` set as" by (simp add: alarm_map_None flip: alarm_map_def)
  with assms None show ?thesis
    by (auto simp: update_alarm_def alarms_ok_def Let_def split: option.split)
next
  case (Some a)
  with assms show ?thesis
    by (simp add: update_alarm_def alarms_ok_def distinct_del_alarm map_upd_alarm)
qed

lemma update_alarm_refines:
  assumes "alarms_ok as"
  shows "alarm_map (snd (update_alarm u t s c as)) = alarm_spec u t s c (alarm_map as)"
proof (cases "find_alarm_by_aluid u as")
  case None
  then have m: "alarm_map as u = None" by (simp add: alarm_map_def)
  then have "(alarm_map as)(u := None) = alarm_map as" by (simp add: fun_upd_idem)
  with m None show ?thesis
    by (auto simp: update_alarm_def alarm_spec_def Let_def alarm_map_append fun_eq_iff split: option.split)
next
  case (Some a)
  then have "alarm_map as u = Some a" by (simp add: alarm_map_def)
  with assms Some show ?thesis
    by (simp add: update_alarm_def alarm_spec_def alarms_ok_def alarm_map_del alarm_map_upd)
qed

lemma update_alarm_result:
  assumes "alarms_ok as"
  shows "fst (update_alarm u t s c as)
    = (if s = 0 \<or> (alarm_map as u = None \<and> t = None) then None
       else alarm_spec u t s c (alarm_map as) u)"
  by (auto simp: update_alarm_def alarm_spec_def alarm_map_def Let_def split: option.split)

end
