(* ===== verification/Server.thy ===== *)
theory Server
  imports Registry Confparser Alarms
begin

text \<open>
  The state of the server \<^verbatim>\<open>gnhastd\<close>: the registry of devices and groups, the clients, the
  alarms and the configuration; what an event takes from outside (time, the outcome of system
  calls, the contents of uninitialised memory); and the helpers the command handlers share,
  with \<^verbatim>\<open>gnhastd/script_handler.c\<close> and the dump callbacks of \<^verbatim>\<open>gnhastd/gnhastd.c\<close>.
\<close>

section \<open>State and environment\<close>

record server = registry +
  cli :: "cptr \<Rightarrow> client option"      \<comment> \<open>\<open>None\<close>: never allocated, or freed\<close>
  cnext :: cptr
  clients :: "cptr list"              \<comment> \<open>the queue of connected clients\<close>
  alarms :: "alarm list"
  sconf :: conf
  conf_file :: "conf option"          \<comment> \<open>the device configuration last written\<close>
  group_file :: "conf option"
  execs :: "string list res list"     \<comment> \<open>argument vectors of the handlers started\<close>

record env =
  e_now :: int
  e_junk :: "nat \<Rightarrow> u64"
  e_access :: "string \<Rightarrow> bool"        \<comment> \<open>\<^verbatim>\<open>access(path, X_OK) == 0\<close>\<close>
  e_sock :: bool                      \<comment> \<open>\<^verbatim>\<open>socketpair\<close> succeeds\<close>
  e_fork :: "cptr \<Rightarrow> int"             \<comment> \<open>\<^verbatim>\<open>fork\<close> in the parent: a process id, or -1\<close>
  e_open :: bool                      \<comment> \<open>\<^verbatim>\<open>fopen\<close> of the configuration file succeeds\<close>

type_synonym handler = "env \<Rightarrow> cptr \<Rightarrow> parg list \<Rightarrow> server \<Rightarrow> (int \<times> server) res"

definition get_cli :: "cptr \<Rightarrow> server \<Rightarrow> client res" where
  "get_cli c st = (case cli st c of None \<Rightarrow> Inl UseAfterFree | Some x \<Rightarrow> Inr x)"

definition upd_cli :: "cptr \<Rightarrow> (client \<Rightarrow> client) \<Rightarrow> server \<Rightarrow> server res" where
  "upd_cli c f st = bindE (get_cli c st) (\<lambda>x. Inr (st\<lparr>cli := (cli st)(c \<mapsto> f x)\<rparr>))"

text \<open>\<^verbatim>\<open>bufferevent_write_buffer\<close> to the client's bufferevent.\<close>

definition send :: "cptr \<Rightarrow> string \<Rightarrow> server \<Rightarrow> server res" where
  "send c msg st = upd_cli c (\<lambda>x. x\<lparr>c_out := c_out x @ msg\<rparr>) st"

definition new_cli :: "client \<Rightarrow> server \<Rightarrow> server" where
  "new_cli x st = st\<lparr>cli := (cli st)(cnext st \<mapsto> x), cnext := cnext st + 1, clients := clients st @ [cnext st]\<rparr>"

text \<open>The address of a variable of 1 or 4 bytes, read as 8: the rest is what lies beside it.\<close>

definition byte_at :: "env \<Rightarrow> u64 \<Rightarrow> u64" where
  "byte_at e v = copy W8 v (e_junk e 4)"

definition int_at :: "env \<Rightarrow> u64 \<Rightarrow> u64" where
  "int_at e v = copy W32 v (e_junk e 4)"

abbreviation (input) COLLECTOR_BAD :: u64 where "COLLECTOR_BAD \<equiv> 0"
abbreviation (input) COLLECTOR_OK :: u64 where "COLLECTOR_OK \<equiv> 1"

text \<open>Marking the device that stands for a collector.\<close>

definition mark_coll :: "u64 \<Rightarrow> client \<Rightarrow> server \<Rightarrow> server" where
  "mark_coll v x st =
     (case c_coll_dev x of
        None \<Rightarrow> st
      | Some p \<Rightarrow> upd_dev p (\<lambda>d. store_data_dev d DATALOC_DATA v) st)"

section \<open>Feeds and watchers\<close>

definition add_wrapped_device :: "dptr \<Rightarrow> cptr \<Rightarrow> int \<Rightarrow> int \<Rightarrow> server \<Rightarrow> server res" where
  "add_wrapped_device p c rate scale st =
     upd_cli c (\<lambda>x. x\<lparr>c_wdevices := c_wdevices x @
       [\<lparr>f_dev = p, f_rate = rate, f_scale = scale, f_last_fired = 0\<rparr>]\<rparr>) st"

definition add_wrapped_client :: "cptr \<Rightarrow> dptr \<Rightarrow> server \<Rightarrow> server res" where
  "add_wrapped_client c p st =
     upd_cli c (\<lambda>x. x\<lparr>c_watched := c_watched x + 1\<rparr>)
       (upd_dev p (\<lambda>d. d\<lparr>d_watchers := d_watchers d @ [c]\<rparr>) st)"

section \<open>Running a handler\<close>

text \<open>The argument vector the child builds: handler, uid, handler arguments.\<close>

definition handler_argv :: "device \<Rightarrow> string list res" where
  "handler_argv dev =
     bindE (arr_strs cell_str (d_hargs dev) (d_nrofhargs dev)) (\<lambda>hs.
       Inr (opt_fmt (d_handler dev) # d_uid dev # hs))"

definition run_handler_dev :: "env \<Rightarrow> dptr \<Rightarrow> server \<Rightarrow> server res" where
  "run_handler_dev e p st =
     (let dev = dmem st p
      in case d_handler dev of
           None \<Rightarrow> Inr st
         | Some h \<Rightarrow>
             if \<not> e_access e h then Inr st
             else if \<not> e_sock e then Inl FatalExit
             else if e_fork e (cnext st) = -1 then Inr st
             else
               let c = cnext st;
                   st1 = new_cli (new_client\<lparr>c_name := Some ''handler'', c_addr := Some h,
                                     c_pid := e_fork e c\<rparr>) st;
                   st2 = st1\<lparr>execs := execs st1 @ [handler_argv dev]\<rparr>
               in bindE (gn_update_device dev (GNC_UPD_NAME OR GNC_UPD_RRDNAME)) (\<lambda>m. send c m st2))"

section \<open>Rewriting the configuration\<close>

definition devconf_dump_cb :: "env \<Rightarrow> server \<Rightarrow> server res" where
  "devconf_dump_cb e st =
     bindE (refresh_conf st (alldevs st) (sconf st)) (\<lambda>cf.
     bindE (dump_conf st (SET_FLAG (SET_FLAG 0 CONF_DUMP_DEVONLY) CONF_DUMP_NOCOLLECTOR) (e_open e) cf)
       (\<lambda>(cf1, out).
         Inr (st\<lparr>sconf := cf1, conf_file := (case out of None \<Rightarrow> conf_file st | Some f \<Rightarrow> Some f)\<rparr>)))"

definition devgroupconf_dump_cb :: "env \<Rightarrow> server \<Rightarrow> server res" where
  "devgroupconf_dump_cb e st =
     (let cf = fold (\<lambda>g cf. new_conf_from_devgrp st cf g) (allgroups st) (sconf st)
      in bindE (dump_conf st (SET_FLAG 0 CONF_DUMP_GROUPONLY) (e_open e) cf) (\<lambda>(cf1, out).
           Inr (st\<lparr>sconf := cf1, group_file := (case out of None \<Rightarrow> group_file st | Some f \<Rightarrow> Some f)\<rparr>)))"

section \<open>Timers over the clients\<close>

definition ping_clients_cb :: "server \<Rightarrow> server res" where
  "ping_clients_cb st =
     foldE (\<lambda>c st. bindE (get_cli c st) (\<lambda>x.
              if c_coll_dev x \<noteq> None then send c gn_ping st else Inr st)) (clients st) st"

definition health_update_clients_cb :: "env \<Rightarrow> server \<Rightarrow> server res" where
  "health_update_clients_cb e st =
     foldE (\<lambda>c st. bindE (get_cli c st) (\<lambda>x.
              if 60 * 3 < e_now e - c_lastupd x
              then Inr (mark_coll (int_at e COLLECTOR_BAD) x st) else Inr st)) (clients st) st"

section \<open>Frame rules\<close>

text \<open>The operations on the registry leave the rest of the server alone.\<close>

lemma upd_dev_server [simp, frame_simps]:
  "cli (upd_dev p f st) = cli st" "cnext (upd_dev p f st) = cnext st"
  "clients (upd_dev p f st) = clients st" "alarms (upd_dev p f st) = alarms st"
  "sconf (upd_dev p f st) = sconf st" "execs (upd_dev p f st) = execs st"
  by (simp_all add: upd_dev_def)

lemma insert_device_server [simp, frame_simps]:
  "cli (insert_device p st) = cli st" "cnext (insert_device p st) = cnext st"
  "clients (insert_device p st) = clients st" "alarms (insert_device p st) = alarms st"
  by (simp_all add: insert_device_def Let_def)

lemma upd_grp_server [simp, frame_simps]:
  "cli (upd_grp p f st) = cli st" "cnext (upd_grp p f st) = cnext st"
  "clients (upd_grp p f st) = clients st" "alarms (upd_grp p f st) = alarms st"
  by (simp_all add: upd_grp_def)

lemma new_devgroup_server [simp, frame_simps]:
  "cli (snd (new_devgroup u st)) = cli st" "cnext (snd (new_devgroup u st)) = cnext st"
  "clients (snd (new_devgroup u st)) = clients st" "alarms (snd (new_devgroup u st)) = alarms st"
  by (simp_all add: new_devgroup_def Let_def)

end
