(* ===== verification/Cmdhandler.thy ===== *)
theory Cmdhandler
  imports Server
begin

text \<open>
  \<^verbatim>\<open>gnhastd/cmdhandler.c\<close>: one handler for each command of the protocol, and the dispatcher.
  A handler gets the environment, the client, the arguments and the state; it returns what the
  C function returns with the new state, or a fault.
\<close>

section \<open>Which arguments carry data\<close>

definition int_data :: "sc \<Rightarrow> bool" where
  "int_data n \<longleftrightarrow> n \<in> {SC_SWITCH, SC_WEATHER, SC_ALARMSTATUS, SC_THMODE, SC_THSTATE, SC_SMNUMBER,
     SC_COLLECTOR, SC_BLIND, SC_DAYLIGHT, SC_TRISTATE}"

definition dbl_data :: "sc \<Rightarrow> bool" where
  "dbl_data n \<longleftrightarrow> n \<in> {SC_LUX, SC_HUMID, SC_TEMP, SC_DIMMER, SC_PRESSURE, SC_SPEED, SC_DIR, SC_PH,
     SC_WETNESS, SC_VOLTAGE, SC_WATT, SC_AMPS, SC_PERCENTAGE, SC_FLOWRATE, SC_DISTANCE, SC_VOLUME,
     SC_ORP, SC_SALINITY, SC_MOONPH}"

definition uint_data :: "sc \<Rightarrow> bool" where
  "uint_data n \<longleftrightarrow> n \<in> {SC_COUNT, SC_TIMER, SC_TRIGGER}"

definition ll_data :: "sc \<Rightarrow> bool" where
  "ll_data n \<longleftrightarrow> n \<in> {SC_WATTSEC, SC_NUMBER}"

text \<open>A command for the device named by its uid argument; -1 without one, or for an unknown one.\<close>

definition with_device ::
    "parg list \<Rightarrow> 'a registry_scheme \<Rightarrow> (dptr \<Rightarrow> (int \<times> 'a registry_scheme) res) \<Rightarrow>
      (int \<times> 'a registry_scheme) res" where
  "with_device args st f =
     (case str_arg args SC_UID of
        None \<Rightarrow> Inr (-1, st)
      | Some uid \<Rightarrow>
          (case find_device_byuid st uid of
             None \<Rightarrow> Inr (-1, st)
           | Some p \<Rightarrow> f p))"

section \<open>upd\<close>

text \<open>Every data argument is stored, whatever its kind: the access is typed by the device.\<close>

definition store_arg :: "parg \<Rightarrow> device \<Rightarrow> device" where
  "store_arg a d =
     (let n = a_cword a
      in if int_data n \<or> dbl_data n \<or> uint_data n \<or> ll_data n
         then store_data_dev d DATALOC_DATA (arg_ll a) else d)"

definition push_update :: "dptr \<Rightarrow> cptr \<Rightarrow> server \<Rightarrow> server res" where
  "push_update p w st =
     bindE (gn_update_device (dmem st p) GNC_UPD_RRDNAME) (\<lambda>m.
     bindE (send w m st) (upd_cli w (\<lambda>x. x\<lparr>c_sentdata := c_sentdata x + 1\<rparr>)))"

definition cmd_update :: handler where
  "cmd_update e c args st =
     with_device args st (\<lambda>p.
       let hadnodata = QUERY_FLAG (d_flags (dmem st p)) DEVFLAG_NODATA;
           st1 = upd_dev p (\<lambda>d. (fold store_arg args d)\<lparr>d_last_upd := e_now e\<rparr>) st
       in bindE (upd_cli c (\<lambda>x. x\<lparr>c_updates := c_updates x + 1\<rparr>) st1) (\<lambda>st2.
          let dev = dmem st2 p
          in bindE (if d_handler dev \<noteq> None \<and> (device_watermark (e_junk e) dev \<noteq> 0 \<or> hadnodata)
                    then run_handler_dev e p st2 else Inr st2) (\<lambda>st3.
             bindE (foldE (push_update p) (d_watchers (dmem st3 p)) st3) (\<lambda>st4. Inr (0, st4)))))"

section \<open>chg\<close>

definition change_text :: "parg \<Rightarrow> string" where
  "change_text a =
     (let n = a_cword a
      in if int_data n then '' '' @ kv n (fmt_d (arg_u a))
         else if dbl_data n then '' '' @ kv n (fmt_f (arg_ll a))
         else if uint_data n then '' '' @ kv n (fmt_d (arg_u a))
         else if ll_data n then '' '' @ kv n (fmt_jd (arg_ll a))
         else [])"

definition change_store :: "parg \<Rightarrow> device \<Rightarrow> device" where
  "change_store a d = (if dbl_data (a_cword a) then store_data_dev d DATALOC_DATA (arg_ll a) else d)"

definition cmd_change :: handler where
  "cmd_change e c args st =
     with_device args st (\<lambda>p.
       let msg = ''chg '' @ kv SC_UID (d_uid (dmem st p)) @ concat (map change_text args);
           st1 = upd_dev p (fold change_store args) st
       in case d_collector (dmem st p) of
            None \<Rightarrow> Inr (-1, st1)
          | Some k \<Rightarrow> bindE (send k (msg @ [newline]) st1) (\<lambda>st2. Inr (0, st2)))"

section \<open>reg\<close>

definition u8_arg :: "parg list \<Rightarrow> sc \<Rightarrow> u8" where
  "u8_arg args n = last_of (\<lambda>a. ucast (arg_u a)) 0 (args_of args n)"

text \<open>The device gets everything the message says, and zero or NULL for what it does not say.\<close>

definition register_fields :: "env \<Rightarrow> cptr \<Rightarrow> parg list \<Rightarrow> string option \<Rightarrow> device \<Rightarrow> device" where
  "register_fields e c args rrdname d =
     d\<lparr>d_name := str_arg args SC_NAME, d_rrdname := rrdname, d_type := u8_arg args SC_DEVTYPE,
       d_proto := u8_arg args SC_PROTO, d_subtype := u8_arg args SC_SUBTYPE,
       d_scale := u8_arg args SC_SCALE, d_last_upd := e_now e, d_collector := Some c\<rparr>"

text \<open>Putting the device on the client's queue, unless it is on a client's queue already.\<close>

definition adopt_device :: "cptr \<Rightarrow> dptr \<Rightarrow> server \<Rightarrow> server res" where
  "adopt_device c p st =
     bindE (upd_cli c (\<lambda>x. if c_devices x = [] then x\<lparr>c_provider := True\<rparr> else x) st) (\<lambda>st1.
       if \<not> d_onq_client (dmem st1 p)
       then upd_cli c (\<lambda>x. x\<lparr>c_devices := c_devices x @ [p]\<rparr>)
              (upd_dev p (\<lambda>d. d\<lparr>d_onq_client := True\<rparr>) st1)
       else Inr st1)"

definition cmd_register :: handler where
  "cmd_register e c args st =
     (let name = str_arg args SC_NAME; rrd = map_option (take 19) (str_arg args SC_RRDNAME)
      in case str_arg args SC_UID of
           None \<Rightarrow> Inr (-1, st)
         | Some uid \<Rightarrow>
             (case find_device_byuid st uid of
                None \<Rightarrow>
                  (if u8_arg args SC_SUBTYPE = 0 \<or> u8_arg args SC_DEVTYPE = 0 \<or> u8_arg args SC_PROTO = 0 \<or> name = None
                   then Inr (-1, st)
                   else
                     let rrdname = (case rrd of None \<Rightarrow> Some (mk_rrdname (the name)) | Some r \<Rightarrow> Some r);
                         (p, st1) = alloc_dev (register_fields e c args rrdname (new_device uid)) st
                     in bindE (adopt_device c p st1) (\<lambda>st2. Inr (0, insert_device p st2)))
              | Some p \<Rightarrow>
                  bindE (adopt_device c p (upd_dev p (register_fields e c args rrd) st)) (\<lambda>st2. Inr (0, st2))))"

section \<open>regg\<close>

definition add_groups :: "gptr \<Rightarrow> string list \<Rightarrow> server \<Rightarrow> server" where
  "add_groups g uids st =
     fold (\<lambda>u st. case find_devgroup_byuid st u of
                    None \<Rightarrow> st
                  | Some h \<Rightarrow> if group_in_group h g st then st else add_group_group h g st) uids st"

definition add_devices :: "gptr \<Rightarrow> string list \<Rightarrow> server \<Rightarrow> server" where
  "add_devices g uids st =
     fold (\<lambda>u st. case find_device_byuid st u of
                    None \<Rightarrow> st
                  | Some p \<Rightarrow> if dev_in_group p g st then st else add_dev_group p g st) uids st"

text \<open>
  The loops that drop what is no longer listed free the list element they stand on, and then
  read its link to go on: the first removal is a use after free.
\<close>

definition drop_groups :: "gptr \<Rightarrow> string list \<Rightarrow> server \<Rightarrow> server res" where
  "drop_groups g uids st =
     foldE (\<lambda>h st. if g_uid (gmem st h) \<in> set uids then Inr st
                   else Inl UseAfterFree)
       (g_children (gmem st g)) st"

definition drop_devices :: "gptr \<Rightarrow> string list \<Rightarrow> server \<Rightarrow> server res" where
  "drop_devices g uids st =
     foldE (\<lambda>p st. if d_uid (dmem st p) \<in> set uids then Inr st
                   else Inl UseAfterFree)
       (g_members (gmem st g)) st"

definition fill_group :: "gptr \<Rightarrow> parg list \<Rightarrow> server \<Rightarrow> server res" where
  "fill_group g args st =
     (let st1 = (case str_arg args SC_NAME of
                   None \<Rightarrow> st | Some n \<Rightarrow> upd_grp g (\<lambda>r. r\<lparr>g_name := Some n\<rparr>) st)
      in bindE (case str_arg args SC_GROUPLIST of
                  None \<Rightarrow> Inr st1
                | Some l \<Rightarrow> let us = strtok (CHR '','') l in drop_groups g us (add_groups g us st1)) (\<lambda>st2.
           case str_arg args SC_DEVLIST of
             None \<Rightarrow> Inr st2
           | Some l \<Rightarrow> let us = strtok (CHR '','') l in drop_devices g us (add_devices g us st2)))"

definition cmd_register_group :: handler where
  "cmd_register_group e c args st =
     (case str_arg args SC_UID of
        None \<Rightarrow> Inr (-1, st)
      | Some uid \<Rightarrow>
          (case find_devgroup_byuid st uid of
             None \<Rightarrow>
               if str_arg args SC_NAME = None then Inr (-1, st)
               else (let (g, st1) = new_devgroup uid st
                     in bindE (fill_group g args st1) (\<lambda>st2. Inr (0, st2)))
           | Some g \<Rightarrow> bindE (fill_group g args st) (\<lambda>st2. Inr (0, st2))))"

section \<open>mod\<close>

definition mod_flags :: "int \<Rightarrow> device \<Rightarrow> device" where
  "mod_flags i d =
     (if i = 0 then
        d\<lparr>d_flags := CLEAR_FLAG (CLEAR_FLAG (d_flags d) DEVFLAG_SPAMHANDLER) DEVFLAG_CHANGEHANDLER\<rparr>
      else if i = 1 then
        d\<lparr>d_flags := CLEAR_FLAG (SET_FLAG (d_flags d) DEVFLAG_SPAMHANDLER) DEVFLAG_CHANGEHANDLER\<rparr>
      else if i = 2 then
        d\<lparr>d_flags := SET_FLAG (CLEAR_FLAG (d_flags d) DEVFLAG_SPAMHANDLER) DEVFLAG_CHANGEHANDLER\<rparr>
      else d)"

definition mod_arg :: "parg \<Rightarrow> device \<Rightarrow> device res" where
  "mod_arg a d =
     (case a_cword a of
        SC_NAME \<Rightarrow> Inr (d\<lparr>d_name := Some (arg_c a)\<rparr>)
      | SC_RRDNAME \<Rightarrow> Inr (d\<lparr>d_rrdname := Some (arg_c a)\<rparr>)
      | SC_HANDLER \<Rightarrow> Inr (d\<lparr>d_handler := Some (arg_c a)\<rparr>)
      | SC_HIWAT \<Rightarrow> Inr (store_data_dev d DATALOC_HIWAT (dbl_to_water (datatype_dev d) (arg_ll a)))
      | SC_LOWAT \<Rightarrow> Inr (store_data_dev d DATALOC_LOWAT (dbl_to_water (datatype_dev d) (arg_ll a)))
      | SC_HARGS \<Rightarrow> parse_hargs d (Some (arg_c a))
      | SC_TAGS \<Rightarrow> parse_tags d (Some (arg_c a))
      | SC_SPAM \<Rightarrow> Inr (mod_flags (arg_i a) d)
      | _ \<Rightarrow> Inr d)"

text \<open>Only the names are forwarded.\<close>

definition mod_text :: "parg \<Rightarrow> string" where
  "mod_text a =
     (if a_cword a \<in> {SC_NAME, SC_RRDNAME} then '' '' @ kvq (a_cword a) (arg_c a) else [])"

definition cmd_modify :: handler where
  "cmd_modify e c args st =
     with_device args st (\<lambda>p.
       let msg = ''mod '' @ kv SC_UID (d_uid (dmem st p)) @ concat (map mod_text args)
       in bindE (foldE mod_arg args (dmem st p)) (\<lambda>d.
          bindE (devconf_dump_cb e (upd_dev p (\<lambda>_. d) st)) (\<lambda>st1.
            case d_collector (dmem st1 p) of
              None \<Rightarrow> Inr (0, st1)
            | Some k \<Rightarrow> bindE (send k (msg @ [newline]) st1) (\<lambda>st2. Inr (0, st2)))))"

section \<open>Feeds\<close>

text \<open>\<^verbatim>\<open>diff / rate >= 1\<close>, a truncating division that traps on a rate of 0.\<close>

definition feed_ready :: "int \<Rightarrow> feed \<Rightarrow> bool res" where
  "feed_ready now f =
     (if f_rate f = 0 then Inl DivZero
      else Inr (1 \<le> (now - f_last_fired f) sdiv f_rate f))"

text \<open>One pass of \<^verbatim>\<open>feeddata_cb\<close>: the feeds with their new firing times, and the messages.\<close>

fun feed_pass :: "int \<Rightarrow> (dptr \<Rightarrow> device) \<Rightarrow> feed list \<Rightarrow> (feed list \<times> string list) res" where
  "feed_pass now mem [] = Inr ([], [])"
| "feed_pass now mem (f # fs) =
     bindE (feed_ready now f) (\<lambda>ready.
     bindE (if ready
            then bindE (gn_update_device (mem (f_dev f)) (GNC_UPD_RRDNAME OR GNC_UPD_SCALE (f_scale f)))
                   (\<lambda>m. Inr (f\<lparr>f_last_fired := now\<rparr>, [m]))
            else Inr (f, [])) (\<lambda>(f', ms).
     bindE (feed_pass now mem fs) (\<lambda>(fs', ms'). Inr (f' # fs', ms @ ms'))))"

definition feeddata_cb :: "env \<Rightarrow> cptr \<Rightarrow> server \<Rightarrow> server res" where
  "feeddata_cb e c st =
     bindE (get_cli c st) (\<lambda>x.
     bindE (feed_pass (e_now e) (dmem st) (c_wdevices x)) (\<lambda>(fs, ms).
       upd_cli c (\<lambda>x. x\<lparr>c_wdevices := fs, c_out := c_out x @ concat ms,
                        c_sentdata := c_sentdata x + of_nat (length ms)\<rparr>) st))"

definition fold_gcd :: "feed list \<Rightarrow> int \<Rightarrow> int res" where
  "fold_gcd fs g = foldE (\<lambda>f g. c_gcd (f_rate f) g) fs g"

definition cmd_feed :: handler where
  "cmd_feed e c args st =
     (let rate = int_arg args SC_RATE 60
      in with_device args st (\<lambda>p.
           let scale = int_arg args SC_SCALE (int (unat (d_scale (dmem st p))))
           in bindE (add_wrapped_device p c rate scale st) (\<lambda>st1.
              bindE (get_cli c st1) (\<lambda>x.
              bindE (if \<not> c_tev x then Inr rate else fold_gcd (c_wdevices x) (c_timer_gcd x)) (\<lambda>g.
              bindE (upd_cli c (\<lambda>x. x\<lparr>c_tev := True, c_timer_gcd := g, c_feeds := c_feeds x + 1\<rparr>) st1)
                (\<lambda>st2. Inr (0, st2)))))))"

definition cmd_cfeed :: handler where
  "cmd_cfeed e c args st =
     with_device args st (\<lambda>p. bindE (add_wrapped_client c p st) (\<lambda>st1. Inr (0, st1)))"

section \<open>client\<close>

text \<open>\<^verbatim>\<open>sprintf\<close> into a local array of \<open>n\<close> bytes.\<close>

definition sprintf_buf :: "nat \<Rightarrow> string \<Rightarrow> string res" where
  "sprintf_buf n s = (if length s < n then Inr s else Inl OutOfBounds)"

definition new_coll_dev :: "cptr \<Rightarrow> string \<Rightarrow> string \<Rightarrow> string \<Rightarrow> device" where
  "new_coll_dev c uid name rrd =
     (new_device uid)\<lparr>d_name := Some name, d_rrdname := Some (mk_rrdname rrd),
        d_type := dev_type_code DEVICE_SWITCH, d_proto := proto_code PROTO_COLLECTOR,
        d_subtype := subtype_code SUBTYPE_COLLECTOR, d_collector := Some c\<rparr>"

definition track_client :: "env \<Rightarrow> cptr \<Rightarrow> string \<Rightarrow> string \<Rightarrow> server \<Rightarrow> (int \<times> server) res" where
  "track_client e c nm host st =
     bindE (sprintf_buf 512 (nm @ ''-'' @ host)) (\<lambda>uid.
     bindE (case find_device_byuid st uid of
              Some p \<Rightarrow> Inr (p, st)
            | None \<Rightarrow>
                bindE (sprintf_buf 512 (''Collector '' @ nm @ '' from host '' @ host)) (\<lambda>name.
                bindE (sprintf_buf 512 (''coll_'' @ nm @ ''_'' @ host)) (\<lambda>rrd.
                  let (p, st1) = alloc_dev (new_coll_dev c uid name rrd) st
                  in Inr (p, insert_device p st1)))) (\<lambda>(p, st1).
     bindE (upd_cli c (\<lambda>x. x\<lparr>c_coll_dev := Some p\<rparr>) st1) (\<lambda>st2.
       Inr (0, upd_dev p (\<lambda>d. store_data_dev d DATALOC_DATA (int_at e COLLECTOR_OK)) st2))))"

definition cmd_client :: handler where
  "cmd_client e c args st =
     (case str_arg args SC_CLIENT of
        None \<Rightarrow> Inr (-1, st)
      | Some nm \<Rightarrow>
          bindE (get_cli c st) (\<lambda>x.
          bindE (upd_cli c (\<lambda>x. x\<lparr>c_name := Some nm\<rparr>) st) (\<lambda>st1.
          bindE (sprintf_buf 256 (case c_host x of None \<Rightarrow> ''unknown'' | Some h \<Rightarrow> h)) (\<lambda>host.
            if nm = ''handler'' then Inr (0, st1) else track_client e c nm host st1))))"

section \<open>Lists and questions\<close>

definition dev_matches :: "string option \<Rightarrow> int \<Rightarrow> int \<Rightarrow> int \<Rightarrow> device \<Rightarrow> bool" where
  "dev_matches uid devtype proto subtype d \<longleftrightarrow>
     (case uid of None \<Rightarrow> True | Some u \<Rightarrow> u = d_uid d) \<and>
     (devtype = 0 \<or> devtype = int (unat (d_type d))) \<and>
     (proto = 0 \<or> proto = int (unat (d_proto d))) \<and>
     (subtype = 0 \<or> subtype = int (unat (d_subtype d)))"

definition cmd_list_devices :: handler where
  "cmd_list_devices e c args st =
     (let ps = filter (\<lambda>p. dev_matches (str_arg args SC_UID) (int_arg args SC_DEVTYPE 0)
                             (int_arg args SC_PROTO 0) (int_arg args SC_SUBTYPE 0) (dmem st p)) (alldevs st)
      in bindE (send c (concat (map (\<lambda>p. gn_register_device (dmem st p)) ps) @ ''endldevs'' @ [newline]) st)
           (\<lambda>st1. Inr (0, st1)))"

text \<open>A name qualifier compares the group's name with the uid argument, which may be NULL.\<close>

definition group_matches :: "string option \<Rightarrow> string option \<Rightarrow> group \<Rightarrow> bool res" where
  "group_matches uid name g =
     (if (case uid of None \<Rightarrow> False | Some u \<Rightarrow> u \<noteq> g_uid g) then Inr False
      else case name of
             None \<Rightarrow> Inr True
           | Some _ \<Rightarrow>
               (case (uid, g_name g) of
                  (Some u, Some n) \<Rightarrow> Inr (u = n)
                | _ \<Rightarrow> Inl NullDeref))"

definition cmd_list_groups :: handler where
  "cmd_list_groups e c args st =
     bindE (foldE (\<lambda>g acc. bindE (group_matches (str_arg args SC_UID) (str_arg args SC_NAME) (gmem st g)) (\<lambda>b.
              Inr (if b then acc @ register_devgroup_msg st g else acc))) (allgroups st) []) (\<lambda>m.
     bindE (send c (m @ ''endlgrps'' @ [newline]) st) (\<lambda>st1. Inr (0, st1)))"

definition send_update :: "cptr \<Rightarrow> dptr \<Rightarrow> u32 \<Rightarrow> server \<Rightarrow> server res" where
  "send_update c p what st =
     bindE (gn_update_device (dmem st p) what) (\<lambda>m.
     bindE (send c m st) (upd_cli c (\<lambda>x. x\<lparr>c_sentdata := c_sentdata x + 1\<rparr>)))"

definition ask_bits :: "parg \<Rightarrow> u32" where
  "ask_bits a =
     (case a_cword a of
        SC_HIWAT \<Rightarrow> GNC_UPD_WATER
      | SC_LOWAT \<Rightarrow> GNC_UPD_WATER
      | SC_HANDLER \<Rightarrow> GNC_UPD_HANDLER
      | SC_HARGS \<Rightarrow> GNC_UPD_HARGS
      | SC_TAGS \<Rightarrow> GNC_UPD_TAGS
      | _ \<Rightarrow> 0)"

definition cmd_ask_device :: handler where
  "cmd_ask_device e c args st =
     (case Option.bind (str_arg args SC_UID) (find_device_byuid st) of
        None \<Rightarrow> Inr (1, st)
      | Some p \<Rightarrow>
          let scale = int_arg args SC_SCALE (int (unat (d_scale (dmem st p))));
              what = fold (\<lambda>a w. w OR ask_bits a) args (GNC_UPD_NAME OR GNC_UPD_RRDNAME)
          in bindE (send_update c p (what OR GNC_UPD_SCALE scale) st) (\<lambda>st1. Inr (0, st1)))"

definition cmd_ask_full_device :: handler where
  "cmd_ask_full_device e c args st =
     bindE (foldE (\<lambda>a st. case find_device_byuid st (arg_c a) of
                            None \<Rightarrow> Inr st
                          | Some p \<Rightarrow> send_update c p GNC_UPD_FULL st) (args_of args SC_UID) st)
       (\<lambda>st1. Inr (0, st1))"

text \<open>Without a uid argument the local \<^verbatim>\<open>dev\<close> is read uninitialised.\<close>

definition cmd_cactiask_device :: handler where
  "cmd_cactiask_device e c args st =
     (let uids = map arg_c (args_of args SC_UID)
      in if \<exists>u \<in> set uids. find_device_byuid st u = None then Inr (0, st)
         else if uids = [] then Inl Uninit
         else
           (case find_device_byuid st (last uids) of
              None \<Rightarrow> Inr (0, st)
            | Some p \<Rightarrow>
                let scale = int_arg args SC_SCALE (int (unat (d_scale (dmem st p))))
                in bindE (send_update c p (GNC_UPD_CACTI OR GNC_UPD_SCALE scale) st) (\<lambda>st1. Inr (0, st1))))"

section \<open>Connection and alarms\<close>

definition cmd_disconnect :: handler where
  "cmd_disconnect e c args st =
     bindE (upd_cli c (\<lambda>x. x\<lparr>c_close_on_empty := True\<rparr>) st) (\<lambda>st1.
     bindE (get_cli c st1) (\<lambda>x. Inr (0, mark_coll (int_at e COLLECTOR_BAD) x st1)))"

definition cmd_ping :: handler where
  "cmd_ping e c args st = Inr (0, st)"

definition cmd_imalive :: handler where
  "cmd_imalive e c args st =
     bindE (get_cli c st) (\<lambda>x. Inr (0, mark_coll (byte_at e COLLECTOR_OK) x st))"

definition alarm_text :: "alarm \<Rightarrow> string" where
  "alarm_text a = gn_setalarm (al_uid a) (al_text a) (al_sev a) (al_chan a)"

definition wants_alarm :: "alarm \<Rightarrow> client \<Rightarrow> bool" where
  "wants_alarm a x \<longleftrightarrow>
     c_alarmwatch x \<le> al_sev a \<and> c_alarmwatch x \<noteq> 0 \<and> CHECK_MASK (c_alchan x) (al_chan a)"

text \<open>The loop over the clients: \<open>msg\<close> to everyone for whom \<open>P\<close> holds.\<close>

definition tell_clients :: "(client \<Rightarrow> bool) \<Rightarrow> string \<Rightarrow> server \<Rightarrow> server res" where
  "tell_clients P msg st =
     foldE (\<lambda>k st. bindE (get_cli k st) (\<lambda>x. if P x then send k msg st else Inr st)) (clients st) st"

definition cmd_setalarm :: handler where
  "cmd_setalarm e c args st =
     (case str_arg args SC_ALUID of
        None \<Rightarrow> Inr (0, st)
      | Some aluid \<Rightarrow>
          let (a, as) = update_alarm aluid (str_arg args SC_ALTEXT) (int_arg args SC_ALSEV (-1))
                          (u_arg args SC_ALCHAN 1) (alarms st);
              st1 = st\<lparr>alarms := as\<rparr>
          in bindE (case a of
                      None \<Rightarrow> tell_clients (\<lambda>x. 0 < c_alarmwatch x)
                                (gn_setalarm aluid (Some []) 0 0xFFFFFFFF) st1
                    | Some al \<Rightarrow> tell_clients (wants_alarm al) (alarm_text al) st1)
               (\<lambda>st2. Inr (0, st2)))"

definition cmd_listen_alarms :: handler where
  "cmd_listen_alarms e c args st =
     bindE (upd_cli c (\<lambda>x. x\<lparr>c_alarmwatch := int_arg args SC_ALSEV 0,
                              c_alchan := u_arg args SC_ALCHAN 0xFFFFFFFF\<rparr>) st) (\<lambda>st1. Inr (0, st1))"

definition cmd_dump_alarms :: handler where
  "cmd_dump_alarms e c args st =
     (let sev = int_arg args SC_ALSEV 1; chan = u_arg args SC_ALCHAN 0xFFFFFFFF;
          sel = filter (\<lambda>a. sev \<le> al_sev a \<and>
                         (case str_arg args SC_ALUID of None \<Rightarrow> True | Some u \<Rightarrow> al_uid a = u) \<and>
                         CHECK_MASK (al_chan a) chan) (alarms st)
      in bindE (send c (concat (map alarm_text sel)) st) (\<lambda>st1. Inr (0, st1)))"

text \<open>The function has no \<^verbatim>\<open>return\<close>; its value is whatever the register holds.\<close>

definition cmd_get_apiv :: handler where
  "cmd_get_apiv e c args st =
     bindE (send c (''apiv number:'' @ int_dec 0x12 @ [newline]) st) (\<lambda>st1. Inr (sint (e_junk e 5), st1))"

section \<open>Dispatch\<close>

definition commands :: "(string \<times> handler) list" where
  "commands =
     [(''chg'', cmd_change), (''reg'', cmd_register), (''regg'', cmd_register_group),
      (''upd'', cmd_update), (''mod'', cmd_modify), (''feed'', cmd_feed), (''cfeed'', cmd_cfeed),
      (''ldevs'', cmd_list_devices), (''lgrps'', cmd_list_groups), (''ask'', cmd_ask_device),
      (''askf'', cmd_ask_full_device), (''cactiask'', cmd_cactiask_device),
      (''disconnect'', cmd_disconnect), (''client'', cmd_client), (''ping'', cmd_ping),
      (''imalive'', cmd_imalive), (''setalarm'', cmd_setalarm),
      (''listenalarms'', cmd_listen_alarms), (''dumpalarms'', cmd_dump_alarms),
      (''getapiv'', cmd_get_apiv)]"

definition init_commands :: "(string \<times> handler) list \<Rightarrow> (string \<times> handler) list" where
  "init_commands tab = c_qsort fst tab"

definition parsed_command :: "string \<Rightarrow> handler" where
  "parsed_command command e c args st =
     (case c_bsearch (map c_tolower command) fst (init_commands commands) of
        None \<Rightarrow> Inr (-1, st)
      | Some (n, f) \<Rightarrow> f e c args st)"

lemma commands_distinct: "distinct (map fst commands)"
  by (simp add: commands_def)

lemma parsed_command_lookup [code]:
  "parsed_command command e c args st =
     (case map_of commands (map c_tolower command) of
        None \<Rightarrow> Inr (-1, st) | Some f \<Rightarrow> f e c args st)"
proof -
  have "map_of (map (\<lambda>x. (fst x, x)) tab) k = map_option (Pair k) (map_of tab k)"
    for k and tab :: "(string \<times> handler) list"
    by (induction tab) auto
  then show ?thesis
    by (simp add: parsed_command_def init_commands_def c_bsearch_c_qsort commands_distinct
        split: option.split)
qed

end
