(* ===== verification/Netloop.thy ===== *)
theory Netloop
  imports Cmdhandler
begin

text \<open>
  \<^verbatim>\<open>gnhastd/netloop.c\<close> and the timers of \<^verbatim>\<open>gnhastd/gnhastd.c\<close>: reading lines and running
  their commands, accepting and closing connections, shutting down; then the server as a step
  relation over the events libevent delivers, the reachable states, and the invariant they keep.
\<close>

section \<open>Reading\<close>

text \<open>One line: split, parse, dispatch. \<open>None\<close> where the loop returns without a command.\<close>

definition run_line :: "env \<Rightarrow> cptr \<Rightarrow> string \<Rightarrow> server \<Rightarrow> server option res" where
  "run_line e c line st =
     (case parse_netcommand (c_string line) of
        None \<Rightarrow> Inr None
      | Some words \<Rightarrow>
          (case parse_command words of
             None \<Rightarrow> Inr None
           | Some args \<Rightarrow> bindE (parsed_command (hd words) e c args st) (\<lambda>(ret, st1). Inr (Some st1))))"

text \<open>
  The loop of \<^verbatim>\<open>buf_read_cb\<close> over the lines in the input buffer. An empty line ends it, and
  what follows waits for the next event.
\<close>

fun read_lines :: "env \<Rightarrow> cptr \<Rightarrow> string list \<Rightarrow> server \<Rightarrow> (string list \<times> server) res" where
  "read_lines e c [] st = Inr ([], st)"
| "read_lines e c (line # rest) st =
     (if line = [] then Inr (rest, st)
      else bindE (run_line e c line st) (\<lambda>r.
             case r of None \<Rightarrow> Inr (rest, st) | Some st1 \<Rightarrow> read_lines e c rest st1))"

definition buf_read_cb :: "env \<Rightarrow> cptr \<Rightarrow> string list \<Rightarrow> server \<Rightarrow> server res" where
  "buf_read_cb e c new st =
     bindE (upd_cli c (\<lambda>x. x\<lparr>c_lastupd := e_now e\<rparr>) st) (\<lambda>st1.
     bindE (get_cli c st1) (\<lambda>x.
     bindE (read_lines e c (c_in x @ new) st1) (\<lambda>(rest, st2).
       upd_cli c (\<lambda>x. x\<lparr>c_in := rest\<rparr>) st2)))"

section \<open>Closing a connection\<close>

text \<open>The nested loop that removes the client from every device it watches.\<close>

definition unwatch :: "cptr \<Rightarrow> dptr \<Rightarrow> server \<times> nat \<Rightarrow> server \<times> nat" where
  "unwatch c p = (\<lambda>(st, n).
     (upd_dev p (\<lambda>d. d\<lparr>d_watchers := filter (\<lambda>w. w \<noteq> c) (d_watchers d)\<rparr>) st,
      n + length (filter (\<lambda>w. w = c) (d_watchers (dmem st p)))))"

definition unwatch_all :: "cptr \<Rightarrow> server \<Rightarrow> server \<times> nat" where
  "unwatch_all c st = fold (unwatch c) (alldevs st) (st, 0)"

definition orphan :: "dptr \<Rightarrow> server \<Rightarrow> server" where
  "orphan p st = upd_dev p (\<lambda>d. d\<lparr>d_collector := None, d_onq_client := False\<rparr>) st"

text \<open>\<open>c_watched\<close> after the loop; the code logs an error when it is not zero.\<close>

definition watched_left :: "cptr \<Rightarrow> server \<Rightarrow> u32 res" where
  "watched_left c st = bindE (get_cli c st) (\<lambda>x. Inr (c_watched x - of_nat (snd (unwatch_all c st))))"

definition buf_error_cb :: "env \<Rightarrow> cptr \<Rightarrow> server \<Rightarrow> server res" where
  "buf_error_cb e c st =
     bindE (get_cli c st) (\<lambda>x.
       let st1 = mark_coll (int_at e COLLECTOR_BAD) x st;
           st2 = fst (unwatch_all c st1);
           st3 = (if c_provider x then fold orphan (c_devices x) st2 else st2)
       in Inr (st3\<lparr>clients := remove1 c (clients st3), cli := (cli st3)(c := None)\<rparr>))"

definition buf_write_cb :: "env \<Rightarrow> cptr \<Rightarrow> server \<Rightarrow> server res" where
  "buf_write_cb e c st =
     bindE (get_cli c st) (\<lambda>x.
       if c_close_on_empty x \<and> c_out x = [] then buf_error_cb e c st else Inr st)"

text \<open>Output that has reached the socket leaves the buffer; then the write callback may run.\<close>

definition flushed :: "env \<Rightarrow> cptr \<Rightarrow> server \<Rightarrow> server res" where
  "flushed e c st =
     bindE (upd_cli c (\<lambda>x. x\<lparr>c_out := []\<rparr>) st) (\<lambda>st1.
     bindE (get_cli c st1) (\<lambda>x. if c_close_on_empty x then buf_write_cb e c st1 else Inr st1))"

section \<open>Accepting and shutting down\<close>

definition accept_cb :: "env \<Rightarrow> string \<Rightarrow> nat \<Rightarrow> server \<Rightarrow> server res" where
  "accept_cb e host port st =
     bindE (sprintf_buf 256 (host @ '':'' @ nat_dec port)) (\<lambda>addr.
       Inr (new_cli (new_client\<lparr>c_addr := Some addr, c_host := Some host, c_port := port,
              c_lastupd := e_now e\<rparr>) st))"

text \<open>\<^verbatim>\<open>network_shutdown\<close> closes the first client until none is left.\<close>

fun shutdown_loop :: "env \<Rightarrow> nat \<Rightarrow> server \<Rightarrow> server res" where
  "shutdown_loop e 0 st = Inr st"
| "shutdown_loop e (Suc n) st =
     (case clients st of
        [] \<Rightarrow> Inr st
      | c # _ \<Rightarrow> bindE (buf_error_cb e c st) (shutdown_loop e n))"

definition network_shutdown :: "env \<Rightarrow> server \<Rightarrow> server res" where
  "network_shutdown e st = shutdown_loop e (length (clients st)) st"

section \<open>The server as a transition system\<close>

datatype event =
    Accept string nat            \<comment> \<open>a connection from a host and port\<close>
  | Readable cptr "string list"  \<comment> \<open>more complete lines have come in\<close>
  | Flushed cptr                 \<comment> \<open>the output buffer has drained\<close>
  | Errored cptr                 \<comment> \<open>end of file or error\<close>
  | FeedTimer cptr
  | TimerTick
  | PingTimer
  | HealthTimer
  | DumpTimer
  | GroupDumpTimer
  | Terminate

text \<open>libevent calls back only for the buffers and timers of live clients.\<close>

fun enabled :: "event \<Rightarrow> server \<Rightarrow> bool" where
  "enabled (Readable c ls) st = (c \<in> set (clients st))"
| "enabled (Flushed c) st = (c \<in> set (clients st))"
| "enabled (Errored c) st = (c \<in> set (clients st))"
| "enabled (FeedTimer c) st = (case cli st c of None \<Rightarrow> False | Some x \<Rightarrow> c_tev x)"
| "enabled _ st = True"

fun handle :: "env \<Rightarrow> event \<Rightarrow> server \<Rightarrow> server res" where
  "handle e (Accept host port) st = accept_cb e host port st"
| "handle e (Readable c ls) st = buf_read_cb e c ls st"
| "handle e (Flushed c) st = flushed e c st"
| "handle e (Errored c) st = buf_error_cb e c st"
| "handle e (FeedTimer c) st = feeddata_cb e c st"
| "handle e TimerTick st = Inr (cb_timerdev_update False (e_junk e 6) st)"
| "handle e PingTimer st = ping_clients_cb st"
| "handle e HealthTimer st = health_update_clients_cb e st"
| "handle e DumpTimer st = devconf_dump_cb e st"
| "handle e GroupDumpTimer st = devgroupconf_dump_cb e st"
| "handle e Terminate st = network_shutdown e st"

inductive srv_step :: "server \<Rightarrow> env \<Rightarrow> event \<Rightarrow> server \<Rightarrow> bool" where
  step: "enabled ev st \<Longrightarrow> handle e ev st = Inr st' \<Longrightarrow> srv_step st e ev st'"

inductive_simps srv_step_iff: "srv_step st e ev st'"

definition server_of :: "registry \<Rightarrow> conf \<Rightarrow> server" where
  "server_of r cf = registry.extend r
     \<lparr>cli = (\<lambda>_. None), cnext = 0, clients = [], alarms = [], sconf = cf, conf_file = None,
      group_file = None, execs = []\<rparr>"

text \<open>Start-up: the device table and the groups from the configuration.\<close>

definition boot :: "conf \<Rightarrow> server res" where
  "boot cf = bindE (init_devtable cf) (\<lambda>r. parse_devgroups cf (server_of r cf))"

inductive reachable :: "server \<Rightarrow> bool" where
  init: "conf_ok cf \<Longrightarrow> boot cf = Inr st \<Longrightarrow> reachable st"
| more: "reachable st \<Longrightarrow> srv_step st e ev st' \<Longrightarrow> reachable st'"

end
