(* ===== verification/Invariant.thy ===== *)
theory Invariant
  imports Netloop
begin

text \<open>
  The invariant of the server's state and its preservation by every event. Its parts: the
  registry is consistent; the queue of clients is exactly the set of live clients; every watcher
  is a live client, and a client's count of watched devices is right; every device on a client's
  queue carries the flag, and only those; the links from clients to devices are valid; alarm
  uids are distinct. Operations that touch none of this keep its view of the state.
\<close>

section \<open>The invariant\<close>

definition clients_ok :: "server \<Rightarrow> bool" where
  "clients_ok st \<longleftrightarrow> distinct (clients st) \<and> (\<forall>c. (cli st c \<noteq> None) = (c \<in> set (clients st))) \<and>
     (\<forall>c \<in> set (clients st). c < cnext st)"

definition watch_count :: "server \<Rightarrow> cptr \<Rightarrow> nat" where
  "watch_count st c = sum_list (map (\<lambda>p. count_list (d_watchers (dmem st p)) c) (alldevs st))"

definition watchers_ok :: "server \<Rightarrow> bool" where
  "watchers_ok st \<longleftrightarrow>
     (\<forall>p. set (d_watchers (dmem st p)) \<subseteq> set (clients st)) \<and>
     (\<forall>p. p \<notin> set (alldevs st) \<longrightarrow> d_watchers (dmem st p) = []) \<and>
     (\<forall>c x. cli st c = Some x \<longrightarrow> c_watched x = of_nat (watch_count st c))"

definition own_ok :: "server \<Rightarrow> client \<Rightarrow> bool" where
  "own_ok st x \<longleftrightarrow> distinct (c_devices x) \<and> (c_devices x \<noteq> [] \<longrightarrow> c_provider x) \<and>
     (\<forall>p \<in> set (c_devices x). p < dnext st \<and> d_onq_client (dmem st p))"

definition owners_ok :: "server \<Rightarrow> bool" where
  "owners_ok st \<longleftrightarrow>
     (\<forall>c x. cli st c = Some x \<longrightarrow> own_ok st x) \<and>
     (\<forall>c d x y p. cli st c = Some x \<longrightarrow> cli st d = Some y \<longrightarrow>
        p \<in> set (c_devices x) \<longrightarrow> p \<in> set (c_devices y) \<longrightarrow> c = d) \<and>
     (\<forall>p. d_onq_client (dmem st p) \<longrightarrow> (\<exists>c x. cli st c = Some x \<and> p \<in> set (c_devices x)))"

definition links_ok :: "server \<Rightarrow> bool" where
  "links_ok st \<longleftrightarrow>
     (\<forall>c x. cli st c = Some x \<longrightarrow> f_dev ` set (c_wdevices x) \<subseteq> set (alldevs st) \<and>
        set_option (c_coll_dev x) \<subseteq> set (alldevs st))"

definition srv_ok :: "server \<Rightarrow> bool" where
  "srv_ok st \<longleftrightarrow> reg_ok st \<and> clients_ok st \<and> watchers_ok st \<and> owners_ok st \<and> links_ok st \<and>
     alarms_ok (alarms st)"

text \<open>What the invariant sees of a client and of the state.\<close>

definition cli_view :: "client \<Rightarrow> dptr list \<times> bool \<times> dptr list \<times> dptr option \<times> u32" where
  "cli_view x = (c_devices x, c_provider x, map f_dev (c_wdevices x), c_coll_dev x, c_watched x)"

definition dev_view :: "device \<Rightarrow> string \<times> bool \<times> cptr list \<times> bool" where
  "dev_view d = (d_uid d, d_onq_all d, d_watchers d, d_onq_client d)"

definition same_view :: "server \<Rightarrow> server \<Rightarrow> bool" where
  "same_view a b \<longleftrightarrow>
     (\<forall>p. dev_view (dmem a p) = dev_view (dmem b p)) \<and> dnext a = dnext b \<and> devtab a = devtab b \<and>
     alldevs a = alldevs b \<and> nrofdevs a = nrofdevs b \<and> gmem a = gmem b \<and> gnext a = gnext b \<and>
     grptab a = grptab b \<and> allgroups a = allgroups b \<and>
     (\<forall>c. map_option cli_view (cli a c) = map_option cli_view (cli b c)) \<and>
     clients a = clients b \<and> cnext a = cnext b \<and> alarms a = alarms b"

lemma same_view_refl [simp]: "same_view a a"
  by (simp add: same_view_def)

lemma same_view_sym: "same_view a b \<Longrightarrow> same_view b a"
  by (simp add: same_view_def)

lemma same_view_trans [trans]: "same_view a b \<Longrightarrow> same_view b c \<Longrightarrow> same_view a c"
  by (simp add: same_view_def)

lemma same_view_reg: "same_view a b \<Longrightarrow> reg_view a = reg_view b"
  by (simp add: same_view_def reg_view_def dev_view_def fun_eq_iff)

lemma same_view_cli:
  assumes "same_view a b" "cli a c = Some x"
  obtains y where "cli b c = Some y" "cli_view y = cli_view x"
proof -
  have "map_option cli_view (cli b c) = Some (cli_view x)"
    using assms unfolding same_view_def by (metis option.simps(9))
  with that show thesis by auto
qed

text \<open>The ownership of devices looks only at the two flags and at the clients' queues.\<close>

lemma owners_ok_cong:
  assumes own: "owners_ok a" and n: "dnext a \<le> dnext b"
    and fl: "\<And>p. d_onq_client (dmem b p) = d_onq_client (dmem a p)"
    and v: "\<And>c. map_option c_devices (cli b c) = map_option c_devices (cli a c)"
    and pr: "\<And>c x y. cli a c = Some x \<Longrightarrow> cli b c = Some y \<Longrightarrow> c_provider x \<Longrightarrow> c_provider y"
  shows "owners_ok b"
proof -
  have prev: "\<exists>y. cli a c = Some y \<and> c_devices y = c_devices x" if "cli b c = Some x" for c x
    using v [of c] that by (cases "cli a c") auto
  have nxt: "\<exists>y. cli b c = Some y \<and> c_devices y = c_devices x" if "cli a c = Some x" for c x
    using v [of c] that by (cases "cli b c") auto
  show ?thesis
    unfolding owners_ok_def
  proof (intro conjI allI impI, goal_cases)
    case (1 c x)
    then obtain y where y: "cli a c = Some y" "c_devices y = c_devices x" using prev by blast
    then have "own_ok a y" using own by (simp add: owners_ok_def)
    with y n pr [OF y(1) 1] show ?case by (auto simp: own_ok_def fl)
  next
    case (2 c d x y p)
    then obtain x' y' where "cli a c = Some x'" "p \<in> set (c_devices x')" "cli a d = Some y'"
        "p \<in> set (c_devices y')"
      using prev [of c x] prev [of d y] by auto
    then show ?case using own unfolding owners_ok_def by blast
  next
    case (3 p)
    then obtain c x where cx: "cli a c = Some x" "p \<in> set (c_devices x)"
      using own by (auto simp: owners_ok_def fl)
    with nxt [OF cx(1)] obtain y where "cli b c = Some y" "c_devices y = c_devices x" by blast
    with cx(2) show ?case by (intro exI [of _ c] exI [of _ y]) simp
  qed
qed

text \<open>The rest of the invariant survives when the registry only grows and the links stay.\<close>

definition link_view :: "client \<Rightarrow> dptr list \<times> dptr option \<times> u32" where
  "link_view x = (map f_dev (c_wdevices x), c_coll_dev x, c_watched x)"

lemma srv_ok_cong:
  assumes ok: "srv_ok a" and reg: "reg_ok b" and own: "owners_ok b"
    and al: "alldevs b = alldevs a @ ps"
    and w: "\<And>p. d_watchers (dmem b p) = d_watchers (dmem a p)"
    and v: "\<And>c. map_option link_view (cli b c) = map_option link_view (cli a c)"
    and eq: "clients b = clients a" "cnext b = cnext a" "alarms b = alarms a"
  shows "srv_ok b"
proof -
  have none: "cli b c = None \<longleftrightarrow> cli a c = None" for c
    using v [of c] by (metis map_option_is_None)
  have prev: "\<exists>y. cli a c = Some y \<and> link_view y = link_view x" if "cli b c = Some x" for c x
    using v [of c] that by (cases "cli a c") auto
  have "clients_ok b" using ok none by (simp add: srv_ok_def clients_ok_def eq)
  moreover have "watchers_ok b"
  proof -
    have wa: "watchers_ok a" using ok by (simp add: srv_ok_def)
    have "distinct (alldevs b)" using reg by (simp add: reg_ok_def keyed_ok_def)
    then have "d_watchers (dmem a p) = []" if "p \<in> set ps" for p
      using that wa by (auto simp: al watchers_ok_def)
    then have "sum_list (map (\<lambda>p. count_list (d_watchers (dmem a p)) c) ps) = 0" for c
      by (simp add: sum_list_eq_0_iff)
    then have cnt: "watch_count b c = watch_count a c" for c
      by (simp add: watch_count_def w al)
    have "c_watched x = of_nat (watch_count b c)" if x: "cli b c = Some x" for c x
    proof -
      obtain y where "cli a c = Some y" "c_watched y = c_watched x"
        using prev [OF x] by (auto simp: link_view_def)
      with wa show ?thesis unfolding watchers_ok_def cnt by metis
    qed
    with wa show ?thesis unfolding watchers_ok_def w eq al by auto
  qed
  moreover have "links_ok b"
    unfolding links_ok_def al
  proof (intro allI impI)
    fix c x
    assume "cli b c = Some x"
    then obtain y where y: "cli a c = Some y" "map f_dev (c_wdevices y) = map f_dev (c_wdevices x)"
        "c_coll_dev y = c_coll_dev x"
      using prev by (auto simp: link_view_def)
    then have img: "f_dev ` set (c_wdevices y) = f_dev ` set (c_wdevices x)" by (metis set_map)
    have "links_ok a" using ok by (simp add: srv_ok_def)
    with y(1) have "f_dev ` set (c_wdevices y) \<subseteq> set (alldevs a) \<and> set_option (c_coll_dev y) \<subseteq> set (alldevs a)"
      unfolding links_ok_def by blast
    then show "f_dev ` set (c_wdevices x) \<subseteq> set (alldevs a @ ps) \<and>
        set_option (c_coll_dev x) \<subseteq> set (alldevs a @ ps)"
      unfolding img y(3) set_append by blast
  qed
  moreover have "alarms_ok (alarms b)" using ok by (simp add: srv_ok_def eq)
  ultimately show ?thesis using reg own by (simp add: srv_ok_def)
qed

lemma same_view_ok:
  assumes v: "same_view a b" and ok: "srv_ok a"
  shows "srv_ok b"
proof -
  have dv: "d_watchers (dmem b p) = d_watchers (dmem a p)" "d_onq_client (dmem b p) = d_onq_client (dmem a p)" for p
    using v by (auto simp: same_view_def dev_view_def)
  have cv: "map_option cli_view (cli b c) = map_option cli_view (cli a c)" for c
    using v by (simp add: same_view_def)
  have proj: "map_option (g \<circ> cli_view) (cli b c) = map_option (g \<circ> cli_view) (cli a c)" for g :: "_ \<Rightarrow> 'z" and c
    using arg_cong [OF cv [of c], of "map_option g"] by (simp add: option.map_comp)
  have "owners_ok b"
  proof (rule owners_ok_cong)
    show "owners_ok a" using ok by (simp add: srv_ok_def)
    have "c_devices = fst \<circ> cli_view" by (simp add: cli_view_def fun_eq_iff)
    then show "map_option c_devices (cli b c) = map_option c_devices (cli a c)" for c
      using proj by metis
    show "c_provider y" if "cli a c = Some x" "cli b c = Some y" "c_provider x" for c x y
      using cv [of c] that by (simp add: cli_view_def)
  qed (use v in \<open>simp_all add: dv same_view_def\<close>)
  moreover have "map_option link_view (cli b c) = map_option link_view (cli a c)" for c
  proof -
    have "link_view = snd \<circ> snd \<circ> cli_view" by (simp add: link_view_def cli_view_def fun_eq_iff)
    then show ?thesis using proj by metis
  qed
  moreover have "reg_ok b" using reg_view_ok [OF same_view_reg [OF v]] ok by (simp add: srv_ok_def)
  ultimately show ?thesis
    using v by (intro srv_ok_cong [OF ok, of b "[]"]) (simp_all add: dv same_view_def)
qed

section \<open>Operations that keep the view\<close>

lemma get_cli_Inr [simp]: "get_cli c st = Inr x \<longleftrightarrow> cli st c = Some x"
  by (simp add: get_cli_def split: option.split)

lemma upd_cli_Inr:
  "upd_cli c f st = Inr st' \<longleftrightarrow> (\<exists>x. cli st c = Some x \<and> st' = st\<lparr>cli := (cli st)(c \<mapsto> f x)\<rparr>)"
  by (auto simp: upd_cli_def bindE_Inr_conv)

lemma upd_cli_view:
  assumes "upd_cli c f st = Inr st'" and "\<And>x. cli_view (f x) = cli_view x"
  shows "same_view st st'"
  using assms by (auto simp: upd_cli_Inr same_view_def)

lemma upd_dev_view:
  assumes "dev_view (f (dmem st p)) = dev_view (dmem st p)"
  shows "same_view st (upd_dev p f st)"
proof -
  have "cli (upd_dev p f st) = cli st" "clients (upd_dev p f st) = clients st"
    "cnext (upd_dev p f st) = cnext st" "alarms (upd_dev p f st) = alarms st"
    by (simp_all add: upd_dev_def)
  with assms show ?thesis by (simp add: same_view_def)
qed

lemma send_view: "send c m st = Inr st' \<Longrightarrow> same_view st st'"
  unfolding send_def by (erule upd_cli_view) (simp add: cli_view_def)

lemma dev_view_store [simp]: "dev_view (store_data_dev d l v) = dev_view d"
  by (simp add: dev_view_def)

lemma mark_coll_view: "same_view st (mark_coll v x st)"
  by (auto simp: mark_coll_def intro!: upd_dev_view split: option.split)

lemma foldE_view:
  assumes "foldE f xs st = Inr st'"
    and "\<And>x s s'. f x s = Inr s' \<Longrightarrow> same_view s s'"
  shows "same_view st st'"
  by (rule foldE_inv [where P = "same_view st", OF assms(1)])
    (auto intro: same_view_trans dest: assms(2))

lemma fold_view:
  assumes "\<And>x s. same_view s (f x s)"
  shows "same_view st (fold f xs st)"
  using assms by (induction xs arbitrary: st) (auto intro: same_view_trans)

lemma send_update_view: "send_update c p what st = Inr st' \<Longrightarrow> same_view st st'"
  by (auto simp: send_update_def bindE_Inr_conv cli_view_def
      intro: same_view_trans [OF send_view upd_cli_view])

lemma push_update_view: "push_update p w st = Inr st' \<Longrightarrow> same_view st st'"
  by (auto simp: push_update_def bindE_Inr_conv cli_view_def
      intro: same_view_trans [OF send_view upd_cli_view])

lemma sconf_view: "same_view st (st\<lparr>sconf := a, conf_file := b\<rparr>)" "same_view st (st\<lparr>sconf := a, group_file := b\<rparr>)"
  by (simp_all add: same_view_def)

lemma devconf_dump_view: "devconf_dump_cb e st = Inr st' \<Longrightarrow> same_view st st'"
  by (auto simp: devconf_dump_cb_def bindE_Inr_conv sconf_view)

lemma devgroupconf_dump_view: "devgroupconf_dump_cb e st = Inr st' \<Longrightarrow> same_view st st'"
  by (auto simp: devgroupconf_dump_cb_def bindE_Inr_conv Let_def sconf_view)

lemma ping_clients_view: "ping_clients_cb st = Inr st' \<Longrightarrow> same_view st st'"
  unfolding ping_clients_cb_def
  by (erule foldE_view) (auto simp: bindE_Inr_conv intro: send_view split: if_splits)

lemma health_update_view: "health_update_clients_cb e st = Inr st' \<Longrightarrow> same_view st st'"
  unfolding health_update_clients_cb_def
  by (erule foldE_view) (auto simp: bindE_Inr_conv intro: mark_coll_view split: if_splits)

lemma tell_clients_view: "tell_clients P m st = Inr st' \<Longrightarrow> same_view st st'"
  unfolding tell_clients_def
  by (erule foldE_view) (auto simp: bindE_Inr_conv intro: send_view split: if_splits)

lemma timer_tick_view [simp]: "dev_view (timer_tick j d) = dev_view d"
  by (simp add: dev_view_def)

lemma cb_timerdev_same_view: "same_view st (cb_timerdev_update b j st)"
  by (auto simp: cb_timerdev_update_def intro!: fold_view upd_dev_view)

lemma feed_pass_devs: "feed_pass now mem fs = Inr (fs', ms) \<Longrightarrow> map f_dev fs' = map f_dev fs"
  by (induction fs arbitrary: fs' ms) (auto simp: bindE_Inr_conv split: if_splits)

lemma feeddata_view:
  assumes "feeddata_cb e c st = Inr st'"
  shows "same_view st st'"
proof -
  obtain x fs ms where x: "cli st c = Some x" and fp: "feed_pass (e_now e) (dmem st) (c_wdevices x) = Inr (fs, ms)"
    and st': "st' = st\<lparr>cli := (cli st)(c \<mapsto> x\<lparr>c_wdevices := fs, c_out := c_out x @ concat ms,
                        c_sentdata := c_sentdata x + of_nat (length ms)\<rparr>)\<rparr>"
    using assms by (auto simp: feeddata_cb_def bindE_Inr_conv upd_cli_Inr)
  then show ?thesis by (auto simp: same_view_def cli_view_def feed_pass_devs [OF fp])
qed

section \<open>The contract of a command handler\<close>

text \<open>What the dispatcher needs of every command: the invariant survives, and no client is lost.\<close>

locale cmd_contract =
  fixes cmd :: handler
  assumes keeps: "srv_ok st \<Longrightarrow> c \<in> set (clients st) \<Longrightarrow> cmd e c args st = Inr (r, st')
    \<Longrightarrow> srv_ok st' \<and> set (clients st) \<subseteq> set (clients st')"
begin

lemma keeps_ok:
  "srv_ok st \<Longrightarrow> c \<in> set (clients st) \<Longrightarrow> cmd e c args st = Inr (r, st') \<Longrightarrow> srv_ok st'"
  using keeps by blast

lemma keeps_client:
  "srv_ok st \<Longrightarrow> c \<in> set (clients st) \<Longrightarrow> cmd e c args st = Inr (r, st') \<Longrightarrow> c \<in> set (clients st')"
  using keeps by blast

end

text \<open>Commands that change nothing the invariant looks at.\<close>

locale view_contract =
  fixes cmd :: handler
  assumes views: "cmd e c args st = Inr (r, st') \<Longrightarrow> same_view st st'"

sublocale view_contract \<subseteq> cmd_contract cmd
proof unfold_locales
  fix st c e args r st'
  assume "srv_ok st" and "cmd e c args st = Inr (r, st')"
  with views same_view_ok show "srv_ok st' \<and> set (clients st) \<subseteq> set (clients st')"
    by (metis (no_types) same_view_def subset_refl)
qed

lemma with_device_Inr:
  "with_device args st f = Inr (r, st') \<Longrightarrow>
    (r = -1 \<and> st' = st) \<or> (\<exists>u p. str_arg args SC_UID = Some u \<and> find_device_byuid st u = Some p \<and> f p = Inr (r, st'))"
  by (auto simp: with_device_def split: option.splits)

lemma dev_view_change [simp]: "dev_view (fold change_store args d) = dev_view d"
  by (induction args arbitrary: d) (simp_all add: change_store_def)

lemma dev_view_store_args [simp]: "dev_view (fold store_arg args d) = dev_view d"
  by (induction args arbitrary: d) (simp_all add: store_arg_def Let_def)

lemma mod_arg_view:
  assumes "mod_arg a d = Inr d'"
  shows "dev_view d' = dev_view d"
proof (cases "a_cword a = SC_HARGS \<or> a_cword a = SC_TAGS")
  case True
  with assms show ?thesis
    by (auto simp: mod_arg_def dev_view_def dest!: parse_hargs_frame parse_tags_frame)
next
  case False
  with assms show ?thesis
    by (auto simp: mod_arg_def mod_flags_def dev_view_def split: sc.splits if_splits)
qed

lemma upd_dev_send_view:
  assumes "send k m (upd_dev p f st) = Inr st'" and "dev_view (f (dmem st p)) = dev_view (dmem st p)"
  shows "same_view st st'"
  using upd_dev_view [where f = f, OF assms(2)] send_view [OF assms(1)] by (rule same_view_trans)

interpretation v_change: view_contract cmd_change
  by unfold_locales
    (auto simp: cmd_change_def bindE_Inr_conv Let_def intro!: upd_dev_view elim!: upd_dev_send_view
      dest!: with_device_Inr split: option.splits)

interpretation v_list_devices: view_contract cmd_list_devices
  by unfold_locales (auto simp: cmd_list_devices_def bindE_Inr_conv Let_def intro: send_view)

interpretation v_list_groups: view_contract cmd_list_groups
  by unfold_locales (auto simp: cmd_list_groups_def bindE_Inr_conv intro: send_view)

interpretation v_ask: view_contract cmd_ask_device
  by unfold_locales
    (auto simp: cmd_ask_device_def bindE_Inr_conv Let_def intro: send_update_view split: option.splits)

interpretation v_ask_full: view_contract cmd_ask_full_device
  by unfold_locales
    (auto simp: cmd_ask_full_device_def bindE_Inr_conv elim!: foldE_view
      intro: send_update_view split: option.splits)

interpretation v_cactiask: view_contract cmd_cactiask_device
  by unfold_locales
    (auto simp: cmd_cactiask_device_def bindE_Inr_conv Let_def intro: send_update_view
      split: option.splits if_splits)

interpretation v_disconnect: view_contract cmd_disconnect
  by unfold_locales
    (auto simp: cmd_disconnect_def bindE_Inr_conv cli_view_def
      intro: same_view_trans [OF upd_cli_view mark_coll_view])

interpretation v_ping: view_contract cmd_ping
  by unfold_locales (auto simp: cmd_ping_def)

interpretation v_imalive: view_contract cmd_imalive
  by unfold_locales (auto simp: cmd_imalive_def bindE_Inr_conv intro: mark_coll_view)

interpretation v_listen: view_contract cmd_listen_alarms
  by unfold_locales (auto simp: cmd_listen_alarms_def bindE_Inr_conv cli_view_def intro: upd_cli_view)

interpretation v_dump_alarms: view_contract cmd_dump_alarms
  by unfold_locales (auto simp: cmd_dump_alarms_def bindE_Inr_conv Let_def intro: send_view)

interpretation v_get_apiv: view_contract cmd_get_apiv
  by unfold_locales (auto simp: cmd_get_apiv_def bindE_Inr_conv intro: send_view)

interpretation v_modify: view_contract cmd_modify
proof unfold_locales
  fix e c args st r st'
  assume "cmd_modify e c args st = Inr (r, st')"
  then have "st' = st \<or> (\<exists>p d st1. foldE mod_arg args (dmem st p) = Inr d \<and>
      devconf_dump_cb e (upd_dev p (\<lambda>_. d) st) = Inr st1 \<and> (st' = st1 \<or> (\<exists>k m. send k m st1 = Inr st')))"
    by (fastforce simp: cmd_modify_def bindE_Inr_conv Let_def dest!: with_device_Inr split: option.splits)
  then consider "st' = st"
    | p d st1 where "foldE mod_arg args (dmem st p) = Inr d"
        "devconf_dump_cb e (upd_dev p (\<lambda>_. d) st) = Inr st1"
        "st' = st1 \<or> (\<exists>k m. send k m st1 = Inr st')"
    by blast
  then show "same_view st st'"
  proof cases
    case 1
    then show ?thesis by simp
  next
    case 2
    have "dev_view d = dev_view (dmem st p)"
      by (rule foldE_inv [OF 2(1), where P = "\<lambda>d. dev_view d = dev_view (dmem st p)"])
        (auto dest: mod_arg_view)
    then have "same_view st (upd_dev p (\<lambda>_. d) st)" by (intro upd_dev_view)
    also have "same_view (upd_dev p (\<lambda>_. d) st) st1" using 2(2) by (rule devconf_dump_view)
    also have "same_view st1 st'" using 2(3) send_view by auto
    finally show ?thesis .
  qed
qed

section \<open>Clients, watchers and alarms\<close>

lemma reg_ok_ext:
  "reg_ok (st\<lparr>cli := a\<rparr>) = reg_ok (st :: server)" "reg_ok (st\<lparr>alarms := b\<rparr>) = reg_ok st"
  "reg_ok (st\<lparr>clients := l\<rparr>) = reg_ok st" "reg_ok (st\<lparr>cnext := n\<rparr>) = reg_ok st"
  "reg_ok (st\<lparr>execs := x\<rparr>) = reg_ok st"
  by (rule reg_view_ok, simp add: reg_view_def)+

lemma srv_ok_alarms: "srv_ok st \<Longrightarrow> alarms_ok as \<Longrightarrow> srv_ok (st\<lparr>alarms := as\<rparr>)"
  by (simp add: srv_ok_def reg_ok_ext clients_ok_def watchers_ok_def watch_count_def owners_ok_def
      own_ok_def links_ok_def)

lemma same_view_clients: "same_view a b \<Longrightarrow> clients b = clients a"
  by (simp add: same_view_def)

interpretation k_setalarm: cmd_contract cmd_setalarm
proof unfold_locales
  fix st c e args r st'
  assume ok: "srv_ok st" and run: "cmd_setalarm e c args st = Inr (r, st')"
  show "srv_ok st' \<and> set (clients st) \<subseteq> set (clients st')"
  proof (cases "str_arg args SC_ALUID")
    case None
    with run ok show ?thesis by (simp add: cmd_setalarm_def)
  next
    case (Some u)
    define as where "as = snd (update_alarm u (str_arg args SC_ALTEXT) (int_arg args SC_ALSEV (-1))
        (u_arg args SC_ALCHAN 1) (alarms st))"
    have "alarms_ok (alarms st)" using ok by (simp add: srv_ok_def)
    then have ok1: "srv_ok (st\<lparr>alarms := as\<rparr>)"
      unfolding as_def by (intro srv_ok_alarms ok update_alarm_ok)
    from run Some have "\<exists>P m. tell_clients P m (st\<lparr>alarms := as\<rparr>) = Inr st'"
      by (auto simp: cmd_setalarm_def as_def bindE_Inr_conv Let_def split: prod.splits option.splits)
    then have v: "same_view (st\<lparr>alarms := as\<rparr>) st'" by (auto dest: tell_clients_view)
    from same_view_ok [OF v ok1] same_view_clients [OF v] show ?thesis by simp
  qed
qed

text \<open>Changing a client's feeds or its own device.\<close>

lemma srv_ok_upd_links:
  assumes ok: "srv_ok st" and x: "cli st c = Some x"
    and y: "c_devices y = c_devices x" "c_provider y = c_provider x" "c_watched y = c_watched x"
    and l: "f_dev ` set (c_wdevices y) \<subseteq> set (alldevs st)" "set_option (c_coll_dev y) \<subseteq> set (alldevs st)"
  shows "srv_ok (st\<lparr>cli := (cli st)(c \<mapsto> y)\<rparr>)"
proof -
  have "clients_ok (st\<lparr>cli := (cli st)(c \<mapsto> y)\<rparr>)"
    using ok x by (auto simp: srv_ok_def clients_ok_def)
  moreover have "watchers_ok (st\<lparr>cli := (cli st)(c \<mapsto> y)\<rparr>)"
    using ok x y by (auto simp: srv_ok_def watchers_ok_def watch_count_def)
  moreover have "owners_ok (st\<lparr>cli := (cli st)(c \<mapsto> y)\<rparr>)"
    by (rule owners_ok_cong [of st]) (use ok x y in \<open>auto simp: srv_ok_def split: if_splits\<close>)
  moreover have "links_ok (st\<lparr>cli := (cli st)(c \<mapsto> y)\<rparr>)"
    using ok l by (simp add: srv_ok_def links_ok_def)
  ultimately show ?thesis using ok by (simp add: srv_ok_def reg_ok_ext)
qed

lemma found_device:
  "srv_ok st \<Longrightarrow> find_device_byuid st u = Some p \<Longrightarrow> p \<in> set (alldevs st) \<and> d_uid (dmem st p) = u"
  using reg_ok_find [of st u p] by (simp add: srv_ok_def)

lemma srv_ok_linkD:
  "srv_ok st \<Longrightarrow> cli st c = Some x \<Longrightarrow> f_dev ` set (c_wdevices x) \<subseteq> set (alldevs st) \<and>
    set_option (c_coll_dev x) \<subseteq> set (alldevs st)"
  unfolding srv_ok_def links_ok_def by blast

lemma cmd_feed_Inr:
  assumes "cmd_feed e c args st = Inr (r, st')" "st' \<noteq> st \<or> r = 0"
  obtains u x w g where "find_device_byuid st u = Some (f_dev w)" "cli st c = Some x"
    "f_rate w = int_arg args SC_RATE 60"
    "(if c_tev x then fold_gcd (c_wdevices x @ [w]) (c_timer_gcd x) else Inr (f_rate w)) = Inr g"
    "st' = st\<lparr>cli := (cli st)(c \<mapsto> x\<lparr>c_wdevices := c_wdevices x @ [w], c_tev := True,
          c_timer_gcd := g, c_feeds := c_feeds x + 1\<rparr>)\<rparr>"
proof -
  from assms(1) [unfolded cmd_feed_def Let_def, THEN with_device_Inr] assms(2)
  obtain u p where p: "find_device_byuid st u = Some p"
    and run: "bindE (add_wrapped_device p c (int_arg args SC_RATE 60)
        (int_arg args SC_SCALE (int (unat (d_scale (dmem st p))))) st) (\<lambda>st1.
      bindE (get_cli c st1) (\<lambda>x.
      bindE (if \<not> c_tev x then Inr (int_arg args SC_RATE 60) else fold_gcd (c_wdevices x) (c_timer_gcd x)) (\<lambda>g.
      bindE (upd_cli c (\<lambda>x. x\<lparr>c_tev := True, c_timer_gcd := g, c_feeds := c_feeds x + 1\<rparr>) st1)
        (\<lambda>st2. Inr (0, st2))))) = Inr (r, st')"
    by auto
  define w where "w = \<lparr>f_dev = p, f_rate = int_arg args SC_RATE 60,
    f_scale = int_arg args SC_SCALE (int (unat (d_scale (dmem st p)))), f_last_fired = 0\<rparr>"
  from run obtain x where x: "cli st c = Some x"
    by (auto simp: add_wrapped_device_def bindE_Inr_conv upd_cli_Inr)
  have add: "add_wrapped_device p c (int_arg args SC_RATE 60)
      (int_arg args SC_SCALE (int (unat (d_scale (dmem st p))))) st =
    Inr (st\<lparr>cli := (cli st)(c \<mapsto> x\<lparr>c_wdevices := c_wdevices x @ [w]\<rparr>)\<rparr>)"
    using x by (simp add: add_wrapped_device_def upd_cli_def get_cli_def w_def)
  from run obtain g where g: "(if c_tev x then fold_gcd (c_wdevices x @ [w]) (c_timer_gcd x) else Inr (f_rate w)) = Inr g"
    "st' = st\<lparr>cli := (cli st)(c \<mapsto> x\<lparr>c_wdevices := c_wdevices x @ [w], c_tev := True,
          c_timer_gcd := g, c_feeds := c_feeds x + 1\<rparr>)\<rparr>"
    unfolding add bindE_simps by (auto simp: get_cli_def upd_cli_def bindE_Inr_conv w_def split: if_splits)
  from that [of u w x g] p x g show thesis by (simp add: w_def)
qed

interpretation k_feed: cmd_contract cmd_feed
proof unfold_locales
  fix st c e args r st'
  assume ok: "srv_ok st" and run: "cmd_feed e c args st = Inr (r, st')"
  show "srv_ok st' \<and> set (clients st) \<subseteq> set (clients st')"
  proof (cases "st' = st")
    case True
    with ok show ?thesis by simp
  next
    case False
    then obtain p x w g where p: "p \<in> set (alldevs st)" and x: "cli st c = Some x" and w: "f_dev w = p"
      and st': "st' = st\<lparr>cli := (cli st)(c \<mapsto> x\<lparr>c_wdevices := c_wdevices x @ [w], c_tev := True,
          c_timer_gcd := g, c_feeds := c_feeds x + 1\<rparr>)\<rparr>"
      using found_device [OF ok] by (rule_tac cmd_feed_Inr [OF run disjI1 [OF False]]) blast
    have "srv_ok st'"
      unfolding st' by (rule srv_ok_upd_links [OF ok x]) (use srv_ok_linkD [OF ok x] p w in auto)
    then show ?thesis by (simp add: st')
  qed
qed

lemma sum_list_upd:
  assumes "distinct ps" "p \<in> set ps" "\<And>q. q \<noteq> p \<Longrightarrow> f q = g q"
  shows "sum_list (map f ps) + g p = sum_list (map g ps) + (f p :: nat)"
  using assms
proof (induction ps)
  case Nil
  then show ?case by simp
next
  case (Cons a ps)
  show ?case
  proof (cases "a = p")
    case True
    with Cons.prems have "f x = g x" if "x \<in> set ps" for x
      using that by (cases "x = p") auto
    then have "map f ps = map g ps" by simp
    then have "sum_list (map f ps) = sum_list (map g ps)" by (rule arg_cong)
    with True show ?thesis by simp
  next
    case False
    with Cons show ?thesis by simp
  qed
qed

lemma distinct_alldevs: "srv_ok st \<Longrightarrow> distinct (alldevs st)"
  by (simp add: srv_ok_def reg_ok_def keyed_ok_def)

lemma srv_ok_watch:
  assumes ok: "srv_ok st" and p: "p \<in> set (alldevs st)" and x: "cli st c = Some x"
  shows "srv_ok ((upd_dev p (\<lambda>d. d\<lparr>d_watchers := d_watchers d @ [c]\<rparr>) st)
      \<lparr>cli := (cli st)(c \<mapsto> x\<lparr>c_watched := c_watched x + 1\<rparr>)\<rparr>)" (is "srv_ok ?s")
proof -
  have c: "c \<in> set (clients st)" using ok x by (auto simp: srv_ok_def clients_ok_def)
  have "reg_ok ?s" using ok by (simp add: reg_ok_ext srv_ok_def reg_ok_upd_dev)
  moreover have "clients_ok ?s" using ok x by (auto simp: srv_ok_def clients_ok_def)
  moreover have "watchers_ok ?s"
  proof -
    have cnt: "watch_count ?s d = watch_count st d + (if d = c then 1 else 0)" for d
      using sum_list_upd [OF distinct_alldevs [OF ok] p,
          of "\<lambda>q. count_list (d_watchers (dmem ?s q)) d" "\<lambda>q. count_list (d_watchers (dmem st q)) d"]
      by (simp add: watch_count_def)
    have w: "watchers_ok st" using ok by (simp add: srv_ok_def)
    with p c show ?thesis
      unfolding watchers_ok_def cnt by (auto simp:  x)
  qed
  moreover have "owners_ok ?s"
    by (rule owners_ok_cong [of st]) (use ok x in \<open>auto simp: srv_ok_def split: if_splits\<close>)
  moreover have "links_ok ?s"
    using ok srv_ok_linkD [OF ok x] by (simp add: srv_ok_def links_ok_def)
  ultimately show ?thesis using ok by (simp add: srv_ok_def)
qed

end
