(* ===== verification/Preserve.thy ===== *)
theory Preserve
  imports Invariant
begin

text \<open>
  The invariant of the server is kept: by the commands that register devices and groups, open
  feeds and record clients, hence by the dispatcher; by connecting, closing and the timers; and
  it holds after start-up.
\<close>

section \<open>Devices and their owners\<close>

lemma owner_onq:
  assumes "owners_ok st" "cli st c = Some x" "p \<in> set (c_devices x)"
  shows "p < dnext st \<and> d_onq_client (dmem st p)"
  using assms by (auto simp: owners_ok_def own_ok_def)

text \<open>A record that was never allocated is on no queue and has no watchers.\<close>

lemma unallocated:
  assumes ok: "srv_ok st" and p: "dnext st \<le> p"
  shows "p \<notin> set (alldevs st)" "d_watchers (dmem st p) = []" "\<not> d_onq_client (dmem st p)"
proof -
  show a: "p \<notin> set (alldevs st)" using ok p by (auto simp: srv_ok_def reg_ok_def)
  with ok show "d_watchers (dmem st p) = []" by (simp add: srv_ok_def watchers_ok_def)
  have own: "owners_ok st" using ok by (simp add: srv_ok_def)
  show "\<not> d_onq_client (dmem st p)"
  proof
    assume "d_onq_client (dmem st p)"
    then obtain c x where "cli st c = Some x" "p \<in> set (c_devices x)"
      using own by (auto simp: owners_ok_def)
    with owner_onq [OF own] p show False by fastforce
  qed
qed

lemma alloc_dev_simps [simp]:
  "fst (alloc_dev d st) = dnext st" "dmem (snd (alloc_dev d st)) = (dmem st)(dnext st := d)"
  "dnext (snd (alloc_dev d st)) = dnext st + 1" "devtab (snd (alloc_dev d st)) = devtab st"
  "alldevs (snd (alloc_dev d st)) = alldevs st" "nrofdevs (snd (alloc_dev d st)) = nrofdevs st"
  "gmem (snd (alloc_dev d st)) = gmem st" "gnext (snd (alloc_dev d st)) = gnext st"
  "grptab (snd (alloc_dev d st)) = grptab st" "allgroups (snd (alloc_dev d st)) = allgroups st"
  by (simp_all add: alloc_dev_def)

lemma alloc_dev_server [simp]:
  "cli (snd (alloc_dev d st)) = cli st" "cnext (snd (alloc_dev d st)) = cnext st"
  "clients (snd (alloc_dev d st)) = clients st" "alarms (snd (alloc_dev d st)) = alarms st"
  by (simp_all add: alloc_dev_def)

lemma reg_ok_alloc:
  assumes "reg_ok st"
  shows "reg_ok (snd (alloc_dev d st))"
proof -
  have "p \<noteq> dnext st" if "p \<in> set (alldevs st)" for p
    using assms that by (auto simp: reg_ok_def)
  then have "keyed_ok (dev_key (snd (alloc_dev d st))) (devtab st) (alldevs st)"
    using assms by (auto simp: reg_ok_def keyed_ok_def dev_key_def find_eta)
  with assms show ?thesis
    by (auto simp: reg_ok_def grp_ok_def find_eta grp_key_def [abs_def])
qed

lemma srv_ok_alloc:
  assumes ok: "srv_ok st" and d: "d_watchers d = []" "\<not> d_onq_client d"
  shows "srv_ok (snd (alloc_dev d st))"
proof (rule srv_ok_cong [OF ok, of _ "[]"])
  show "reg_ok (snd (alloc_dev d st))" using ok by (simp add: srv_ok_def reg_ok_alloc)
  show "owners_ok (snd (alloc_dev d st))"
    by (rule owners_ok_cong [of st]) (use ok d unallocated [OF ok] in \<open>auto simp: srv_ok_def\<close>)
qed (use d unallocated [OF ok] in auto)

lemma srv_ok_insert:
  assumes ok: "srv_ok st" and p: "p < dnext st" "dev_fresh p st"
    and n: "find_device_byuid st (d_uid (dmem st p)) = None"
  shows "srv_ok (insert_device p st)"
proof (rule srv_ok_cong [OF ok])
  show "reg_ok (insert_device p st)" using ok p n by (intro reg_ok_insert) (simp_all add: srv_ok_def)
  show "owners_ok (insert_device p st)"
    by (rule owners_ok_cong [of st]) (use ok in \<open>auto simp: srv_ok_def\<close>)
  show "alldevs (insert_device p st) = alldevs st @ [p]" using p by (simp add: dev_fresh_def)
qed simp_all

lemma srv_ok_upd_dev:
  "srv_ok st \<Longrightarrow> dev_view (f (dmem st p)) = dev_view (dmem st p) \<Longrightarrow> srv_ok (upd_dev p f st)"
  using same_view_ok [OF upd_dev_view] .

text \<open>The two steps of \<^verbatim>\<open>adopt_device\<close>.\<close>

lemma srv_ok_provide:
  assumes ok: "srv_ok st" and x: "cli st c = Some x"
  shows "srv_ok (st\<lparr>cli := (cli st)(c \<mapsto> x\<lparr>c_provider := True\<rparr>)\<rparr>)" (is "srv_ok ?s")
proof (rule srv_ok_cong [OF ok, of _ "[]"])
  show "reg_ok ?s" using ok by (simp add: srv_ok_def reg_ok_ext)
  show "owners_ok ?s"
    by (rule owners_ok_cong [of st]) (use ok x in \<open>auto simp: srv_ok_def split: if_splits\<close>)
qed (use x in \<open>auto simp: link_view_def\<close>)

lemma srv_ok_own:
  assumes ok: "srv_ok st" and x: "cli st c = Some x" "c_provider x"
    and p: "p < dnext st" "\<not> d_onq_client (dmem st p)"
  shows "srv_ok ((upd_dev p (\<lambda>d. d\<lparr>d_onq_client := True\<rparr>) st)
    \<lparr>cli := (cli st)(c \<mapsto> x\<lparr>c_devices := c_devices x @ [p]\<rparr>)\<rparr>)" (is "srv_ok ?s")
proof (rule srv_ok_cong [OF ok, of _ "[]"])
  have own: "owners_ok st" using ok by (simp add: srv_ok_def)
  have new: "p \<notin> set (c_devices y)" if "cli st d = Some y" for d y
    using owner_onq [OF own that] p(2) by blast
  have oo: "own_ok st y" if "cli st d = Some y" for d y using own that by (simp add: owners_ok_def)
  show "owners_ok ?s"
    unfolding owners_ok_def
  proof (intro conjI allI impI, goal_cases)
    case (1 d y)
    then show ?case
      using oo [of d] oo [OF x(1)] x p new [OF x(1)] by (auto simp: own_ok_def split: if_splits)
  next
    case (2 d d' y y' q)
    then show ?case
      using own x new unfolding owners_ok_def by (auto split: if_splits)
  next
    case (3 q)
    show ?case
    proof (cases "q = p")
      case True
      then show ?thesis by (intro exI [of _ c]) simp
    next
      case False
      with 3 obtain d y where dy: "cli st d = Some y" "q \<in> set (c_devices y)"
        using own by (auto simp: owners_ok_def)
      then show ?thesis using x by (cases "d = c") (auto intro!: exI [of _ d])
    qed
  qed
  show "reg_ok ?s" using ok by (simp add: srv_ok_def reg_ok_ext reg_ok_upd_dev)
qed (use x in \<open>auto simp: link_view_def\<close>)

lemma adopt_device_Inr:
  assumes "adopt_device c p st = Inr st'"
  obtains x st1 y where "cli st c = Some x" "y = (if c_devices x = [] then x\<lparr>c_provider := True\<rparr> else x)"
    "st1 = st\<lparr>cli := (cli st)(c \<mapsto> y)\<rparr>"
    "st' = (if d_onq_client (dmem st p) then st1
            else (upd_dev p (\<lambda>d. d\<lparr>d_onq_client := True\<rparr>) st1)
              \<lparr>cli := (cli st1)(c \<mapsto> y\<lparr>c_devices := c_devices y @ [p]\<rparr>)\<rparr>)"
proof -
  from assms obtain x where x: "cli st c = Some x"
    by (auto simp: adopt_device_def bindE_Inr_conv upd_cli_Inr)
  from that [OF x refl refl] assms x show thesis
    by (cases "d_onq_client (dmem st p)") (simp_all add: adopt_device_def upd_cli_def get_cli_def)
qed

lemma srv_ok_adopt:
  assumes ok: "srv_ok st" and p: "p < dnext st" and run: "adopt_device c p st = Inr st'"
  shows "srv_ok st'"
proof -
  obtain x st1 y where x: "cli st c = Some x"
    and y: "y = (if c_devices x = [] then x\<lparr>c_provider := True\<rparr> else x)"
    and st1: "st1 = st\<lparr>cli := (cli st)(c \<mapsto> y)\<rparr>"
    and st': "st' = (if d_onq_client (dmem st p) then st1
            else (upd_dev p (\<lambda>d. d\<lparr>d_onq_client := True\<rparr>) st1)
              \<lparr>cli := (cli st1)(c \<mapsto> y\<lparr>c_devices := c_devices y @ [p]\<rparr>)\<rparr>)"
    using run by (rule adopt_device_Inr)
  have "own_ok st x" using ok x by (simp add: srv_ok_def owners_ok_def)
  then have prov: "c_provider y" by (auto simp: y own_ok_def)
  have "st1 = st" if "c_devices x \<noteq> []" using x that by (simp add: st1 y fun_upd_idem)
  then have ok1: "srv_ok st1" using srv_ok_provide [OF ok x] ok by (cases "c_devices x = []") (simp_all add: st1 y)
  have "cli st1 c = Some y" by (simp add: st1)
  from srv_ok_own [OF ok1 this prov, of p] ok1 p show ?thesis by (auto simp: st' st1)
qed

lemma adopt_device_frame:
  assumes "adopt_device c p st = Inr st'"
  shows "alldevs st' = alldevs st" "devtab st' = devtab st" "dnext st' = dnext st"
    "clients st' = clients st" "d_uid (dmem st' q) = d_uid (dmem st q)"
    "d_onq_all (dmem st' q) = d_onq_all (dmem st q)"
  by (rule adopt_device_Inr [OF assms]; simp)+

section \<open>Registering devices, groups and clients\<close>

lemma set_clients_eqI: "srv_ok b \<Longrightarrow> clients b = clients a \<Longrightarrow> srv_ok b \<and> set (clients a) \<subseteq> set (clients b)"
  by simp

interpretation k_cfeed: cmd_contract cmd_cfeed
proof unfold_locales
  fix st c e args r st'
  assume ok: "srv_ok st" and run: "cmd_cfeed e c args st = Inr (r, st')"
  from run [unfolded cmd_cfeed_def, THEN with_device_Inr]
  show "srv_ok st' \<and> set (clients st) \<subseteq> set (clients st')"
  proof (elim disjE exE conjE)
    assume "st' = st"
    with ok show ?thesis by simp
  next
    fix u p
    assume u: "find_device_byuid st u = Some p"
      and "bindE (add_wrapped_client c p st) (\<lambda>st1. Inr (0, st1)) = Inr (r, st')"
    then obtain x where x: "cli st c = Some x"
      and st': "st' = (upd_dev p (\<lambda>d. d\<lparr>d_watchers := d_watchers d @ [c]\<rparr>) st)
        \<lparr>cli := (cli st)(c \<mapsto> x\<lparr>c_watched := c_watched x + 1\<rparr>)\<rparr>"
      by (auto simp: bindE_Inr_conv add_wrapped_client_def upd_cli_Inr)
    from u have "p \<in> set (alldevs st)" using found_device [OF ok] by blast
    from srv_ok_watch [OF ok this x] show ?thesis by (simp add: st')
  qed
qed

lemma register_fields_view [simp]: "dev_view (register_fields e c args n d) = dev_view d"
  by (simp add: register_fields_def dev_view_def)

text \<open>A device that was allocated, adopted and inserted.\<close>

lemma srv_ok_new_device:
  assumes ok: "srv_ok st" and d: "d_watchers d = []" "\<not> d_onq_client d" "\<not> d_onq_all d"
    and new: "find_device_byuid st (d_uid d) = None"
    and run: "adopt_device c (dnext st) (snd (alloc_dev d st)) = Inr st'"
  shows "srv_ok (insert_device (dnext st) st')"
proof (rule srv_ok_insert)
  note f = adopt_device_frame [OF run]
  show "srv_ok st'" using srv_ok_adopt [OF srv_ok_alloc [OF ok d(1,2)] _ run] by simp
  show "dnext st < dnext st'" by (simp add: f)
  show "dev_fresh (dnext st) st'" using d unallocated(1) [OF ok] by (simp add: f dev_fresh_def)
  show "find_device_byuid st' (d_uid (dmem st' (dnext st))) = None" using new by (simp add: f find_eta)
qed

lemma cmd_register_Inr:
  assumes "cmd_register e c args st = Inr (r, st')"
  shows "st' = st \<or>
    (\<exists>uid n st2. find_device_byuid st uid = None \<and>
      adopt_device c (dnext st) (snd (alloc_dev (register_fields e c args n (new_device uid)) st)) = Inr st2 \<and>
      st' = insert_device (dnext st) st2) \<or>
    (\<exists>uid p n. find_device_byuid st uid = Some p \<and>
      adopt_device c p (upd_dev p (register_fields e c args n) st) = Inr st')"
  using assms
  by (auto simp: cmd_register_def Let_def bindE_Inr_conv alloc_dev_def split: option.splits if_splits)

interpretation k_register: cmd_contract cmd_register
proof unfold_locales
  fix st c e args r st'
  assume ok: "srv_ok st" and run: "cmd_register e c args st = Inr (r, st')"
  from cmd_register_Inr [OF run] show "srv_ok st' \<and> set (clients st) \<subseteq> set (clients st')"
  proof (elim disjE exE conjE, goal_cases)
    case 1
    with ok show ?case by simp
  next
    case (2 uid n st2)
    let ?d = "register_fields e c args n (new_device uid)"
    have d: "d_watchers ?d = []" "\<not> d_onq_client ?d" "\<not> d_onq_all ?d" "d_uid ?d = uid"
      by (simp_all add: register_fields_def new_device_def)
    from srv_ok_new_device [OF ok d(1-3) _ 2(2)] 2 d show ?case
      by (simp add: adopt_device_frame [OF 2(2)])
  next
    case (3 uid p n)
    have "p < dnext st" using found_device [OF ok 3(1)] ok by (auto simp: srv_ok_def reg_ok_def)
    with 3(2) have "srv_ok st'"
      by (intro srv_ok_adopt [OF srv_ok_upd_dev [OF ok] _ 3(2)]) simp_all
    then show ?case by (simp add: adopt_device_frame [OF 3(2)])
  qed
qed

text \<open>Group commands touch only the groups.\<close>

definition dev_part :: "server \<Rightarrow> server" where
  "dev_part st = st\<lparr>gmem := (\<lambda>_. new_group []), gnext := 0, grptab := (\<lambda>_. None), allgroups := []\<rparr>"

lemma dev_part_eqD:
  assumes "dev_part a = dev_part b"
  shows "dmem b = dmem a" "dnext b = dnext a" "devtab b = devtab a" "alldevs b = alldevs a" "cli b = cli a"
    "clients b = clients a" "cnext b = cnext a" "alarms b = alarms a"
proof -
  note e = arg_cong [OF assms]
  show "dmem b = dmem a" using e [of dmem] by (simp add: dev_part_def)
  show "dnext b = dnext a" using e [of dnext] by (simp add: dev_part_def)
  show "devtab b = devtab a" using e [of devtab] by (simp add: dev_part_def)
  show "alldevs b = alldevs a" using e [of alldevs] by (simp add: dev_part_def)
  show "cli b = cli a" using e [of cli] by (simp add: dev_part_def)
  show "clients b = clients a" using e [of clients] by (simp add: dev_part_def)
  show "cnext b = cnext a" using e [of cnext] by (simp add: dev_part_def)
  show "alarms b = alarms a" using e [of alarms] by (simp add: dev_part_def)
qed

lemma srv_ok_groups:
  assumes ok: "srv_ok a" and reg: "reg_ok b" and f: "dev_part a = dev_part b"
  shows "srv_ok b"
proof (rule srv_ok_cong [OF ok reg, of "[]"])
  show "owners_ok b"
    by (rule owners_ok_cong [of a]) (use ok in \<open>auto simp: srv_ok_def dev_part_eqD [OF f]\<close>)
qed (simp_all add: dev_part_eqD [OF f])

lemma dev_part_groups [simp]:
  "dev_part (upd_grp g f st) = dev_part st" "dev_part (snd (new_devgroup u st)) = dev_part st"
  "dev_part (add_dev_group p g st) = dev_part st" "dev_part (add_group_group h g st) = dev_part st"
  by (simp_all add: dev_part_def upd_grp_def new_devgroup_def add_dev_group_def add_group_group_def Let_def)

definition grp_step_ok :: "server \<Rightarrow> server \<Rightarrow> bool" where
  "grp_step_ok a b \<longleftrightarrow> reg_ok b \<and> dev_part a = dev_part b"

lemma grp_step_srv_ok: "srv_ok a \<Longrightarrow> grp_step_ok a b \<Longrightarrow> srv_ok b \<and> set (clients a) \<subseteq> set (clients b)"
  using srv_ok_groups [of a b] dev_part_eqD(6) [of a b] by (auto simp: grp_step_ok_def)

lemma add_groups_ok:
  assumes "reg_ok st"
  shows "grp_step_ok st (add_groups g us st)"
  unfolding add_groups_def
proof (rule fold_inv)
  show "grp_step_ok st st" using assms by (simp add: grp_step_ok_def)
next
  fix u s
  assume s: "grp_step_ok st s"
  then have r: "reg_ok s" by (simp add: grp_step_ok_def)
  with s show "grp_step_ok st (case find_devgroup_byuid s u of None \<Rightarrow> s
      | Some h \<Rightarrow> if group_in_group h g s then s else add_group_group h g s)"
    using reg_ok_find_grp [OF r, of u] by (auto simp: grp_step_ok_def reg_ok_add_group_group split: option.split)
qed

lemma add_devices_ok:
  assumes "reg_ok st"
  shows "grp_step_ok st (add_devices g us st)"
  unfolding add_devices_def
proof (rule fold_inv)
  show "grp_step_ok st st" using assms by (simp add: grp_step_ok_def)
next
  fix u s
  assume s: "grp_step_ok st s"
  then have r: "reg_ok s" by (simp add: grp_step_ok_def)
  with s show "grp_step_ok st (case find_device_byuid s u of None \<Rightarrow> s
      | Some p \<Rightarrow> if dev_in_group p g s then s else add_dev_group p g s)"
    using reg_ok_find [OF r, of u] by (auto simp: grp_step_ok_def reg_ok_add_dev_group split: option.split)
qed

lemma drop_groups_Inr: "drop_groups g us st = Inr st' \<Longrightarrow> st' = st"
  unfolding drop_groups_def by (erule foldE_inv) (auto split: if_splits)

lemma drop_devices_Inr: "drop_devices g us st = Inr st' \<Longrightarrow> st' = st"
  unfolding drop_devices_def by (erule foldE_inv) (auto split: if_splits)

lemma grp_step_trans: "grp_step_ok a b \<Longrightarrow> (reg_ok b \<Longrightarrow> grp_step_ok b c) \<Longrightarrow> grp_step_ok a c"
  by (simp add: grp_step_ok_def)

lemma fill_group_ok:
  assumes ok: "reg_ok st" and run: "fill_group g args st = Inr st'"
  shows "grp_step_ok st st'"
proof -
  define st1 where "st1 = (case str_arg args SC_NAME of
      None \<Rightarrow> st | Some n \<Rightarrow> upd_grp g (\<lambda>r. r\<lparr>g_name := Some n\<rparr>) st)"
  have s1: "grp_step_ok st st1"
    using ok by (auto simp: st1_def grp_step_ok_def intro: reg_ok_upd_grp_sub split: option.split)
  then have r1: "reg_ok st1" by (simp add: grp_step_ok_def)
  from run obtain st2 where st2: "(case str_arg args SC_GROUPLIST of None \<Rightarrow> Inr st1
        | Some l \<Rightarrow> drop_groups g (strtok (CHR '','') l) (add_groups g (strtok (CHR '','') l) st1)) = Inr st2"
    and st': "(case str_arg args SC_DEVLIST of None \<Rightarrow> Inr st2
        | Some l \<Rightarrow> drop_devices g (strtok (CHR '','') l) (add_devices g (strtok (CHR '','') l) st2)) = Inr st'"
    unfolding fill_group_def Let_def st1_def [symmetric] bindE_Inr_conv by blast
  have "grp_step_ok st1 st2"
    using st2 r1 by (auto simp: grp_step_ok_def dest!: drop_groups_Inr split: option.splits)
      (use add_groups_ok [OF r1] in \<open>auto simp: grp_step_ok_def\<close>)
  moreover from this have r2: "reg_ok st2" by (simp add: grp_step_ok_def)
  have "grp_step_ok st2 st'"
    using st' r2 by (auto simp: grp_step_ok_def dest!: drop_devices_Inr split: option.splits)
      (use add_devices_ok [OF r2] in \<open>auto simp: grp_step_ok_def\<close>)
  ultimately show ?thesis using s1 by (simp add: grp_step_ok_def)
qed

interpretation k_register_group: cmd_contract cmd_register_group
proof unfold_locales
  fix st c e args r st'
  assume ok: "srv_ok st" and run: "cmd_register_group e c args st = Inr (r, st')"
  have reg: "reg_ok st" using ok by (simp add: srv_ok_def)
  show "srv_ok st' \<and> set (clients st) \<subseteq> set (clients st')"
  proof (cases "str_arg args SC_UID")
    case None
    with run ok show ?thesis by (simp add: cmd_register_group_def)
  next
    case (Some uid)
    show ?thesis
    proof (cases "find_devgroup_byuid st uid")
      case None
      let ?s = "snd (new_devgroup uid st)"
      have "grp_step_ok st ?s" using reg_ok_new_devgroup [OF reg None] by (simp add: grp_step_ok_def)
      moreover from run Some None have "st' = st \<or> fill_group (fst (new_devgroup uid st)) args ?s = Inr st'"
        by (auto simp: cmd_register_group_def bindE_Inr_conv case_prod_unfold split: if_splits)
      ultimately have "grp_step_ok st st'"
        using fill_group_ok [of ?s "fst (new_devgroup uid st)" args st'] reg by (auto simp: grp_step_ok_def)
      then show ?thesis by (rule grp_step_srv_ok [OF ok])
    next
      case (Some g)
      with run \<open>str_arg args SC_UID = Some uid\<close> have "fill_group g args st = Inr st'"
        by (auto simp: cmd_register_group_def bindE_Inr_conv)
      then show ?thesis using fill_group_ok [OF reg] grp_step_srv_ok [OF ok] by blast
    qed
  qed
qed

section \<open>New clients\<close>

lemma srv_ok_new_cli:
  assumes ok: "srv_ok st"
    and x: "c_devices x = []" "c_wdevices x = []" "c_coll_dev x = None" "c_watched x = 0"
  shows "srv_ok (new_cli x st)"
proof -
  let ?s = "new_cli x st"
  have s: "dmem ?s = dmem st" "alldevs ?s = alldevs st" "dnext ?s = dnext st" "alarms ?s = alarms st"
    "cli ?s = (cli st)(cnext st \<mapsto> x)" "clients ?s = clients st @ [cnext st]" "cnext ?s = cnext st + 1"
    by (simp_all add: new_cli_def)
  have co: "clients_ok st" and w: "watchers_ok st" and own: "owners_ok st" and l: "links_ok st"
    using ok by (simp_all add: srv_ok_def)
  have fresh: "cnext st \<notin> set (clients st)" "cli st (cnext st) = None"
    using co by (auto simp: clients_ok_def)
  have "reg_view ?s = reg_view st" by (simp add: reg_view_def new_cli_def)
  then have "reg_ok ?s" using ok reg_view_ok by (auto simp: srv_ok_def)
  moreover have "clients_ok ?s" using co fresh by (auto simp: clients_ok_def s)
  moreover have "watchers_ok ?s"
  proof -
    have "count_list (d_watchers (dmem st p)) (cnext st) = 0" for p
      using w fresh(1) by (auto simp: watchers_ok_def count_list_0_iff)
    then have "watch_count st (cnext st) = 0" by (simp add: watch_count_def)
    moreover have "watch_count ?s d = watch_count st d" for d by (simp add: watch_count_def s)
    ultimately show ?thesis using w x by (auto simp: watchers_ok_def s)
  qed
  moreover have "owners_ok ?s"
    unfolding owners_ok_def
  proof (intro conjI allI impI, goal_cases)
    case (1 c y)
    then show ?case using own x by (auto simp: owners_ok_def own_ok_def s split: if_splits)
  next
    case (2 c d y z p)
    then have "cli st c = Some y" "cli st d = Some z" using x by (auto simp: s split: if_splits)
    with 2 own show ?case unfolding owners_ok_def by blast
  next
    case (3 p)
    then obtain c y where cy: "cli st c = Some y" "p \<in> set (c_devices y)"
      using own by (auto simp: owners_ok_def s)
    with fresh(2) have "cli ?s c = Some y" by (auto simp: s)
    with cy(2) show ?case by blast
  qed
  moreover have "links_ok ?s" using l x by (simp add: links_ok_def s)
  ultimately show ?thesis using ok by (simp add: srv_ok_def s)
qed

definition handler_client :: "env \<Rightarrow> string \<Rightarrow> cptr \<Rightarrow> client" where
  "handler_client e h c = new_client\<lparr>c_name := Some ''handler'', c_addr := Some h, c_pid := e_fork e c\<rparr>"

lemma handler_client_fields:
  "c_devices (handler_client e h c) = []" "c_wdevices (handler_client e h c) = []"
  "c_coll_dev (handler_client e h c) = None" "c_watched (handler_client e h c) = 0"
  by (simp_all add: handler_client_def new_client_def)

lemma run_handler_Inr:
  assumes "run_handler_dev e p st = Inr st'" "st' \<noteq> st"
  obtains h v m where "send (cnext st) m (new_cli (handler_client e h (cnext st)) st\<lparr>execs := v\<rparr>) = Inr st'"
  using assms
  unfolding run_handler_dev_def Let_def bindE_Inr_conv handler_client_def [symmetric]
  by (clarsimp simp only: bindE_Inr_conv split: option.splits if_splits)

lemma same_view_execs: "same_view st (st\<lparr>execs := v\<rparr>)"
  by (simp add: same_view_def)

lemma run_handler_ok:
  assumes ok: "srv_ok st" and run: "run_handler_dev e p st = Inr st'"
  shows "srv_ok st' \<and> set (clients st) \<subseteq> set (clients st')"
proof (cases "st' = st")
  case True
  with ok show ?thesis by simp
next
  case False
  from run_handler_Inr [OF run False] obtain h v m
    where s: "send (cnext st) m (new_cli (handler_client e h (cnext st)) st\<lparr>execs := v\<rparr>) = Inr st'" .
  let ?x = "handler_client e h (cnext st)"
  have "same_view (new_cli ?x st) (new_cli ?x st\<lparr>execs := v\<rparr>)" by (rule same_view_execs)
  also have "same_view \<dots> st'" using s by (rule send_view)
  finally have v: "same_view (new_cli ?x st) st'" .
  from same_view_ok [OF v srv_ok_new_cli [OF ok handler_client_fields]] same_view_clients [OF v]
  show ?thesis by (auto simp: new_cli_def)
qed

interpretation k_update: cmd_contract cmd_update
proof unfold_locales
  fix st c e args r st'
  assume ok: "srv_ok st" and run: "cmd_update e c args st = Inr (r, st')"
  from run [unfolded cmd_update_def, THEN with_device_Inr]
  show "srv_ok st' \<and> set (clients st) \<subseteq> set (clients st')"
  proof (elim disjE exE conjE)
    assume "st' = st"
    with ok show ?thesis by simp
  next
    fix u p
    define st1 where "st1 = upd_dev p (\<lambda>d. (fold store_arg args d)\<lparr>d_last_upd := e_now e\<rparr>) st"
    assume "(let hadnodata = QUERY_FLAG (d_flags (dmem st p)) DEVFLAG_NODATA;
           st1 = upd_dev p (\<lambda>d. (fold store_arg args d)\<lparr>d_last_upd := e_now e\<rparr>) st
       in bindE (upd_cli c (\<lambda>x. x\<lparr>c_updates := c_updates x + 1\<rparr>) st1) (\<lambda>st2.
          let dev = dmem st2 p
          in bindE (if d_handler dev \<noteq> None \<and> (device_watermark (e_junk e) dev \<noteq> 0 \<or> hadnodata)
                    then run_handler_dev e p st2 else Inr st2) (\<lambda>st3.
             bindE (foldE (push_update p) (d_watchers (dmem st3 p)) st3) (\<lambda>st4. Inr (0, st4))))) = Inr (r, st')"
    then obtain st2 st3 where st2: "upd_cli c (\<lambda>x. x\<lparr>c_updates := c_updates x + 1\<rparr>) st1 = Inr st2"
      and st3: "st3 = st2 \<or> run_handler_dev e p st2 = Inr st3"
      and st': "foldE (push_update p) (d_watchers (dmem st3 p)) st3 = Inr st'"
      by (auto simp: Let_def bindE_Inr_conv st1_def split: if_splits)
    have "dev_view (d\<lparr>d_last_upd := t\<rparr>) = dev_view d" for d t by (simp add: dev_view_def)
    then have "same_view st st1" unfolding st1_def by (intro upd_dev_view) simp
    also have "same_view st1 st2" using st2 by (rule upd_cli_view) (simp add: cli_view_def)
    finally have v2: "same_view st st2" .
    have ok2: "srv_ok st2" using v2 ok by (rule same_view_ok)
    have ok3: "srv_ok st3 \<and> set (clients st2) \<subseteq> set (clients st3)"
      using st3 run_handler_ok [OF ok2, of e p st3] ok2 by auto
    have v: "same_view st3 st'" using st' by (rule foldE_view) (rule push_update_view)
    from ok3 same_view_ok [OF v] same_view_clients [OF v] same_view_clients [OF v2] show ?thesis by simp
  qed
qed

text \<open>The device that stands for a collector.\<close>

lemma srv_ok_alloc_insert:
  assumes ok: "srv_ok st" and d: "d_watchers d = []" "\<not> d_onq_client d" "\<not> d_onq_all d"
    and new: "find_device_byuid st (d_uid d) = None"
  shows "srv_ok (insert_device (dnext st) (snd (alloc_dev d st)))"
  by (rule srv_ok_insert [OF srv_ok_alloc [OF ok d(1,2)]])
    (use d new unallocated(1) [OF ok] in \<open>simp_all add: dev_fresh_def find_eta\<close>)

lemma new_coll_dev_fields:
  "d_watchers (new_coll_dev c u n r) = []" "\<not> d_onq_client (new_coll_dev c u n r)"
  "\<not> d_onq_all (new_coll_dev c u n r)" "d_uid (new_coll_dev c u n r) = u"
  by (simp_all add: new_coll_dev_def new_device_def)

lemma track_client_Inr:
  assumes "track_client e c nm host st = Inr (r, st')"
  obtains p st1 st2 where
    "(find_device_byuid st (nm @ ''-'' @ host) = Some p \<and> st1 = st) \<or>
     (find_device_byuid st (nm @ ''-'' @ host) = None \<and> p = dnext st \<and>
       (\<exists>n rr. st1 = insert_device p (snd (alloc_dev (new_coll_dev c (nm @ ''-'' @ host) n rr) st))))"
    "upd_cli c (\<lambda>x. x\<lparr>c_coll_dev := Some p\<rparr>) st1 = Inr st2"
    "st' = upd_dev p (\<lambda>d. store_data_dev d DATALOC_DATA (int_at e COLLECTOR_OK)) st2"
  using assms
  by (auto simp: track_client_def bindE_Inr_conv sprintf_buf_def alloc_dev_def split: if_splits option.splits)

lemma track_client_ok:
  assumes ok: "srv_ok st" and run: "track_client e c nm host st = Inr (r, st')"
  shows "srv_ok st' \<and> clients st' = clients st"
proof -
  obtain p st1 st2 where one: "(find_device_byuid st (nm @ ''-'' @ host) = Some p \<and> st1 = st) \<or>
     (find_device_byuid st (nm @ ''-'' @ host) = None \<and> p = dnext st \<and>
       (\<exists>n rr. st1 = insert_device p (snd (alloc_dev (new_coll_dev c (nm @ ''-'' @ host) n rr) st))))"
    and two: "upd_cli c (\<lambda>x. x\<lparr>c_coll_dev := Some p\<rparr>) st1 = Inr st2"
    and three: "st' = upd_dev p (\<lambda>d. store_data_dev d DATALOC_DATA (int_at e COLLECTOR_OK)) st2"
    using run by (rule track_client_Inr)
  have ok1: "srv_ok st1 \<and> p \<in> set (alldevs st1) \<and> clients st1 = clients st"
    using one
  proof (elim disjE exE conjE)
    assume "find_device_byuid st (nm @ ''-'' @ host) = Some p" "st1 = st"
    then show ?thesis using ok found_device [OF ok] by simp
  next
    fix n rr
    assume new: "find_device_byuid st (nm @ ''-'' @ host) = None" "p = dnext st"
      and st1: "st1 = insert_device p (snd (alloc_dev (new_coll_dev c (nm @ ''-'' @ host) n rr) st))"
    show ?thesis
      using srv_ok_alloc_insert [OF ok new_coll_dev_fields(1-3)] new
      by (simp add: st1 new_coll_dev_fields)
  qed
  from two obtain x where x: "cli st1 c = Some x" and st2: "st2 = st1\<lparr>cli := (cli st1)(c \<mapsto> x\<lparr>c_coll_dev := Some p\<rparr>)\<rparr>"
    by (auto simp: upd_cli_Inr)
  have "srv_ok st2"
    unfolding st2 by (rule srv_ok_upd_links) (use ok1 x srv_ok_linkD [of st1 c x] in auto)
  then have "srv_ok st'" unfolding three by (rule srv_ok_upd_dev) simp
  with ok1 show ?thesis by (simp add: three st2)
qed

interpretation k_client: cmd_contract cmd_client
proof unfold_locales
  fix st c e args r st'
  assume ok: "srv_ok st" and run: "cmd_client e c args st = Inr (r, st')"
  show "srv_ok st' \<and> set (clients st) \<subseteq> set (clients st')"
  proof (cases "str_arg args SC_CLIENT")
    case None
    with run ok show ?thesis by (simp add: cmd_client_def)
  next
    case (Some nm)
    with run obtain st1 host where st1: "upd_cli c (\<lambda>x. x\<lparr>c_name := Some nm\<rparr>) st = Inr st1"
      and st': "st' = st1 \<or> track_client e c nm host st1 = Inr (r, st')"
      by (auto simp: cmd_client_def bindE_Inr_conv split: if_splits)
    have v: "same_view st st1" using st1 by (rule upd_cli_view) (simp add: cli_view_def)
    from st' same_view_ok [OF v ok] track_client_ok [of st1 e c nm host r st'] same_view_clients [OF v]
    show ?thesis by auto
  qed
qed

section \<open>The dispatcher and the read loop\<close>

lemmas contracts =
  v_change.cmd_contract_axioms k_register.cmd_contract_axioms k_register_group.cmd_contract_axioms
  k_update.cmd_contract_axioms v_modify.cmd_contract_axioms k_feed.cmd_contract_axioms
  k_cfeed.cmd_contract_axioms v_list_devices.cmd_contract_axioms v_list_groups.cmd_contract_axioms
  v_ask.cmd_contract_axioms v_ask_full.cmd_contract_axioms v_cactiask.cmd_contract_axioms
  v_disconnect.cmd_contract_axioms k_client.cmd_contract_axioms v_ping.cmd_contract_axioms
  v_imalive.cmd_contract_axioms k_setalarm.cmd_contract_axioms v_listen.cmd_contract_axioms
  v_dump_alarms.cmd_contract_axioms v_get_apiv.cmd_contract_axioms

lemma commands_contract: "list_all (\<lambda>(n, f). cmd_contract f) commands"
  by (simp add: commands_def contracts)

interpretation disp: cmd_contract "parsed_command command" for command
proof unfold_locales
  fix st c e args r st'
  assume ok: "srv_ok st" "c \<in> set (clients st)" and run: "parsed_command command e c args st = Inr (r, st')"
  show "srv_ok st' \<and> set (clients st) \<subseteq> set (clients st')"
  proof (cases "map_of commands (map c_tolower command)")
    case None
    with run ok show ?thesis by (simp add: parsed_command_lookup)
  next
    case (Some f)
    then have "cmd_contract f"
      using commands_contract by (auto simp: list_all_iff dest: map_of_SomeD)
    moreover from run Some have "f e c args st = Inr (r, st')" by (simp add: parsed_command_lookup)
    ultimately show ?thesis using cmd_contract.keeps ok by blast
  qed
qed

lemma run_line_ok:
  assumes "srv_ok st" "c \<in> set (clients st)" "run_line e c line st = Inr (Some st')"
  shows "srv_ok st' \<and> c \<in> set (clients st')"
proof -
  have "\<exists>ws args ret. parsed_command (hd ws) e c args st = Inr (ret, st')"
    using assms(3) by (auto simp: run_line_def bindE_Inr_conv split: option.splits)
  then obtain ws args ret where run: "parsed_command (hd ws) e c args st = Inr (ret, st')" by blast
  show ?thesis using disp.keeps_ok [OF assms(1,2) run] disp.keeps_client [OF assms(1,2) run] by simp
qed

lemma read_lines_ok:
  "srv_ok st \<Longrightarrow> c \<in> set (clients st) \<Longrightarrow> read_lines e c ls st = Inr (rest, st')
    \<Longrightarrow> srv_ok st' \<and> c \<in> set (clients st')"
proof (induction ls arbitrary: st)
  case Nil
  then show ?case by simp
next
  case (Cons l ls)
  show ?case
  proof (cases "l = [] \<or> run_line e c l st = Inr None")
    case True
    with Cons.prems show ?thesis by (auto split: if_splits)
  next
    case False
    with Cons.prems(3) obtain st1 where st1: "run_line e c l st = Inr (Some st1)"
        "read_lines e c ls st1 = Inr (rest, st')"
      by (auto simp: bindE_Inr_conv split: option.splits if_splits)
    with run_line_ok [OF Cons.prems(1,2) st1(1)] Cons.IH show ?thesis by blast
  qed
qed

lemma buf_read_ok:
  assumes ok: "srv_ok st" "c \<in> set (clients st)" and run: "buf_read_cb e c new st = Inr st'"
  shows "srv_ok st'"
proof -
  obtain st1 ls rest st2 where st1: "upd_cli c (\<lambda>x. x\<lparr>c_lastupd := e_now e\<rparr>) st = Inr st1"
    and st2: "read_lines e c ls st1 = Inr (rest, st2)"
    and st': "upd_cli c (\<lambda>x. x\<lparr>c_in := rest\<rparr>) st2 = Inr st'"
    using run by (auto simp: buf_read_cb_def bindE_Inr_conv)
  have v: "same_view st st1" using st1 by (rule upd_cli_view) (simp add: cli_view_def)
  have "srv_ok st2"
    using read_lines_ok [OF same_view_ok [OF v ok(1)] _ st2] ok(2) same_view_clients [OF v] by simp
  moreover have "same_view st2 st'" using st' by (rule upd_cli_view) (simp add: cli_view_def)
  ultimately show ?thesis using same_view_ok by blast
qed

end
