(* ===== verification/Lifecycle.thy ===== *)
theory Lifecycle
  imports Preserve
begin

text \<open>
  The life of a connection and of the server: closing a connection removes every trace of the
  client from the devices, start-up establishes the invariant, and every event keeps it.
\<close>

section \<open>Closing a connection\<close>

definition drop_watch :: "cptr \<Rightarrow> device \<Rightarrow> device" where
  "drop_watch c d = d\<lparr>d_watchers := filter (\<lambda>w. w \<noteq> c) (d_watchers d)\<rparr>"

lemma unwatch_eq:
  "unwatch c p (st, n) = (upd_dev p (drop_watch c) st, n + count_list (d_watchers (dmem st p)) c)"
proof -
  have "(\<lambda>w. w = c) = (=) c" by auto
  then show ?thesis by (simp add: unwatch_def drop_watch_def [abs_def] count_list_eq_length_filter)
qed

lemma unwatch_fold:
  "distinct ps \<Longrightarrow> fold (unwatch c) ps (st, n) =
    (fold (\<lambda>p. upd_dev p (drop_watch c)) ps st,
     n + sum_list (map (\<lambda>p. count_list (d_watchers (dmem st p)) c) ps))"
proof (induction ps arbitrary: st n)
  case Nil
  then show ?case by simp
next
  case (Cons p ps)
  then have "map (\<lambda>q. count_list (d_watchers (dmem (upd_dev p (drop_watch c) st) q)) c) ps
      = map (\<lambda>q. count_list (d_watchers (dmem st q)) c) ps"
    by (intro map_cong) auto
  then have "sum_list (map (\<lambda>q. count_list (d_watchers (dmem (upd_dev p (drop_watch c) st) q)) c) ps)
      = sum_list (map (\<lambda>q. count_list (d_watchers (dmem st q)) c) ps)" by (rule arg_cong)
  with Cons show ?case by (simp only: fold_simps unwatch_eq) simp
qed

lemma unwatch_all_eq:
  assumes "srv_ok st"
  shows "unwatch_all c st = (fold (\<lambda>p. upd_dev p (drop_watch c)) (alldevs st) st, watch_count st c)"
  using unwatch_fold [OF distinct_alldevs [OF assms]] by (simp add: unwatch_all_def watch_count_def)

lemma watched_left_0:
  assumes "srv_ok st" "cli st c = Some x"
  shows "watched_left c st = Inr 0"
  using assms by (simp add: watched_left_def unwatch_all_eq get_cli_def srv_ok_def watchers_ok_def)

lemma fold_upd_dev_server [simp]:
  "cli (fold (\<lambda>p. upd_dev p f) ps st) = cli st" "cnext (fold (\<lambda>p. upd_dev p f) ps st) = cnext st"
  "clients (fold (\<lambda>p. upd_dev p f) ps st) = clients st" "alarms (fold (\<lambda>p. upd_dev p f) ps st) = alarms st"
  "alldevs (fold (\<lambda>p. upd_dev p f) ps st) = alldevs st" "dnext (fold (\<lambda>p. upd_dev p f) ps st) = dnext st"
  by (induction ps arbitrary: st) simp_all

lemma drop_watch_id: "d_watchers d = [] \<Longrightarrow> drop_watch c d = d"
  by (simp add: drop_watch_def)

definition orphan_dev :: "device \<Rightarrow> device" where
  "orphan_dev d = d\<lparr>d_collector := None, d_onq_client := False\<rparr>"

lemma orphan_eq: "orphan = (\<lambda>p. upd_dev p orphan_dev)"
  by (simp add: orphan_def orphan_dev_def [abs_def] fun_eq_iff)

text \<open>The state after a connection is closed, in terms of the state before.\<close>

lemma buf_error_Inr:
  assumes ok: "srv_ok st" and x: "cli st c = Some x" and run: "buf_error_cb e c st = Inr st'"
  shows "clients st' = remove1 c (clients st)" "cli st' = (cli st)(c := None)"
    "alldevs st' = alldevs st" "dnext st' = dnext st" "cnext st' = cnext st" "alarms st' = alarms st"
    "reg_view st' = reg_view st"
    "dmem st' p = (let d = drop_watch c (dmem (mark_coll (int_at e COLLECTOR_BAD) x st) p)
                   in if p \<in> set (c_devices x) then orphan_dev d else d)"
proof -
  define st1 where "st1 = mark_coll (int_at e COLLECTOR_BAD) x st"
  have v: "same_view st st1" unfolding st1_def by (rule mark_coll_view)
  have ok1: "srv_ok st1" using v ok by (rule same_view_ok)
  have s1: "cli st1 = cli st" unfolding st1_def mark_coll_def by (simp split: option.split)
  have eq1: "clients st1 = clients st" "alldevs st1 = alldevs st" "dnext st1 = dnext st" "cnext st1 = cnext st"
    "alarms st1 = alarms st" "reg_view st1 = reg_view st"
    using v same_view_reg [OF v] by (simp_all add: same_view_def)
  define st2 where "st2 = fold (\<lambda>p. upd_dev p (drop_watch c)) (alldevs st1) st1"
  have u: "fst (unwatch_all c st1) = st2" by (simp add: unwatch_all_eq [OF ok1] st2_def)
  have run1: "buf_error_cb e c st = (let st3 = if c_provider x then fold orphan (c_devices x) st2 else st2
      in Inr (st3\<lparr>clients := remove1 c (clients st3), cli := (cli st3)(c := None)\<rparr>))"
    using x u [unfolded st1_def] by (simp add: buf_error_cb_def get_cli_def Let_def)
  have own: "own_ok st x" using ok x by (simp add: srv_ok_def owners_ok_def)
  then have three: "(if c_provider x then fold orphan (c_devices x) st2 else st2) = fold (\<lambda>p. upd_dev p orphan_dev) (c_devices x) st2"
    by (auto simp: own_ok_def orphan_eq)
  then have st': "st' = (fold (\<lambda>p. upd_dev p orphan_dev) (c_devices x) st2)
      \<lparr>clients := remove1 c (clients st1), cli := (cli st1)(c := None)\<rparr>"
    using run unfolding run1 Let_def three by (simp add: st2_def)
  show "clients st' = remove1 c (clients st)" "cli st' = (cli st)(c := None)"
    "alldevs st' = alldevs st" "dnext st' = dnext st" "cnext st' = cnext st" "alarms st' = alarms st"
    by (simp_all add: st' st2_def s1 eq1)
  have "reg_view st' = reg_view (fold (\<lambda>p. upd_dev p orphan_dev) (c_devices x) st2)"
    by (simp add: st' reg_view_def)
  also have "\<dots> = reg_view st"
    by (simp add: fold_upd_dev_view orphan_dev_def drop_watch_def st2_def eq1)
  finally show "reg_view st' = reg_view st" .
  have "dmem st2 p = drop_watch c (dmem st1 p)" for p
    using ok1 distinct_alldevs [OF ok1]
    by (simp add: st2_def fold_upd_dev drop_watch_id srv_ok_def watchers_ok_def)
  moreover have "distinct (c_devices x)" using own by (simp add: own_ok_def)
  ultimately show "dmem st' p = (let d = drop_watch c (dmem (mark_coll (int_at e COLLECTOR_BAD) x st) p)
                   in if p \<in> set (c_devices x) then orphan_dev d else d)"
    by (simp add: st' fold_upd_dev st1_def)
qed

lemma buf_error_ok:
  assumes ok: "srv_ok st" and x: "cli st c = Some x" and run: "buf_error_cb e c st = Inr st'"
  shows "srv_ok st'"
proof -
  note f = buf_error_Inr [OF ok x run]
  have v: "same_view st (mark_coll (int_at e COLLECTOR_BAD) x st)" by (rule mark_coll_view)
  have w: "d_watchers (dmem st' p) = filter (\<lambda>w. w \<noteq> c) (d_watchers (dmem st p))" for p
    using v f(8) [of p] by (auto simp: same_view_def dev_view_def Let_def drop_watch_def orphan_dev_def)
  have q: "d_onq_client (dmem st' p) \<longleftrightarrow> d_onq_client (dmem st p) \<and> p \<notin> set (c_devices x)" for p
    using v f(8) [of p] by (auto simp: same_view_def dev_view_def Let_def drop_watch_def orphan_dev_def)
  have co: "clients_ok st" and wo: "watchers_ok st" and own: "owners_ok st" and l: "links_ok st"
    using ok by (simp_all add: srv_ok_def)
  have "reg_ok st'" using reg_view_ok [OF f(7)] ok by (simp add: srv_ok_def)
  moreover have "clients_ok st'" using co by (auto simp: clients_ok_def f(1-6) split: if_splits)
  moreover have "watchers_ok st'"
  proof -
    have "count_list (filter (\<lambda>w. w \<noteq> c) ws) d = count_list ws d" if "d \<noteq> c" for d :: cptr and ws
      using that by (induction ws) auto
    then have cnt: "watch_count st' d = watch_count st d" if "d \<noteq> c" for d
      using that by (simp add: watch_count_def w f(3))
    have "set (filter (\<lambda>w. w \<noteq> c) (d_watchers (dmem st p))) \<subseteq> set (remove1 c (clients st))" for p
      using wo co by (auto simp: watchers_ok_def clients_ok_def)
    then show ?thesis using wo cnt by (simp add: watchers_ok_def w f(1-3))
  qed
  moreover have "owners_ok st'"
    unfolding owners_ok_def
  proof (intro conjI allI impI, goal_cases)
    case (1 d y)
    then have y: "cli st d = Some y" "d \<noteq> c" by (auto simp: f(2) split: if_splits)
    then have "p \<notin> set (c_devices x)" if "p \<in> set (c_devices y)" for p
      using own x that unfolding owners_ok_def by blast
    moreover have "own_ok st y" using own y by (simp add: owners_ok_def)
    ultimately show ?case by (auto simp: own_ok_def q f(4))
  next
    case (2 d d' y z p)
    then have "cli st d = Some y" "cli st d' = Some z" by (auto simp: f(2) split: if_splits)
    with 2 own show ?case unfolding owners_ok_def by blast
  next
    case (3 p)
    then obtain d y where dy: "cli st d = Some y" "p \<in> set (c_devices y)"
      using own by (auto simp: owners_ok_def q)
    with 3 x have "d \<noteq> c" by (auto simp: q)
    with dy show ?case by (intro exI [of _ d] exI [of _ y]) (simp add: f(2))
  qed
  moreover have "links_ok st'" using l by (simp add: links_ok_def f(2,3))
  ultimately show ?thesis using ok by (simp add: srv_ok_def f(6))
qed

text \<open>What closing leaves behind.\<close>

lemma buf_error_unlinks:
  assumes ok: "srv_ok st" and x: "cli st c = Some x" and run: "buf_error_cb e c st = Inr st'"
  shows "cli st' c = None" "c \<notin> set (clients st')" "c \<notin> set (d_watchers (dmem st' p))"
    "p \<in> set (c_devices x) \<Longrightarrow> d_collector (dmem st' p) = None \<and> \<not> d_onq_client (dmem st' p)"
proof -
  note f = buf_error_Inr [OF ok x run]
  show "cli st' c = None" by (simp add: f)
  show "c \<notin> set (clients st')" using ok by (auto simp: f srv_ok_def clients_ok_def)
  show "c \<notin> set (d_watchers (dmem st' p))"
    by (simp add: f(8) Let_def drop_watch_def orphan_dev_def)
  show "d_collector (dmem st' p) = None \<and> \<not> d_onq_client (dmem st' p)" if "p \<in> set (c_devices x)"
    using that by (simp add: f(8) Let_def orphan_dev_def)
qed

lemma buf_error_total: "cli st c = Some x \<Longrightarrow> \<exists>st'. buf_error_cb e c st = Inr st'"
  by (simp add: buf_error_cb_def get_cli_def Let_def)

section \<open>Shutting down\<close>

lemma client_live: "srv_ok st \<Longrightarrow> c \<in> set (clients st) \<Longrightarrow> \<exists>x. cli st c = Some x"
  by (auto simp: srv_ok_def clients_ok_def)

lemma shutdown_loop_ok:
  "srv_ok st \<Longrightarrow> length (clients st) \<le> n
    \<Longrightarrow> \<exists>st'. shutdown_loop e n st = Inr st' \<and> srv_ok st' \<and> clients st' = []"
proof (induction n arbitrary: st)
  case 0
  then show ?case by simp
next
  case (Suc n)
  show ?case
  proof (cases "clients st")
    case Nil
    with Suc.prems show ?thesis by simp
  next
    case (Cons c cs)
    then obtain x where x: "cli st c = Some x" using client_live [OF Suc.prems(1), of c] by auto
    from buf_error_total [OF x] obtain st1 where st1: "buf_error_cb e c st = Inr st1" by blast
    have "clients st1 = cs" using buf_error_Inr(1) [OF Suc.prems(1) x st1] Cons by simp
    moreover have "srv_ok st1" by (rule buf_error_ok [OF Suc.prems(1) x st1])
    ultimately show ?thesis using Suc.IH [of st1] Suc.prems(2) Cons st1 by simp
  qed
qed

section \<open>Start-up\<close>

lemma find_titled_None: "find_titled f t ss = None \<longleftrightarrow> t \<notin> f ` set ss"
  by (induction ss) auto

lemma load_steps_view:
  "dev_view (load_flags sec d) = dev_view d" "dev_view (load_waters sec d) = dev_view d"
  by (simp_all add: load_flags_def load_waters_def Let_def) (simp_all add: dev_view_def)

lemma load_dev_view:
  assumes "load_dev sec d = Inr d'"
  shows "dev_view d' = dev_view d"
  using assms unfolding load_dev_def Let_def bindE_Inr_conv
proof (elim exE conjE, goal_cases)
  case (1 d2 d3)
  have "dev_view d2 = dev_view d" using 1(1) by (auto simp: bindE_Inr_conv dev_view_def split: if_splits)
  moreover have "dev_view d3 = dev_view d2"
    using 1(2) by (auto simp: bindE_Inr_conv dev_view_def split: if_splits)
  moreover have "dev_view d' = dev_view d3"
    unfolding sum.inject(2) [THEN iffD1, OF 1(3), symmetric] load_steps_view by (simp add: dev_view_def)
  ultimately show ?case by simp
qed

text \<open>The registry while the table is built: no watchers, no owners, only titles seen so far.\<close>

definition boot_ok :: "string set \<Rightarrow> 'a registry_scheme \<Rightarrow> bool" where
  "boot_ok us r \<longleftrightarrow> reg_ok r \<and> dom (devtab r) \<subseteq> us \<and> grptab r = (\<lambda>_. None) \<and>
     (\<forall>p. d_watchers (dmem r p) = [] \<and> \<not> d_onq_client (dmem r p))"

lemma boot_ok_new_dev:
  assumes ok: "boot_ok us r" and u: "u \<notin> us" and run: "new_dev_from_conf cfg u r = Inr (Some q, r1)"
  shows "boot_ok (insert u us) (insert_device q r1)"
proof -
  have reg: "reg_ok r" and none: "find_device_byuid r u = None"
    using ok u by (auto simp: boot_ok_def find_eta)
  let ?r = "snd (alloc_dev (new_device u) r)"
  from run none obtain i d where q: "q = dnext r" and r1: "r1 = upd_dev q (\<lambda>_. d) ?r"
    and d: "load_dev (cf_devices cfg ! i) (new_device u) = Inr d"
    by (auto simp: new_dev_from_conf_def bindE_Inr_conv alloc_dev_def split: option.splits)
  have fd: "d_uid d = u" "\<not> d_onq_all d" "\<not> d_onq_client d" "d_watchers d = []"
    using load_dev_view [OF d] by (simp_all add: dev_view_def new_device_def)
  have "reg_ok ?r" by (rule reg_ok_alloc [OF reg])
  then have "reg_ok r1" unfolding r1
    by (rule reg_ok_upd_dev) (simp_all add: q fd, simp_all add: new_device_def)
  moreover have "q \<notin> set (alldevs r)" using reg by (auto simp: q reg_ok_def)
  ultimately have "reg_ok (insert_device q r1)"
    using none by (intro reg_ok_insert) (simp_all add: q r1 fd dev_fresh_def find_eta)
  moreover have "dom (devtab (insert_device q r1)) \<subseteq> insert u us"
    using ok by (auto simp: boot_ok_def r1 q fd rb_insert_def)
  ultimately show ?thesis using ok fd by (simp add: boot_ok_def r1 q)
qed

lemma init_devtable_ok:
  assumes cf: "conf_ok cf" and run: "init_devtable cf = Inr r"
  shows "\<exists>us. boot_ok us r"
proof -
  let ?f = "\<lambda>sec st. bindE (new_dev_from_conf cf (cs_title sec) st) (\<lambda>(p, st1).
              case p of None \<Rightarrow> Inl NullDeref | Some q \<Rightarrow> Inr (insert_device q st1))"
  have "boot_ok (us \<union> cs_title ` set ss) r'"
    if "foldE ?f ss r0 = Inr r'" "boot_ok us r0" "distinct (map cs_title ss)" "us \<inter> cs_title ` set ss = {}"
    for ss us and r0 r' :: registry
    using that
  proof (induction ss arbitrary: r0 us)
    case Nil
    then show ?case by simp
  next
    case (Cons s ss)
    from Cons.prems(1) obtain q r1 where q: "new_dev_from_conf cf (cs_title s) r0 = Inr (Some q, r1)"
        "foldE ?f ss (insert_device q r1) = Inr r'"
      by (auto simp: bindE_Inr_conv split: option.splits)
    have "boot_ok (insert (cs_title s) us) (insert_device q r1)"
      using Cons.prems by (intro boot_ok_new_dev [OF _ _ q(1)]) auto
    from Cons.IH [OF q(2) this] Cons.prems show ?case by auto
  qed
  moreover have "boot_ok {} empty_registry"
    by (simp add: boot_ok_def reg_ok_empty) (simp add: empty_registry_def new_device_def)
  ultimately show ?thesis
    using cf run by (fastforce simp: init_devtable_def conf_ok_def)
qed

lemma srv_ok_server_of:
  assumes "boot_ok us r"
  shows "srv_ok (server_of r cf)"
proof -
  have f: "cli (server_of r cf) = (\<lambda>_. None)" "clients (server_of r cf) = []" "alarms (server_of r cf) = []"
    "dmem (server_of r cf) = dmem r"
    by (simp_all add: server_of_def registry.defs)
  have "reg_view (server_of r cf) = reg_view r"
    by (simp add: reg_view_def server_of_def registry.defs)
  then have "reg_ok (server_of r cf) = reg_ok r" by (rule reg_view_ok)
  with assms show ?thesis
    by (simp add: srv_ok_def clients_ok_def watchers_ok_def owners_ok_def links_ok_def alarms_ok_def f boot_ok_def)
qed

lemma load_group_ok:
  assumes ok: "reg_ok st" and n: "find_devgroup_byuid st (gs_title sec) = None"
    and run: "load_group sec st = Inr st'"
  shows "grp_step_ok st st' \<and> dom (grptab st') \<subseteq> insert (gs_title sec) (dom (grptab st))"
proof -
  let ?g = "gnext st" and ?s = "snd (new_devgroup (gs_title sec) st)"
  define P where "P s \<longleftrightarrow> grp_step_ok st s \<and> dom (grptab s) \<subseteq> insert (gs_title sec) (dom (grptab st))" for s
  from run obtain name where name: "gs_name sec = Some name"
    by (auto simp: load_group_def case_prod_unfold Let_def split: option.splits)
  from run have run1: "foldE (\<lambda>v st. case v of None \<Rightarrow> Inl NullDeref
      | Some u \<Rightarrow> (case find_device_byuid st u of None \<Rightarrow> Inr st | Some p \<Rightarrow> Inr (add_dev_group p ?g st)))
      (gs_devices sec) (upd_grp ?g (\<lambda>r. r\<lparr>g_name := Some name\<rparr>) ?s) = Inr st'"
    unfolding load_group_def case_prod_unfold Let_def name new_devgroup_simps(10) by simp
  have "P st'"
  proof (rule foldE_inv [OF run1])
    have "reg_ok (upd_grp ?g (\<lambda>r. r\<lparr>g_name := Some name\<rparr>) ?s)"
      by (rule reg_ok_upd_grp_sub [OF reg_ok_new_devgroup [OF ok n]]) simp_all
    then show "P (upd_grp ?g (\<lambda>r. r\<lparr>g_name := Some name\<rparr>) ?s)"
      by (auto simp: P_def grp_step_ok_def rb_insert_def)
  next
    fix v s s'
    assume "P s" and v: "(case v of None \<Rightarrow> Inl NullDeref
      | Some u \<Rightarrow> (case find_device_byuid s u of None \<Rightarrow> Inr s | Some p \<Rightarrow> Inr (add_dev_group p ?g s))) = Inr s'"
    then have r: "reg_ok s" by (simp add: P_def grp_step_ok_def)
    have "reg_ok s'"
      using v r reg_ok_find [OF r] by (auto simp: reg_ok_add_dev_group split: option.splits)
    moreover have "grptab s' = grptab s \<and> dev_part s' = dev_part s"
      using v by (auto simp: add_dev_group_def split: option.splits)
    ultimately show "P s'" using \<open>P s\<close> by (simp add: P_def grp_step_ok_def)
  qed
  then show ?thesis by (simp add: P_def)
qed

lemma chain_group_ok:
  assumes ok: "reg_ok st" and run: "chain_group sec st = Inr st'"
  shows "grp_step_ok st st'"
proof (cases "find_devgroup_byuid st (gs_title sec)")
  case None
  with ok run show ?thesis by (simp add: chain_group_def grp_step_ok_def)
next
  case (Some g)
  with run have run1: "foldE (\<lambda>v st. case v of None \<Rightarrow> Inl NullDeref
      | Some u \<Rightarrow> (case find_devgroup_byuid st u of None \<Rightarrow> Inr st | Some h \<Rightarrow> Inr (add_group_group h g st)))
      (gs_devgroups sec) st = Inr st'"
    by (simp add: chain_group_def)
  show ?thesis
  proof (rule foldE_inv [OF run1])
    show "grp_step_ok st st" using ok by (simp add: grp_step_ok_def)
  next
    fix v s s'
    assume s: "grp_step_ok st s" and v: "(case v of None \<Rightarrow> Inl NullDeref
      | Some u \<Rightarrow> (case find_devgroup_byuid s u of None \<Rightarrow> Inr s | Some h \<Rightarrow> Inr (add_group_group h g s))) = Inr s'"
    then have r: "reg_ok s" by (simp add: grp_step_ok_def)
    with v s show "grp_step_ok st s'"
      using reg_ok_find_grp [OF r] by (auto simp: grp_step_ok_def reg_ok_add_group_group split: option.splits)
  qed
qed

lemma load_groups_ok:
  "foldE load_group ss st = Inr st' \<Longrightarrow> srv_ok st \<Longrightarrow> distinct (map gs_title ss) \<Longrightarrow>
    dom (grptab st) \<inter> gs_title ` set ss = {} \<Longrightarrow> srv_ok st'"
proof (induction ss arbitrary: st)
  case Nil
  then show ?case by simp
next
  case (Cons s ss)
  from Cons.prems(1) obtain st1 where st1: "load_group s st = Inr st1" "foldE load_group ss st1 = Inr st'"
    by (auto simp: bindE_Inr_conv)
  have "reg_ok st" "find_devgroup_byuid st (gs_title s) = None"
    using Cons.prems by (auto simp: srv_ok_def find_eta)
  note l = load_group_ok [OF this st1(1)]
  then have "srv_ok st1" using grp_step_srv_ok [OF Cons.prems(2)] by blast
  moreover have "dom (grptab st1) \<inter> gs_title ` set ss = {}"
  proof -
    have "gs_title s \<notin> gs_title ` set ss" "dom (grptab st) \<inter> gs_title ` set ss = {}"
      using Cons.prems(3,4) by auto
    moreover have "A \<subseteq> insert t B \<Longrightarrow> t \<notin> C \<Longrightarrow> B \<inter> C = {} \<Longrightarrow> A \<inter> C = {}"
      for A B C :: "string set" and t by blast
    ultimately show ?thesis using conjunct2 [OF l] by metis
  qed
  ultimately show ?case using Cons.IH [OF st1(2)] Cons.prems(3) by simp
qed

lemma boot_ok_srv:
  assumes cf: "conf_ok cf" and run: "boot cf = Inr st"
  shows "srv_ok st"
proof -
  from run obtain r st1 where r: "init_devtable cf = Inr r"
    and st1: "foldE load_group (cf_devgroups cf) (server_of r cf) = Inr st1"
    and st: "foldE chain_group (cf_devgroups cf) st1 = Inr st"
    by (auto simp: boot_def parse_devgroups_def bindE_Inr_conv)
  obtain us where "boot_ok us r" using init_devtable_ok [OF cf r] by blast
  then have "srv_ok st1"
    using cf by (intro load_groups_ok [OF st1 srv_ok_server_of])
      (auto simp: conf_ok_def boot_ok_def server_of_def registry.defs)
  show ?thesis
  proof (rule foldE_inv [OF st, of srv_ok])
    show "srv_ok s'" if "srv_ok s" "chain_group x s = Inr s'" for x s s'
    proof -
      have "reg_ok s" using that by (simp add: srv_ok_def)
      then show ?thesis using chain_group_ok [OF _ that(2)] grp_step_srv_ok [OF that(1)] by blast
    qed
  qed fact
qed

section \<open>Every event keeps the invariant\<close>

lemma flushed_ok:
  assumes ok: "srv_ok st" and run: "flushed e c st = Inr st'"
  shows "srv_ok st'"
proof -
  from run obtain st1 x where st1: "upd_cli c (\<lambda>x. x\<lparr>c_out := []\<rparr>) st = Inr st1" and x: "cli st1 c = Some x"
    and st': "st' = st1 \<or> buf_error_cb e c st1 = Inr st'"
    by (auto simp: flushed_def buf_write_cb_def bindE_Inr_conv split: if_splits)
  have "srv_ok st1"
    using same_view_ok [OF upd_cli_view [OF st1] ok] by (simp add: cli_view_def)
  with st' buf_error_ok [OF _ x] show ?thesis by blast
qed

lemma accept_ok: "srv_ok st \<Longrightarrow> accept_cb e host port st = Inr st' \<Longrightarrow> srv_ok st'"
  by (auto simp: accept_cb_def bindE_Inr_conv new_client_def intro!: srv_ok_new_cli)

lemma network_shutdown_ok:
  "srv_ok st \<Longrightarrow> \<exists>st'. network_shutdown e st = Inr st' \<and> srv_ok st' \<and> clients st' = []"
  unfolding network_shutdown_def by (rule shutdown_loop_ok) simp_all

lemma handle_ok:
  assumes ok: "srv_ok st" and en: "enabled ev st" and run: "handle e ev st = Inr st'"
  shows "srv_ok st'"
proof (cases ev)
  case (Accept host port)
  with ok run show ?thesis by (auto intro: accept_ok)
next
  case (Readable c ls)
  with ok en run show ?thesis by (auto intro: buf_read_ok)
next
  case (Flushed c)
  with ok run show ?thesis by (auto intro: flushed_ok)
next
  case (Errored c)
  with ok en obtain x where "cli st c = Some x" using client_live by auto
  with Errored ok run show ?thesis by (auto intro: buf_error_ok)
next
  case (FeedTimer c)
  with run have "feeddata_cb e c st = Inr st'" by simp
  with ok show ?thesis using same_view_ok [OF feeddata_view] by blast
next
  case TimerTick
  with run show ?thesis using same_view_ok [OF cb_timerdev_same_view ok] by auto
next
  case PingTimer
  with ok run show ?thesis using same_view_ok [OF ping_clients_view] by auto
next
  case HealthTimer
  with ok run show ?thesis using same_view_ok [OF health_update_view] by auto
next
  case DumpTimer
  with ok run show ?thesis using same_view_ok [OF devconf_dump_view] by auto
next
  case GroupDumpTimer
  with ok run show ?thesis using same_view_ok [OF devgroupconf_dump_view] by auto
next
  case Terminate
  with run network_shutdown_ok [OF ok, of e] show ?thesis by auto
qed

lemma reachable_ok: "reachable st \<Longrightarrow> srv_ok st"
proof (induction rule: reachable.induct)
  case (init cf st)
  then show ?case by (rule boot_ok_srv)
next
  case (more st e ev st')
  then show ?case by (auto simp: srv_step_iff intro: handle_ok)
qed

section \<open>Progress\<close>

text \<open>In a state that keeps the invariant, an update finds every client it has to tell.\<close>

lemma gn_update_plain:
  assumes "\<not> QUERY_BIT what GNC_UPD_HARGS" "\<not> QUERY_BIT what GNC_UPD_TAGS" "\<not> QUERY_BIT what GNC_UPD_FULL"
  shows "\<exists>m. gn_update_device dev what = Inr m"
  using assms by (simp add: gn_update_device_def Let_def split: option.split)

lemma rrdname_bits:
  "\<not> QUERY_BIT GNC_UPD_RRDNAME GNC_UPD_HARGS" "\<not> QUERY_BIT GNC_UPD_RRDNAME GNC_UPD_TAGS"
  "\<not> QUERY_BIT GNC_UPD_RRDNAME GNC_UPD_FULL"
  "\<not> QUERY_BIT (GNC_UPD_NAME OR GNC_UPD_RRDNAME) GNC_UPD_HARGS"
  "\<not> QUERY_BIT (GNC_UPD_NAME OR GNC_UPD_RRDNAME) GNC_UPD_TAGS"
  "\<not> QUERY_BIT (GNC_UPD_NAME OR GNC_UPD_RRDNAME) GNC_UPD_FULL"
  by code_simp+

lemma upd_cli_total: "cli st c = Some x \<Longrightarrow> upd_cli c f st = Inr (st\<lparr>cli := (cli st)(c \<mapsto> f x)\<rparr>)"
  by (simp add: upd_cli_def get_cli_def)

lemma push_update_total:
  assumes "cli st w \<noteq> None"
  shows "\<exists>st'. push_update p w st = Inr st' \<and> (\<forall>k. cli st k \<noteq> None \<longrightarrow> cli st' k \<noteq> None)"
proof -
  from assms obtain x where x: "cli st w = Some x" by auto
  obtain m where m: "gn_update_device (dmem st p) GNC_UPD_RRDNAME = Inr m"
    using gn_update_plain [OF rrdname_bits(1-3)] by blast
  show ?thesis
    by (simp add: push_update_def m send_def upd_cli_total [OF x]) (simp add: upd_cli_def get_cli_def)
qed

lemma run_handler_total:
  assumes "e_sock e"
  shows "\<exists>st'. run_handler_dev e p st = Inr st'"
proof -
  obtain m where "gn_update_device (dmem st p) (GNC_UPD_NAME OR GNC_UPD_RRDNAME) = Inr m"
    using gn_update_plain [OF rrdname_bits(4-6)] by blast
  with assms show ?thesis
    by (auto simp: run_handler_dev_def Let_def send_def upd_cli_def get_cli_def new_cli_def split: option.split)
qed

lemma cmd_update_total:
  assumes ok: "srv_ok st" and c: "c \<in> set (clients st)" and sock: "e_sock e"
  shows "\<exists>r st'. cmd_update e c args st = Inr (r, st')"
proof (cases "\<exists>u p. str_arg args SC_UID = Some u \<and> find_device_byuid st u = Some p")
  case False
  then show ?thesis by (auto simp: cmd_update_def with_device_def split: option.split)
next
  case True
  then obtain u p where p: "str_arg args SC_UID = Some u" "find_device_byuid st u = Some p" by blast
  define st1 where "st1 = upd_dev p (\<lambda>d. (fold store_arg args d)\<lparr>d_last_upd := e_now e\<rparr>) st"
  obtain x where x: "cli st1 c = Some x" using client_live [OF ok c] by (auto simp: st1_def)
  define st2 where "st2 = st1\<lparr>cli := (cli st1)(c \<mapsto> x\<lparr>c_updates := c_updates x + 1\<rparr>)\<rparr>"
  have st2: "upd_cli c (\<lambda>x. x\<lparr>c_updates := c_updates x + 1\<rparr>) st1 = Inr st2"
    unfolding st2_def by (rule upd_cli_total [OF x])
  have "dev_view (d\<lparr>d_last_upd := t\<rparr>) = dev_view d" for d t by (simp add: dev_view_def)
  then have "same_view st st1" unfolding st1_def by (intro upd_dev_view) simp
  also have "same_view st1 st2" using st2 by (rule upd_cli_view) (simp add: cli_view_def)
  finally have ok2: "srv_ok st2" using ok by (rule same_view_ok)
  let ?run = "d_handler (dmem st2 p) \<noteq> None \<and> (device_watermark (e_junk e) (dmem st2 p) \<noteq> 0 \<or>
    QUERY_FLAG (d_flags (dmem st p)) DEVFLAG_NODATA)"
  obtain st3 where st3: "(if ?run then run_handler_dev e p st2 else Inr st2) = Inr st3"
    using run_handler_total [OF sock, of p st2] by fastforce
  have ok3: "srv_ok st3"
    using st3 run_handler_ok [OF ok2, of e p st3] ok2 by (auto split: if_splits)
  have "\<exists>st4. foldE (push_update p) (d_watchers (dmem st3 p)) st3 = Inr st4 \<and>
      (\<forall>k \<in> set (clients st3). cli st4 k \<noteq> None)"
  proof (rule foldE_total)
    show "\<forall>k \<in> set (clients st3). cli st3 k \<noteq> None" using client_live [OF ok3] by blast
    fix w and t :: server
    assume "w \<in> set (d_watchers (dmem st3 p))" and t: "\<forall>k \<in> set (clients st3). cli t k \<noteq> None"
    then have "w \<in> set (clients st3)" using ok3 by (auto simp: srv_ok_def watchers_ok_def)
    with push_update_total [of t w p] t
    show "\<exists>t'. push_update p w t = Inr t' \<and> (\<forall>k \<in> set (clients st3). cli t' k \<noteq> None)" by blast
  qed
  then obtain st4 where st4: "foldE (push_update p) (d_watchers (dmem st3 p)) st3 = Inr st4" by blast
  have "cmd_update e c args st = Inr (0, st4)"
    unfolding cmd_update_def with_device_def Let_def p option.case st1_def [symmetric] st2 bindE_simps
      st3 st4 ..
  then show ?thesis by blast
qed

section \<open>Runs\<close>

text \<open>A run: the events in order, those libevent would not deliver left out.\<close>

fun run_events :: "(env \<times> event) list \<Rightarrow> server \<Rightarrow> server res" where
  "run_events [] st = Inr st"
| "run_events ((e, ev) # es) st =
     (if enabled ev st then bindE (handle e ev st) (run_events es) else run_events es st)"

lemma run_events_reachable: "reachable st \<Longrightarrow> run_events es st = Inr st' \<Longrightarrow> reachable st'"
proof (induction es st rule: run_events.induct)
  case (1 st)
  then show ?case by simp
next
  case (2 e ev es st)
  show ?case
  proof (cases "enabled ev st")
    case True
    with 2 obtain st1 where st1: "handle e ev st = Inr st1" "run_events es st1 = Inr st'"
      by (auto simp: bindE_Inr_conv)
    with True have "srv_step st e ev st1" by (auto intro: srv_step.intros)
    with 2(3) have "reachable st1" by (rule reachable.more)
    with 2(1) True st1 show ?thesis by blast
  next
    case False
    with 2 show ?thesis by simp
  qed
qed

definition run_server :: "conf \<Rightarrow> (env \<times> event) list \<Rightarrow> server res" where
  "run_server cf es = bindE (boot cf) (run_events es)"

lemma run_server_reachable: "conf_ok cf \<Longrightarrow> run_server cf es = Inr st \<Longrightarrow> reachable st"
  by (auto simp: run_server_def bindE_Inr_conv intro: reachable.init run_events_reachable)

text \<open>A concrete environment and an empty configuration, for runs.\<close>

definition calm :: env where
  "calm = \<lparr>e_now = 1000, e_junk = (\<lambda>_. 0), e_access = (\<lambda>_. True), e_sock = True,
     e_fork = (\<lambda>_. 42), e_open = True\<rparr>"

definition no_conf :: conf where
  "no_conf = \<lparr>cf_devices = [], cf_devgroups = []\<rparr>"

lemma conf_ok_no_conf: "conf_ok no_conf"
  by (simp add: conf_ok_def no_conf_def)

lemma run_reachable: "\<not> isl (run_server no_conf es) \<Longrightarrow> reachable (projr (run_server no_conf es))"
  using run_server_reachable [OF conf_ok_no_conf, of es] by (cases "run_server no_conf es") auto

end
