(* ===== verification/Effects.thy ===== *)
theory Effects
  imports Lifecycle
begin

text \<open>
  What the commands do to the state: the effect of an update on the device and on its watchers,
  of an alarm on the clients, of a feed on the timer, of a group command on the members, and of
  a registration on the table.
\<close>

section \<open>Output to clients\<close>

definition out_of :: "server \<Rightarrow> cptr \<Rightarrow> string option" where
  "out_of st k = map_option c_out (cli st k)"

text \<open>The operations that only talk to clients leave devices, tables and alarms as they are.\<close>

lemma send_Inr:
  "send c m st = Inr st' \<Longrightarrow> dmem st' = dmem st \<and> alarms st' = alarms st \<and>
    out_of st' = (out_of st)(c := map_option (\<lambda>t. t @ m) (out_of st c))"
  by (auto simp: send_def upd_cli_Inr out_of_def fun_eq_iff)

lemma push_update_Inr:
  assumes "push_update p w st = Inr st'"
  obtains m where "gn_update_device (dmem st p) GNC_UPD_RRDNAME = Inr m" "dmem st' = dmem st"
    "out_of st' = (out_of st)(w := map_option (\<lambda>t. t @ m) (out_of st w))"
proof -
  from assms obtain m st1 where m: "gn_update_device (dmem st p) GNC_UPD_RRDNAME = Inr m"
    and st1: "send w m st = Inr st1" and st': "upd_cli w (\<lambda>x. x\<lparr>c_sentdata := c_sentdata x + 1\<rparr>) st1 = Inr st'"
    by (auto simp: push_update_def bindE_Inr_conv)
  have "dmem st' = dmem st1 \<and> out_of st' = out_of st1"
    using st' by (auto simp: upd_cli_Inr out_of_def fun_eq_iff)
  with send_Inr [OF st1] m that show thesis by simp
qed

lemma push_updates_Inr:
  assumes "foldE (push_update p) ws st = Inr st'" and "gn_update_device (dmem st p) GNC_UPD_RRDNAME = Inr m"
  shows "dmem st' = dmem st \<and> out_of st' k =
    map_option (\<lambda>t. t @ concat (replicate (count_list ws k) m)) (out_of st k)"
  using assms
proof (induction ws arbitrary: st)
  case Nil
  then show ?case by (simp add: option.map_ident)
next
  case (Cons w ws)
  from Cons.prems(1) obtain st1 where st1: "push_update p w st = Inr st1" "foldE (push_update p) ws st1 = Inr st'"
    by (auto simp: bindE_Inr_conv)
  from push_update_Inr [OF st1(1)] Cons.prems(2)
  have s1: "dmem st1 = dmem st" "out_of st1 = (out_of st)(w := map_option (\<lambda>t. t @ m) (out_of st w))"
    by auto
  have "gn_update_device (dmem st1 p) GNC_UPD_RRDNAME = Inr m" using Cons.prems(2) s1 by simp
  from Cons.IH [OF st1(2) this] s1 show ?case
    by (cases "out_of st k") auto
qed

lemma run_handler_effect:
  assumes "run_handler_dev e p st = Inr st'"
  shows "dmem st' = dmem st \<and> (\<forall>k. k < cnext st \<longrightarrow> out_of st' k = out_of st k)"
proof (cases "st' = st")
  case True
  then show ?thesis by simp
next
  case False
  from run_handler_Inr [OF assms False] obtain h v m
    where s: "send (cnext st) m (new_cli (handler_client e h (cnext st)) st\<lparr>execs := v\<rparr>) = Inr st'" .
  from send_Inr [OF s] show ?thesis by (auto simp: new_cli_def out_of_def)
qed

section \<open>Updates\<close>

text \<open>The device after an update, and what every connected client is sent.\<close>

lemma cmd_update_effect:
  assumes ok: "srv_ok st" and run: "cmd_update e c args st = Inr (r, st')"
    and p: "str_arg args SC_UID = Some u" "find_device_byuid st u = Some p"
  defines "d \<equiv> (fold store_arg args (dmem st p))\<lparr>d_last_upd := e_now e\<rparr>"
  shows "dmem st' = (dmem st)(p := d) \<and>
    (\<exists>m. gn_update_device d GNC_UPD_RRDNAME = Inr m \<and>
      (\<forall>k \<in> set (clients st). out_of st' k =
        map_option (\<lambda>t. t @ concat (replicate (count_list (d_watchers (dmem st p)) k) m)) (out_of st k)))"
proof -
  define st1 where "st1 = upd_dev p (\<lambda>d. (fold store_arg args d)\<lparr>d_last_upd := e_now e\<rparr>) st"
  from run obtain st2 st3 where st2: "upd_cli c (\<lambda>x. x\<lparr>c_updates := c_updates x + 1\<rparr>) st1 = Inr st2"
    and st3: "st3 = st2 \<or> run_handler_dev e p st2 = Inr st3"
    and st': "foldE (push_update p) (d_watchers (dmem st3 p)) st3 = Inr st'"
    by (auto simp: cmd_update_def with_device_def p Let_def bindE_Inr_conv st1_def split: if_splits)
  have s2: "dmem st2 = (dmem st)(p := d)" "out_of st2 = out_of st" "cnext st2 = cnext st"
    using st2 by (auto simp: upd_cli_Inr st1_def d_def out_of_def fun_eq_iff)
  have s3: "dmem st3 = dmem st2" "k < cnext st \<Longrightarrow> out_of st3 k = out_of st2 k" for k
    using st3 run_handler_effect [of e p st2 st3] s2 by auto
  obtain m where m: "gn_update_device (dmem st3 p) GNC_UPD_RRDNAME = Inr m"
    using gn_update_plain [OF rrdname_bits(1-3)] by blast
  have dw: "d_watchers d = d_watchers (dmem st p)"
    using dev_view_store_args [of args "dmem st p"] by (simp add: d_def dev_view_def)
  have "k < cnext st" if "k \<in> set (clients st)" for k
    using ok that by (auto simp: srv_ok_def clients_ok_def)
  with push_updates_Inr [OF st' m] m s2 s3 dw show ?thesis by auto
qed

section \<open>Telling clients about alarms\<close>

lemma tell_fold:
  assumes "distinct ks" and "\<And>k. k \<in> set ks \<Longrightarrow> cli st k \<noteq> None"
  shows "\<exists>st'. foldE (\<lambda>k st. bindE (get_cli k st) (\<lambda>x. if P x then send k m st else Inr st)) ks st = Inr st' \<and>
    alarms st' = alarms st \<and>
    (\<forall>k. out_of st' k = (if k \<in> set ks then map_option (\<lambda>x. c_out x @ (if P x then m else [])) (cli st k)
                         else out_of st k))"
  using assms
proof (induction ks arbitrary: st)
  case Nil
  then show ?case by simp
next
  case (Cons k ks)
  obtain x where x: "cli st k = Some x" using Cons.prems(2) [of k] by auto
  define st1 where "st1 = (if P x then st\<lparr>cli := (cli st)(k \<mapsto> x\<lparr>c_out := c_out x @ m\<rparr>)\<rparr> else st)"
  have step: "bindE (get_cli k st) (\<lambda>x. if P x then send k m st else Inr st) = Inr st1"
    using x by (simp add: get_cli_def send_def upd_cli_def st1_def)
  have other: "cli st1 j = cli st j" if "j \<noteq> k" for j using that by (simp add: st1_def)
  have "j \<in> set ks \<Longrightarrow> j \<noteq> k" for j using Cons.prems(1) by auto
  then have "\<And>j. j \<in> set ks \<Longrightarrow> cli st1 j \<noteq> None" using Cons.prems(2) other by simp
  from Cons.IH [OF _ this] Cons.prems(1) obtain st' where
    st': "foldE (\<lambda>k st. bindE (get_cli k st) (\<lambda>x. if P x then send k m st else Inr st)) ks st1 = Inr st'"
      "alarms st' = alarms st1"
    and out: "\<And>j. out_of st' j = (if j \<in> set ks then map_option (\<lambda>x. c_out x @ (if P x then m else [])) (cli st1 j)
        else out_of st1 j)"
    by auto
  have "out_of st' j = (if j \<in> set (k # ks) then map_option (\<lambda>x. c_out x @ (if P x then m else [])) (cli st j)
        else out_of st j)" for j
    using out [of j] other [of j] Cons.prems(1) x by (cases "j = k") (auto simp: out_of_def st1_def)
  moreover have "alarms st1 = alarms st" by (simp add: st1_def)
  ultimately show ?case using st' step by (simp only: foldE.simps bindE_simps) auto
qed

lemma tell_clients_effect:
  assumes ok: "srv_ok st"
  shows "\<exists>st'. tell_clients P m st = Inr st' \<and> alarms st' = alarms st \<and>
    (\<forall>k. out_of st' k = map_option (\<lambda>x. c_out x @ (if P x then m else [])) (cli st k))"
proof -
  have "distinct (clients st)" and live: "cli st k \<noteq> None \<longleftrightarrow> k \<in> set (clients st)" for k
    using ok by (auto simp: srv_ok_def clients_ok_def)
  from tell_fold [OF this(1), of st P m] live
  obtain st' where st': "tell_clients P m st = Inr st'" "alarms st' = alarms st"
    and oo: "\<And>k. out_of st' k = (if k \<in> set (clients st) then map_option (\<lambda>x. c_out x @ (if P x then m else [])) (cli st k)
                         else out_of st k)"
    unfolding tell_clients_def by blast
  have "out_of st' k = map_option (\<lambda>x. c_out x @ (if P x then m else [])) (cli st k)" for k
    using oo [of k] live [of k] by (auto simp: out_of_def)
  with st' show ?thesis by blast
qed

section \<open>Registration\<close>

lemma adopt_device_total:
  assumes "cli st c = Some x"
  obtains st' y where "adopt_device c p st = Inr st'" "cli st' c = Some y"
    "\<And>q. dmem st' q = (dmem st q)\<lparr>d_onq_client := d_onq_client (dmem st' q)\<rparr>"
    "\<not> d_onq_client (dmem st p) \<Longrightarrow> p \<in> set (c_devices y)"
proof -
  define y where "y = (if c_devices x = [] then x\<lparr>c_provider := True\<rparr> else x)"
  define st1 where "st1 = st\<lparr>cli := (cli st)(c \<mapsto> y)\<rparr>"
  define st' where "st' = (if d_onq_client (dmem st p) then st1
      else (upd_dev p (\<lambda>d. d\<lparr>d_onq_client := True\<rparr>) st1)\<lparr>cli := (cli st1)(c \<mapsto> y\<lparr>c_devices := c_devices y @ [p]\<rparr>)\<rparr>)"
  define z where "z = (if d_onq_client (dmem st p) then y else y\<lparr>c_devices := c_devices y @ [p]\<rparr>)"
  show thesis
  proof (rule that [of st' z])
    show "adopt_device c p st = Inr st'"
      using assms by (simp add: adopt_device_def upd_cli_def get_cli_def st'_def st1_def y_def)
    show "cli st' c = Some z" by (simp add: st'_def st1_def z_def)
    show "dmem st' q = (dmem st q)\<lparr>d_onq_client := d_onq_client (dmem st' q)\<rparr>" for q
      by (simp add: st'_def st1_def)
    show "p \<in> set (c_devices z)" if "\<not> d_onq_client (dmem st p)" using that by (simp add: z_def)
  qed
qed

text \<open>The device a registration of an unknown uid leaves behind.\<close>

lemma cmd_register_new:
  assumes c: "cli st c = Some x" and u: "str_arg args SC_UID = Some uid" "find_device_byuid st uid = None"
    and n: "str_arg args SC_NAME = Some name"
    and nz: "u8_arg args SC_SUBTYPE \<noteq> 0" "u8_arg args SC_DEVTYPE \<noteq> 0" "u8_arg args SC_PROTO \<noteq> 0"
  defines "rrd \<equiv> (case str_arg args SC_RRDNAME of None \<Rightarrow> mk_rrdname name | Some r \<Rightarrow> take 19 r)"
  obtains st' where "cmd_register e c args st = Inr (0, st')"
    "find_device_byuid st' uid = Some (dnext st)"
    "dmem st' (dnext st) = (register_fields e c args (Some rrd) (new_device uid))
       \<lparr>d_onq_client := True, d_onq_all := True, d_flags := SET_FLAG 0 DEVFLAG_NODATA\<rparr>"
    "\<exists>y. cli st' c = Some y \<and> dnext st \<in> set (c_devices y)"
proof -
  let ?d = "register_fields e c args (Some rrd) (new_device uid)"
  let ?st1 = "snd (alloc_dev ?d st)"
  have c1: "cli ?st1 c = Some x" using c by simp
  have nonq: "\<not> d_onq_client (dmem ?st1 (dnext st))" by (simp add: register_fields_def new_device_def)
  obtain st2 y where st2: "adopt_device c (dnext st) ?st1 = Inr st2" "cli st2 c = Some y"
    and dm: "\<And>q. dmem st2 q = (dmem ?st1 q)\<lparr>d_onq_client := d_onq_client (dmem st2 q)\<rparr>"
    and own: "\<not> d_onq_client (dmem ?st1 (dnext st)) \<Longrightarrow> dnext st \<in> set (c_devices y)"
    by (rule adopt_device_total [OF c1, of "dnext st"]) blast
  have d2: "dmem st2 (dnext st) = ?d\<lparr>d_onq_client := d_onq_client (dmem st2 (dnext st))\<rparr>"
    using dm [of "dnext st"] by simp
  have onq: "d_onq_client (dmem st2 (dnext st))"
    using nonq by (rule_tac adopt_device_Inr [OF st2(1)]) (simp split: if_splits)
  note f = adopt_device_frame [OF st2(1)]
  have d: "d_uid ?d = uid" "\<not> d_onq_all ?d" "d_flags ?d = 0" by (simp_all add: register_fields_def new_device_def)
  have "cmd_register e c args st = Inr (0, insert_device (dnext st) st2)"
    using u n nz st2(1)
    by (cases "str_arg args SC_RRDNAME") (simp_all add: cmd_register_def Let_def alloc_dev_def rrd_def)
  moreover have "find_device_byuid (insert_device (dnext st) st2) uid = Some (dnext st)"
    using u(2) d d2 by (simp add: find_eta f rb_insert_def register_fields_def new_device_def)
  moreover have "dmem (insert_device (dnext st) st2) (dnext st) = ?d\<lparr>d_onq_client := True, d_onq_all := True, d_flags := SET_FLAG 0 DEVFLAG_NODATA\<rparr>"
    using d2 onq d(3) by simp
  moreover have "\<exists>z. cli (insert_device (dnext st) st2) c = Some z \<and> dnext st \<in> set (c_devices z)"
    using st2(2) own [OF nonq] by simp
  ultimately show thesis by (rule that)
qed

section \<open>Group membership\<close>

lemma drop_devices_fault:
  assumes "p \<in> set (g_members (gmem st g))" "d_uid (dmem st p) \<notin> set us"
  shows "drop_devices g us st = Inl UseAfterFree"
proof -
  have "p \<in> set ps \<Longrightarrow> foldE (\<lambda>p st. if d_uid (dmem st p) \<in> set us then Inr st else Inl UseAfterFree) ps st
      = Inl UseAfterFree" for ps
    using assms(2) by (induction ps) auto
  with assms(1) show ?thesis by (simp add: drop_devices_def)
qed

lemma drop_devices_none:
  assumes "list_all (\<lambda>p. d_uid (dmem st p) \<in> set us) (g_members (gmem st g))"
  shows "drop_devices g us st = Inr st"
proof -
  have "list_all (\<lambda>p. d_uid (dmem st p) \<in> set us) ps \<Longrightarrow>
      foldE (\<lambda>p st. if d_uid (dmem st p) \<in> set us then Inr st else Inl UseAfterFree) ps st = Inr st" for ps
    by (induction ps) simp_all
  with assms show ?thesis by (simp add: drop_devices_def)
qed

lemma add_devices_members:
  "set (g_members (gmem (add_devices g us st) g))
    = set (g_members (gmem st g)) \<union> {p. \<exists>u \<in> set us. find_device_byuid st u = Some p}"
  "dmem (add_devices g us st) = dmem st" "devtab (add_devices g us st) = devtab st"
proof -
  have "set (g_members (gmem (add_devices g us st) g))
      = set (g_members (gmem st g)) \<union> {p. \<exists>u \<in> set us. find_device_byuid st u = Some p} \<and>
    dmem (add_devices g us st) = dmem st \<and> devtab (add_devices g us st) = devtab st"
  proof (induction us arbitrary: st)
    case Nil
    then show ?case by (simp add: add_devices_def)
  next
    case (Cons u us)
    define st1 where "st1 = (case find_device_byuid st u of None \<Rightarrow> st
        | Some p \<Rightarrow> if dev_in_group p g st then st else add_dev_group p g st)"
    have s: "add_devices g (u # us) st = add_devices g us st1"
      by (simp add: add_devices_def st1_def)
    have "dmem st1 = dmem st" "devtab st1 = devtab st"
      "set (g_members (gmem st1 g)) = set (g_members (gmem st g)) \<union> {p. find_device_byuid st u = Some p}"
      by (auto simp: st1_def add_dev_group_def dev_in_group_def split: option.split)
    with Cons.IH [of st1] show ?case unfolding s by (auto simp: find_eta)
  qed
  then show "set (g_members (gmem (add_devices g us st) g))
    = set (g_members (gmem st g)) \<union> {p. \<exists>u \<in> set us. find_device_byuid st u = Some p}"
    "dmem (add_devices g us st) = dmem st" "devtab (add_devices g us st) = devtab st" by blast+
qed

section \<open>Feeds\<close>

lemma fold_gcd_dvd:
  assumes "fold_gcd fs g0 = Inr g"
  shows "g dvd g0 \<and> (\<forall>f \<in> set fs. g dvd f_rate f)"
  using assms
proof (induction fs arbitrary: g0)
  case Nil
  then show ?case by (simp add: fold_gcd_def)
next
  case (Cons f fs)
  then obtain g1 where g1: "c_gcd (f_rate f) g0 = Inr g1" "fold_gcd fs g1 = Inr g"
    by (auto simp: fold_gcd_def bindE_Inr_conv)
  have "\<bar>g1\<bar> = gcd (f_rate f) g0" using g1(1) by (rule c_gcd_correct)
  then have "g1 dvd f_rate f" "g1 dvd g0" by (metis abs_dvd_iff gcd_dvd1, metis abs_dvd_iff gcd_dvd2)
  with Cons.IH [OF g1(2)] show ?case by auto
qed

end
