(* ===== verification/Runs.thy ===== *)
theory Runs
  imports Effects
begin

text \<open>
  Concrete states for the applications of the properties: a server after a short run of events,
  and a state with one device and one client.
\<close>

section \<open>A run\<close>

text \<open>Runs used by the witnesses: two connections, a lamp registered by the first, watched by the second.\<close>

definition lamp_run :: "(env \<times> event) list" where
  "lamp_run =
     [(calm, Accept ''h'' 5), (calm, Accept ''i'' 6),
      (calm, Readable 0 [''reg uid:lamp name:lamp devt:1 proto:1 subt:1'']),
      (calm, Readable 1 [''cfeed uid:lamp''])]"

definition lamp_state :: server where
  "lamp_state = projr (run_server no_conf lamp_run)"

text \<open>One evaluation of the run gives what the witnesses need of its final state.\<close>

definition lamp_summary :: "server res \<Rightarrow> (dptr list \<times> cptr list \<times> cptr list \<times> dptr option \<times> dptr list option \<times> alarm list \<times> string option option \<times> dptr option) option" where
  "lamp_summary r =
     (case r of
        Inl _ \<Rightarrow> None
      | Inr st \<Rightarrow> Some (alldevs st, clients st, d_watchers (dmem st 0), devtab st ''lamp'', map_option c_devices (cli st 0), alarms st,
          map_option c_host (cli st 0), devtab st ''rrd-h''))"

lemma lamp_run_summary: "lamp_summary (run_server no_conf lamp_run) = Some ([0], [0, 1], [1], Some 0, Some [0], [], Some (Some ''h''), None)"
  by code_simp

lemma lamp_run_Inr: "run_server no_conf lamp_run = Inr lamp_state"
  using lamp_run_summary by (simp add: lamp_state_def lamp_summary_def split: sum.splits)

lemma lamp_reachable: "reachable lamp_state"
  using conf_ok_no_conf lamp_run_Inr by (rule run_server_reachable)

lemma lamp_facts:
  "alldevs lamp_state = [0]" "clients lamp_state = [0, 1]" "d_watchers (dmem lamp_state 0) = [1]"
  "devtab lamp_state ''lamp'' = Some 0" "map_option c_devices (cli lamp_state 0) = Some [0]"
  "alarms lamp_state = []" "map_option c_host (cli lamp_state 0) = Some (Some ''h'')"
  "devtab lamp_state ''rrd-h'' = None"
  using lamp_run_summary unfolding lamp_run_Inr by (simp_all add: lamp_summary_def)

text \<open>The lamp itself, and a uid that is not registered.\<close>

definition lamp_device :: "server res \<Rightarrow> (string \<times> string option \<times> string option \<times> u8 \<times> u8 \<times> u8 \<times> dptr option \<times> cptr option) option" where
  "lamp_device r =
     (case r of
        Inl _ \<Rightarrow> None
      | Inr st \<Rightarrow> let d = dmem st 0
          in Some (d_uid d, d_name d, d_rrdname d, d_type d, d_subtype d, d_proto d, devtab st ''heater'', d_collector d))"

lemma lamp_run_device:
  "lamp_device (run_server no_conf lamp_run) = Some (''lamp'', Some ''lamp'', Some ''lamp'', 1, 1, 1, None, Some 0)"
  by code_simp

lemma lamp_device_facts:
  "d_uid (dmem lamp_state 0) = ''lamp''" "d_name (dmem lamp_state 0) = Some ''lamp''"
  "d_rrdname (dmem lamp_state 0) = Some ''lamp''" "d_type (dmem lamp_state 0) = 1"
  "d_subtype (dmem lamp_state 0) = 1" "d_proto (dmem lamp_state 0) = 1" "devtab lamp_state ''heater'' = None"
  "d_collector (dmem lamp_state 0) = Some 0"
  using lamp_run_device unfolding lamp_run_Inr by (simp_all add: lamp_device_def Let_def)

section \<open>A small state\<close>

text \<open>A small state for the feeds: one device, one client.\<close>

definition tiny_state :: server where
  "tiny_state = new_cli new_client
     (insert_device 0 (snd (alloc_dev (new_device ''lamp'') (server_of empty_registry no_conf))))"

definition feed_args :: "int \<Rightarrow> parg list" where
  "feed_args rate =
     [\<lparr>a_cword = SC_UID, a_type = PTCHAR, a_arg = AStr ''lamp''\<rparr>,
      \<lparr>a_cword = SC_RATE, a_type = PTINT, a_arg = ANum (word_of_int rate)\<rparr>]"

definition feed_result :: "int \<Rightarrow> server" where
  "feed_result rate = snd (projr (cmd_feed calm 0 (feed_args rate) tiny_state))"

lemma tiny_client: "cli tiny_state 0 = Some new_client"
  by (simp add: tiny_state_def new_cli_def server_of_def registry.defs)

lemma tiny_device: "find_device_byuid tiny_state ''lamp'' = Some 0"
  by (simp add: tiny_state_def new_cli_def find_eta server_of_def registry.defs rb_insert_def
      empty_registry_def new_device_def)

lemma tiny_feed: "cmd_feed calm 0 (feed_args rate) tiny_state = Inr (0, feed_result rate)"
proof -
  have "str_arg (feed_args rate) SC_UID = Some ''lamp''"
    by (simp add: feed_args_def str_arg_def last_of_def args_of_def arg_c_def)
  then have "\<exists>st'. cmd_feed calm 0 (feed_args rate) tiny_state = Inr (0, st')"
    by (simp add: cmd_feed_def with_device_def tiny_device Let_def add_wrapped_device_def upd_cli_def
        get_cli_def tiny_client new_client_def)
  then show ?thesis by (auto simp: feed_result_def)
qed

end
