(* ===== verification/Commands.thy ===== *)
theory Commands
  imports Runs
begin

text \<open>
  What the commands of the server guarantee, on every branch: dispatch, updates, alarms, feeds,
  groups and registration, and the inputs on which they fault.
\<close>

section \<open>Commands\<close>

text \<open>
  C12. A command word, in any case, runs the handler the table gives for its lower-case form, and
  an unknown word changes nothing: the sort and the binary search are exact.
\<close>

theorem dispatch_exact:
  "parsed_command word e c args st =
     (case map_of commands (map c_tolower word) of None \<Rightarrow> Inr (-1, st) | Some f \<Rightarrow> f e c args st)"
  by (rule parsed_command_lookup)

text \<open>
  C3. After an update each connected client has been sent the new value once for each time it
  watches the device, and nothing else; only the updated device has changed.
\<close>

theorem update_reaches_watchers:
  assumes "reachable st" and "cmd_update e c args st = Inr (r, st')"
    and "str_arg args SC_UID = Some u" and "find_device_byuid st u = Some p"
  shows "(\<forall>q. q \<noteq> p \<longrightarrow> dmem st' q = dmem st q) \<and>
    (\<exists>m. gn_update_device (dmem st' p) GNC_UPD_RRDNAME = Inr m \<and>
      (\<forall>k \<in> set (clients st). out_of st' k =
        map_option (\<lambda>t. t @ concat (replicate (count_list (d_watchers (dmem st p)) k) m)) (out_of st k)))"
  using cmd_update_effect [OF reachable_ok [OF assms(1)] assms(2-4)] by auto

theorem update_reaches_watchers_witness:
  "\<exists>st' m. out_of st' 1 = map_option (\<lambda>t. t @ m) (out_of lamp_state 1) \<and>
     gn_update_device (dmem st' 0) GNC_UPD_RRDNAME = Inr m"
proof -
  let ?args = "parse_args [''uid:lamp'', ''switch:1'']"
  obtain r st' where run: "cmd_update calm 0 ?args lamp_state = Inr (r, st')"
    using cmd_update_total [OF reachable_ok [OF lamp_reachable], of 0 calm ?args] by (auto simp: lamp_facts calm_def)
  have "str_arg ?args SC_UID = Some ''lamp''" by code_simp
  from update_reaches_watchers [OF lamp_reachable run this, of 0] show ?thesis
    by (auto simp: lamp_facts find_eta)
qed

text \<open>
  Rain updates are lost: the handler has no case for the argument that carries the rain rate,
  so an update that only brings one leaves the device's value as it was.
\<close>

theorem rain_update_lost:
  assumes "reachable st" and "cmd_update e c args st = Inr (r, st')"
    and "str_arg args SC_UID = Some u" and "find_device_byuid st u = Some p"
    and "\<forall>a \<in> set args. a_cword a \<in> {SC_UID, SC_NAME, SC_RRDNAME, SC_RAINRATE}"
  shows "data_loc l (dmem st' p) = data_loc l (dmem st p) \<and> d_flags (dmem st' p) = d_flags (dmem st p)"
proof -
  have "fold store_arg args d = d" for d
    using assms(5) by (induction args)
      (auto simp: store_arg_def int_data_def dbl_data_def uint_data_def ll_data_def Let_def)
  then have "dmem st' p = (dmem st p)\<lparr>d_last_upd := e_now e\<rparr>"
    using cmd_update_effect [OF reachable_ok [OF assms(1)] assms(2-4)] by simp
  then show ?thesis by (cases l) (simp_all add: data_loc_def)
qed

definition rain_args :: "u64 \<Rightarrow> parg list" where
  "rain_args v = [\<lparr>a_cword = SC_UID, a_type = PTCHAR, a_arg = AStr ''lamp''\<rparr>,
     \<lparr>a_cword = SC_RAINRATE, a_type = PTDOUBLE, a_arg = ANum v\<rparr>]"

theorem rain_update_lost_witness:
  "\<exists>r st'. cmd_update calm 0 (rain_args 0x4004000000000000) lamp_state = Inr (r, st') \<and>
     data_loc DATALOC_DATA (dmem st' 0) = data_loc DATALOC_DATA (dmem lamp_state 0)"
proof -
  let ?args = "rain_args 0x4004000000000000"
  obtain r st' where run: "cmd_update calm 0 ?args lamp_state = Inr (r, st')"
    using cmd_update_total [OF reachable_ok [OF lamp_reachable], of 0 calm ?args] by (auto simp: lamp_facts calm_def)
  have u: "str_arg ?args SC_UID = Some ''lamp''"
    by (simp add: rain_args_def str_arg_def last_of_def args_of_def arg_c_def)
  have "find_device_byuid lamp_state ''lamp'' = Some 0" by (simp add: find_eta lamp_facts)
  from rain_update_lost [OF lamp_reachable run u this, of DATALOC_DATA] run show ?thesis
    by (auto simp: rain_args_def)
qed

text \<open>
  C14. An alarm command that leaves an alarm in the list appends its text to the output of exactly
  the clients that listen to its severity and channels, and stores the updated list.
\<close>

theorem alarm_reaches_listeners:
  assumes "reachable st" and "str_arg args SC_ALUID = Some u"
    and "update_alarm u (str_arg args SC_ALTEXT) (int_arg args SC_ALSEV (-1)) (u_arg args SC_ALCHAN 1) (alarms st)
      = (Some a, as)"
  shows "\<exists>st'. cmd_setalarm e c args st = Inr (0, st') \<and> alarms st' = as \<and>
    (\<forall>k. out_of st' k = map_option (\<lambda>x. c_out x @ (if wants_alarm a x then alarm_text a else [])) (cli st k))"
proof -
  let ?st = "st\<lparr>alarms := as\<rparr>"
  have ok: "srv_ok st" using assms(1) by (rule reachable_ok)
  then have "alarms_ok as"
    using update_alarm_ok [of "alarms st" u] assms(3) by (metis snd_conv srv_ok_def)
  with ok have "srv_ok ?st" by (rule srv_ok_alarms)
  from tell_clients_effect [OF this, of "wants_alarm a" "alarm_text a"] obtain st' where
    "tell_clients (wants_alarm a) (alarm_text a) ?st = Inr st'" "alarms st' = as"
    "\<And>k. out_of st' k = map_option (\<lambda>x. c_out x @ (if wants_alarm a x then alarm_text a else [])) (cli st k)"
    by auto
  with assms(2,3) show ?thesis by (simp add: cmd_setalarm_def)
qed

theorem alarm_reaches_listeners_witness:
  "\<exists>st'. cmd_setalarm calm 0 (parse_args [''aluid:fire'', ''altext:Fire'', ''alsev:5'']) lamp_state = Inr (0, st') \<and>
     map al_uid (alarms st') = [''fire'']"
proof -
  let ?args = "parse_args [''aluid:fire'', ''altext:Fire'', ''alsev:5'']"
  let ?a = "\<lparr>al_uid = ''fire'', al_text = Some ''Fire'', al_sev = 5, al_chan = 1\<rparr>"
  have u: "str_arg ?args SC_ALUID = Some ''fire''" by code_simp
  have "update_alarm ''fire'' (str_arg ?args SC_ALTEXT) (int_arg ?args SC_ALSEV (-1)) (u_arg ?args SC_ALCHAN 1) []
      = (Some ?a, [?a])" by code_simp
  then have "update_alarm ''fire'' (str_arg ?args SC_ALTEXT) (int_arg ?args SC_ALSEV (-1)) (u_arg ?args SC_ALCHAN 1) (alarms lamp_state)
      = (Some ?a, [?a])" by (simp only: lamp_facts)
  from alarm_reaches_listeners [OF lamp_reachable u this, of calm 0] show ?thesis by auto
qed

text \<open>
  A first feed with rate 0 is accepted, and the timer it starts divides by that rate: the
  server dies of the division.
\<close>

theorem zero_rate_feed_traps:
  assumes "cli st c = Some x" and "c_wdevices x = []" and "int_arg args SC_RATE 60 = 0"
    and "cmd_feed e c args st = Inr (0, st')"
  shows "feeddata_cb e' c st' = Inl DivZero"
proof -
  obtain u y w g where "cli st c = Some y" "f_rate w = int_arg args SC_RATE 60"
    "st' = st\<lparr>cli := (cli st)(c \<mapsto> y\<lparr>c_wdevices := c_wdevices y @ [w], c_tev := True,
          c_timer_gcd := g, c_feeds := c_feeds y + 1\<rparr>)\<rparr>"
    by (rule cmd_feed_Inr [OF assms(4)]) blast+
  with assms(1-3) show ?thesis
    by (simp add: feeddata_cb_def get_cli_def feed_ready_def)
qed

theorem zero_rate_feed_traps_witness: "feeddata_cb calm 0 (feed_result 0) = Inl DivZero"
  by (rule zero_rate_feed_traps [OF tiny_client _ _ tiny_feed])
    (simp_all add: feed_args_def new_client_def int_arg_def last_of_def args_of_def arg_i_def arg_u_def arg_ll_def)

text \<open>
  C13. The timer of a client's feeds runs at an interval that divides the rate of every feed, so
  every feed's moment is one at which the timer runs.
\<close>

theorem feed_timer_divides:
  assumes "cmd_feed e c args st = Inr (0, st')" and "cli st c = Some x"
    and "c_tev x \<or> c_wdevices x = []" and "cli st' c = Some y" and "f \<in> set (c_wdevices y)"
  shows "c_tev y \<and> c_timer_gcd y dvd f_rate f"
proof -
  obtain w g where g: "(if c_tev x then fold_gcd (c_wdevices x @ [w]) (c_timer_gcd x) else Inr (f_rate w)) = Inr g"
    and "st' = st\<lparr>cli := (cli st)(c \<mapsto> x\<lparr>c_wdevices := c_wdevices x @ [w], c_tev := True,
          c_timer_gcd := g, c_feeds := c_feeds x + 1\<rparr>)\<rparr>"
    by (rule cmd_feed_Inr [OF assms(1)]) (use assms(2) in auto)
  with assms(4) have y: "c_wdevices y = c_wdevices x @ [w]" "c_tev y" "c_timer_gcd y = g" by auto
  show ?thesis
  proof (cases "c_tev x")
    case True
    with g fold_gcd_dvd [of "c_wdevices x @ [w]" "c_timer_gcd x" g] y assms(5) show ?thesis by auto
  next
    case False
    with g y assms(3,5) show ?thesis by auto
  qed
qed

theorem feed_timer_divides_witness:
  "\<exists>y. cli (feed_result 6) 0 = Some y \<and> list_all (\<lambda>f. c_timer_gcd y dvd f_rate f) (c_wdevices y)"
proof -
  obtain w g where "feed_result 6 = tiny_state\<lparr>cli := (cli tiny_state)(0 \<mapsto> new_client\<lparr>c_wdevices := c_wdevices new_client @ [w], c_tev := True,
          c_timer_gcd := g, c_feeds := c_feeds new_client + 1\<rparr>)\<rparr>"
    by (rule cmd_feed_Inr [OF tiny_feed [of 6]]) (use tiny_client in auto)
  then obtain y where y: "cli (feed_result 6) 0 = Some y" by simp
  from feed_timer_divides [OF tiny_feed tiny_client _ y] y show ?thesis by (auto simp: new_client_def list_all_iff)
qed

section \<open>Groups\<close>

text \<open>
  A group command that no longer names a device of the group faults: the loop removes the
  member, frees its list element and then reads the link in the freed element.
\<close>

theorem group_removal_faults:
  assumes "reachable st" and "str_arg args SC_UID = Some uid" and "find_devgroup_byuid st uid = Some g"
    and "str_arg args SC_GROUPLIST = None" and "str_arg args SC_DEVLIST = Some l"
    and "p \<in> set (g_members (gmem st g))" and "d_uid (dmem st p) \<notin> set (strtok (CHR '','') l)"
  shows "cmd_register_group e c args st = Inl UseAfterFree"
proof -
  let ?us = "strtok (CHR '','') l"
  define st1 where "st1 = (case str_arg args SC_NAME of None \<Rightarrow> st | Some n \<Rightarrow> upd_grp g (\<lambda>r. r\<lparr>g_name := Some n\<rparr>) st)"
  have "dmem st1 = dmem st" "g_members (gmem st1 g) = g_members (gmem st g)"
    by (auto simp: st1_def split: option.split)
  with assms(6,7) have "drop_devices g ?us (add_devices g ?us st1) = Inl UseAfterFree"
    by (intro drop_devices_fault [of p]) (simp_all add: add_devices_members)
  with assms(2-5) show ?thesis
    by (simp add: cmd_register_group_def fill_group_def Let_def st1_def)
qed

text \<open>
  C16. A group command that names devices, and no groups, for a known group: if it still names every device
  of the group, it completes, the members are then exactly the known devices it names, and no device has changed. If
  it leaves one out, the loop that removes it reads the list element it has just freed.
\<close>

theorem group_members_as_listed:
  assumes "reachable st" and "str_arg args SC_UID = Some uid" and "find_devgroup_byuid st uid = Some g"
    and "str_arg args SC_GROUPLIST = None" and "str_arg args SC_DEVLIST = Some l"
  shows "if list_all (\<lambda>p. d_uid (dmem st p) \<in> set (strtok (CHR '','') l)) (g_members (gmem st g))
    then \<exists>st'. cmd_register_group e c args st = Inr (0, st') \<and> dmem st' = dmem st \<and>
      set (g_members (gmem st' g)) = {p. \<exists>u \<in> set (strtok (CHR '','') l). find_device_byuid st u = Some p}
    else cmd_register_group e c args st = Inl UseAfterFree"
proof (cases "list_all (\<lambda>p. d_uid (dmem st p) \<in> set (strtok (CHR '','') l)) (g_members (gmem st g))")
  case True
  let ?us = "strtok (CHR '','') l"
  have reg: "reg_ok st" using reachable_ok [OF assms(1)] by (simp add: srv_ok_def)
  define st1 where "st1 = (case str_arg args SC_NAME of None \<Rightarrow> st | Some n \<Rightarrow> upd_grp g (\<lambda>r. r\<lparr>g_name := Some n\<rparr>) st)"
  have s1: "find_device_byuid st1 = find_device_byuid st" "alldevs st1 = alldevs st" "dmem st1 = dmem st"
    "g_members (gmem st1 g) = g_members (gmem st g)"
    by (auto simp: st1_def find_eta split: option.split)
  have g: "g \<in> set (allgroups st)" using reg_ok_find_grp [OF reg] assms(3) by blast
  have known: "find_device_byuid st (d_uid (dmem st p)) = Some p" if "p \<in> set (g_members (gmem st g))" for p
    using reg_ok_find [OF reg] reg_ok_group_lists(1) [OF reg g] that by blast
  have named: "d_uid (dmem st p) = u" if "find_device_byuid st u = Some p" for u p
    using reg_ok_find [OF reg] that by blast
  have "list_all (\<lambda>p. d_uid (dmem (add_devices g ?us st1) p) \<in> set ?us) (g_members (gmem (add_devices g ?us st1) g))"
    using True by (auto simp: list_all_iff add_devices_members s1 dest: named)
  then have "drop_devices g ?us (add_devices g ?us st1) = Inr (add_devices g ?us st1)" by (rule drop_devices_none)
  then have "cmd_register_group e c args st = Inr (0, add_devices g ?us st1)"
    using assms(2-5) by (simp add: cmd_register_group_def fill_group_def Let_def st1_def)
  moreover have "set (g_members (gmem (add_devices g ?us st1) g)) = {p. \<exists>u \<in> set ?us. find_device_byuid st u = Some p}"
    using True known by (auto simp: list_all_iff add_devices_members s1)
  ultimately show ?thesis using True by (simp add: add_devices_members s1)
next
  case False
  then obtain p where "p \<in> set (g_members (gmem st g))" "d_uid (dmem st p) \<notin> set (strtok (CHR '','') l)"
    by (auto simp: list_all_iff)
  with group_removal_faults [OF assms] False show ?thesis by simp
qed

text \<open>The lamp in a group of its own.\<close>

definition group_run :: "(env \<times> event) list" where
  "group_run = lamp_run @ [(calm, Readable 1 [''regg uid:all name:all dlist:lamp''])]"

definition group_state :: server where
  "group_state = projr (run_server no_conf group_run)"

definition group_summary :: "server res \<Rightarrow> (gptr option \<times> dptr list \<times> string \<times> dptr option) option" where
  "group_summary r =
     (case r of
        Inl _ \<Rightarrow> None
      | Inr st \<Rightarrow> Some (grptab st ''all'', g_members (gmem st 0), d_uid (dmem st 0), devtab st ''lamp''))"

lemma group_run_summary: "group_summary (run_server no_conf group_run) = Some (Some 0, [0], ''lamp'', Some 0)"
  by code_simp

lemma group_run_Inr: "run_server no_conf group_run = Inr group_state"
  using group_run_summary by (simp add: group_state_def group_summary_def split: sum.splits)

lemma group_reachable: "reachable group_state"
  using conf_ok_no_conf group_run_Inr by (rule run_server_reachable)

lemma group_facts:
  "find_devgroup_byuid group_state ''all'' = Some 0" "g_members (gmem group_state 0) = [0]"
  "d_uid (dmem group_state 0) = ''lamp''" "find_device_byuid group_state ''lamp'' = Some 0"
  using group_run_summary unfolding group_run_Inr by (simp_all add: group_summary_def find_eta)

definition group_args :: "string \<Rightarrow> parg list" where
  "group_args l = [\<lparr>a_cword = SC_UID, a_type = PTCHAR, a_arg = AStr ''all''\<rparr>,
     \<lparr>a_cword = SC_DEVLIST, a_type = PTCHAR, a_arg = AStr l\<rparr>]"

lemma group_args_facts:
  "str_arg (group_args l) SC_UID = Some ''all''" "str_arg (group_args l) SC_DEVLIST = Some l"
  "str_arg (group_args l) SC_GROUPLIST = None" "str_arg (group_args l) SC_NAME = None"
  by (simp_all add: group_args_def str_arg_def last_of_def args_of_def arg_c_def)

lemma lamp_token: "strtok (CHR '','') ''lamp'' = [''lamp'']" "strtok (CHR '','') ''heater'' = [''heater'']"
  by code_simp+

theorem group_removal_faults_witness:
  "cmd_register_group calm 0 (group_args ''heater'') group_state = Inl UseAfterFree"
  by (rule group_removal_faults [OF group_reachable group_args_facts(1) group_facts(1) group_args_facts(3,2), of 0])
    (simp_all add: group_facts lamp_token)

theorem group_members_as_listed_witness:
  "(\<exists>st'. cmd_register_group calm 0 (group_args ''lamp'') group_state = Inr (0, st') \<and>
     set (g_members (gmem st' 0)) = {0}) \<and>
   cmd_register_group calm 0 (group_args ''heater'') group_state = Inl UseAfterFree"
proof -
  have "\<exists>st'. cmd_register_group calm 0 (group_args ''lamp'') group_state = Inr (0, st') \<and>
      set (g_members (gmem st' 0)) = {0}"
    using group_members_as_listed [OF group_reachable group_args_facts(1) group_facts(1) group_args_facts(3)
      group_args_facts(2) [of "''lamp''"], of calm 0]
    by (auto simp: lamp_token group_facts)
  moreover have "cmd_register_group calm 0 (group_args ''heater'') group_state = Inl UseAfterFree"
    using group_members_as_listed [OF group_reachable group_args_facts(1) group_facts(1) group_args_facts(3)
      group_args_facts(2) [of "''heater''"], of calm 0]
    by (simp add: lamp_token group_facts)
  ultimately show ?thesis ..
qed

section \<open>Dangling collectors and oversized names\<close>

text \<open>The device made for a client that names itself: it points to the client, which does not own it.\<close>

lemma cmd_client_new_device:
  assumes ok: "srv_ok st" and x: "cli st c = Some x" and h: "c_host x = Some h"
    and nm: "str_arg args SC_CLIENT = Some nm" "nm \<noteq> ''handler''"
    and new: "find_device_byuid st (nm @ ''-'' @ h) = None"
    and run: "cmd_client e c args st = Inr (r, st')"
  shows "find_device_byuid st' (nm @ ''-'' @ h) = Some (dnext st) \<and> d_collector (dmem st' (dnext st)) = Some c \<and>
    (\<exists>y. cli st' c = Some y \<and> dnext st \<notin> set (c_devices y))"
proof -
  define st1 where "st1 = st\<lparr>cli := (cli st)(c \<mapsto> x\<lparr>c_name := Some nm\<rparr>)\<rparr>"
  have tr: "track_client e c nm h st1 = Inr (r, st')"
    using run nm x h by (auto simp: cmd_client_def get_cli_def upd_cli_def sprintf_buf_def bindE_Inr_conv st1_def split: if_splits)
  have s1: "find_device_byuid st1 = find_device_byuid st" "dnext st1 = dnext st" by (simp_all add: st1_def find_eta)
  obtain p st2 st3 where p: "(find_device_byuid st1 (nm @ ''-'' @ h) = Some p \<and> st2 = st1) \<or>
     (find_device_byuid st1 (nm @ ''-'' @ h) = None \<and> p = dnext st1 \<and>
       (\<exists>n rr. st2 = insert_device p (snd (alloc_dev (new_coll_dev c (nm @ ''-'' @ h) n rr) st1))))"
    and st3: "upd_cli c (\<lambda>x. x\<lparr>c_coll_dev := Some p\<rparr>) st2 = Inr st3"
    and st': "st' = upd_dev p (\<lambda>d. store_data_dev d DATALOC_DATA (int_at e COLLECTOR_OK)) st3"
    using tr by (rule track_client_Inr)
  from p new s1 obtain n rr where pn: "p = dnext st"
    and st2: "st2 = insert_device p (snd (alloc_dev (new_coll_dev c (nm @ ''-'' @ h) n rr) st1))" by auto
  have d: "devtab st2 (nm @ ''-'' @ h) = Some p" "d_collector (dmem st2 p) = Some c" "cli st2 = cli st1"
    using new by (simp_all add: st2 pn s1 new_coll_dev_fields rb_insert_def find_eta st1_def)
      (simp add: new_coll_dev_def)
  have "own_ok st x" using ok x by (simp add: srv_ok_def owners_ok_def)
  then have "dnext st \<notin> set (c_devices x)" by (auto simp: own_ok_def)
  moreover have "cli st3 c = Some (x\<lparr>c_name := Some nm, c_coll_dev := Some p\<rparr>)" "devtab st3 = devtab st2" "dmem st3 = dmem st2"
    using st3 by (auto simp: upd_cli_Inr d(3) st1_def)
  ultimately show ?thesis using d pn by (simp add: st' find_eta)
qed

text \<open>
  C30. A collector that names itself gets a device that points back to its client. Closing the
  connection frees the client but leaves the pointer, so the next change request for that device,
  from any client, writes to freed memory.
\<close>

theorem change_after_collector_left:
  assumes "reachable st" and "cli st c = Some x" and "c_host x = Some h"
    and "str_arg args SC_CLIENT = Some nm" and "nm \<noteq> ''handler''"
    and "find_device_byuid st (nm @ ''-'' @ h) = None"
    and "cmd_client e c args st = Inr (r, st1)" and "buf_error_cb e' c st1 = Inr st2"
    and "str_arg args' SC_UID = Some (nm @ ''-'' @ h)"
  shows "cmd_change e'' k args' st2 = Inl UseAfterFree"
proof -
  have ok: "srv_ok st" using assms(1) by (rule reachable_ok)
  have "c \<in> set (clients st)" using ok assms(2) by (auto simp: srv_ok_def clients_ok_def)
  then have ok1: "srv_ok st1" using k_client.keeps_ok [OF ok _ assms(7)] by blast
  obtain y where y: "find_device_byuid st1 (nm @ ''-'' @ h) = Some (dnext st)"
      "d_collector (dmem st1 (dnext st)) = Some c" "cli st1 c = Some y" "dnext st \<notin> set (c_devices y)"
    using cmd_client_new_device [OF ok assms(2-7)] by blast
  note f = buf_error_Inr [OF ok1 y(3) assms(8)]
  have "d_collector (dmem (mark_coll v y st1) p) = d_collector (dmem st1 p)" for v p
    by (simp add: mark_coll_def split: option.split)
  then have "d_collector (dmem st2 (dnext st)) = Some c"
    using f(8) [of "dnext st"] y by (simp add: Let_def drop_watch_def)
  moreover have "find_device_byuid st2 (nm @ ''-'' @ h) = Some (dnext st)"
    using f(7) y(1) by (simp add: reg_view_def find_eta)
  moreover have "cli st2 c = None" by (simp add: f(2))
  ultimately show ?thesis
    using assms(9) by (simp add: cmd_change_def with_device_def Let_def send_def upd_cli_def get_cli_def)
qed

theorem change_after_collector_left_witness:
  "\<exists>st1 st2. cmd_client calm 0 (parse_args [''client:rrd'']) lamp_state = Inr (0, st1) \<and>
     buf_error_cb calm 0 st1 = Inr st2 \<and>
     cmd_change calm 1 (parse_args [''uid:rrd-h'', ''switch:1'']) st2 = Inl UseAfterFree"
proof -
  obtain x where x: "cli lamp_state 0 = Some x" "c_host x = Some ''h''" using lamp_facts(7) by auto
  have a: "str_arg (parse_args [''client:rrd'']) SC_CLIENT = Some ''rrd''"
    "str_arg (parse_args [''uid:rrd-h'', ''switch:1'']) SC_UID = Some (''rrd'' @ ''-'' @ ''h'')" by code_simp+
  have new: "find_device_byuid lamp_state (''rrd'' @ ''-'' @ ''h'') = None" by (simp add: find_eta lamp_facts)
  then have "\<exists>st1. cmd_client calm 0 (parse_args [''client:rrd'']) lamp_state = Inr (0, st1)"
    by (simp add: cmd_client_def a x get_cli_def upd_cli_def sprintf_buf_def track_client_def find_eta
        alloc_dev_def)
  then obtain st1 where st1: "cmd_client calm 0 (parse_args [''client:rrd'']) lamp_state = Inr (0, st1)" by blast
  obtain y where "cli st1 0 = Some y"
    using cmd_client_new_device [OF reachable_ok [OF lamp_reachable] x a(1) _ new st1] by auto
  then obtain st2 where st2: "buf_error_cb calm 0 st1 = Inr st2" using buf_error_total by blast
  have "''rrd'' \<noteq> ''handler''" by simp
  from change_after_collector_left [OF lamp_reachable x a(1) this new st1 st2 a(2), of calm 1] st1 st2
  show ?thesis by blast
qed

text \<open>
  A client name that does not fit, with the host, in the buffer of 512 bytes for the uid
  overruns it; every other name is accepted.
\<close>

theorem client_name_overflow:
  assumes "str_arg args SC_CLIENT = Some nm" and "cli st c = Some x" and "c_host x = Some h"
    and "length h < 256" and "nm \<noteq> ''handler''" and "511 \<le> length nm + length h"
  shows "cmd_client e c args st = Inl OutOfBounds"
  using assms by (simp add: cmd_client_def get_cli_def upd_cli_def sprintf_buf_def track_client_def)

theorem client_name_overflow_witness:
  "cmd_client calm 0 [\<lparr>a_cword = SC_CLIENT, a_type = PTCHAR, a_arg = AStr (replicate 511 (CHR ''x''))\<rparr>]
     (tiny_state\<lparr>cli := (cli tiny_state)(0 \<mapsto> new_client\<lparr>c_host := Some ''h''\<rparr>)\<rparr>) = Inl OutOfBounds"
proof (rule client_name_overflow)
  have "hd (replicate 511 (CHR ''x'')) \<noteq> hd ''handler''" by (subst hd_replicate) simp_all
  then show "replicate 511 (CHR ''x'') \<noteq> ''handler''" by metis
  show "c_host (new_client\<lparr>c_host := Some ''h''\<rparr>) = Some ''h''" by simp
qed (simp_all add: str_arg_def last_of_def args_of_def arg_c_def)

end
