(* ===== verification/Correctness.thy ===== *)
theory Correctness
  imports Alarms Confparser
begin

text \<open>
  What makes the shared components correct: the protocol parser, the typed access to device data,
  watermarks and timers, handler arguments and tags, alarms, the helpers of \<^verbatim>\<open>common.c\<close>,
  the message flags and the configuration. Each property is applied once at a concrete input.
\<close>

section \<open>The parser\<close>

text \<open>
  Splitting a line gives at least one word, and all words with their terminators fit in
  the line with its terminator: the scratch buffer \<^verbatim>\<open>buf2\<close> is never overrun.
\<close>

theorem split_bounds:
  assumes "parse_netcommand buf = Some ws"
  shows "ws \<noteq> [] \<and> sum_list (map (\<lambda>w. length w + 1) ws) \<le> length buf + 1"
proof -
  have ws: "ws = nc_words buf []" using assms by (auto simp: parse_netcommand_def split: if_splits)
  have "sum_list (map (\<lambda>w. length w + 1) ws) = sum_list (map length ws) + length ws"
    by (induction ws) auto
  with ws nc_words_nonempty [of buf "[]"] nc_words_bound [of buf "[]"] show ?thesis by simp
qed

theorem split_bounds_witness:
  "sum_list (map (\<lambda>w. length w + 1) [''upd'', ''uid:a b'', ''x'']) \<le> length (''upd uid:'' @ quote_char # ''a b'' @ quote_char # ''  x'') + 1"
proof -
  have "parse_netcommand (''upd uid:'' @ quote_char # ''a b'' @ quote_char # ''  x'') = Some [''upd'', ''uid:a b'', ''x'']"
    by code_simp
  from split_bounds [OF this] show ?thesis by simp
qed

text \<open>
  C28. Every parsed argument has the type the table gives its name and a value of that type, so
  the handlers read the union member that was written; and with the terminator the arguments fit
  in the array, which has one slot for each word.
\<close>

theorem parsed_args_typed:
  assumes "parse_command ws = Some args"
  shows "(\<forall>a \<in> set args. parg_ok a) \<and> length args + 1 \<le> length ws"
proof -
  have args: "args = parse_args (tl ws)" and ws: "ws \<noteq> []"
    using assms by (auto simp: parse_command_def split: if_splits)
  have "length (tl ws) + 1 = length ws" using ws by (cases ws) auto
  with args parse_args_ok parse_args_length [of "tl ws"] show ?thesis by auto
qed

theorem parsed_args_typed_witness:
  "length (parse_args [''uid:lamp'', ''Switch:1'', ''what:2'']) = 2 \<and>
    list_all parg_ok (parse_args [''uid:lamp'', ''Switch:1'', ''what:2''])"
proof -
  have "parse_command [''upd'', ''uid:lamp'', ''Switch:1'', ''what:2''] = Some (parse_args [''uid:lamp'', ''Switch:1'', ''what:2''])"
    by (simp add: parse_command_def)
  from parsed_args_typed [OF this]
  have "list_all parg_ok (parse_args [''uid:lamp'', ''Switch:1'', ''what:2''])"
    by (simp only: list_all_iff) blast
  moreover have "length (parse_args [''uid:lamp'', ''Switch:1'', ''what:2'']) = 2" by code_simp
  ultimately show ?thesis by simp
qed

text \<open>
  The binary search over the table that \<^verbatim>\<open>init_argcomm\<close> sorted finds a name exactly when
  the table has it, and then gives its number and type.
\<close>

theorem argument_search_exact:
  "arg_lookup k = Some (s, n, t) \<longleftrightarrow> s = k \<and> k = sc_name n \<and> t = sc_type n"
  using arg_lookup_Some [of k s n t] by auto

section \<open>Device data\<close>

text \<open>
  C27. A typed access never reaches past the variable it is given: its width is at most the size of
  the type that \<^verbatim>\<open>datatype_dev\<close> announces for the device.
\<close>

theorem access_in_bounds:
  assumes "store_width dev = Some w"
  shows "width_bits w \<le> datatype_bits (datatype_dev dev)"
  using assms by (rule store_width_bound)

text \<open>A device of a given type and subtype.\<close>

definition sample_dev :: "dev_type \<Rightarrow> subtype \<Rightarrow> device" where
  "sample_dev t s = (new_device ''dev'')\<lparr>d_name := Some ''Dev'', d_type := dev_type_code t,
     d_proto := proto_code PROTO_COLLECTOR, d_subtype := subtype_code s\<rparr>"

theorem access_in_bounds_witness:
  "width_bits W8 \<le> datatype_bits (datatype_dev (sample_dev DEVICE_SWITCH SUBTYPE_SWITCH))"
  by (rule access_in_bounds) code_simp

text \<open>
  C26. What is stored in a data slot is what is read from it, in the width of the device; storing
  the current value moves the old one to the last value; other slots keep their contents.
\<close>

theorem store_then_get:
  assumes "get_width dev = Some w"
  shows "get_data_dev (store_data_dev dev l v) l buf = copy w v buf \<and>
    get_data_dev (store_data_dev dev DATALOC_DATA v) DATALOC_LAST buf = get_data_dev dev DATALOC_DATA buf \<and>
    (m \<noteq> l \<longrightarrow> \<not> (l = DATALOC_DATA \<and> m = DATALOC_LAST) \<longrightarrow>
      get_data_dev (store_data_dev dev l v) m buf = get_data_dev dev m buf)"
  using get_store_same [OF assms] get_store_last get_store_other by blast

theorem store_then_get_witness:
  "get_data_dev (store_data_dev (sample_dev DEVICE_SENSOR SUBTYPE_COUNTER) DATALOC_DATA 7) DATALOC_DATA 0 = 7"
proof -
  have "get_width (sample_dev DEVICE_SENSOR SUBTYPE_COUNTER) = Some W32" by code_simp
  from conjunct1 [OF store_then_get [OF this, of DATALOC_DATA 7 0]] show ?thesis
    by (simp add: copy_def) code_simp
qed

text \<open>
  C25. For a device whose values are read in full, the watermark test is the specification: with
  change reporting it fires on a change; without it, it fires always when no watermark is set,
  and otherwise when the value crosses a mark, or is beyond it and repeats are wanted.
\<close>

theorem watermark_refines_spec:
  assumes "full_access dev"
  shows "device_watermark j dev =
    (let change = QUERY_FLAG (d_flags dev) DEVFLAG_CHANGEHANDLER;
         spam = QUERY_FLAG (d_flags dev) DEVFLAG_SPAMHANDLER;
         u = uint_value dev; w = (\<lambda>l. data_loc l dev)
     in case datatype_dev dev of
          DATATYPE_UINT \<Rightarrow>
            watermark_spec change (u DATALOC_DATA \<noteq> u DATALOC_LAST)
              (u DATALOC_LOWAT = 0 \<and> u DATALOC_HIWAT = 0) spam (<)
              (u DATALOC_LOWAT) (u DATALOC_HIWAT) (u DATALOC_DATA) (u DATALOC_LAST)
        | DATATYPE_LL \<Rightarrow>
            watermark_spec change (w DATALOC_DATA \<noteq> w DATALOC_LAST)
              (w DATALOC_LOWAT = 0 \<and> w DATALOC_HIWAT = 0) spam (<s)
              (w DATALOC_LOWAT) (w DATALOC_HIWAT) (w DATALOC_DATA) (w DATALOC_LAST)
        | DATATYPE_DOUBLE \<Rightarrow>
            watermark_spec change (\<not> dbl_eq (w DATALOC_DATA) (w DATALOC_LAST))
              (dbl_eq (w DATALOC_LOWAT) 0 \<and> dbl_eq (w DATALOC_HIWAT) 0) spam dbl_lt
              (w DATALOC_LOWAT) (w DATALOC_HIWAT) (w DATALOC_DATA) (w DATALOC_LAST))"
  using assms by (rule watermark_meets_spec)

theorem watermark_refines_spec_witness:
  "device_watermark (\<lambda>_. 0) (sample_dev DEVICE_SENSOR SUBTYPE_COUNTER) = 2"
proof -
  have "full_access (sample_dev DEVICE_SENSOR SUBTYPE_COUNTER)" by code_simp
  moreover have "datatype_dev (sample_dev DEVICE_SENSOR SUBTYPE_COUNTER) = DATATYPE_UINT" by code_simp
  moreover have "\<not> QUERY_FLAG (d_flags (sample_dev DEVICE_SENSOR SUBTYPE_COUNTER)) DEVFLAG_CHANGEHANDLER" by code_simp
  moreover have "uint_value (sample_dev DEVICE_SENSOR SUBTYPE_COUNTER) DATALOC_LOWAT = 0"
    "uint_value (sample_dev DEVICE_SENSOR SUBTYPE_COUNTER) DATALOC_HIWAT = 0" by code_simp+
  ultimately show ?thesis
    using watermark_refines_spec [of "sample_dev DEVICE_SENSOR SUBTYPE_COUNTER" "\<lambda>_. 0"]
    by (simp add: watermark_spec_def)
qed

text \<open>
  For a device with one-byte values and no watermarks, the outcome depends on memory the code
  never wrote: with zero bytes there the handler always fires, with others it may not.
\<close>

theorem watermark_reads_uninitialised:
  assumes "get_width dev = Some W8" and "datatype_dev dev = DATATYPE_UINT"
    and "\<not> QUERY_FLAG (d_flags dev) DEVFLAG_CHANGEHANDLER"
    and "uint_value dev DATALOC_LOWAT = 0" and "uint_value dev DATALOC_HIWAT = 0"
  shows "\<exists>j1 j2. device_watermark j1 dev \<noteq> device_watermark j2 dev"
  using watermark_uninit [OF assms] by metis

theorem watermark_reads_uninitialised_witness:
  "\<exists>j1 j2. device_watermark j1 (sample_dev DEVICE_SWITCH SUBTYPE_SWITCH)
    \<noteq> device_watermark j2 (sample_dev DEVICE_SWITCH SUBTYPE_SWITCH)"
  by (rule watermark_reads_uninitialised) code_simp+

text \<open>A countdown timer that is running loses one at each tick and stops at zero.\<close>

theorem timer_counts_down:
  assumes "dev_type_of (d_type dev) = Some DEVICE_TIMER" "subtype_of (d_subtype dev) = Some SUBTYPE_TIMER"
  shows "unat (uint_value (timer_tick j dev) DATALOC_DATA) = unat (uint_value dev DATALOC_DATA) - 1"
  using timer_tick_value [OF assms, of j] by (simp add: unat_minus_one)

theorem timer_counts_down_witness:
  "unat (uint_value (timer_tick 0 (store_data_dev (sample_dev DEVICE_TIMER SUBTYPE_TIMER) DATALOC_DATA 5)) DATALOC_DATA)
    = unat (uint_value (store_data_dev (sample_dev DEVICE_TIMER SUBTYPE_TIMER) DATALOC_DATA 5) DATALOC_DATA) - 1"
  by (rule timer_counts_down) (simp_all add: sample_dev_def)

section \<open>Handler arguments and tags\<close>

text \<open>
  A list of non-empty arguments without commas, joined with commas as the messages have it,
  comes back element by element, whatever well-formed list the device had before.
\<close>

theorem hargs_round_trip:
  assumes "arr_ok (d_hargs dev) (d_nrofhargs dev)" and "xs \<noteq> []"
    and "\<And>x. x \<in> set xs \<Longrightarrow> x \<noteq> [] \<and> CHR '','' \<notin> set x"
  shows "parse_hargs dev (Some (join (CHR '','') xs)) =
    Inr (dev\<lparr>d_hargs := Arr (map Heap xs), d_nrofhargs := length xs\<rparr>)"
proof -
  have toks: "strtok (CHR '','') (join (CHR '','') xs) = xs" using assms(3) by (rule strtok_join)
  have "join (CHR '','') xs \<noteq> []"
    using toks assms(2) by (metis strtok.simps(1))
  from parse_hargs_ok [OF assms(1) this] show ?thesis by (simp add: toks)
qed

theorem hargs_round_trip_witness:
  "parse_hargs (new_device ''dev'') (Some ''-v,on'') =
    Inr ((new_device ''dev'')\<lparr>d_hargs := Arr [Heap ''-v'', Heap ''on''], d_nrofhargs := 2\<rparr>)"
proof -
  have "arr_ok (d_hargs (new_device ''dev'')) (d_nrofhargs (new_device ''dev''))"
    by (simp add: new_device_def arr_ok_def)
  moreover have "x \<noteq> [] \<and> CHR '','' \<notin> set x" if "x \<in> set [''-v'', ''on'']" for x using that by auto
  ultimately show ?thesis
    using hargs_round_trip [of "new_device ''dev''" "[''-v'', ''on'']"] by (simp add: eval_nat_numeral)
qed

text \<open>
  An empty argument list clears the handler arguments but leaves the pointer to the freed
  array in the device: the next change of the arguments frees it again.
\<close>

theorem hargs_cleared_twice:
  assumes "d_hargs dev = Arr (map Heap xs)" and "d_nrofhargs dev = length xs"
    and "parse_hargs dev (Some []) = Inr dev'"
  shows "parse_hargs dev' (Some s) = Inl DoubleFree"
proof -
  have "dev' = dev\<lparr>d_hargs := FreedArr, d_nrofhargs := 0\<rparr>"
    using assms by (simp add: parse_hargs_def free_ptr_def)
  then show ?thesis by (simp add: parse_hargs_def free_ptr_def)
qed

theorem hargs_cleared_twice_witness:
  "parse_hargs ((new_device ''dev'')\<lparr>d_hargs := FreedArr, d_nrofhargs := 0\<rparr>) (Some ''on'') = Inl DoubleFree"
proof (rule hargs_cleared_twice)
  let ?d = "(new_device ''dev'')\<lparr>d_hargs := Arr (map Heap [''-v'']), d_nrofhargs := length [''-v'']\<rparr>"
  show "d_hargs ?d = Arr (map Heap [''-v''])" "d_nrofhargs ?d = length [''-v'']" by simp_all
  show "parse_hargs ?d (Some []) = Inr ((new_device ''dev'')\<lparr>d_hargs := FreedArr, d_nrofhargs := 0\<rparr>)"
    using free_cells_heap [of 1 "[''-v'']"] by (simp add: parse_hargs_def free_ptr_def)
qed

text \<open>
  An odd number of tags is padded with a string literal, which the next change of the tags
  hands to \<^verbatim>\<open>free\<close>.
\<close>

theorem odd_tags_free_literal:
  assumes "arr_ok (d_tags dev) (d_nroftags dev)" and "odd (length (strtok (CHR '','') s))"
    and "parse_tags dev (Some s) = Inr dev'"
  shows "parse_tags dev' (Some t) = Inl BadFree"
proof -
  let ?ts = "strtok (CHR '','') s"
  have "s \<noteq> []" using assms(2) by auto
  from parse_tags_ok [OF assms(1) this] assms(2,3)
  have dev': "d_tags dev' = Arr (map Heap ?ts @ [Lit ''junk''])" "d_nroftags dev' = length ?ts + 1"
    by (auto simp: Let_def)
  have "foldE (\<lambda>j _. bindE (arr_nth (Arr (map Heap ?ts @ [Lit ''junk''])) j) free_cell) [0..<length ?ts] ()
      = Inr (fold (\<lambda>c acc. ()) ?ts ())"
    by (rule foldE_nth_heap) (simp add: nth_append)
  then have "free_cells (d_tags dev') (d_nroftags dev') = Inl BadFree"
    by (simp add: free_cells_def dev' foldE_append nth_append)
  then show ?thesis by (simp add: parse_tags_def)
qed

theorem odd_tags_free_literal_witness:
  "\<exists>dev'. parse_tags (new_device ''dev'') (Some ''room'') = Inr dev' \<and> parse_tags dev' (Some ''a,b'') = Inl BadFree"
proof -
  have ok: "arr_ok (d_tags (new_device ''dev'')) (d_nroftags (new_device ''dev''))"
    by (simp add: new_device_def arr_ok_def)
  have odd: "odd (length (strtok (CHR '','') ''room''))" by code_simp
  have "parse_tags (new_device ''dev'') (Some ''room'') = Inr ((new_device ''dev'')\<lparr>d_tags := Arr [Heap ''room'', Lit ''junk''], d_nroftags := 2\<rparr>)"
    using parse_tags_ok [OF ok, of "''room''"] by (simp add: strtok_word eval_nat_numeral)
  from this odd_tags_free_literal [OF ok odd this, of "''a,b''"] show ?thesis by blast
qed

section \<open>Alarms\<close>

text \<open>
  C15. The alarm list implements a map from uids to alarms: an update creates, changes, keeps or
  deletes exactly the entry of its uid as the specification says, and uids stay distinct.
\<close>

theorem alarms_refine_map:
  assumes "alarms_ok as"
  shows "alarm_map (snd (update_alarm u t s c as)) = alarm_spec u t s c (alarm_map as) \<and>
    alarms_ok (snd (update_alarm u t s c as))"
  using update_alarm_refines [OF assms] update_alarm_ok [OF assms] by blast

theorem alarms_refine_map_witness:
  "alarm_map (snd (update_alarm ''fire'' (Some ''Fire!'') 5 1 [])) ''fire''
    = Some \<lparr>al_uid = ''fire'', al_text = Some ''Fire!'', al_sev = 5, al_chan = 1\<rparr>"
proof -
  have "alarms_ok []" by (simp add: alarms_ok_def)
  from conjunct1 [OF alarms_refine_map [OF this, of "''fire''" "Some ''Fire!''" 5 1]] show ?thesis
    by (simp add: alarm_spec_def)
qed

section \<open>Helpers\<close>

text \<open>\<^verbatim>\<open>gcd\<close> on non-negative arguments terminates with the greatest common divisor.\<close>

theorem c_gcd_is_gcd:
  assumes "0 \<le> a" and "0 \<le> b"
  shows "c_gcd a b = Inr (gcd a b)"
  using assms by (rule c_gcd_gcd)

theorem c_gcd_is_gcd_witness: "c_gcd 12 18 = Inr 6"
proof -
  have "gcd 12 (18 :: int) = 6" by code_simp
  with c_gcd_is_gcd [of 12 18] show ?thesis by simp
qed

text \<open>\<^verbatim>\<open>lcm\<close> on positive arguments ends with the least common multiple when it fits in an \<^verbatim>\<open>int\<close>.\<close>

theorem c_lcm_is_lcm:
  assumes "0 < a" and "0 < b" and "lcm a b < 2 ^ 31"
  shows "c_lcm a b = Inr (lcm a b)"
  using assms by (rule c_lcm_correct)

theorem c_lcm_is_lcm_witness: "c_lcm 4 6 = Inr 12"
proof -
  have "lcm 4 (6 :: int) = 12" by code_simp
  with c_lcm_is_lcm [of 4 6] show ?thesis by simp
qed

text \<open>
  A name is a valid database name for the configuration exactly when \<^verbatim>\<open>mk_rrdname\<close>
  leaves it as it is, and what \<^verbatim>\<open>mk_rrdname\<close> makes is always valid.
\<close>

theorem rrdname_valid:
  "(conf_validate_rrdname s \<longleftrightarrow> mk_rrdname s = s) \<and> conf_validate_rrdname (mk_rrdname s)"
  using mk_rrdname_valid valid_mk_rrdname by metis

text \<open>Decoding the hexadecimal text of a byte sequence, in either case, gives the bytes back.\<close>

theorem hex_round_trip: "hex_decode (hex_text upper ws) (length ws * 2) = Inr (Some ws)"
  by (simp add: hex_decode_def hex_decode_loop_text)

section \<open>Messages\<close>

text \<open>Every scale from 0 to 7 travels through the bits of the update mask.\<close>

theorem scale_travels:
  assumes "m AND 0xff00 = 0" and "0 \<le> x" and "x \<le> 7"
  shows "GNC_GET_SCALE (m OR GNC_UPD_SCALE x) = x"
  using assms by (intro scale_bits) (simp_all add: scale_free_def)

theorem scale_travels_witness: "GNC_GET_SCALE (GNC_UPD_NAME OR GNC_UPD_SCALE 3) = 3"
  by (rule scale_travels) (simp_all add: GNC_UPD_NAME_def)

section \<open>Configuration\<close>

text \<open>Device types, protocols and subtypes are printed as names that parse to the same code.\<close>

theorem names_round_trip:
  "conf_parse_type (conf_print_type (int (unat (dev_type_code t)))) = Some (dev_type_code t) \<and>
   conf_parse_proto (conf_print_proto (int (unat (proto_code p)))) = Some (proto_code p) \<and>
   conf_parse_subtype (conf_print_subtype (int (unat (subtype_code s)))) = Some (subtype_code s)"
  using type_print_parse proto_print_parse subtype_print_parse by blast

text \<open>
  The unit scales are printed as names that parse to the same scale, with one exception: a
  temperature scale of Rankine is written as Celsius.
\<close>

theorem scales_round_trip:
  "conf_parse_speedscale (conf_print_speedscale (int (enum_index sp speedscales))) = Some sp \<and>
   conf_parse_lscale (conf_print_lscale (int (enum_index le lengthscales))) = Some le \<and>
   conf_parse_baroscale (conf_print_baroscale (int (enum_index ba baroscales))) = Some ba \<and>
   conf_parse_lightscale (conf_print_lightscale (int (enum_index li lightscales))) = Some li \<and>
   conf_parse_salinescale (conf_print_salinescale (int (enum_index sa salinities))) = Some sa \<and>
   conf_parse_tscale (conf_print_tscale (int (enum_index te tscales))) =
     Some (if te = TSCALE_R then TSCALE_C else te)"
proof -
  have "conf_parse_speedscale (conf_print_speedscale (int (enum_index sp speedscales))) = Some sp"
    by (cases sp; hypsubst; code_simp)
  moreover have "conf_parse_lscale (conf_print_lscale (int (enum_index le lengthscales))) = Some le"
    by (cases le; hypsubst; code_simp)
  moreover have "conf_parse_baroscale (conf_print_baroscale (int (enum_index ba baroscales))) = Some ba"
    by (cases ba; hypsubst; code_simp)
  moreover have "conf_parse_lightscale (conf_print_lightscale (int (enum_index li lightscales))) = Some li"
    by (cases li; hypsubst; code_simp)
  moreover have "conf_parse_salinescale (conf_print_salinescale (int (enum_index sa salinities))) = Some sa"
    by (cases sa; hypsubst; code_simp)
  moreover have "conf_parse_tscale (conf_print_tscale (int (enum_index te tscales))) =
      Some (if te = TSCALE_R then TSCALE_C else te)"
    by (cases te; hypsubst; code_simp)
  ultimately show ?thesis by blast
qed

text \<open>What a list of strings becomes in a section, and back.\<close>

lemma set_strs_heap: "set_strs (Arr (map Heap ss)) (length ss) [] = Inr (map Some ss)"
proof -
  have "foldE (\<lambda>i xs. bindE (arr_nth (Arr (map Heap ss)) i) (\<lambda>c. bindE (cell_opt c) (\<lambda>v. Inr (setn xs i v)))) [0..<n] []
      = Inr (map Some (take n ss))" if "n \<le> length ss" for n
    using that by (induction n) (simp_all add: foldE_append setn_def take_Suc_conv_app_nth)
  from this [of "length ss"] show ?thesis by (simp add: set_strs_def)
qed

lemma set_strs_arr_ok:
  assumes "arr_ok a n"
  obtains ss where "set_strs a n [] = Inr (map Some ss)" "length ss = n" "a = NullArr \<or> a = Arr (map Heap ss)"
    "0 < n \<Longrightarrow> a = Arr (map Heap ss)"
  using assms unfolding arr_ok_def
proof (elim disjE conjE exE)
  assume "a = NullArr" "n = 0"
  then show thesis by (intro that [of "[]"]) (simp_all add: set_strs_def)
next
  fix ss assume "a = Arr (map Heap ss)" "n = length ss"
  then show thesis by (intro that [of ss]) (simp_all add: set_strs_heap)
qed

lemma dup_list_some: "dup_list (map Some ss) = Inr (map Heap ss)"
proof -
  have "foldE (\<lambda>v cs. case v of None \<Rightarrow> Inl NullDeref | Some s \<Rightarrow> Inr (cs @ [Heap s])) (map Some ss) acc = Inr (acc @ map Heap ss)" for acc
    by (induction ss arbitrary: acc) simp_all
  from this [of "[]"] show ?thesis by (simp add: dup_list_def)
qed

lemma set_scale_frame [simp]:
  "cs_hargs (set_scale d sec) = cs_hargs sec" "cs_tags (set_scale d sec) = cs_tags sec"
  "cs_name (set_scale d sec) = cs_name sec" "cs_loc (set_scale d sec) = cs_loc sec"
  "cs_rrdname (set_scale d sec) = cs_rrdname sec" "cs_handler (set_scale d sec) = cs_handler sec"
  "cs_subtype (set_scale d sec) = cs_subtype sec" "cs_type (set_scale d sec) = cs_type sec"
  "cs_proto (set_scale d sec) = cs_proto sec"
  by (simp_all add: set_scale_def Let_def split: option.split subtype.split)

lemma load_frame [simp]:
  "d_name (load_flags sec d) = d_name d" "d_loc (load_flags sec d) = d_loc d" "d_rrdname (load_flags sec d) = d_rrdname d"
  "d_handler (load_flags sec d) = d_handler d" "d_type (load_flags sec d) = d_type d" "d_proto (load_flags sec d) = d_proto d"
  "d_subtype (load_flags sec d) = d_subtype d" "d_hargs (load_flags sec d) = d_hargs d"
  "d_nrofhargs (load_flags sec d) = d_nrofhargs d" "d_tags (load_flags sec d) = d_tags d"
  "d_nroftags (load_flags sec d) = d_nroftags d" "d_uid (load_flags sec d) = d_uid d"
  by (simp_all add: load_flags_def)

text \<open>
  C29. A device that is written to a new section of the configuration and loaded from it again at
  the next start has the same name, location (its uid when it had none), database name, type,
  protocol, subtype, handler, handler arguments and tags.
\<close>

theorem conf_round_trip:
  assumes "arr_ok (d_hargs dev) (d_nrofhargs dev)" and "arr_ok (d_tags dev) (d_nroftags dev)" and "even (d_nroftags dev)"
  shows "\<exists>sec dev'. fill_devsec dev (new_devsec (d_uid dev)) = Inr sec \<and> load_dev sec (new_device (d_uid dev)) = Inr dev' \<and>
    d_uid dev' = d_uid dev \<and> d_name dev' = d_name dev \<and> d_rrdname dev' = d_rrdname dev \<and>
    d_handler dev' = d_handler dev \<and> d_type dev' = d_type dev \<and> d_proto dev' = d_proto dev \<and>
    d_subtype dev' = d_subtype dev \<and>
    d_loc dev' = Some (case d_loc dev of None \<Rightarrow> d_uid dev | Some l \<Rightarrow> l) \<and>
    d_nrofhargs dev' = d_nrofhargs dev \<and> (0 < d_nrofhargs dev \<longrightarrow> d_hargs dev' = d_hargs dev) \<and>
    d_nroftags dev' = d_nroftags dev \<and> (0 < d_nroftags dev \<longrightarrow> d_tags dev' = d_tags dev)"
proof -
  obtain hs where hs: "set_strs (d_hargs dev) (d_nrofhargs dev) [] = Inr (map Some hs)" "length hs = d_nrofhargs dev"
    "0 < d_nrofhargs dev \<Longrightarrow> d_hargs dev = Arr (map Heap hs)"
    using set_strs_arr_ok [OF assms(1)] by metis
  obtain ts where ts: "set_strs (d_tags dev) (d_nroftags dev) [] = Inr (map Some ts)" "length ts = d_nroftags dev"
    "0 < d_nroftags dev \<Longrightarrow> d_tags dev = Arr (map Heap ts)"
    using set_strs_arr_ok [OF assms(2)] by metis
  have code: "word_of_int (int (unat w)) = w" for w :: u8 by simp
  show ?thesis
    using hs ts assms(3)
    by (cases "hs = []"; cases "ts = []")
      (auto simp: fill_devsec_def new_devsec_def load_dev_def dup_list_some or_else_def Let_def set_waters_def
        new_device_def load_waters_def code split: option.split)
qed

theorem conf_round_trip_witness:
  "\<exists>sec dev'. fill_devsec (sample_dev DEVICE_SWITCH SUBTYPE_SWITCH) (new_devsec ''dev'') = Inr sec \<and>
     load_dev sec (new_device ''dev'') = Inr dev' \<and> d_name dev' = Some ''Dev''"
proof -
  have "arr_ok (d_hargs (sample_dev t s)) (d_nrofhargs (sample_dev t s))"
    "arr_ok (d_tags (sample_dev t s)) (d_nroftags (sample_dev t s))" "even (d_nroftags (sample_dev t s))"
    "d_uid (sample_dev t s) = ''dev''" "d_name (sample_dev t s) = Some ''Dev''" for t s
    by (simp_all add: sample_dev_def new_device_def arr_ok_def)
  with conf_round_trip [of "sample_dev DEVICE_SWITCH SUBTYPE_SWITCH"] show ?thesis by auto
qed

text \<open>A section with an odd number of tags makes the loader write behind the array of tags.\<close>

theorem odd_conf_tags_overflow:
  assumes "odd (length (cs_tags sec))" and "None \<notin> set (cs_tags sec)" and "None \<notin> set (cs_hargs sec)"
  shows "load_dev sec dev = Inl OutOfBounds"
proof -
  have dup: "\<exists>cs. dup_list vs = Inr cs \<and> length cs = length vs" if "None \<notin> set vs" for vs
  proof -
    have "foldE (\<lambda>v cs. case v of None \<Rightarrow> Inl NullDeref | Some s \<Rightarrow> Inr (cs @ [Heap s])) vs acc
        = Inr (acc @ map (Heap \<circ> the) vs)" for acc
      using that
    proof (induction vs arbitrary: acc)
      case (Cons v vs)
      then show ?case by (cases v) auto
    qed simp
    from this [of "[]"] show ?thesis by (intro exI [of _ "map (Heap \<circ> the) vs"]) (simp add: dup_list_def)
  qed
  obtain hs where "dup_list (cs_hargs sec) = Inr hs" using dup [OF assms(3)] by blast
  moreover obtain ts where "dup_list (cs_tags sec) = Inr ts" "length ts = length (cs_tags sec)"
    using dup [OF assms(2)] by blast
  ultimately show ?thesis
    using assms(1) unfolding load_dev_def Let_def by (cases "cs_hargs sec = []") auto
qed

theorem odd_conf_tags_overflow_witness:
  "load_dev ((new_devsec ''lamp'')\<lparr>cs_tags := [Some ''room'']\<rparr>) (new_device ''lamp'') = Inl OutOfBounds"
  by (rule odd_conf_tags_overflow) (simp_all add: new_devsec_def)

end
