(* ===== verification/Collcmd.thy ===== *)
theory Collcmd
  imports Cmdhandler Alarms
begin

text \<open>
  \<^verbatim>\<open>common/collcmd.c\<close>: the collector's side of the protocol. A collector keeps the same tables
  of devices and groups as the server; each message from the server runs a handler, which may call
  back into the collector proper. Those callbacks are weak symbols with empty bodies that a
  collector may replace: they are a record of functions, and \<open>weak_stubs\<close> holds the defaults.
\<close>

section \<open>State\<close>

text \<open>
  A bufferevent is a number; \<open>bufs\<close> gives the output of the live ones. The pointer \<^verbatim>\<open>rrdname\<close> of
  a device may be left dangling (see \<open>coll_register_fields\<close>): \<open>rrd_freed\<close> says for which. To free it
  again is a fault, and so is to print it (\<open>send_register\<close> in theory Build, \<open>spa_reading\<close> in theory Balboa).
\<close>

record collector = registry +
  bufs :: "nat \<Rightarrow> string option"
  bufnext :: nat
  gnhastd_bev :: "nat option"
  coll_alarms :: "alarm list"
  coll_conf :: conf
  coll_conf_file :: "conf option"
  min_proto_version :: int
  rrd_freed :: "dptr \<Rightarrow> bool"

record cenv =
  ce_now :: int
  ce_open :: bool     \<comment> \<open>\<^verbatim>\<open>fopen\<close> of the configuration file succeeds\<close>

record 's hooks =
  collector_is_ok :: "'s \<Rightarrow> (bool \<times> 's) res"
  coll_upd_cb :: "dptr \<Rightarrow> 's \<Rightarrow> 's res"
  coll_register_cb :: "dptr \<Rightarrow> 's \<Rightarrow> 's res"
  coll_chg_cb :: "dptr \<Rightarrow> 's \<Rightarrow> 's res"
  coll_endldevs :: "parg list \<Rightarrow> 's \<Rightarrow> (int \<times> 's) res"
  coll_endlgrps :: "parg list \<Rightarrow> 's \<Rightarrow> (int \<times> 's) res"
  coll_imalive :: "parg list \<Rightarrow> 's \<Rightarrow> (int \<times> 's) res"
  coll_die :: "parg list \<Rightarrow> 's \<Rightarrow> (int \<times> 's) res"
  coll_alarm :: "parg list \<Rightarrow> 's \<Rightarrow> (int \<times> 's) res"

definition weak_stubs :: "'s hooks" where
  "weak_stubs =
     \<lparr>collector_is_ok = (\<lambda>st. Inr (False, st)),
      coll_upd_cb = (\<lambda>_ st. Inr st), coll_register_cb = (\<lambda>_ st. Inr st), coll_chg_cb = (\<lambda>_ st. Inr st),
      coll_endldevs = (\<lambda>_ st. Inr (0, st)), coll_endlgrps = (\<lambda>_ st. Inr (0, st)),
      coll_imalive = (\<lambda>_ st. Inr (0, st)), coll_die = (\<lambda>_ st. Inr (0, st)),
      coll_alarm = (\<lambda>_ st. Inr (0, st))\<rparr>"

type_synonym 's coll_handler = "'s hooks \<Rightarrow> cenv \<Rightarrow> parg list \<Rightarrow> 's \<Rightarrow> (int \<times> 's) res"

text \<open>\<^verbatim>\<open>bufferevent_write_buffer\<close>.\<close>

definition write_bev :: "nat option \<Rightarrow> string \<Rightarrow> 'a collector_scheme \<Rightarrow> 'a collector_scheme res" where
  "write_bev b msg st =
     (case b of
        None \<Rightarrow> Inl NullDeref
      | Some k \<Rightarrow>
          (case bufs st k of
             None \<Rightarrow> Inl UseAfterFree
           | Some out \<Rightarrow> Inr (st\<lparr>bufs := (bufs st)(k \<mapsto> out @ msg)\<rparr>)))"

section \<open>Handlers without data\<close>

definition coll_ping :: "'a collector_scheme coll_handler" where
  "coll_ping h e args st =
     bindE (collector_is_ok h st) (\<lambda>(ok, st1).
       if ok \<and> gnhastd_bev st1 \<noteq> None
       then bindE (write_bev (gnhastd_bev st1) gn_imalive st1) (\<lambda>st2. Inr (0, st2))
       else Inr (0, st1))"

text \<open>The collector ends when the server's protocol is older than it needs.\<close>

definition coll_apiv :: "'a collector_scheme coll_handler" where
  "coll_apiv h e args st =
     (if sint (last_of arg_ll 0 (args_of args SC_NUMBER)) < min_proto_version st then Inl FatalExit
      else Inr (0, st))"

section \<open>reg\<close>

text \<open>
  \<^verbatim>\<open>strdup(NULL)\<close> for a device without a name in the message. The old \<^verbatim>\<open>rrdname\<close> is freed in any
  case, and replaced only when the message has one.
\<close>

definition coll_register_fields ::
    "cenv \<Rightarrow> parg list \<Rightarrow> string \<Rightarrow> string option \<Rightarrow> device \<Rightarrow> device" where
  "coll_register_fields e args name rrdname d =
     d\<lparr>d_name := Some name,
       d_rrdname := (case rrdname of None \<Rightarrow> d_rrdname d | Some r \<Rightarrow> Some (take 19 r)),
       d_type := u8_arg args SC_DEVTYPE, d_proto := u8_arg args SC_PROTO,
       d_subtype := u8_arg args SC_SUBTYPE, d_last_upd := ce_now e\<rparr>"

definition coll_register :: "'a collector_scheme coll_handler" where
  "coll_register h e args st =
     (let name = str_arg args SC_NAME; rrd = str_arg args SC_RRDNAME
      in case str_arg args SC_UID of
           None \<Rightarrow> Inr (-1, st)
         | Some uid \<Rightarrow>
             (case find_device_byuid st uid of
                None \<Rightarrow>
                  (case name of
                     None \<Rightarrow> Inr (-1, st)
                   | Some n \<Rightarrow>
                       if u8_arg args SC_SUBTYPE = 0 \<or> u8_arg args SC_DEVTYPE = 0 \<or> u8_arg args SC_PROTO = 0
                       then Inr (-1, st)
                       else
                         let r = (case rrd of None \<Rightarrow> take 19 n | Some r \<Rightarrow> r);
                             (p, st1) = alloc_dev (coll_register_fields e args n (Some r) (new_device uid)) st
                         in bindE (coll_register_cb h p (insert_device p st1)) (\<lambda>st2. Inr (0, st2)))
              | Some p \<Rightarrow>
                  (case name of
                     None \<Rightarrow> Inl NullDeref
                   | Some n \<Rightarrow>
                       if rrd_freed st p then Inl DoubleFree
                       else
                         let st1 = (upd_dev p (coll_register_fields e args n rrd) st)
                               \<lparr>rrd_freed := (rrd_freed st)(p := (d_rrdname (dmem st p) \<noteq> None \<and> rrd = None))\<rparr>
                         in bindE (coll_register_cb h p st1) (\<lambda>st2. Inr (0, st2)))))"

section \<open>regg\<close>

definition coll_add_groups :: "gptr \<Rightarrow> string list \<Rightarrow> 'a registry_scheme \<Rightarrow> 'a registry_scheme" where
  "coll_add_groups g uids st =
     fold (\<lambda>u st. case find_devgroup_byuid st u of
                    None \<Rightarrow> st
                  | Some k \<Rightarrow> if group_in_group k g st then st else add_group_group k g st) uids st"

definition coll_add_devices :: "gptr \<Rightarrow> string list \<Rightarrow> 'a registry_scheme \<Rightarrow> 'a registry_scheme" where
  "coll_add_devices g uids st =
     fold (\<lambda>u st. case find_device_byuid st u of
                    None \<Rightarrow> st
                  | Some p \<Rightarrow> if dev_in_group p g st then st else add_dev_group p g st) uids st"

definition coll_fill_group :: "gptr \<Rightarrow> parg list \<Rightarrow> 'a registry_scheme \<Rightarrow> 'a registry_scheme" where
  "coll_fill_group g args st =
     (let st1 = upd_grp g (\<lambda>r. r\<lparr>g_name := str_arg args SC_NAME\<rparr>) st;
          st2 = (case str_arg args SC_GROUPLIST of
                   None \<Rightarrow> st1 | Some l \<Rightarrow> coll_add_groups g (strtok (CHR '','') l) st1)
      in case str_arg args SC_DEVLIST of
           None \<Rightarrow> st2 | Some l \<Rightarrow> coll_add_devices g (strtok (CHR '','') l) st2)"

definition coll_register_group :: "'a collector_scheme coll_handler" where
  "coll_register_group h e args st =
     (case str_arg args SC_UID of
        None \<Rightarrow> Inr (-1, st)
      | Some uid \<Rightarrow>
          (case find_devgroup_byuid st uid of
             None \<Rightarrow>
               if str_arg args SC_NAME = None then Inr (-1, st)
               else let (g, st1) = new_devgroup uid st in Inr (0, coll_fill_group g args st1)
           | Some g \<Rightarrow> Inr (0, coll_fill_group g args st)))"

section \<open>upd\<close>

definition coll_int_data :: "sc \<Rightarrow> bool" where
  "coll_int_data n \<longleftrightarrow> n \<in> {SC_SWITCH, SC_WEATHER, SC_ALARMSTATUS, SC_THMODE, SC_THSTATE, SC_SMNUMBER,
     SC_COLLECTOR, SC_BLIND, SC_DAYLIGHT, SC_MOONPH, SC_TRISTATE}"

definition coll_dbl_data :: "sc \<Rightarrow> bool" where
  "coll_dbl_data n \<longleftrightarrow> n \<in> {SC_LUX, SC_HUMID, SC_TEMP, SC_DIMMER, SC_PRESSURE, SC_SPEED, SC_DIR, SC_PH,
     SC_WETNESS, SC_VOLTAGE, SC_WATT, SC_AMPS, SC_PERCENTAGE, SC_FLOWRATE, SC_VOLUME, SC_DISTANCE,
     SC_ORP, SC_SALINITY}"

definition coll_uint_data :: "sc \<Rightarrow> bool" where
  "coll_uint_data n \<longleftrightarrow> n \<in> {SC_TIMER, SC_COUNT, SC_TRIGGER}"

definition coll_ll_data :: "sc \<Rightarrow> bool" where
  "coll_ll_data n \<longleftrightarrow> n \<in> {SC_WATTSEC, SC_NUMBER}"

text \<open>New handler arguments; unlike \<^verbatim>\<open>parse_hargs\<close> there is no case for an empty text.\<close>

definition coll_set_hargs :: "string \<Rightarrow> device \<Rightarrow> device res" where
  "coll_set_hargs s d =
     bindE (free_cells (d_hargs d) (d_nrofhargs d)) (\<lambda>_.
     bindE (free_arr (d_hargs d)) (\<lambda>_.
       let ts = strtok (CHR '','') s
       in Inr (d\<lparr>d_hargs := Arr (map Heap ts), d_nrofhargs := length ts\<rparr>)))"

text \<open>
  New tags. For an odd number \<open>j\<close> of them the array has \<open>j + 1\<close> elements, and the code
  writes to element \<open>j + 1\<close>.
\<close>

definition coll_set_tags :: "string \<Rightarrow> device \<Rightarrow> device res" where
  "coll_set_tags s d =
     bindE (free_cells (d_tags d) (d_nroftags d)) (\<lambda>_.
     bindE (free_arr (d_tags d)) (\<lambda>_.
       let ts = strtok (CHR '','') s
       in if odd (length ts) then Inl OutOfBounds
          else Inr (d\<lparr>d_tags := Arr (map Heap ts), d_nroftags := length ts\<rparr>)))"

definition coll_store_arg :: "parg \<Rightarrow> device \<Rightarrow> device res" where
  "coll_store_arg a d =
     (let n = a_cword a
      in if coll_int_data n \<or> coll_dbl_data n \<or> coll_uint_data n \<or> coll_ll_data n
         then Inr (store_data_dev d DATALOC_DATA (arg_ll a))
         else if n = SC_HANDLER then Inr (d\<lparr>d_handler := Some (arg_c a)\<rparr>)
         else if n = SC_HARGS then coll_set_hargs (arg_c a) d
         else if n = SC_TAGS then coll_set_tags (arg_c a) d
         else Inr d)"

definition coll_update :: "'a collector_scheme coll_handler" where
  "coll_update h e args st =
     with_device args st (\<lambda>p.
       bindE (foldE coll_store_arg args (dmem st p)) (\<lambda>d.
       bindE (coll_upd_cb h p (upd_dev p (\<lambda>_. d\<lparr>d_last_upd := ce_now e\<rparr>) st)) (\<lambda>st1. Inr (0, st1))))"

section \<open>chg\<close>

definition clamp_switch :: "int \<Rightarrow> int" where
  "clamp_switch s = (let s1 = (if s < 0 then 0 else s) in if 1 < s1 then 1 else s1)"

text \<open>The double 1.0.\<close>

abbreviation (input) dbl_one :: dbl where "dbl_one \<equiv> 0x3FF0000000000000"

definition clamp_level :: "u64 \<Rightarrow> u64" where
  "clamp_level l =
     (let l1 = (if dbl_lt l 0 then 0 else l) in if dbl_lt dbl_one l1 then dbl_one else l1)"

text \<open>
  One argument of a change request: \<open>None\<close> where the handler gives up, with what the arguments
  before it have stored in place.
\<close>

definition coll_change_arg :: "parg \<Rightarrow> device \<Rightarrow> device option" where
  "coll_change_arg a d =
     (case a_cword a of
        SC_SWITCH \<Rightarrow>
          if dev_type_of (d_type d) \<noteq> Some DEVICE_SWITCH then None
          else Some (store_data_dev d DATALOC_CHANGE (ucast (word_of_int (clamp_switch (arg_i a)) :: u32)))
      | SC_DIMMER \<Rightarrow>
          if dev_type_of (d_type d) \<noteq> Some DEVICE_DIMMER then None
          else Some (store_data_dev d DATALOC_CHANGE (clamp_level (arg_ll a)))
      | SC_UID \<Rightarrow> Some d
      | n \<Rightarrow>
          if coll_int_data n \<or> coll_dbl_data n \<or> coll_uint_data n \<or> coll_ll_data n
          then Some (store_data_dev d DATALOC_CHANGE (arg_ll a))
          else None)"

fun coll_change_args :: "parg list \<Rightarrow> device \<Rightarrow> bool \<times> device" where
  "coll_change_args [] d = (True, d)"
| "coll_change_args (a # args) d =
     (case coll_change_arg a d of
        None \<Rightarrow> (False, d)
      | Some d1 \<Rightarrow> coll_change_args args d1)"

definition coll_change :: "'a collector_scheme coll_handler" where
  "coll_change h e args st =
     with_device args st (\<lambda>p.
       let (done, d) = coll_change_args args (dmem st p); st1 = upd_dev p (\<lambda>_. d) st
       in if \<not> done then Inr (-1, st1)
          else bindE (coll_chg_cb h p st1) (\<lambda>st2. Inr (0, st2)))"

section \<open>mod\<close>

text \<open>The pointers to the old texts are freed, then replaced.\<close>

definition coll_modify_arg ::
    "dptr \<Rightarrow> parg \<Rightarrow> 'a collector_scheme \<Rightarrow> 'a collector_scheme res" where
  "coll_modify_arg p a st =
     (case a_cword a of
        SC_NAME \<Rightarrow> Inr (upd_dev p (\<lambda>d. d\<lparr>d_name := Some (arg_c a)\<rparr>) st)
      | SC_RRDNAME \<Rightarrow>
          if rrd_freed st p then Inl DoubleFree
          else Inr (upd_dev p (\<lambda>d. d\<lparr>d_rrdname := Some (arg_c a)\<rparr>) st)
      | _ \<Rightarrow> Inr st)"

definition coll_modify :: "'a collector_scheme coll_handler" where
  "coll_modify h e args st =
     with_device args st (\<lambda>p.
       bindE (foldE (coll_modify_arg p) args st) (\<lambda>st1.
       bindE (dump_conf st1 0 (ce_open e) (coll_conf st1)) (\<lambda>(cf, out).
         Inr (0, st1\<lparr>coll_conf := cf,
                     coll_conf_file := (case out of None \<Rightarrow> coll_conf_file st1 | Some f \<Rightarrow> Some f)\<rparr>))))"

section \<open>Dispatch and reading\<close>

definition coll_commands :: "(string \<times> 'a collector_scheme coll_handler) list" where
  "coll_commands =
     [(''chg'', coll_change), (''reg'', coll_register), (''regg'', coll_register_group),
      (''endldevs'', \<lambda>h e. coll_endldevs h), (''endlgrps'', \<lambda>h e. coll_endlgrps h),
      (''ping'', coll_ping), (''imalive'', \<lambda>h e. coll_imalive h), (''die'', \<lambda>h e. coll_die h),
      (''upd'', coll_update), (''mod'', coll_modify), (''setalarm'', \<lambda>h e. coll_alarm h),
      (''apiv'', coll_apiv)]"

definition coll_init_commands ::
    "(string \<times> 'a collector_scheme coll_handler) list \<Rightarrow> (string \<times> 'a collector_scheme coll_handler) list" where
  "coll_init_commands tab = c_qsort fst tab"

definition coll_parsed_command :: "string \<Rightarrow> 'a collector_scheme coll_handler" where
  "coll_parsed_command command h e args st =
     (case c_bsearch (map c_tolower command) fst (coll_init_commands coll_commands) of
        None \<Rightarrow> Inr (-1, st)
      | Some (n, f) \<Rightarrow> f h e args st)"

text \<open>\<open>None\<close> where the loop of \<^verbatim>\<open>gnhastd_read_cb\<close> is left without a command.\<close>

definition coll_run_line ::
    "'a collector_scheme hooks \<Rightarrow> cenv \<Rightarrow> string \<Rightarrow> 'a collector_scheme \<Rightarrow> 'a collector_scheme option res" where
  "coll_run_line h e line st =
     (case parse_netcommand (c_string line) of
        None \<Rightarrow> Inr None
      | Some words \<Rightarrow>
          (case parse_command words of
             None \<Rightarrow> Inr None
           | Some args \<Rightarrow> bindE (coll_parsed_command (hd words) h e args st) (\<lambda>(ret, st1). Inr (Some st1))))"

fun gnhastd_read_cb ::
    "'a collector_scheme hooks \<Rightarrow> cenv \<Rightarrow> string list \<Rightarrow> 'a collector_scheme \<Rightarrow>
      (string list \<times> 'a collector_scheme) res" where
  "gnhastd_read_cb h e [] st = Inr ([], st)"
| "gnhastd_read_cb h e (line # rest) st =
     (if line = [] then Inr (rest, st)
      else bindE (coll_run_line h e line st) (\<lambda>r.
             case r of None \<Rightarrow> Inr (rest, st) | Some st1 \<Rightarrow> gnhastd_read_cb h e rest st1))"

text \<open>The search finds exactly the handler the table lists.\<close>

lemma coll_commands_distinct: "distinct (map fst coll_commands)"
  by (simp add: coll_commands_def)

lemma coll_parsed_command_lookup [code]:
  "coll_parsed_command command h e args st =
     (case map_of coll_commands (map c_tolower command) of
        None \<Rightarrow> Inr (-1, st) | Some f \<Rightarrow> f h e args st)"
proof -
  have "map_of (map (\<lambda>x. (fst x, x)) tab) k = map_option (Pair k) (map_of tab k)"
    for k and tab :: "(string \<times> 'a collector_scheme coll_handler) list"
    by (induction tab) auto
  then show ?thesis
    by (simp add: coll_parsed_command_def coll_init_commands_def c_bsearch_c_qsort coll_commands_distinct
        split: option.split)
qed


end
