(* ===== verification/Protocol.thy ===== *)
theory Protocol
  imports Runs Collcmd
begin

text \<open>
  The two sides of the protocol together: what one side prints is what the other side stores.
  Registrations go from a collector to the server, updates from the server to a collector that
  watches the device, change requests from the server to the collector that owns it.
\<close>

section \<open>Update messages\<close>

lemma c_string_id: "CHR 0x00 \<notin> set s \<Longrightarrow> c_string s = s"
  unfolding c_string_def by (simp add: takeWhile_eq_all_conv) metis

text \<open>The text of a device's value, and of one more argument than \<open>register_pairs\<close> has.\<close>

definition value_text :: "device \<Rightarrow> string" where
  "value_text dev =
     (let v = get_data_dev dev DATALOC_DATA 0
      in case datatype_dev dev of
           DATATYPE_UINT \<Rightarrow> fmt_d (ucast v)
         | DATATYPE_LL \<Rightarrow> fmt_jd v
         | DATATYPE_DOUBLE \<Rightarrow> fmt_f (gn_maybe_scale dev (GNC_GET_SCALE GNC_UPD_RRDNAME) v))"

definition update_pairs :: "sc \<Rightarrow> device \<Rightarrow> (sc \<times> string) list" where
  "update_pairs n dev =
     (SC_UID, d_uid dev) # (case d_rrdname dev of None \<Rightarrow> [] | Some r \<Rightarrow> [(SC_RRDNAME, r)]) @
       [(n, value_text dev)]"

text \<open>
  The devices whose values are sent: the value has a width, eight bytes for a double, and an argument
  that the commands know, which the rain rate has not.
\<close>

definition has_value :: "device \<Rightarrow> bool" where
  "has_value dev \<longleftrightarrow> (case argdev_sc dev of None \<Rightarrow> False | Some n \<Rightarrow> n \<noteq> SC_RAINRATE) \<and>
     (if datatype_dev dev = DATATYPE_DOUBLE then get_width dev = Some W64 else get_width dev \<noteq> None)"

text \<open>
  The value the other side reads: a double is converted to the first scale of its kind and rounded to the
  six decimals of \<^verbatim>\<open>%f\<close>, a whole number stays as it is.
\<close>

definition value_as_sent :: "device \<Rightarrow> u64 \<Rightarrow> u64" where
  "value_as_sent dev b =
     (if datatype_dev dev = DATATYPE_DOUBLE
      then c_strtod (fmt_f (gn_maybe_scale dev 0 (get_data_dev dev DATALOC_DATA b)))
      else get_data_dev dev DATALOC_DATA b)"

lemma no_scale: "GNC_GET_SCALE GNC_UPD_RRDNAME = 0"
  by code_simp

text \<open>A number in decimals has no character with a meaning of its own.\<close>

lemma fmt_f_safe: "set (fmt_f x) \<subseteq> set ''-nainf.'' \<union> {c. is_digit c}"
proof -
  have d: "set (nat_dec n) \<subseteq> {c. is_digit c}" for n using nat_dec_digits by blast
  have z: "set (pad_zeros k (nat_dec n)) \<subseteq> {c. is_digit c}" for k n
  proof -
    have "is_digit (CHR ''0'')" by (simp add: is_digit_def)
    then have "set (replicate m (CHR ''0'')) \<subseteq> {c. is_digit c}" for m by auto
    with d show ?thesis by (simp add: pad_zeros_def)
  qed
  obtain n d where r: "dbl_ratio x = (n, d)" by fastforce
  define u where "u = half_even (n * 10 ^ 6) d"
  have "fmt_f x = (if dbl_neg x then ''-'' else []) @ (if dbl_is_nan x then ''nan'' else if dbl_is_inf x then ''inf''
      else nat_dec (u div 10 ^ 6) @ ''.'' @ pad_zeros 6 (nat_dec (u mod 10 ^ 6)))"
    by (simp add: fmt_f_def Let_def r u_def)
  moreover have "set (nat_dec (u div 10 ^ 6) @ ''.'' @ pad_zeros 6 (nat_dec (u mod 10 ^ 6))) \<subseteq> set ''-nainf.'' \<union> {c. is_digit c}"
    using d [of "u div 10 ^ 6"] z [of 6 "u mod 10 ^ 6"] unfolding set_append by fastforce
  ultimately show ?thesis by (cases "dbl_neg x") simp_all
qed

lemma fmt_f_plain: "plain (fmt_f x)" "CHR 0x00 \<notin> set (fmt_f x)"
proof -
  have "c \<notin> set (fmt_f x)" if "c \<notin> set ''-nainf.'' \<union> {c. is_digit c}" for c
    using fmt_f_safe that by blast
  moreover have "c \<notin> set ''-nainf.'' \<union> {c. is_digit c}" if "c \<in> {CHR '' '', quote_char, CHR 0x00}" for c
    using that by (auto simp: is_digit_def)
  ultimately show "plain (fmt_f x)" "CHR 0x00 \<notin> set (fmt_f x)" by (simp_all add: plain_def)
qed

lemma argdev_name: "argdev_sc dev = Some n \<Longrightarrow> argdev dev = sc_name n"
  unfolding argnm_name [symmetric] by (simp add: argdev_def find_arg_bydev_def argnm_def del: argnm_name)

lemma fmt_plain: "plain (fmt_d w)" "plain (fmt_jd v)"
  using d_atoi.show_safe [of w] jd_strtoll.show_safe [of v] by (simp_all add: plain_def)

lemma value_text_plain: "plain (value_text dev)"
  by (simp add: value_text_def Let_def fmt_plain fmt_f_plain split: datatype_t.split)

lemma update_text:
  assumes "wire_ok dev" "has_value dev" "argdev_sc dev = Some n"
    and m: "gn_update_device dev GNC_UPD_RRDNAME = Inr m"
  shows "m = ''upd '' @ kv SC_UID (d_uid dev) @ '' '' @
      (case d_rrdname dev of None \<Rightarrow> [] | Some r \<Rightarrow> kv SC_RRDNAME r @ '' '') @ kv n (value_text dev) @ [CHR 0x0A]"
proof -
  from assms(1) obtain name where nm: "d_name dev = Some name" "\<not> unregistered dev"
    by (auto simp: wire_ok_def split: option.splits)
  have bits: "QUERY_BIT GNC_UPD_RRDNAME GNC_UPD_RRDNAME" "\<not> QUERY_BIT GNC_UPD_RRDNAME GNC_UPD_NAME"
    "\<not> QUERY_BIT GNC_UPD_RRDNAME GNC_UPD_CACTI" "\<not> QUERY_BIT GNC_UPD_RRDNAME GNC_UPD_HANDLER"
    "\<not> QUERY_BIT GNC_UPD_RRDNAME GNC_UPD_WATER" "\<not> QUERY_BIT GNC_UPD_RRDNAME GNC_NOSCALE"
    by code_simp+
  have v: "update_values dev 0 False = kv n (value_text dev)"
    using assms(2) argdev_name [OF assms(3)]
    by (cases "datatype_dev dev") (simp_all add: update_values_def value_text_def has_value_def kv_simp no_scale)
  show ?thesis
    using m nm bits rrdname_bits
    by (simp add: gn_update_device_def Let_def no_scale v split: option.splits)
qed

lemma update_words:
  assumes "wire_ok dev" "has_value dev" "argdev_sc dev = Some n"
    and "gn_update_device dev GNC_UPD_RRDNAME = Inr m"
  shows "parse_netcommand (butlast m) = Some (''upd'' # map (\<lambda>(n, v). kv n v) (update_pairs n dev))"
proof -
  have upd: "nc_words (''upd '' @ s) [] = ''upd'' # nc_words (dropWhile (\<lambda>x. x = CHR '' '') s) []" for s
    using nc_words_plain [of "''upd''" "CHR '' '' # s" "[]"] by (simp add: plain_def nc_words_space)
  have "plain r" if "d_rrdname dev = Some r" for r
    using assms(1) that by (simp add: wire_ok_def)
  moreover have "plain (d_uid dev)" using assms(1) by (simp add: wire_ok_def)
  ultimately show ?thesis
    using update_text [OF assms]
    by (cases "d_rrdname dev")
      (simp_all add: parse_netcommand_def butlast_append upd [simplified] nc_words_kv nc_words_kv_end
        update_pairs_def value_text_plain)
qed

text \<open>What the reader makes of the value, seen through the width of the device.\<close>

lemma value_sc_type:
  assumes "has_value dev" "argdev_sc dev = Some n"
  shows "case datatype_dev dev of DATATYPE_LL \<Rightarrow> sc_type n = PTLL | DATATYPE_UINT \<Rightarrow> sc_type n \<in> {PTINT, PTUINT}
    | DATATYPE_DOUBLE \<Rightarrow> sc_type n = PTDOUBLE"
  using assms
  by (auto simp: has_value_def datatype_dev_def argdev_sc_def split: if_splits option.splits subtype.splits)

lemma value_sc_data:
  assumes "has_value dev" "argdev_sc dev = Some n"
  shows "coll_int_data n \<or> coll_dbl_data n \<or> coll_uint_data n \<or> coll_ll_data n"
  using assms
  by (auto simp: has_value_def datatype_dev_def argdev_sc_def coll_int_data_def coll_uint_data_def coll_ll_data_def coll_dbl_data_def
      split: if_splits option.splits subtype.splits)

lemma copy_u32:
  assumes "width_bits w \<le> 32"
  shows "copy w (ucast (ucast (copy w x 0) :: u32)) y = copy w x y"
  using assms by (intro bit_word_eqI) (auto simp: bit_copy bit_simps)

lemma value_read_back:
  assumes "has_value dev" "argdev_sc dev = Some n" "get_width dev = Some w"
  shows "copy w (arg_ll \<lparr>a_cword = n, a_type = sc_type n, a_arg = arg_value (sc_type n) (value_text dev)\<rparr>) b
    = value_as_sent dev b"
proof -
  have g: "get_data_dev dev DATALOC_DATA x = copy w (d_data dev) x" for x
    by (simp add: get_data_dev_def assms(3) data_loc_DATA)
  show ?thesis
  proof (cases "datatype_dev dev")
    case DATATYPE_LL
    with value_sc_type [OF assms(1,2)] show ?thesis
      by (simp add: arg_ll_def arg_value_def value_text_def value_as_sent_def g jd_strtoll.read_show slot.put_read)
  next
    case DATATYPE_UINT
    then have "width_bits w \<le> 32"
      using store_width_bound [OF get_store_width [OF assms(3)]] by simp
    with DATATYPE_UINT value_sc_type [OF assms(1,2)] show ?thesis
      by (auto simp: arg_ll_def arg_value_def value_text_def value_as_sent_def g d_atoi.read_show d_strtoul.read_show copy_u32)
  next
    case DATATYPE_DOUBLE
    with assms(1,3) have w: "w = W64" by (simp add: has_value_def)
    have "copy W64 x y = x" for x y :: u64 by (intro bit_word_eqI) (simp add: bit_copy)
    with DATATYPE_DOUBLE w value_sc_type [OF assms(1,2)] show ?thesis
      by (simp add: arg_ll_def arg_value_def value_text_def value_as_sent_def g no_scale)
  qed
qed

section \<open>Running a line\<close>

text \<open>A line whose words are a command and the given pairs runs that command on them, on both sides.\<close>

lemma coll_run_pairs:
  assumes "parse_netcommand line = Some (cmd # map (\<lambda>(n, v). kv n v) ps)" "CHR 0x00 \<notin> set line"
    and "map_of coll_commands (map c_tolower cmd) = Some f"
  shows "coll_run_line h e line st = bindE (f h e (pairs_args ps) st) (\<lambda>(r, st1). Inr (Some st1))"
  using assms parse_args_pairs [of ps]
  by (simp add: coll_run_line_def c_string_id parse_command_def coll_parsed_command_lookup split_def)

lemma run_pairs:
  assumes "parse_netcommand line = Some (cmd # map (\<lambda>(n, v). kv n v) ps)" "CHR 0x00 \<notin> set line"
    and "map_of commands (map c_tolower cmd) = Some f"
  shows "run_line e c line st = bindE (f e c (pairs_args ps) st) (\<lambda>(r, st1). Inr (Some st1))"
  using assms parse_args_pairs [of ps]
  by (simp add: run_line_def c_string_id parse_command_def parsed_command_lookup split_def)

text \<open>Devices whose texts are C strings.\<close>

definition wire_safe :: "device \<Rightarrow> bool" where
  "wire_safe dev \<longleftrightarrow> wire_ok dev \<and> CHR 0x00 \<notin> set (d_uid dev) \<and>
     (case d_name dev of None \<Rightarrow> True | Some n \<Rightarrow> CHR 0x00 \<notin> set n) \<and>
     (case d_rrdname dev of None \<Rightarrow> True | Some r \<Rightarrow> CHR 0x00 \<notin> set r)"

lemma kv_nul: "CHR 0x00 \<notin> set v \<Longrightarrow> CHR 0x00 \<notin> set (kv n v)"
  by (simp add: kv_simp sc_name_safe)

lemma kvq_nul: "CHR 0x00 \<notin> set v \<Longrightarrow> CHR 0x00 \<notin> set (kvq n v)"
  by (simp add: kvq_def sc_name_safe)

lemma value_text_nul: "CHR 0x00 \<notin> set (value_text dev)"
  using d_atoi.show_safe jd_strtoll.show_safe fmt_f_plain(2) by (simp add: value_text_def Let_def split: datatype_t.split)

lemma fmt_b_nul: "CHR 0x00 \<notin> set (fmt_b w)"
  by (rule b_atoi.show_safe)

lemma lower_words: "map c_tolower ''reg'' = ''reg''" "map c_tolower ''upd'' = ''upd''" "map c_tolower ''chg'' = ''chg''"
  by code_simp+

section \<open>Registration\<close>

lemma register_nul: "wire_safe dev \<Longrightarrow> CHR 0x00 \<notin> set (gn_register_device dev)"
  by (auto simp: wire_safe_def gn_register_device_def kv_nul kvq_nul fmt_b_nul split: option.splits)

lemma u8_arg_pair: "ucast (arg_u \<lparr>a_cword = n, a_type = t, a_arg = arg_value PTINT (fmt_b w)\<rparr>) = w"
  using b_atoi.read_show [of w] by (simp add: arg_u_def arg_ll_def arg_value_def read_u8_def)

lemma register_args:
  assumes "d_name dev = Some name"
  defines "args \<equiv> pairs_args (register_pairs dev)"
  shows "str_arg args SC_UID = Some (d_uid dev)" "str_arg args SC_NAME = Some name"
    "str_arg args SC_RRDNAME = d_rrdname dev"
    "u8_arg args SC_DEVTYPE = d_type dev" "u8_arg args SC_PROTO = d_proto dev"
    "u8_arg args SC_SUBTYPE = d_subtype dev" "u8_arg args SC_SCALE = d_scale dev"
  using assms(1) u8_arg_pair
  by (cases "d_rrdname dev"; cases "d_scale dev = 0";
      simp add: args_def pairs_args_def register_pairs_def str_arg_def u8_arg_def args_of_def last_of_def
        arg_c_def arg_value_def)+

lemma registration_effect:
  assumes "cli st c = Some x" and "wire_safe dev" and "find_device_byuid st (d_uid dev) = None"
  shows "\<exists>st'. run_line e c (butlast (gn_register_device dev)) st = Inr (Some st') \<and>
    find_device_byuid st' (d_uid dev) = Some (dnext st) \<and>
    (let d = dmem st' (dnext st)
     in d_uid d = d_uid dev \<and> d_name d = d_name dev \<and> d_type d = d_type dev \<and> d_proto d = d_proto dev \<and>
        d_subtype d = d_subtype dev \<and> d_scale d = d_scale dev \<and> d_collector d = Some c \<and>
        d_rrdname d = Some (case d_rrdname dev of None \<Rightarrow> mk_rrdname (the (d_name dev)) | Some r \<Rightarrow> take 19 r)) \<and>
    (\<exists>y. cli st' c = Some y \<and> dnext st \<in> set (c_devices y))"
proof -
  from assms(2) have ok: "wire_ok dev" by (simp add: wire_safe_def)
  then obtain name where nm: "d_name dev = Some name" "d_subtype dev \<noteq> 0" "d_type dev \<noteq> 0" "d_proto dev \<noteq> 0"
    by (auto simp: wire_ok_def unregistered_def split: option.splits)
  note args = register_args [OF nm(1)]
  have "CHR 0x00 \<notin> set (butlast (gn_register_device dev))"
    using register_nul [OF assms(2)] in_set_butlastD by metis
  moreover have "map_of commands (map c_tolower ''reg'') = Some cmd_register"
    unfolding lower_words by (simp add: commands_def)
  ultimately have line: "run_line e c (butlast (gn_register_device dev)) st =
      bindE (cmd_register e c (pairs_args (register_pairs dev)) st) (\<lambda>(r, st1). Inr (Some st1))"
    using run_pairs [OF register_words [OF ok]] by blast
  obtain st' where st': "cmd_register e c (pairs_args (register_pairs dev)) st = Inr (0, st')"
    "find_device_byuid st' (d_uid dev) = Some (dnext st)"
    "dmem st' (dnext st) = (register_fields e c (pairs_args (register_pairs dev))
        (Some (case d_rrdname dev of None \<Rightarrow> mk_rrdname name | Some r \<Rightarrow> take 19 r)) (new_device (d_uid dev)))
       \<lparr>d_onq_client := True, d_onq_all := True, d_flags := SET_FLAG 0 DEVFLAG_NODATA\<rparr>"
    "\<exists>y. cli st' c = Some y \<and> dnext st \<in> set (c_devices y)"
    using cmd_register_new [OF assms(1) args(1) assms(3) args(2), of e] args nm by (auto split: option.splits)
  then show ?thesis
    by (simp add: line Let_def register_fields_def args new_device_def nm split: option.split)
qed

section \<open>Updates\<close>

lemma value_argdev:
  assumes "has_value dev"
  obtains n where "argdev_sc dev = Some n"
  using assms by (auto simp: has_value_def split: option.splits)

text \<open>The collector's copy of the device after it has read an update of the server's.\<close>

lemma update_read:
  assumes dev: "wire_safe dev" "has_value dev" and m: "gn_update_device dev GNC_UPD_RRDNAME = Inr m"
    and q: "find_device_byuid ks (d_uid dev) = Some q"
    and same: "d_type (dmem ks q) = d_type dev" "d_subtype (dmem ks q) = d_subtype dev"
  obtains v where "coll_run_line h e (butlast m) ks =
      bindE (coll_upd_cb h q (upd_dev q (\<lambda>d. (store_data_dev d DATALOC_DATA v)\<lparr>d_last_upd := ce_now e\<rparr>) ks))
        (\<lambda>st1. Inr (Some st1))"
    and "get_data_dev (store_data_dev (dmem ks q) DATALOC_DATA v) DATALOC_DATA b = value_as_sent dev b"
proof -
  obtain n where n: "argdev_sc dev = Some n" using dev(2) by (rule value_argdev)
  have ok: "wire_ok dev" using dev(1) by (simp add: wire_safe_def)
  note words = update_words [OF ok dev(2) n m]
  obtain w where w: "get_width dev = Some w" using dev(2) by (auto simp: has_value_def split: if_splits)
  let ?a = "\<lparr>a_cword = n, a_type = sc_type n, a_arg = arg_value (sc_type n) (value_text dev)\<rparr>"
  let ?args = "pairs_args (update_pairs n dev)"
  have nul: "CHR 0x00 \<notin> set (butlast m)"
  proof -
    have "CHR 0x00 \<notin> set m"
      using dev(1) unfolding update_text [OF ok dev(2) n m]
      by (auto simp: wire_safe_def kv_nul value_text_nul split: option.splits)
    then show ?thesis using in_set_butlastD by metis
  qed
  have upd: "map_of coll_commands (map c_tolower ''upd'') = Some coll_update"
    unfolding lower_words by (simp add: coll_commands_def)
  have n': "n \<noteq> SC_UID" "n \<noteq> SC_RRDNAME"
    using value_sc_type [OF dev(2) n] by (auto split: datatype_t.splits)
  have uid: "str_arg ?args SC_UID = Some (d_uid dev)"
    using n' by (cases "d_rrdname dev")
      (simp_all add: pairs_args_def update_pairs_def str_arg_def args_of_def last_of_def arg_c_def arg_value_def)
  have data: "coll_int_data n \<or> coll_dbl_data n \<or> coll_uint_data n \<or> coll_ll_data n"
    using value_sc_data [OF dev(2) n] .
  have skip: "coll_store_arg \<lparr>a_cword = SC_UID, a_type = t, a_arg = x\<rparr> d = Inr d"
     "coll_store_arg \<lparr>a_cword = SC_RRDNAME, a_type = t, a_arg = x\<rparr> d = Inr d" for t x d
    by (simp_all add: coll_store_arg_def coll_int_data_def coll_dbl_data_def coll_uint_data_def coll_ll_data_def)
  have store: "foldE coll_store_arg ?args d = Inr (store_data_dev d DATALOC_DATA (arg_ll ?a))" for d
    using data by (cases "d_rrdname dev")
      (simp_all add: pairs_args_def update_pairs_def skip, simp_all add: coll_store_arg_def)
  have "coll_run_line h e (butlast m) ks =
      bindE (coll_upd_cb h q (upd_dev q (\<lambda>d. (store_data_dev d DATALOC_DATA (arg_ll ?a))\<lparr>d_last_upd := ce_now e\<rparr>) ks))
        (\<lambda>st1. Inr (Some st1))"
    unfolding coll_run_pairs [OF words nul upd]
    by (simp add: coll_update_def with_device_def uid q store upd_dev_def bindE_def split: sum.split)
  moreover have "get_width (dmem ks q) = Some w" using w get_width_cong [OF same] by simp
  then have "get_data_dev (store_data_dev (dmem ks q) DATALOC_DATA (arg_ll ?a)) DATALOC_DATA b = value_as_sent dev b"
    using value_read_back [OF dev(2) n w] w by (simp add: get_store_same)
  ultimately show thesis by (rule that)
qed

section \<open>Change requests\<close>

text \<open>The pairs a request is passed on with: its values, printed.\<close>

definition any_data :: "sc \<Rightarrow> bool" where
  "any_data n \<longleftrightarrow> int_data n \<or> dbl_data n \<or> uint_data n \<or> ll_data n"

definition number_text_of :: "parg \<Rightarrow> string" where
  "number_text_of a =
     (if dbl_data (a_cword a) then fmt_f (arg_ll a)
      else if ll_data (a_cword a) then fmt_jd (arg_ll a) else fmt_d (arg_u a))"

definition change_pairs :: "parg list \<Rightarrow> (sc \<times> string) list" where
  "change_pairs args = map (\<lambda>a. (a_cword a, number_text_of a)) (filter (\<lambda>a. any_data (a_cword a)) args)"

text \<open>What the other side reads: a double is rounded to six decimals.\<close>

definition arg_as_sent :: "parg \<Rightarrow> parg" where
  "arg_as_sent a = (if dbl_data (a_cword a) then a\<lparr>a_arg := ANum (c_strtod (fmt_f (arg_ll a)))\<rparr> else a)"

lemma arg_as_sent_cword [simp]: "a_cword (arg_as_sent a) = a_cword a"
  by (simp add: arg_as_sent_def)

lemmas data_sets = int_data_def uint_data_def ll_data_def dbl_data_def

lemma data_disjoint:
  "int_data n \<Longrightarrow> \<not> ll_data n \<and> \<not> uint_data n \<and> \<not> dbl_data n"
  "uint_data n \<Longrightarrow> \<not> ll_data n \<and> \<not> int_data n \<and> \<not> dbl_data n"
  "ll_data n \<Longrightarrow> \<not> uint_data n \<and> \<not> int_data n \<and> \<not> dbl_data n"
  "dbl_data n \<Longrightarrow> \<not> uint_data n \<and> \<not> int_data n \<and> \<not> ll_data n"
  by (auto simp: data_sets)

lemma uid_no_data: "\<not> int_data SC_UID" "\<not> dbl_data SC_UID" "\<not> uint_data SC_UID" "\<not> ll_data SC_UID"
  by (simp_all add: data_sets)

lemma change_texts: "concat (map change_text args) = concat (map (\<lambda>(n, v). '' '' @ kv n v) (change_pairs args))"
proof -
  have c: "change_text a = (if any_data (a_cword a) then '' '' @ kv (a_cword a) (number_text_of a) else [])" for a
  proof -
    consider "int_data (a_cword a)" | "dbl_data (a_cword a)" | "uint_data (a_cword a)" | "ll_data (a_cword a)" | "\<not> any_data (a_cword a)"
      unfolding any_data_def by blast
    then show ?thesis
    proof cases
      case 1
      with data_disjoint(1) [OF 1] show ?thesis by (simp only: any_data_def change_text_def number_text_of_def Let_def if_True if_False simp_thms)
    next
      case 2
      with data_disjoint(4) [OF 2] show ?thesis by (simp only: any_data_def change_text_def number_text_of_def Let_def if_True if_False simp_thms)
    next
      case 3
      with data_disjoint(2) [OF 3] show ?thesis by (simp only: any_data_def change_text_def number_text_of_def Let_def if_True if_False simp_thms)
    next
      case 4
      with data_disjoint(3) [OF 4] show ?thesis by (simp only: any_data_def change_text_def number_text_of_def Let_def if_True if_False simp_thms)
    next
      case 5
      then show ?thesis by (simp add: any_data_def change_text_def)
    qed
  qed
  have "concat (map (\<lambda>a. if P a then f a else []) as) = concat (map f (filter P as))"
    for P and f :: "parg \<Rightarrow> string" and as
    by (induction as) auto
  note f = this
  have "map change_text args = map (\<lambda>a. if any_data (a_cword a) then '' '' @ kv (a_cword a) (number_text_of a) else []) args"
    by (rule map_cong [OF refl]) (rule c)
  then show ?thesis by (simp only: f) (simp add: change_pairs_def comp_def)
qed

lemma words_of_pairs:
  assumes "plain v" and "\<And>n v. (n, v) \<in> set ps \<Longrightarrow> plain v"
  shows "nc_words (kv n v @ concat (map (\<lambda>(n, v). '' '' @ kv n v) ps)) [] = map (\<lambda>(n, v). kv n v) ((n, v) # ps)"
  using assms
proof (induction ps arbitrary: n v)
  case Nil
  then show ?case by (simp add: nc_words_kv_end)
next
  case (Cons p ps)
  obtain n' v' where p: "p = (n', v')" by fastforce
  with Cons.prems(2) have "plain v'" by auto
  with Cons.IH [of v' n'] Cons.prems p show ?case
    by (auto simp: nc_words_kv)
qed

lemma number_text_plain: "plain (number_text_of a)" "CHR 0x00 \<notin> set (number_text_of a)"
  using fmt_plain fmt_f_plain d_atoi.show_safe jd_strtoll.show_safe by (simp_all add: number_text_of_def)

text \<open>A number that was read once is read again from its printed text, a whole number as the same.\<close>

lemma data_types:
  "int_data n \<Longrightarrow> sc_type n = PTINT" "uint_data n \<Longrightarrow> sc_type n = PTUINT" "ll_data n \<Longrightarrow> sc_type n = PTLL"
  "dbl_data n \<Longrightarrow> sc_type n = PTDOUBLE"
  by (auto simp: data_sets)

lemma reread:
  assumes "a \<in> set (parse_args ws)" "any_data (a_cword a)"
  shows "arg_ll \<lparr>a_cword = a_cword a, a_type = t, a_arg = arg_value (sc_type (a_cword a)) (number_text_of a)\<rparr> = arg_ll (arg_as_sent a)"
proof -
  from assms(1) obtain w where "parse_arg w = Some a"
    by (auto simp: parse_args_def map_filter_def)
  then obtain x where a: "a_arg a = arg_value (sc_type (a_cword a)) x"
    by (auto simp: parse_arg_def Let_def dest: arg_lookup_Some split: if_splits option.splits)
  from assms(2) consider "int_data (a_cword a)" | "uint_data (a_cword a)" | "ll_data (a_cword a)" | "dbl_data (a_cword a)"
    unfolding any_data_def by blast
  then show ?thesis
  proof cases
    case 1
    with a data_types(1) [OF 1] data_disjoint(1) [OF 1] show ?thesis
      by (simp add: arg_u_def arg_ll_def arg_value_def number_text_of_def arg_as_sent_def d_atoi.read_show)
  next
    case 2
    with a data_types(2) [OF 2] data_disjoint(2) [OF 2] show ?thesis
      by (simp add: arg_u_def arg_ll_def arg_value_def number_text_of_def arg_as_sent_def d_strtoul.read_show)
  next
    case 3
    with a data_types(3) [OF 3] data_disjoint(3) [OF 3] show ?thesis
      by (simp add: arg_ll_def arg_value_def number_text_of_def arg_as_sent_def jd_strtoll.read_show)
  next
    case 4
    with data_types(4) [OF 4] show ?thesis
      by (simp add: arg_ll_def arg_value_def number_text_of_def arg_as_sent_def)
  qed
qed

lemma change_arg_cong:
  assumes "a_cword a = a_cword b" "arg_ll a = arg_ll b"
  shows "coll_change_arg a d = coll_change_arg b d"
  by (simp only: coll_change_arg_def arg_i_def arg_u_def assms)

lemma change_args_pairs:
  assumes "set args \<subseteq> set (parse_args ws)" and "\<And>a. a \<in> set args \<Longrightarrow> a_cword a = SC_UID \<or> any_data (a_cword a)"
  shows "coll_change_args (pairs_args (change_pairs args)) d = coll_change_args (map arg_as_sent args) d"
  using assms
proof (induction args arbitrary: d)
  case Nil
  then show ?case by (simp add: change_pairs_def pairs_args_def)
next
  case (Cons a args)
  have IH: "coll_change_args (pairs_args (change_pairs args)) d = coll_change_args (map arg_as_sent args) d" for d
    using Cons by auto
  show ?case
  proof (cases "any_data (a_cword a)")
    case True
    then have "coll_change_arg \<lparr>a_cword = a_cword a, a_type = sc_type (a_cword a), a_arg = arg_value (sc_type (a_cword a)) (number_text_of a)\<rparr> d
        = coll_change_arg (arg_as_sent a) d"
      using reread [of a ws] Cons.prems(1) by (intro change_arg_cong) auto
    with True IH show ?thesis by (simp add: change_pairs_def pairs_args_def split: option.split)
  next
    case False
    with Cons.prems(2) have "a_cword a = SC_UID" by auto
    then have "coll_change_arg (arg_as_sent a) d = Some d" by (simp add: coll_change_arg_def)
    with False IH show ?thesis by (simp add: change_pairs_def pairs_args_def)
  qed
qed

lemma uid_as_sent: "str_arg (map arg_as_sent args) SC_UID = str_arg args SC_UID"
proof -
  have "map arg_as_sent (args_of args SC_UID) = args_of args SC_UID"
    by (rule map_idI) (auto simp: args_of_def arg_as_sent_def uid_no_data)
  then have "args_of (map arg_as_sent args) SC_UID = args_of args SC_UID"
    by (simp add: args_of_def filter_map comp_def)
  then show ?thesis by (simp add: str_arg_def)
qed

text \<open>The owner that reads the message the server passes on does what it would do with the request as sent.\<close>

lemma change_read:
  assumes u: "plain u" "CHR 0x00 \<notin> set u" "str_arg (parse_args ws) SC_UID = Some u"
    and data: "\<And>a. a \<in> set (parse_args ws) \<Longrightarrow> a_cword a = SC_UID \<or> any_data (a_cword a)"
  shows "coll_run_line h e (''chg '' @ kv SC_UID u @ concat (map change_text (parse_args ws))) ks =
    bindE (coll_change h e (map arg_as_sent (parse_args ws)) ks) (\<lambda>(r, ks1). Inr (Some ks1))"
proof -
  let ?args = "parse_args ws"
  let ?line = "''chg '' @ kv SC_UID u @ concat (map change_text ?args)"
  let ?ps = "(SC_UID, u) # change_pairs ?args"
  have pl: "plain v" "CHR 0x00 \<notin> set v" if "(n, v) \<in> set (change_pairs ?args)" for n v
    using that number_text_plain by (auto simp: change_pairs_def)
  have chg: "nc_words (''chg '' @ s) [] = ''chg'' # nc_words (dropWhile (\<lambda>x. x = CHR '' '') s) []" for s
    using nc_words_plain [of "''chg''" "CHR '' '' # s" "[]"] by (simp add: plain_def nc_words_space)
  have "parse_netcommand ?line = Some (''chg'' # map (\<lambda>(n, v). kv n v) ?ps)"
    using words_of_pairs [OF u(1) pl(1), where n = SC_UID]
    by (simp only: change_texts parse_netcommand_def chg dropWhile_kv) simp
  moreover have "CHR 0x00 \<notin> set ?line"
    using pl(2) u(2) by (auto simp: change_texts kv_nul)
  moreover have "map_of coll_commands (map c_tolower ''chg'') = Some coll_change"
    unfolding lower_words by (simp add: coll_commands_def)
  ultimately have line: "coll_run_line h e ?line ks = bindE (coll_change h e (pairs_args ?ps) ks) (\<lambda>(r, ks1). Inr (Some ks1))"
    by (rule coll_run_pairs)
  have "a_cword a \<noteq> SC_UID" if "a \<in> set (pairs_args (change_pairs ?args))" for a
    using that uid_no_data by (auto simp: pairs_args_def change_pairs_def any_data_def)
  then have "args_of (pairs_args (change_pairs ?args)) SC_UID = []"
    by (simp add: args_of_def filter_empty_conv)
  then have "str_arg (pairs_args ?ps) SC_UID = Some u"
    by (simp add: str_arg_def args_of_def pairs_args_def last_of_def arg_c_def arg_value_def)
  moreover have "coll_change_args (pairs_args ?ps) d = coll_change_args (map arg_as_sent ?args) d" for d
    using change_args_pairs [OF order_refl data, where d = d]
    by (simp add: pairs_args_def coll_change_arg_def)
  ultimately show ?thesis
    unfolding line by (simp add: coll_change_def with_device_def u(3) uid_as_sent)
qed

end
