(* ===== verification/Genconn.thy ===== *)
theory Genconn
  imports Collcmd
begin

text \<open>
  \<^verbatim>\<open>common/genconn.c\<close>: how a collector connects to the server, loses the connection, tries again
  and shuts down. The callbacks of libevent are the steps of a transition system over the buffers,
  the connections and the pending timers.
\<close>

section \<open>State\<close>

datatype cevent = CEVENT_DISCONNECTED | CEVENT_CONNECTED | CEVENT_SHUTDOWN

record conn =
  cn_bev :: "nat option"
  cn_connected :: bool
  cn_shutdown :: bool
  cn_kind :: string             \<comment> \<open>\<^verbatim>\<open>conntype[conn->type]\<close>\<close>
  cn_cname :: "string option"

record gencoll = collector +
  conns :: "nat \<Rightarrow> conn"
  gnhastd_conn :: nat
  need_rereg :: bool
  collector_instance :: int
  retry_timers :: "nat list"    \<comment> \<open>pending one-shot timers that connect again\<close>
  health_timers :: "nat list"   \<comment> \<open>persistent timers of the self-health check\<close>
  stop_timers :: nat            \<comment> \<open>pending shutdown timers\<close>
  loop_exit :: bool

record 's ghooks = "'s hooks" +
  genconn_connect_cb :: "cevent \<Rightarrow> nat \<Rightarrow> 's \<Rightarrow> 's res"

definition upd_conn :: "nat \<Rightarrow> (conn \<Rightarrow> conn) \<Rightarrow> 'a gencoll_scheme \<Rightarrow> 'a gencoll_scheme" where
  "upd_conn c f st = st\<lparr>conns := (conns st)(c := f (conns st c))\<rparr>"

text \<open>\<^verbatim>\<open>gnhastd_conn->bev\<close>.\<close>

definition gnhastd_out :: "'a gencoll_scheme \<Rightarrow> nat option" where
  "gnhastd_out st = cn_bev (conns st (gnhastd_conn st))"

section \<open>Callbacks\<close>

definition generic_collector_health_cb ::
    "'a gencoll_scheme ghooks \<Rightarrow> nat \<Rightarrow> 'a gencoll_scheme \<Rightarrow> 'a gencoll_scheme res" where
  "generic_collector_health_cb h c st =
     bindE (collector_is_ok h st) (\<lambda>(ok, st1).
       if ok then write_bev (cn_bev (conns st1 c)) gn_imalive st1 else Inr st1)"

text \<open>
  The new buffer is put in the connection and in \<^verbatim>\<open>gnhastd_bev\<close>. After a first loss of a
  connection the collector introduces itself again.
\<close>

definition new_bev :: "nat \<Rightarrow> 'a gencoll_scheme \<Rightarrow> 'a gencoll_scheme" where
  "new_bev c st =
     (let k = bufnext st
      in upd_conn c (\<lambda>x. x\<lparr>cn_bev := Some k\<rparr>)
           (st\<lparr>bufs := (bufs st)(k \<mapsto> []), bufnext := k + 1, gnhastd_bev := Some k\<rparr>))"

definition generic_connect_server_cb :: "nat \<Rightarrow> 'a gencoll_scheme \<Rightarrow> 'a gencoll_scheme res" where
  "generic_connect_server_cb c st =
     (let st1 = new_bev c st; b = cn_bev (conns st1 (gnhastd_conn st1))
      in if need_rereg st1
         then bindE (write_bev b (gn_client_name (cn_cname (conns st1 c)) (collector_instance st1)) st1)
                (\<lambda>st2. write_bev b gn_get_apiv st2)
         else Inr st1)"

definition event_connected ::
    "'a gencoll_scheme ghooks \<Rightarrow> nat \<Rightarrow> 'a gencoll_scheme \<Rightarrow> 'a gencoll_scheme res" where
  "event_connected h c st =
     bindE (genconn_connect_cb h CEVENT_CONNECTED c (upd_conn c (\<lambda>x. x\<lparr>cn_connected := True\<rparr>) st)) (\<lambda>st1.
       Inr (if cn_kind (conns st1 c) = ''gnhastd''
            then st1\<lparr>health_timers := health_timers st1 @ [c]\<rparr> else st1))"

text \<open>\<open>dnserr\<close>: an error event for which the name of the server could not be resolved.\<close>

definition event_lost ::
    "'a gencoll_scheme ghooks \<Rightarrow> bool \<Rightarrow> nat \<Rightarrow> nat \<Rightarrow> 'a gencoll_scheme \<Rightarrow> 'a gencoll_scheme res" where
  "event_lost h dnserr k c st =
     (if dnserr then Inl FatalExit
      else
        let st1 = upd_conn c (\<lambda>x. x\<lparr>cn_connected := False\<rparr>) (st\<lparr>bufs := (bufs st)(k := None)\<rparr>)
        in bindE (genconn_connect_cb h CEVENT_DISCONNECTED c st1) (\<lambda>st2.
             if \<not> cn_shutdown (conns st2 c)
             then Inr (st2\<lparr>need_rereg := True, retry_timers := retry_timers st2 @ [c]\<rparr>)
             else bindE (genconn_connect_cb h CEVENT_SHUTDOWN c st2) (\<lambda>st3. Inr (st3\<lparr>loop_exit := True\<rparr>))))"

datatype conn_event = Ev_connected | Ev_lost bool | Ev_other

definition generic_connect_event_cb ::
    "'a gencoll_scheme ghooks \<Rightarrow> conn_event \<Rightarrow> nat \<Rightarrow> nat \<Rightarrow> 'a gencoll_scheme \<Rightarrow> 'a gencoll_scheme res" where
  "generic_connect_event_cb h what k c st =
     (case what of
        Ev_connected \<Rightarrow> event_connected h c st
      | Ev_lost dnserr \<Rightarrow> event_lost h dnserr k c st
      | Ev_other \<Rightarrow> Inr st)"

definition generic_cb_shutdown :: "'a gencoll_scheme \<Rightarrow> 'a gencoll_scheme" where
  "generic_cb_shutdown st = st\<lparr>loop_exit := True\<rparr>"

definition generic_cb_sigterm :: "'a gencoll_scheme \<Rightarrow> 'a gencoll_scheme res" where
  "generic_cb_sigterm st =
     (let g = gnhastd_conn st; st1 = upd_conn g (\<lambda>x. x\<lparr>cn_shutdown := True\<rparr>) st
      in bindE (if cn_connected (conns st1 g) then write_bev (cn_bev (conns st1 g)) gn_disconnect st1 else Inr st1)
           (\<lambda>st2. Inr (st2\<lparr>stop_timers := stop_timers st2 + 1\<rparr>)))"

section \<open>Steps\<close>

text \<open>What libevent may call: events of live buffers of a connection, and pending timers.\<close>

datatype gevent =
    ConnEvent conn_event nat nat   \<comment> \<open>the event, the buffer, its connection\<close>
  | ReadEvent nat "string list"    \<comment> \<open>complete lines have come in on a buffer\<close>
  | RetryTimer nat
  | HealthTick nat
  | Sigterm
  | StopTimer

fun gen_enabled :: "gevent \<Rightarrow> 'a gencoll_scheme \<Rightarrow> bool" where
  "gen_enabled (ConnEvent w k c) st = (bufs st k \<noteq> None \<and> cn_bev (conns st c) = Some k)"
| "gen_enabled (ReadEvent k ls) st = (bufs st k \<noteq> None)"
| "gen_enabled (RetryTimer c) st = (c \<in> set (retry_timers st))"
| "gen_enabled (HealthTick c) st = (c \<in> set (health_timers st))"
| "gen_enabled Sigterm st = True"
| "gen_enabled StopTimer st = (0 < stop_timers st)"

fun gen_handle ::
    "'a gencoll_scheme ghooks \<Rightarrow> cenv \<Rightarrow> gevent \<Rightarrow> 'a gencoll_scheme \<Rightarrow> 'a gencoll_scheme res" where
  "gen_handle h e (ConnEvent w k c) st = generic_connect_event_cb h w k c st"
| "gen_handle h e (ReadEvent k ls) st = bindE (gnhastd_read_cb (hooks.truncate h) e ls st) (\<lambda>(rest, st1). Inr st1)"
| "gen_handle h e (RetryTimer c) st = generic_connect_server_cb c (st\<lparr>retry_timers := remove1 c (retry_timers st)\<rparr>)"
| "gen_handle h e (HealthTick c) st = generic_collector_health_cb h c st"
| "gen_handle h e Sigterm st = generic_cb_sigterm st"
| "gen_handle h e StopTimer st = Inr (generic_cb_shutdown (st\<lparr>stop_timers := stop_timers st - 1\<rparr>))"

end
