(* ===== verification/Collinv.thy ===== *)
theory Collinv
  imports Genconn
begin

text \<open>
  What the handlers of a collector keep, whatever the collector proper does in its callbacks as
  long as that keeps it too: the well-formedness of the tables, and the state of the connections.
\<close>

text \<open>A relation between states that each of two steps keeps.\<close>

lemma bind_kept:
  assumes "bindE r g = Inr t" "\<And>u. r = Inr u \<Longrightarrow> R s u" "\<And>u. g u = Inr t \<Longrightarrow> R u t"
    and "\<And>a b c. R a b \<Longrightarrow> R b c \<Longrightarrow> R a c"
  shows "R s t"
  using assms by (auto simp: bindE_Inr_conv)

section \<open>The contract\<close>

text \<open>
  A relation between the states before and after that the elementary changes satisfy. \<open>hk\<close> are the
  collector's own callbacks.
\<close>

locale coll_kept =
  fixes R :: "'a collector_scheme \<Rightarrow> 'a collector_scheme \<Rightarrow> bool"
    and hk :: "'a collector_scheme hooks"
  assumes R_refl: "R st st"
    and R_trans: "R s1 s2 \<Longrightarrow> R s2 s3 \<Longrightarrow> R s1 s3"
    and dev: "(\<And>d. d = dmem st p \<Longrightarrow> d_uid (f d) = d_uid d \<and> d_onq_all (f d) = d_onq_all d) \<Longrightarrow> R st (upd_dev p f st)"
    and new_dev: "find_device_byuid st (d_uid d) = None \<Longrightarrow> \<not> d_onq_all d \<Longrightarrow>
      R st (insert_device (dnext st) (snd (alloc_dev d st)))"
    and new_grp: "find_devgroup_byuid st u = None \<Longrightarrow> R st (snd (new_devgroup u st))"
    and grp_name: "R st (upd_grp g (\<lambda>r. r\<lparr>g_name := nm\<rparr>) st)"
    and grp_dev: "find_device_byuid st u = Some p \<Longrightarrow> R st (add_dev_group p g st)"
    and grp_grp: "find_devgroup_byuid st u = Some k \<Longrightarrow> R st (add_group_group k g st)"
    and freed: "R st (st\<lparr>rrd_freed := x\<rparr>)"
    and conf: "R st (st\<lparr>coll_conf := cf, coll_conf_file := cff\<rparr>)"
    and bev: "write_bev b m st = Inr st' \<Longrightarrow> R st st'"
    and is_ok: "collector_is_ok hk st = Inr (ok, st') \<Longrightarrow> R st st'"
    and cb: "coll_upd_cb hk p st = Inr st' \<Longrightarrow> R st st'" "coll_register_cb hk p st = Inr st' \<Longrightarrow> R st st'"
      "coll_chg_cb hk p st = Inr st' \<Longrightarrow> R st st'"
    and cmds: "coll_endldevs hk args st = Inr (r, st') \<Longrightarrow> R st st'" "coll_endlgrps hk args st = Inr (r, st') \<Longrightarrow> R st st'"
      "coll_imalive hk args st = Inr (r, st') \<Longrightarrow> R st st'" "coll_die hk args st = Inr (r, st') \<Longrightarrow> R st st'"
      "coll_alarm hk args st = Inr (r, st') \<Longrightarrow> R st st'"
begin

lemma coll_device_Inr:
  assumes "with_device args st f = Inr (r, st')"
  shows "st' = st \<or> (\<exists>p. f p = Inr (r, st'))"
  using assms by (auto simp: with_device_def split: option.splits)

lemma register_kept:
  assumes "coll_register hk e args st = Inr (r, st')"
  shows "R st st'"
proof -
  have f: "d_uid (coll_register_fields e args n x d) = d_uid d \<and> d_onq_all (coll_register_fields e args n x d) = d_onq_all d"
    for n x d by (simp add: coll_register_fields_def)
  consider "st' = st"
    | uid n x where "find_device_byuid st uid = None"
        "coll_register_cb hk (dnext st) (insert_device (dnext st) (snd (alloc_dev (coll_register_fields e args n x (new_device uid)) st))) = Inr st'"
    | p n x y where "coll_register_cb hk p ((upd_dev p (coll_register_fields e args n x) st)\<lparr>rrd_freed := y\<rparr>) = Inr st'"
    using assms by (auto simp: coll_register_def Let_def alloc_dev_def bindE_Inr_conv split: option.splits if_splits)
  then show ?thesis
  proof cases
    case 1
    then show ?thesis by (simp add: R_refl)
  next
    case 2
    let ?d = "coll_register_fields e args n x (new_device uid)"
    have "d_uid ?d = uid" "\<not> d_onq_all ?d" by (simp_all add: coll_register_fields_def new_device_def)
    then have "R st (insert_device (dnext st) (snd (alloc_dev ?d st)))" using 2(1) by (intro new_dev) auto
    with cb(2) [OF 2(2)] show ?thesis by (blast intro: R_trans)
  next
    case 3
    have "R st (upd_dev p (coll_register_fields e args n x) st)" by (rule dev) (simp add: f)
    with freed cb(2) [OF 3] show ?thesis by (blast intro: R_trans)
  qed
qed

lemma fold_kept:
  assumes "\<And>x t. x \<in> set xs \<Longrightarrow> R t (f x t)"
  shows "R st (fold f xs st)"
  using assms by (induction xs arbitrary: st) (auto intro: R_refl R_trans)

lemma add_groups_kept: "R st (coll_add_groups g us st)"
  unfolding coll_add_groups_def by (rule fold_kept) (auto intro: R_refl grp_grp split: option.split)

lemma add_devices_kept: "R st (coll_add_devices g us st)"
  unfolding coll_add_devices_def by (rule fold_kept) (auto intro: R_refl grp_dev split: option.split)

lemma fill_group_kept: "R st (coll_fill_group g args st)"
  unfolding coll_fill_group_def Let_def
  by (auto split: option.split intro: grp_name R_trans [OF grp_name add_devices_kept]
      R_trans [OF grp_name add_groups_kept] R_trans [OF R_trans [OF grp_name add_groups_kept] add_devices_kept])

lemma register_group_kept:
  assumes "coll_register_group hk e args st = Inr (r, st')"
  shows "R st st'"
proof -
  consider "st' = st"
    | uid where "str_arg args SC_UID = Some uid" "find_devgroup_byuid st uid = None"
    | uid g where "str_arg args SC_UID = Some uid" "find_devgroup_byuid st uid = Some g"
    using assms by (cases "str_arg args SC_UID"; cases "find_devgroup_byuid st (the (str_arg args SC_UID))")
      (auto simp: coll_register_group_def)
  then show ?thesis
  proof cases
    case (2 uid)
    with assms have "st' = st \<or> st' = coll_fill_group (fst (new_devgroup uid st)) args (snd (new_devgroup uid st))"
      by (auto simp: coll_register_group_def split_def split: if_splits)
    with R_trans [OF new_grp [OF 2(2)] fill_group_kept] show ?thesis by (auto simp: R_refl)
  next
    case (3 uid g)
    with assms show ?thesis by (auto simp: coll_register_group_def fill_group_kept)
  qed (simp add: R_refl)
qed

lemma store_args_view:
  "foldE coll_store_arg args d = Inr d' \<Longrightarrow> d_uid d' = d_uid d \<and> d_onq_all d' = d_onq_all d"
proof (induction args arbitrary: d)
  case (Cons a args)
  then obtain d1 where d1: "coll_store_arg a d = Inr d1" "foldE coll_store_arg args d1 = Inr d'"
    by (auto simp: bindE_Inr_conv)
  have "d_uid d1 = d_uid d \<and> d_onq_all d1 = d_onq_all d"
    using d1(1) by (auto simp: coll_store_arg_def coll_set_hargs_def coll_set_tags_def Let_def bindE_Inr_conv
        split: if_splits)
  with Cons.IH [OF d1(2)] show ?case by simp
qed simp

lemma update_kept:
  assumes "coll_update hk e args st = Inr (r, st')"
  shows "R st st'"
  using coll_device_Inr [OF assms [unfolded coll_update_def]]
proof
  assume "\<exists>p. bindE (foldE coll_store_arg args (dmem st p)) (\<lambda>d. bindE (coll_upd_cb hk p
      (upd_dev p (\<lambda>_. d\<lparr>d_last_upd := ce_now e\<rparr>) st)) (\<lambda>st1. Inr (0, st1))) = Inr (r, st')"
  then obtain p d where d: "foldE coll_store_arg args (dmem st p) = Inr d"
      "coll_upd_cb hk p (upd_dev p (\<lambda>_. d\<lparr>d_last_upd := ce_now e\<rparr>) st) = Inr st'"
    by (auto simp: bindE_Inr_conv)
  have "R st (upd_dev p (\<lambda>_. d\<lparr>d_last_upd := ce_now e\<rparr>) st)"
    by (rule dev) (use store_args_view [OF d(1)] in simp)
  with cb(1) [OF d(2)] show ?thesis by (blast intro: R_trans)
qed (simp add: R_refl)

lemma change_arg_view: "coll_change_arg a d = Some d1 \<Longrightarrow> d_uid d1 = d_uid d \<and> d_onq_all d1 = d_onq_all d"
  unfolding coll_change_arg_def by (auto split: sc.splits if_splits)

lemma change_args_view:
  "d_uid (snd (coll_change_args args d)) = d_uid d \<and> d_onq_all (snd (coll_change_args args d)) = d_onq_all d"
  by (induction args d rule: coll_change_args.induct) (auto split: option.split dest!: change_arg_view)

lemma change_kept:
  assumes "coll_change hk e args st = Inr (r, st')"
  shows "R st st'"
proof -
  have step: "R st (upd_dev p (\<lambda>_. snd (coll_change_args args (dmem st p))) st)" for p
    by (rule dev) (use change_args_view in simp)
  from coll_device_Inr [OF assms [unfolded coll_change_def]] show ?thesis
    by (auto simp: split_def Let_def bindE_Inr_conv split: if_splits intro: R_refl step R_trans [OF step cb(3)])
qed

lemma modify_kept:
  assumes "coll_modify hk e args st = Inr (r, st')"
  shows "R st st'"
proof -
  have arg: "R t t'" if "coll_modify_arg p a t = Inr t'" for p a and t t' :: "'a collector_scheme"
    using that by (auto simp: coll_modify_arg_def split: sc.splits if_splits intro: R_refl dev)
  have "R st t'" if "foldE (coll_modify_arg p) args st = Inr t'" for p t'
    using that by (rule foldE_inv) (auto intro: R_refl R_trans arg)
  then show ?thesis
    using coll_device_Inr [OF assms [unfolded coll_modify_def]]
    by (auto simp: bindE_Inr_conv intro: R_refl R_trans [OF _ conf])
qed

lemma ping_kept: "coll_ping hk e args st = Inr (r, st') \<Longrightarrow> R st st'"
  by (auto simp: coll_ping_def bindE_Inr_conv split: if_splits intro: is_ok R_trans [OF is_ok bev])

lemma apiv_kept: "coll_apiv hk e args st = Inr (r, st') \<Longrightarrow> R st st'"
  by (auto simp: coll_apiv_def split: if_splits intro: R_refl)

lemma command_kept:
  assumes "coll_parsed_command w hk e args st = Inr (r, st')"
  shows "R st st'"
proof -
  have tab: "R st st'" if "(n, f) \<in> set coll_commands" "f hk e args st = Inr (r, st')" for n f
    using that by (auto simp: coll_commands_def intro: change_kept register_kept register_group_kept update_kept
        modify_kept ping_kept apiv_kept cmds)
  show ?thesis
  proof (cases "map_of (coll_commands :: (string \<times> 'a collector_scheme coll_handler) list) (map c_tolower w)")
    case None
    with assms show ?thesis by (simp add: coll_parsed_command_lookup R_refl)
  next
    case (Some f)
    with assms tab [OF map_of_SomeD [OF Some]] show ?thesis by (simp add: coll_parsed_command_lookup)
  qed
qed

lemma line_kept: "coll_run_line hk e line st = Inr (Some st') \<Longrightarrow> R st st'"
  by (auto simp: coll_run_line_def bindE_Inr_conv split: option.splits intro: command_kept)

lemma read_kept: "gnhastd_read_cb hk e ls st = Inr (rest, st') \<Longrightarrow> R st st'"
proof (induction ls arbitrary: st)
  case (Cons l ls)
  then show ?case
    by (auto simp: bindE_Inr_conv split: if_splits option.splits intro: R_refl R_trans [OF line_kept])
qed (simp add: R_refl)

end

section \<open>The tables\<close>

lemma reg_ok_same: "reg_view s = reg_view t \<Longrightarrow> reg_ok s \<longrightarrow> reg_ok t"
  using reg_view_ok by blast

lemma reg_ok_new_dev:
  assumes "reg_ok st" "find_device_byuid st (d_uid d) = None" "\<not> d_onq_all d"
  shows "reg_ok (insert_device (dnext st) (snd (alloc_dev d st)))"
proof -
  let ?st1 = "snd (alloc_dev d st)"
  have lt: "p < dnext st" if "p \<in> set (alldevs st)" for p using assms(1) that by (auto simp: reg_ok_def)
  then have fr: "dnext st \<notin> set (alldevs st)" by blast
  have "keyed_ok (dev_key ?st1) (find_device_byuid ?st1) (alldevs ?st1)"
    using assms(1) fr by (simp add: reg_ok_def keyed_ok_def dev_key_def find_eta alloc_dev_def)
  then have "reg_ok ?st1"
    using assms(1) lt by (auto simp: reg_ok_def alloc_dev_def grp_ok_def grp_key_def find_eta keyed_ok_def less_Suc_eq)
  then show ?thesis
    by (rule reg_ok_insert) (use assms fr in \<open>simp_all add: alloc_dev_def dev_fresh_def find_eta\<close>)
qed

interpretation tables: coll_kept "\<lambda>s t. reg_ok s \<longrightarrow> reg_ok t" weak_stubs
proof (unfold_locales, goal_cases)
  case (3 st p f)
  then show ?case using reg_ok_upd_dev by blast
next
  case (4 st d)
  then show ?case using reg_ok_new_dev by blast
next
  case (5 st u)
  then show ?case using reg_ok_new_devgroup by blast
next
  case (6 st g nm)
  show ?case using reg_ok_upd_grp_sub [of st "\<lambda>r. r\<lparr>g_name := nm\<rparr>" g] by simp
next
  case (7 st u p g)
  then show ?case using reg_ok_add_dev_group reg_ok_find by blast
next
  case (8 st u k g)
  then show ?case using reg_ok_add_group_group reg_ok_find_grp by blast
next
  case (9 st x)
  show ?case by (rule reg_ok_same) (simp add: reg_view_def)
next
  case (10 st cf cff)
  show ?case by (rule reg_ok_same) (simp add: reg_view_def)
next
  case (11 b m st st')
  then show ?case by (intro reg_ok_same) (auto simp: write_bev_def reg_view_def split: option.splits)
qed (auto simp: weak_stubs_def)

section \<open>The connection\<close>

text \<open>What the handlers do not change: which buffers are live, the connections and the timers.\<close>

definition gview :: "'a gencoll_scheme \<Rightarrow>
    (nat \<Rightarrow> bool) \<times> nat \<times> nat option \<times> (nat \<Rightarrow> conn) \<times> nat \<times> bool \<times> int \<times> nat list \<times> nat list \<times> nat \<times> bool" where
  "gview st = (\<lambda>k. bufs st k \<noteq> None, bufnext st, gnhastd_bev st, conns st, gnhastd_conn st, need_rereg st,
     collector_instance st, retry_timers st, health_timers st, stop_timers st, loop_exit st)"

definition live :: "nat option \<Rightarrow> 'a gencoll_scheme \<Rightarrow> bool" where
  "live b st = (case b of None \<Rightarrow> False | Some k \<Rightarrow> bufs st k \<noteq> None)"

text \<open>
  The invariant of the connection to the server: only its own buffer is live; while there is none,
  one timer is pending that connects again, unless the event loop is about to end.
\<close>

definition gen_at :: "nat \<Rightarrow> 'a gencoll_scheme \<Rightarrow> bool" where
  "gen_at g st \<longleftrightarrow>
     gnhastd_conn st = g \<and> (\<forall>c. c \<noteq> g \<longrightarrow> cn_bev (conns st c) = None) \<and>
     (\<forall>k. bufs st k \<noteq> None \<longrightarrow> k < bufnext st \<and> cn_bev (conns st g) = Some k) \<and>
     (cn_connected (conns st g) \<longrightarrow> live (cn_bev (conns st g)) st) \<and>
     (live (cn_bev (conns st g)) st \<longrightarrow> retry_timers st = []) \<and>
     (\<not> live (cn_bev (conns st g)) st \<and> \<not> loop_exit st \<longrightarrow> retry_timers st = [g]) \<and>
     set (retry_timers st) \<subseteq> {g} \<and> set (health_timers st) \<subseteq> {g} \<and> gnhastd_bev st = cn_bev (conns st g)"

definition gen_ok :: "'a gencoll_scheme \<Rightarrow> bool" where
  "gen_ok st \<longleftrightarrow> gen_at (gnhastd_conn st) st"

lemma upd_conn_simps [simp]:
  "bufs (upd_conn c f st) = bufs st" "bufnext (upd_conn c f st) = bufnext st"
  "gnhastd_bev (upd_conn c f st) = gnhastd_bev st" "gnhastd_conn (upd_conn c f st) = gnhastd_conn st"
  "retry_timers (upd_conn c f st) = retry_timers st" "health_timers (upd_conn c f st) = health_timers st"
  "loop_exit (upd_conn c f st) = loop_exit st" "stop_timers (upd_conn c f st) = stop_timers st"
  "conns (upd_conn c f st) = (conns st)(c := f (conns st c))"
  by (simp_all add: upd_conn_def)

lemma live_frame [simp]:
  "live b (upd_conn c f st) = live b st" "live b (st\<lparr>retry_timers := rt\<rparr>) = live b st"
  "live b (st\<lparr>health_timers := ht\<rparr>) = live b st" "live b (st\<lparr>stop_timers := n\<rparr>) = live b st"
  "live b (st\<lparr>loop_exit := x\<rparr>) = live b st" "live b (st\<lparr>need_rereg := x\<rparr>) = live b st"
  by (simp_all add: live_def split: option.split)

lemma live_Some: "live (Some k) st \<longleftrightarrow> bufs st k \<noteq> None"
  by (simp add: live_def)

lemma not_live: "(\<And>k. bufs st k = None) \<Longrightarrow> \<not> live b st"
  by (simp add: live_def split: option.split)

lemma live_view: "gview s = gview t \<Longrightarrow> live b s = live b t"
  by (auto simp: gview_def live_def fun_eq_iff split: option.split)

lemma gview_ok: "gview s = gview t \<Longrightarrow> gen_ok s \<longleftrightarrow> gen_ok t"
  unfolding gen_ok_def gen_at_def using live_view [of s t] by (simp add: gview_def fun_eq_iff)

lemma gen_at_bufs: "gen_at g st \<Longrightarrow> bufs st j \<noteq> None \<Longrightarrow> cn_bev (conns st g) = Some j"
  unfolding gen_at_def by blast

lemma gen_at_D:
  assumes "gen_at g st"
  shows "c \<noteq> g \<Longrightarrow> cn_bev (conns st c) = None" "live (cn_bev (conns st g)) st \<Longrightarrow> retry_timers st = []"
    "cn_connected (conns st g) \<Longrightarrow> live (cn_bev (conns st g)) st"
    "\<not> live (cn_bev (conns st g)) st \<Longrightarrow> \<not> loop_exit st \<Longrightarrow> retry_timers st = [g]"
    "set (health_timers st) \<subseteq> {g}" "gnhastd_bev st = cn_bev (conns st g)" "gnhastd_conn st = g"
    "set (retry_timers st) \<subseteq> {g}"
  using assms unfolding gen_at_def by blast+

lemma bev_conn: "gen_ok st \<Longrightarrow> cn_bev (conns st c) = Some k \<Longrightarrow> c = gnhastd_conn st"
  unfolding gen_ok_def gen_at_def by (metis option.distinct(1))

lemma gen_ok_stop [simp]: "gen_ok (st\<lparr>stop_timers := n\<rparr>) \<longleftrightarrow> gen_ok st"
  by (simp add: gen_ok_def gen_at_def)

lemma gview_D:
  assumes "gview s = gview t"
  shows "conns s = conns t" "retry_timers s = retry_timers t" "health_timers s = health_timers t"
    "gnhastd_bev s = gnhastd_bev t" "gnhastd_conn s = gnhastd_conn t" "bufs s j = None \<longleftrightarrow> bufs t j = None"
proof -
  have "(\<lambda>k. bufs s k \<noteq> None) = (\<lambda>k. bufs t k \<noteq> None)" using assms by (simp only: gview_def prod.inject)
  from fun_cong [OF this, of j] show "bufs s j = None \<longleftrightarrow> bufs t j = None" by blast
qed (use assms in \<open>simp_all add: gview_def\<close>)

lemma write_bev_view: "write_bev b m st = Inr st' \<Longrightarrow> gview st = gview st'"
  by (auto simp: write_bev_def gview_def fun_eq_iff split: option.splits if_splits)

lemma write_bev_live: "live b st \<longleftrightarrow> (\<exists>st'. write_bev b m st = Inr st')"
  by (auto simp: write_bev_def live_def split: option.splits)

text \<open>Connecting always succeeds: the buffer it writes to is the one it has just made.\<close>

lemma connect_total:
  assumes "c = gnhastd_conn st"
  obtains st' where "generic_connect_server_cb c st = Inr st'" "gview st' = gview (new_bev c st)"
proof -
  let ?st1 = "new_bev c st" and ?b = "cn_bev (conns (new_bev c st) (gnhastd_conn (new_bev c st)))"
  have live: "live ?b ?st1" using assms by (simp add: new_bev_def upd_conn_def Let_def live_def)
  have w: "\<exists>t'. write_bev ?b m t = Inr t' \<and> gview t' = gview t" if "gview t = gview ?st1" for m t
    using that live write_bev_live [of ?b t m] write_bev_view [of ?b m t] live_view [OF that, of ?b] by metis
  obtain st2 where st2: "write_bev ?b (gn_client_name (cn_cname (conns ?st1 c)) (collector_instance ?st1)) ?st1 = Inr st2"
      "gview st2 = gview ?st1"
    using w [OF refl] by blast
  obtain st3 where st3: "write_bev ?b gn_get_apiv st2 = Inr st3" "gview st3 = gview ?st1"
    using w [OF st2(2)] st2(2) by metis
  show thesis
  proof (cases "need_rereg ?st1")
    case True
    with st2 st3 show ?thesis by (intro that [of st3]) (simp_all add: generic_connect_server_cb_def Let_def)
  next
    case False
    then show ?thesis by (intro that [of ?st1]) (simp_all add: generic_connect_server_cb_def Let_def)
  qed
qed

lemma new_bev_ok:
  assumes "\<And>k. bufs st k = None" "c = gnhastd_conn st" "\<And>c'. c' \<noteq> c \<Longrightarrow> cn_bev (conns st c') = None"
    and "retry_timers st = []" "set (health_timers st) \<subseteq> {c}"
  shows "gen_ok (new_bev c st)"
  using assms by (simp add: gen_ok_def gen_at_def Let_def new_bev_def live_Some)

text \<open>A state before the first connection, and the reachable ones.\<close>

definition gen_start :: "'a gencoll_scheme \<Rightarrow> bool" where
  "gen_start st \<longleftrightarrow> (\<forall>k. bufs st k = None) \<and> (\<forall>c. cn_bev (conns st c) = None) \<and> retry_timers st = [] \<and>
     health_timers st = [] \<and> stop_timers st = 0 \<and> \<not> loop_exit st"

inductive gen_reach :: "'a gencoll_scheme ghooks \<Rightarrow> 'a gencoll_scheme \<Rightarrow> bool" for h where
  connect: "gen_start st \<Longrightarrow> generic_connect_server_cb (gnhastd_conn st) st = Inr st' \<Longrightarrow> gen_reach h st'"
| event: "gen_reach h st \<Longrightarrow> \<not> loop_exit st \<Longrightarrow> gen_enabled ev st \<Longrightarrow> gen_handle h e ev st = Inr st' \<Longrightarrow>
    gen_reach h st'"

text \<open>The clients of this interface: callbacks that leave the connection alone.\<close>

locale conn_hooks = coll_kept "\<lambda>s t :: 'a gencoll_scheme. gview s = gview t" hk
  for hk :: "'a gencoll_scheme hooks" +
  fixes h :: "'a gencoll_scheme ghooks"
  assumes trunc: "hooks.truncate h = hk"
    and connect_cb: "genconn_connect_cb h ev c st = Inr st' \<Longrightarrow> gview st = gview st'"
begin

lemma hk_is_ok: "collector_is_ok h = collector_is_ok hk"
  using trunc by (cases h) (auto simp: hooks.defs)

lemma read_ok: "gen_ok st \<Longrightarrow> gnhastd_read_cb hk e ls st = Inr (rest, st') \<Longrightarrow> gen_ok st'"
  using read_kept gview_ok by blast

lemma health_ok:
  assumes "gen_ok st" "generic_collector_health_cb h c st = Inr st'"
  shows "gen_ok st'"
proof -
  obtain ok st1 where st1: "collector_is_ok hk st = Inr (ok, st1)"
    and st': "if ok then write_bev (cn_bev (conns st1 c)) gn_imalive st1 = Inr st' else st' = st1"
    using assms(2) by (auto simp: generic_collector_health_cb_def bindE_Inr_conv hk_is_ok split: if_splits)
  have "gview st1 = gview st'" using st' write_bev_view by (cases ok) auto
  with is_ok [OF st1] assms(1) show ?thesis using gview_ok by metis
qed

lemma connected_ok:
  assumes "gen_ok st" "cn_bev (conns st c) = Some k" "bufs st k \<noteq> None" "event_connected h c st = Inr st'"
  shows "gen_ok st'"
proof -
  let ?st1 = "upd_conn c (\<lambda>x. x\<lparr>cn_connected := True\<rparr>) st"
  obtain st2 where st2: "genconn_connect_cb h CEVENT_CONNECTED c ?st1 = Inr st2"
    and st': "st' = (if cn_kind (conns st2 c) = ''gnhastd'' then st2\<lparr>health_timers := health_timers st2 @ [c]\<rparr> else st2)"
    using assms(4) by (auto simp: event_connected_def bindE_Inr_conv)
  have c: "gnhastd_conn st = c" using bev_conn [OF assms(1,2)] by simp
  have "live (Some k) st" using assms(3) by (simp add: live_Some)
  then have "gen_ok ?st1"
    using assms(1,2) by (simp add: gen_ok_def gen_at_def c)
  then have "gen_ok st2" using connect_cb [OF st2] gview_ok by blast
  moreover have "gnhastd_conn st2 = c"
    using connect_cb [OF st2] c by (simp add: gview_def)
  ultimately show ?thesis by (simp add: st' gen_ok_def gen_at_def)
qed

lemma lost_ok:
  assumes "gen_ok st" "\<not> loop_exit st" "cn_bev (conns st c) = Some k" "bufs st k \<noteq> None" "event_lost h d k c st = Inr st'"
  shows "gen_ok st'"
proof -
  let ?st1 = "upd_conn c (\<lambda>x. x\<lparr>cn_connected := False\<rparr>) (st\<lparr>bufs := (bufs st)(k := None)\<rparr>)"
  obtain st2 where st2: "genconn_connect_cb h CEVENT_DISCONNECTED c ?st1 = Inr st2"
    and st': "if cn_shutdown (conns st2 c)
      then \<exists>st3. genconn_connect_cb h CEVENT_SHUTDOWN c st2 = Inr st3 \<and> st' = st3\<lparr>loop_exit := True\<rparr>
      else st' = st2\<lparr>need_rereg := True, retry_timers := retry_timers st2 @ [c]\<rparr>"
    using assms(5) by (auto simp: event_lost_def Let_def bindE_Inr_conv split: if_splits)
  have c: "gnhastd_conn st = c" using bev_conn [OF assms(1,3)] by simp
  have ok: "gen_at c st" using assms(1) by (simp add: gen_ok_def c)
  have bufs: "bufs ?st1 j = None" for j
    using gen_at_bufs [OF ok, of j] assms(3) by (cases "j = k"; cases "bufs st j") auto
  have "live (cn_bev (conns st c)) st" unfolding assms(3) live_Some by (rule assms(4))
  then have "retry_timers st = []" by (rule gen_at_D(2) [OF ok])
  then have st1: "retry_timers ?st1 = []" "\<forall>c'. c' \<noteq> c \<longrightarrow> cn_bev (conns ?st1 c') = None" "set (health_timers ?st1) \<subseteq> {c}"
    "gnhastd_bev ?st1 = cn_bev (conns ?st1 c)" "\<not> cn_connected (conns ?st1 c)" "gnhastd_conn ?st1 = c"
    using gen_at_D(1,5,6) [OF ok] c by simp_all
  have keep: "retry_timers t = []" "\<forall>c'. c' \<noteq> c \<longrightarrow> cn_bev (conns t c') = None" "set (health_timers t) \<subseteq> {c}"
    "gnhastd_bev t = cn_bev (conns t c)" "\<not> cn_connected (conns t c)" "gnhastd_conn t = c" "bufs t j = None"
    if "gview ?st1 = gview t" for t j
  proof -
    note g = gview_D [OF that, symmetric]
    show "retry_timers t = []" "\<forall>c'. c' \<noteq> c \<longrightarrow> cn_bev (conns t c') = None" "set (health_timers t) \<subseteq> {c}"
      "gnhastd_bev t = cn_bev (conns t c)" "\<not> cn_connected (conns t c)" "gnhastd_conn t = c"
      unfolding g(1-5) by (rule st1)+
    show "bufs t j = None" unfolding g(6) by (rule bufs)
  qed
  show ?thesis
  proof (cases "cn_shutdown (conns st2 c)")
    case True
    with st' obtain st3 where st3: "genconn_connect_cb h CEVENT_SHUTDOWN c st2 = Inr st3" "st' = st3\<lparr>loop_exit := True\<rparr>"
      by auto
    have v: "gview ?st1 = gview st3" using connect_cb [OF st2] connect_cb [OF st3(1)] by simp
    have "\<not> live b st3" for b by (rule not_live) (rule keep(7) [OF v])
    with keep [OF v] show ?thesis unfolding st3(2) by (simp add: gen_ok_def gen_at_def)
  next
    case False
    note v = connect_cb [OF st2]
    have "\<not> live b st2" for b by (rule not_live) (rule keep(7) [OF v])
    with keep [OF v] False st' show ?thesis by (simp add: gen_ok_def gen_at_def)
  qed
qed

lemma retry_ok:
  assumes "gen_ok st" "\<not> loop_exit st" "c \<in> set (retry_timers st)"
    and "generic_connect_server_cb c (st\<lparr>retry_timers := remove1 c (retry_timers st)\<rparr>) = Inr st'"
  shows "gen_ok st'"
proof -
  let ?st1 = "st\<lparr>retry_timers := remove1 c (retry_timers st)\<rparr>"
  have c: "gnhastd_conn st = c" using gen_at_D(8) [OF assms(1) [unfolded gen_ok_def]] assms(3) by auto
  have ok: "gen_at c st" using assms(1) by (simp add: gen_ok_def c)
  have dead: "\<not> live (cn_bev (conns st c)) st" using gen_at_D(2) [OF ok] assms(3) by auto
  have one: "bufs ?st1 k = None" for k
    using gen_at_bufs [OF ok, of k] dead by (cases "bufs st k") (auto simp: live_Some)
  have g: "retry_timers ?st1 = []" "c = gnhastd_conn ?st1" "\<And>c'. c' \<noteq> c \<Longrightarrow> cn_bev (conns ?st1 c') = None"
    "set (health_timers ?st1) \<subseteq> {c}"
    using gen_at_D(1,5,7) [OF ok] gen_at_D(4) [OF ok dead assms(2)] by simp_all
  obtain t where "generic_connect_server_cb c ?st1 = Inr t" "gview t = gview (new_bev c ?st1)"
    using g(2) by (rule connect_total)
  with assms(4) have "gview st' = gview (new_bev c ?st1)" by simp
  moreover have "gen_ok (new_bev c ?st1)" by (rule new_bev_ok) (use one g in auto)
  ultimately show ?thesis using gview_ok by blast
qed

lemma sigterm_ok:
  assumes "gen_ok st"
  shows "\<exists>st'. generic_cb_sigterm st = Inr st' \<and> gen_ok st'"
proof -
  let ?g = "gnhastd_conn st"
  let ?st1 = "upd_conn ?g (\<lambda>x. x\<lparr>cn_shutdown := True\<rparr>) st"
  have ok: "gen_ok ?st1" using assms by (simp add: gen_ok_def gen_at_def)
  show ?thesis
  proof (cases "cn_connected (conns ?st1 ?g)")
    case True
    then have "live (cn_bev (conns ?st1 ?g)) ?st1" using ok by (simp add: gen_ok_def gen_at_def)
    then obtain st2 where st2: "write_bev (cn_bev (conns ?st1 ?g)) gn_disconnect ?st1 = Inr st2"
      using write_bev_live by blast
    then have "gen_ok st2" using write_bev_view [OF st2] gview_ok ok by blast
    with st2 True show ?thesis by (simp add: generic_cb_sigterm_def Let_def)
  next
    case False
    with ok show ?thesis by (simp add: generic_cb_sigterm_def Let_def)
  qed
qed

lemma handle_keeps:
  assumes "gen_ok st" "\<not> loop_exit st" "gen_enabled ev st" "gen_handle h e ev st = Inr st'"
  shows "gen_ok st'"
proof (cases ev)
  case (ConnEvent w k c)
  with assms(3) have k: "cn_bev (conns st c) = Some k" "bufs st k \<noteq> None" by simp_all
  show ?thesis
  proof (cases w)
    case Ev_connected
    with assms(4) ConnEvent show ?thesis by (auto simp: generic_connect_event_cb_def intro: connected_ok [OF assms(1) k])
  next
    case (Ev_lost d)
    with assms(4) ConnEvent show ?thesis by (auto simp: generic_connect_event_cb_def intro: lost_ok [OF assms(1,2) k])
  next
    case Ev_other
    with assms(1,4) ConnEvent show ?thesis by (simp add: generic_connect_event_cb_def)
  qed
next
  case (ReadEvent k ls)
  with assms(4) show ?thesis using read_ok [OF assms(1)] by (auto simp: bindE_Inr_conv trunc)
next
  case (RetryTimer c)
  with assms show ?thesis using retry_ok [OF assms(1,2)] by simp
next
  case (HealthTick c)
  with assms show ?thesis using health_ok by simp
next
  case Sigterm
  with assms(4) sigterm_ok [OF assms(1)] show ?thesis by auto
next
  case StopTimer
  with assms(1,4) show ?thesis by (auto simp: generic_cb_shutdown_def gen_ok_def gen_at_def)
qed

lemma reach_ok: "gen_reach h st \<Longrightarrow> gen_ok st"
proof (induction rule: gen_reach.induct)
  case (connect st st')
  obtain t where "generic_connect_server_cb (gnhastd_conn st) st = Inr t" "gview t = gview (new_bev (gnhastd_conn st) st)"
    using connect_total [OF refl] by blast
  moreover have "gen_ok (new_bev (gnhastd_conn st) st)"
    by (rule new_bev_ok) (use connect(1) in \<open>auto simp: gen_start_def\<close>)
  ultimately show ?case using connect(2) gview_ok by (metis sum.inject(2))
next
  case (event st ev e st')
  then show ?case using handle_keeps by blast
qed

end

text \<open>
  A collector on top of the connection: what its callbacks keep, and an invariant of its own fields,
  which no event of the connection breaks.
\<close>

locale conn_kept = coll_kept R hk
  for R :: "'a gencoll_scheme \<Rightarrow> 'a gencoll_scheme \<Rightarrow> bool" and hk :: "'a gencoll_scheme hooks" +
  fixes h :: "'a gencoll_scheme ghooks"
    and own :: "'a gencoll_scheme \<Rightarrow> bool"
  assumes ghooks: "hooks.truncate h = hk"
    and connect_cb: "genconn_connect_cb h ev c st = Inr st' \<Longrightarrow> R st st'"
    and keeps: "R st st' \<Longrightarrow> own st \<Longrightarrow> own st'"
    and fields: "dmem st = dmem st' \<Longrightarrow> devtab st = devtab st' \<Longrightarrow> dnext st = dnext st' \<Longrightarrow>
      gencoll.more st = gencoll.more st' \<Longrightarrow> own st = own st'"
begin

lemma gen_fields [simp]:
  "own (upd_conn c f st) = own st" "own (new_bev c st) = own st"
  "own (st\<lparr>health_timers := ts\<rparr>) = own st" "own (st\<lparr>retry_timers := ts\<rparr>) = own st"
  "own (st\<lparr>need_rereg := b, retry_timers := ts\<rparr>) = own st" "own (st\<lparr>loop_exit := b\<rparr>) = own st"
  "own (st\<lparr>need_rereg := b\<rparr>) = own st" "own (st\<lparr>stop_timers := n\<rparr>) = own st" "own (st\<lparr>bufs := bs\<rparr>) = own st"
  by (rule fields; simp add: upd_conn_def new_bev_def Let_def)+

lemma write_own: "write_bev b m st = Inr st' \<Longrightarrow> own st' = own st"
  by (rule fields) (auto simp: write_bev_def split: option.splits)

lemma connect_own: "generic_connect_server_cb c st = Inr st' \<Longrightarrow> own st' = own st"
  by (auto simp: generic_connect_server_cb_def Let_def bindE_Inr_conv write_own split: if_splits)

lemma gen_kept:
  assumes "gen_handle h e ev st = Inr st'" and "own st"
  shows "own st'"
proof (cases ev)
  case (ConnEvent w k c)
  with assms show ?thesis
    by (auto simp: generic_connect_event_cb_def event_connected_def event_lost_def Let_def bindE_Inr_conv
        split: conn_event.splits if_splits dest!: connect_cb keeps)
next
  case (ReadEvent k ls)
  with assms(1) obtain rest where "gnhastd_read_cb hk e ls st = Inr (rest, st')"
    by (auto simp: bindE_Inr_conv ghooks)
  from read_kept [OF this] assms(2) show ?thesis by (rule keeps)
next
  case (RetryTimer c)
  with assms connect_own show ?thesis by fastforce
next
  case (HealthTick c)
  have ok: "collector_is_ok h = collector_is_ok hk"
    using ghooks by (cases h) (auto simp: hooks.defs)
  obtain b u where u: "collector_is_ok hk st = Inr (b, u)" "st' = u \<or> write_bev (cn_bev (conns u c)) gn_imalive u = Inr st'"
    using assms(1) HealthTick by (auto simp: generic_collector_health_cb_def bindE_Inr_conv ok split: if_splits)
  from keeps [OF is_ok [OF u(1)] assms(2)] u(2) write_own show ?thesis by blast
next
  case Sigterm
  with assms show ?thesis
    by (auto simp: generic_cb_sigterm_def Let_def bindE_Inr_conv write_own split: if_splits)
next
  case StopTimer
  with assms show ?thesis by (auto simp: generic_cb_shutdown_def)
qed

end

text \<open>The default callbacks leave the connection alone.\<close>

definition gen_stubs :: "'s ghooks" where
  "gen_stubs = hooks.extend weak_stubs \<lparr>genconn_connect_cb = (\<lambda>_ _ st. Inr st)\<rparr>"

lemma gen_stubs_truncate: "hooks.truncate gen_stubs = weak_stubs"
  by (simp add: gen_stubs_def hooks.defs weak_stubs_def)

lemma insert_device_gencoll [simp]:
  "bufs (insert_device p st) = bufs st" "bufnext (insert_device p st) = bufnext st"
  "gnhastd_bev (insert_device p st) = gnhastd_bev st"
  by (simp_all add: insert_device_def Let_def upd_dev_def)

lemma gview_registry:
  "registry.more s = registry.more t \<Longrightarrow> gview s = gview t"
  by (cases s; cases t) (simp add: gview_def)

lemma registry_more [simp]:
  "registry.more (insert_device p st) = registry.more st"
  "registry.more (snd (new_devgroup u st)) = registry.more st"
  "registry.more (add_dev_group p g st) = registry.more st"
  "registry.more (add_group_group k g st) = registry.more st"
  "registry.more (snd (alloc_dev d st)) = registry.more st"
  by (simp_all add: insert_device_def Let_def upd_dev_def new_devgroup_def add_dev_group_def
      add_group_group_def upd_grp_def alloc_dev_def)

interpretation gconn: conn_hooks weak_stubs gen_stubs
proof (unfold_locales, goal_cases)
  case (11 b m st st')
  then show ?case by (rule write_bev_view)
next
  case 21
  show ?case by (rule gen_stubs_truncate)
qed (auto simp: weak_stubs_def gen_stubs_def hooks.defs gview_def upd_dev_def upd_grp_def insert_device_def
    new_devgroup_def add_dev_group_def add_group_group_def alloc_dev_def Let_def)

end
