(* ===== verification/Collector.thy ===== *)
theory Collector
  imports Protocol Collinv
begin

text \<open>
  Properties of the collector's side and of both sides together: what one side sends is what the
  other stores; the collector's tables stay well-formed; its connection to the server comes back.
\<close>

section \<open>From one side to the other\<close>

text \<open>
  C5. A device that a collector registers appears on the server with the same uid, name, type,
  protocol, subtype and scale, on the queue of the collector's client; its database name is cut to
  19 characters, or made from the name when there was none.
\<close>

theorem registration_travels:
  assumes "reachable st" and "c \<in> set (clients st)" and "wire_safe dev" and "find_device_byuid st (d_uid dev) = None"
  shows "\<exists>st'. run_line e c (butlast (gn_register_device dev)) st = Inr (Some st') \<and>
    find_device_byuid st' (d_uid dev) = Some (dnext st) \<and>
    (let d = dmem st' (dnext st)
     in d_uid d = d_uid dev \<and> d_name d = d_name dev \<and> d_type d = d_type dev \<and> d_proto d = d_proto dev \<and>
        d_subtype d = d_subtype dev \<and> d_scale d = d_scale dev \<and> d_collector d = Some c \<and>
        d_rrdname d = Some (case d_rrdname dev of None \<Rightarrow> mk_rrdname (the (d_name dev)) | Some r \<Rightarrow> take 19 r)) \<and>
    (\<exists>y. cli st' c = Some y \<and> dnext st \<in> set (c_devices y))"
proof -
  obtain x where "cli st c = Some x" using client_live [OF reachable_ok [OF assms(1)] assms(2)] by blast
  then show ?thesis using assms(3,4) by (rule registration_effect)
qed

definition heater :: device where
  "heater = (new_device ''heater'')\<lparr>d_name := Some ''The heater'', d_rrdname := Some ''heater'',
     d_type := dev_type_code DEVICE_SWITCH, d_proto := proto_code PROTO_INSTEON_V1,
     d_subtype := subtype_code SUBTYPE_SWITCH\<rparr>"

theorem registration_travels_witness:
  "\<exists>st'. run_line calm 0 (butlast (gn_register_device heater)) lamp_state = Inr (Some st') \<and>
     find_device_byuid st' ''heater'' = Some (dnext lamp_state)"
proof -
  have "wire_safe heater" by code_simp
  moreover have "find_device_byuid lamp_state (d_uid heater) = None" 
    by (simp add: heater_def new_device_def find_eta lamp_device_facts)
  ultimately show ?thesis
    using registration_travels [OF lamp_reachable, of 0 heater calm] by (auto simp: lamp_facts heater_def new_device_def)
qed

text \<open>A collector before its first connection, and one that knows the lamp.\<close>

definition first_coll :: gencoll where
  "first_coll = registry.extend empty_registry
     \<lparr>bufs = (\<lambda>_. None), bufnext = 0, gnhastd_bev = None, coll_alarms = [],
      coll_conf = no_conf, coll_conf_file = None, min_proto_version = 0, rrd_freed = (\<lambda>_. False),
      conns = (\<lambda>_. \<lparr>cn_bev = None, cn_connected = False, cn_shutdown = False, cn_kind = ''gnhastd'', cn_cname = Some ''coll''\<rparr>),
      gnhastd_conn = 0, need_rereg = False, collector_instance = 1, retry_timers = [], health_timers = [],
      stop_timers = 0, loop_exit = False\<rparr>"

definition lamp_coll :: gencoll where
  "lamp_coll = insert_device 0 (snd (alloc_dev ((new_device ''lamp'')\<lparr>d_name := Some ''lamp'', d_type := 1, d_subtype := 1, d_proto := 1\<rparr>) first_coll))"

lemma lamp_coll_facts:
  "find_device_byuid lamp_coll ''lamp'' = Some 0" "d_type (dmem lamp_coll 0) = 1" "d_subtype (dmem lamp_coll 0) = 1"
  by (simp_all add: lamp_coll_def first_coll_def registry.defs empty_registry_def find_eta rb_insert_def new_device_def)

text \<open>
  C6. When an update command of a client has run, a client that watches the device once has been
  sent one message. A collector that has a copy of the device, of the same type and subtype, reads it,
  and then its callback runs on a state in which the copy holds the value as sent: the server's, if it is a whole number, and
  for a double the server's in the first scale of its kind (Fahrenheit, inches, ...) rounded to six
  decimals. The device is registered, its texts have no space, quote or NUL where a word or a quoted text
  would end, and it is not a rain rate, of which the commands do not know the argument.
\<close>

theorem update_travels:
  assumes "reachable st" and "cmd_update e c args st = Inr (r, st')"
    and "str_arg args SC_UID = Some u" and "find_device_byuid st u = Some p"
    and "k \<in> set (clients st)" and "count_list (d_watchers (dmem st p)) k = 1"
    and "wire_safe (dmem st' p)" and "has_value (dmem st' p)"
    and "find_device_byuid ks u = Some q"
    and "d_type (dmem ks q) = d_type (dmem st' p)" and "d_subtype (dmem ks q) = d_subtype (dmem st' p)"
  shows "\<exists>m ks'. out_of st' k = map_option (\<lambda>t. t @ m) (out_of st k) \<and>
    coll_run_line h e' (butlast m) ks = bindE (coll_upd_cb h q ks') (\<lambda>ks1. Inr (Some ks1)) \<and>
    get_data_dev (dmem ks' q) DATALOC_DATA b = value_as_sent (dmem st' p) b"
proof -
  have ok: "srv_ok st" using assms(1) by (rule reachable_ok)
  from cmd_update_effect [OF ok assms(2-4)]
  obtain m where dm: "dmem st' = (dmem st)(p := (fold store_arg args (dmem st p))\<lparr>d_last_upd := e_now e\<rparr>)"
    and m: "gn_update_device (dmem st' p) GNC_UPD_RRDNAME = Inr m"
    and out: "\<And>k. k \<in> set (clients st) \<Longrightarrow>
       out_of st' k = map_option (\<lambda>t. t @ concat (replicate (count_list (d_watchers (dmem st p)) k) m)) (out_of st k)"
    by auto
  have "d_uid (dmem st p) = u" using ok assms(4) by (auto simp: srv_ok_def reg_ok_find)
  then have uid: "d_uid (dmem st' p) = u"
    using dev_view_store_args [of args "dmem st p"] by (simp add: dm dev_view_def)
  obtain v where line: "coll_run_line h e' (butlast m) ks =
      bindE (coll_upd_cb h q (upd_dev q (\<lambda>d. (store_data_dev d DATALOC_DATA v)\<lparr>d_last_upd := ce_now e'\<rparr>) ks))
        (\<lambda>st1. Inr (Some st1))"
    and v: "get_data_dev (store_data_dev (dmem ks q) DATALOC_DATA v) DATALOC_DATA b = value_as_sent (dmem st' p) b"
    by (rule update_read [OF assms(7,8) m assms(9) [folded uid] assms(10,11)]) blast
  have w: "get_width (d\<lparr>d_last_upd := t\<rparr>) = get_width d" for d t by (rule get_width_cong) simp_all
  have dl: "data_loc l (d\<lparr>d_last_upd := t\<rparr>) = data_loc l d" for d t l by (cases l) (simp_all add: data_loc_def)
  have "get_data_dev (d\<lparr>d_last_upd := t\<rparr>) l b = get_data_dev d l b" for d t l
    by (simp add: get_data_dev_def w dl split: option.split)
  with v have "get_data_dev (dmem (upd_dev q (\<lambda>d. (store_data_dev d DATALOC_DATA v)\<lparr>d_last_upd := ce_now e'\<rparr>) ks) q) DATALOC_DATA b
      = value_as_sent (dmem st' p) b" by simp
  moreover have "out_of st' k = map_option (\<lambda>t. t @ m) (out_of st k)"
    using out [OF assms(5)] assms(6) by simp
  ultimately show ?thesis using line by blast
qed

theorem update_travels_witness:
  "\<exists>st' m ks'. cmd_update calm 0 (parse_args [''uid:lamp'', ''switch:1'']) lamp_state = Inr (0, st') \<and>
     coll_run_line weak_stubs \<lparr>ce_now = 0, ce_open = True\<rparr> (butlast m) lamp_coll = Inr (Some ks') \<and>
     get_data_dev (dmem ks' 0) DATALOC_DATA 0 = get_data_dev (dmem st' 0) DATALOC_DATA 0"
proof -
  let ?args = "parse_args [''uid:lamp'', ''switch:1'']" and ?e = "\<lparr>ce_now = 0, ce_open = True\<rparr>"
  have u: "str_arg ?args SC_UID = Some ''lamp''" by code_simp
  have p: "find_device_byuid lamp_state ''lamp'' = Some 0" by (simp add: find_eta lamp_facts)
  obtain r st' where run: "cmd_update calm 0 ?args lamp_state = Inr (r, st')"
    using cmd_update_total [OF reachable_ok [OF lamp_reachable], of 0 calm ?args] by (auto simp: lamp_facts calm_def)
  have r: "r = 0" using run u p by (auto simp: cmd_update_def with_device_def Let_def bindE_Inr_conv split: if_splits)
  have dm: "dmem st' 0 = (fold store_arg ?args (dmem lamp_state 0))\<lparr>d_last_upd := e_now calm\<rparr>"
    using cmd_update_effect [OF reachable_ok [OF lamp_reachable] run u p] by simp
  have fr: "d_name (fold store_arg as d) = d_name d \<and> d_rrdname (fold store_arg as d) = d_rrdname d \<and>
      d_uid (fold store_arg as d) = d_uid d \<and> d_type (fold store_arg as d) = d_type d \<and>
      d_subtype (fold store_arg as d) = d_subtype d \<and> d_proto (fold store_arg as d) = d_proto d" for as d
    by (induction as arbitrary: d) (simp_all add: store_arg_def Let_def)
  have safe: "wire_safe (dmem st' 0)"
    by (simp add: wire_safe_def wire_ok_def unregistered_def dm fr lamp_device_facts plain_def quotable_def)
  have ty: "d_type (dmem st' 0) = 1" "d_subtype (dmem st' 0) = 1" by (simp_all add: dm fr lamp_device_facts)
  have "dev_type_of 1 = Some DEVICE_SWITCH" "subtype_of 1 = Some SUBTYPE_SWITCH" by code_simp+
  then have v: "has_value (dmem st' 0)" "value_as_sent (dmem st' 0) 0 = get_data_dev (dmem st' 0) DATALOC_DATA 0"
    by (simp_all add: has_value_def value_as_sent_def argdev_sc_def datatype_dev_def get_width_def ty)
  from update_travels [OF lamp_reachable run u p _ _ safe v(1) lamp_coll_facts(1), of 1 weak_stubs ?e 0]
  show ?thesis using run v(2) by (auto simp: lamp_facts ty lamp_coll_facts weak_stubs_def r)
qed

text \<open>
  C7. A change request that names a device and values reaches the collector that owns the device as one
  message, and reading it the collector does exactly what the request says, with values of type double
  rounded to six decimals. The uid of the device has no space, quote or NUL.
\<close>

theorem change_travels:
  assumes "reachable st" and "cmd_change e c (parse_args ws) st = Inr (0, st')"
    and "str_arg (parse_args ws) SC_UID = Some u" and "find_device_byuid st u = Some p"
    and "d_collector (dmem st p) = Some k"
    and "\<And>a. a \<in> set (parse_args ws) \<Longrightarrow> a_cword a = SC_UID \<or> any_data (a_cword a)"
    and "plain u" and "CHR 0x00 \<notin> set u"
  shows "\<exists>m. out_of st' k = map_option (\<lambda>t. t @ m) (out_of st k) \<and>
    coll_run_line h e' (butlast m) ks = bindE (coll_change h e' (map arg_as_sent (parse_args ws)) ks) (\<lambda>(r, ks1). Inr (Some ks1))"
proof -
  let ?m = "''chg '' @ kv SC_UID u @ concat (map change_text (parse_args ws)) @ [CHR 0x0A]"
  have ok: "srv_ok st" using assms(1) by (rule reachable_ok)
  have uid: "d_uid (dmem st p) = u" using ok assms(4) by (auto simp: srv_ok_def reg_ok_find)
  have "send k ?m (upd_dev p (fold change_store (parse_args ws)) st) = Inr st'"
    using assms(2-5) by (simp add: cmd_change_def with_device_def Let_def uid bindE_Inr_conv)
  from send_Inr [OF this] have "out_of st' k = map_option (\<lambda>t. t @ ?m) (out_of st k)"
    by (simp add: out_of_def)
  moreover have "coll_run_line h e' (butlast ?m) ks = bindE (coll_change h e' (map arg_as_sent (parse_args ws)) ks) (\<lambda>(r, ks1). Inr (Some ks1))"
    using change_read [OF assms(7,8,3,6), of h e' ks] by (simp add: butlast_append)
  ultimately show ?thesis by blast
qed

theorem change_travels_witness:
  "\<exists>st' m. cmd_change calm 1 (parse_args [''uid:lamp'', ''switch:7'']) lamp_state = Inr (0, st') \<and>
     out_of st' 0 = map_option (\<lambda>t. t @ m) (out_of lamp_state 0) \<and>
     coll_run_line weak_stubs \<lparr>ce_now = 0, ce_open = True\<rparr> (butlast m) lamp_coll =
       bindE (coll_change weak_stubs \<lparr>ce_now = 0, ce_open = True\<rparr> (parse_args [''uid:lamp'', ''switch:7'']) lamp_coll)
         (\<lambda>(r, ks1). Inr (Some ks1))"
proof -
  let ?args = "parse_args [''uid:lamp'', ''switch:7'']" and ?e = "\<lparr>ce_now = 0, ce_open = True\<rparr>"
  have u: "str_arg ?args SC_UID = Some ''lamp''" by code_simp
  have p: "find_device_byuid lamp_state ''lamp'' = Some 0" by (simp add: find_eta lamp_facts)
  obtain x where "cli lamp_state 0 = Some x" using lamp_facts(5) by auto
  then have "\<exists>st'. cmd_change calm 1 ?args lamp_state = Inr (0, st')"
    by (simp add: cmd_change_def with_device_def u p Let_def lamp_device_facts send_def upd_cli_def get_cli_def)
  then obtain st' where run: "cmd_change calm 1 ?args lamp_state = Inr (0, st')" by blast
  have "list_all (\<lambda>a. a_cword a = SC_UID \<or> any_data (a_cword a)) ?args" by code_simp
  then have "a_cword a = SC_UID \<or> any_data (a_cword a)" if "a \<in> set ?args" for a
    using that by (auto simp: list_all_iff)
  from change_travels [OF lamp_reachable run u p lamp_device_facts(8) this, of weak_stubs ?e lamp_coll] run
  have "\<exists>m. out_of st' 0 = map_option (\<lambda>t. t @ m) (out_of lamp_state 0) \<and> coll_run_line weak_stubs ?e (butlast m) lamp_coll =
      bindE (coll_change weak_stubs ?e (map arg_as_sent ?args) lamp_coll) (\<lambda>(r, ks1). Inr (Some ks1))"
    by (auto simp: plain_def)
  moreover have "map arg_as_sent ?args = ?args" by code_simp
  ultimately show ?thesis using run by auto
qed

section \<open>The collector's tables and connection\<close>

text \<open>
  C10. Whatever lines the server sends, a collector that handles them with the default callbacks
  keeps its tables and queues of devices and groups in agreement.
\<close>

theorem collector_tables_kept:
  assumes "reg_ok st" and "gnhastd_read_cb weak_stubs e ls st = Inr (rest, st')"
  shows "reg_ok st'"
  using tables.read_kept [OF assms(2)] assms(1) by blast

theorem collector_tables_kept_witness:
  "\<exists>rest st'. gnhastd_read_cb weak_stubs \<lparr>ce_now = 0, ce_open = True\<rparr>
     [''reg uid:a name:A devt:1 proto:1 subt:1'', ''regg uid:g name:G dlist:a''] first_coll = Inr (rest, st') \<and> reg_ok st'"
proof -
  let ?r = "gnhastd_read_cb weak_stubs \<lparr>ce_now = 0, ce_open = True\<rparr>
     [''reg uid:a name:A devt:1 proto:1 subt:1'', ''regg uid:g name:G dlist:a''] first_coll"
  have "\<not> isl ?r" by code_simp
  then obtain rest st' where run: "?r = Inr (rest, st')" by (cases ?r) auto
  have "reg_ok first_coll"
    using reg_ok_empty by (simp add: reg_ok_def first_coll_def registry.defs empty_registry_def keyed_ok_def find_eta)
  from collector_tables_kept [OF this run] run show ?thesis by blast
qed

text \<open>
  C8. The connection to the server is never lost for good: while the event loop runs, either its
  buffer is live, or one timer is pending, and when that fires there is a live buffer again.
\<close>

theorem connection_recovers:
  assumes "gen_reach gen_stubs st" and "\<not> loop_exit st"
  shows "live (gnhastd_bev st) st \<or>
    (retry_timers st = [gnhastd_conn st] \<and>
     (\<exists>st'. gen_handle gen_stubs e (RetryTimer (gnhastd_conn st)) st = Inr st' \<and> live (gnhastd_bev st') st'))"
proof (cases "live (gnhastd_bev st) st")
  case False
  let ?g = "gnhastd_conn st"
  have ok: "gen_at ?g st" using gconn.reach_ok [OF assms(1)] by (simp add: gen_ok_def)
  with False assms(2) have retry: "retry_timers st = [?g]" using gen_at_D(4,6) [OF ok] by simp
  let ?st1 = "st\<lparr>retry_timers := remove1 ?g (retry_timers st)\<rparr>"
  obtain t where t: "generic_connect_server_cb ?g ?st1 = Inr t" "gview t = gview (new_bev ?g ?st1)"
    by (rule connect_total [of ?g ?st1]) simp_all
  have "live (gnhastd_bev t) t = live (gnhastd_bev (new_bev ?g ?st1)) (new_bev ?g ?st1)"
    using live_view [OF t(2)] gview_D(4) [OF t(2)] by simp
  also have "\<dots>" by (simp add: new_bev_def Let_def live_def)
  finally show ?thesis using retry t(1) by simp
qed simp

text \<open>A collector that has connected and then lost the connection.\<close>

definition connected_coll :: gencoll where
  "connected_coll = projr (generic_connect_server_cb 0 first_coll)"

definition lost_coll :: gencoll where
  "lost_coll = projr (gen_handle gen_stubs \<lparr>ce_now = 0, ce_open = True\<rparr> (ConnEvent (Ev_lost False) 0 0) connected_coll)"

lemma connected_coll_eq: "connected_coll = new_bev 0 first_coll"
  by (simp add: connected_coll_def generic_connect_server_cb_def first_coll_def registry.defs new_bev_def Let_def upd_conn_def)

lemma connected_coll: "generic_connect_server_cb 0 first_coll = Inr connected_coll"
    "cn_bev (conns connected_coll 0) = Some 0" "bufs connected_coll 0 = Some []" "\<not> loop_exit connected_coll"
    "cn_kind (conns connected_coll 0) = ''gnhastd''" "\<not> cn_shutdown (conns connected_coll 0)"
    "gnhastd_conn connected_coll = 0"
  by (simp_all add: connected_coll_eq generic_connect_server_cb_def first_coll_def registry.defs new_bev_def Let_def upd_conn_def)

lemma connected_reach: "gen_reach h connected_coll"
  by (rule gen_reach.connect [of first_coll])
    (use connected_coll(1) in \<open>simp_all add: gen_start_def first_coll_def registry.defs\<close>)

lemma lost_coll:
  "gen_handle gen_stubs \<lparr>ce_now = 0, ce_open = True\<rparr> (ConnEvent (Ev_lost False) 0 0) connected_coll = Inr lost_coll"
  "\<not> loop_exit lost_coll" "gnhastd_conn lost_coll = 0"
  using connected_coll(4,6,7)
  by (simp_all add: lost_coll_def generic_connect_event_cb_def event_lost_def gen_stubs_def hooks.defs weak_stubs_def Let_def)

theorem connection_recovers_witness:
  "live (gnhastd_bev lost_coll) lost_coll \<or> retry_timers lost_coll = [0]"
proof -
  have "gen_reach gen_stubs lost_coll"
    by (rule gen_reach.event [OF connected_reach _ _ lost_coll(1)]) (simp_all add: connected_coll)
  from connection_recovers [OF this lost_coll(2)] show ?thesis by (auto simp: lost_coll(3))
qed

text \<open>
  C9. A terminating signal is handled in every reachable state without touching a freed buffer:
  the farewell is sent only over a live connection.
\<close>

theorem sigterm_safe:
  assumes "gen_reach gen_stubs st"
  shows "\<exists>st'. gen_handle gen_stubs e Sigterm st = Inr st' \<and> cn_shutdown (conns st' (gnhastd_conn st))"
proof -
  let ?st1 = "upd_conn (gnhastd_conn st) (\<lambda>x. x\<lparr>cn_shutdown := True\<rparr>) st"
  obtain st' where st': "generic_cb_sigterm st = Inr st'"
    using gconn.sigterm_ok [OF gconn.reach_ok [OF assms]] by blast
  then consider "st' = ?st1\<lparr>stop_timers := stop_timers ?st1 + 1\<rparr>"
    | t b where "write_bev b gn_disconnect ?st1 = Inr t" "st' = t\<lparr>stop_timers := stop_timers t + 1\<rparr>"
    by (auto simp: generic_cb_sigterm_def Let_def bindE_Inr_conv split: if_splits)
  then have "cn_shutdown (conns st' (gnhastd_conn st))"
  proof cases
    case (2 t b)
    have "conns t = conns ?st1" using gview_D(1) [OF write_bev_view [OF 2(1)]] by simp
    then show ?thesis by (simp add: 2(2))
  qed simp
  with st' show ?thesis by simp
qed

theorem sigterm_safe_witness:
  "\<exists>st'. gen_handle gen_stubs \<lparr>ce_now = 0, ce_open = True\<rparr> Sigterm lost_coll = Inr st'"
proof -
  have "gen_reach gen_stubs lost_coll"
    by (rule gen_reach.event [OF connected_reach _ _ lost_coll(1)]) (simp_all add: connected_coll)
  from sigterm_safe [OF this] show ?thesis by blast
qed

text \<open>
  The timer of the self-health check outlives the connection it writes to: after a connection
  is made and lost, the next check of a healthy collector writes to the freed buffer.
\<close>

theorem health_check_after_loss:
  assumes "cn_kind (conns st c) = ''gnhastd''" and "cn_bev (conns st c) = Some k"
    and "\<And>ev c t. genconn_connect_cb h ev c t = Inr t" and "\<And>t. collector_is_ok h t = Inr (True, t)"
    and "event_connected h c st = Inr st1" and "event_lost h False k c st1 = Inr st2"
  shows "gen_enabled (HealthTick c) st2 \<and> gen_handle h e (HealthTick c) st2 = Inl UseAfterFree"
  using assms
  by (auto simp: event_connected_def event_lost_def Let_def generic_collector_health_cb_def write_bev_def split: if_splits)

theorem health_check_after_loss_witness:
  "\<exists>st2. gen_enabled (HealthTick 0) st2 \<and>
     gen_handle (gen_stubs\<lparr>collector_is_ok := \<lambda>st. Inr (True, st)\<rparr>) \<lparr>ce_now = 0, ce_open = True\<rparr> (HealthTick 0) (st2 :: gencoll) = Inl UseAfterFree"
proof -
  let ?h = "gen_stubs\<lparr>collector_is_ok := \<lambda>st. Inr (True, st)\<rparr> :: gencoll ghooks"
  have stub: "genconn_connect_cb gen_stubs ev c t = Inr t" for ev c and t :: gencoll
    by (simp add: gen_stubs_def hooks.defs)
  have cb: "genconn_connect_cb ?h ev c t = Inr t" "collector_is_ok ?h t = Inr (True, t)" for ev c t
    by (simp_all add: stub)
  obtain st1 where st1: "event_connected ?h 0 connected_coll = Inr st1"
    by (simp add: event_connected_def stub)
  have "\<exists>st2. event_lost ?h False 0 0 st1 = Inr st2"
    by (simp add: event_lost_def stub Let_def)
  then obtain st2 where "event_lost ?h False 0 0 st1 = Inr st2" by blast
  from health_check_after_loss [OF connected_coll(5,2) cb st1 this] show ?thesis by blast
qed

section \<open>Modifications\<close>

text \<open>
  What a modify message changes is not written to the collector's configuration file: the file
  it dumps has the sections as they were.
\<close>

theorem modification_not_saved:
  assumes "coll_modify h e args st = Inr (r, st')"
  shows "coll_conf st' = coll_conf st \<and> (coll_conf_file st' = coll_conf_file st \<or> coll_conf_file st' = Some (coll_conf st))"
proof -
  have arg: "coll_conf t' = coll_conf t \<and> coll_conf_file t' = coll_conf_file t"
    if "coll_modify_arg p a t = Inr t'" for p a and t t' :: "'a collector_scheme"
    using that by (auto simp: coll_modify_arg_def upd_dev_def split: sc.splits if_splits)
  have args: "coll_conf t' = coll_conf st \<and> coll_conf_file t' = coll_conf_file st"
    if "foldE (coll_modify_arg p) args st = Inr t'" for p t'
    using that by (rule foldE_inv) (use arg in auto)
  have "cf' = cf \<and> (out = None \<or> out = Some cf)" if "dump_conf t 0 b cf = Inr (cf', out)" for t :: "'a collector_scheme" and b cf cf' out
    using that by (auto simp: dump_conf_def QUERY_FLAG_def refresh_conf_def Let_def split: if_splits)
  with args assms show ?thesis
    by (auto simp: coll_modify_def with_device_def bindE_Inr_conv split: option.splits) blast+
qed

theorem modification_not_saved_witness:
  "\<exists>st'. coll_modify weak_stubs \<lparr>ce_now = 0, ce_open = True\<rparr> (parse_args [''uid:lamp'', ''name:desk'']) lamp_coll = Inr (0, st') \<and>
     d_name (dmem st' 0) = Some ''desk'' \<and> coll_conf_file st' \<noteq> None \<and> coll_conf st' = no_conf"
proof -
  let ?args = "parse_args [''uid:lamp'', ''name:desk'']" and ?e = "\<lparr>ce_now = 0, ce_open = True\<rparr>"
  let ?r = "coll_modify weak_stubs ?e ?args lamp_coll"
  define sum where "sum = (\<lambda>r :: (int \<times> gencoll) res. case r of Inl _ \<Rightarrow> None
    | Inr (r, st) \<Rightarrow> Some (r, d_name (dmem st 0), coll_conf_file st = None))"
  have "sum ?r = Some (0, Some ''desk'', False)" unfolding sum_def by code_simp
  then obtain st' where run: "?r = Inr (0, st')" and st': "d_name (dmem st' 0) = Some ''desk''" "coll_conf_file st' \<noteq> None"
    by (auto simp: sum_def split: sum.splits)
  have "coll_conf lamp_coll = no_conf"
    by (simp add: lamp_coll_def first_coll_def registry.defs insert_device_def alloc_dev_def upd_dev_def Let_def)
  with modification_not_saved [OF run] run st' show ?thesis by auto
qed

end
