(* ===== verification/Build.thy ===== *)
theory Build
  imports Collcmd
begin

text \<open>
  The end of \<^verbatim>\<open>common/gncoll.c\<close>: the helpers with which a collector makes its devices, from the
  configuration when they are there, else new, and registers them with the server.
\<close>

text \<open>
  The functions that build a message return before they touch the connection when there is nothing
  to send.
\<close>

definition send_msg :: "nat option \<Rightarrow> string \<Rightarrow> 'a collector_scheme \<Rightarrow> 'a collector_scheme res" where
  "send_msg b m st = (if m = [] then Inr st else write_bev b m st)"

text \<open>
  A registration is printed with the device's \<^verbatim>\<open>rrdname\<close>, which may be dangling. An update with these flags
  does not print it.
\<close>

definition send_register :: "nat option \<Rightarrow> dptr \<Rightarrow> 'a collector_scheme \<Rightarrow> 'a collector_scheme res" where
  "send_register b p st =
     (let m = gn_register_device (dmem st p)
      in if m \<noteq> [] \<and> rrd_freed st p then Inl UseAfterFree else send_msg b m st)"

definition send_update :: "nat option \<Rightarrow> dptr \<Rightarrow> 'a collector_scheme \<Rightarrow> 'a collector_scheme res" where
  "send_update b p st = bindE (gn_update_device (dmem st p) GNC_NOSCALE) (\<lambda>m. send_msg b m st)"

lemma noscale_bits:
  "\<not> QUERY_BIT GNC_NOSCALE GNC_UPD_HARGS" "\<not> QUERY_BIT GNC_NOSCALE GNC_UPD_TAGS"
  "\<not> QUERY_BIT GNC_NOSCALE GNC_UPD_FULL" "\<not> QUERY_BIT GNC_NOSCALE GNC_UPD_CACTI"
  by (simp_all add: QUERY_BIT_def GNC_NOSCALE_def GNC_UPD_HARGS_def GNC_UPD_TAGS_def GNC_UPD_FULL_def
      GNC_UPD_CACTI_def)

text \<open>
  \<^verbatim>\<open>get_data_dev\<close> into a variable of one byte: a wider value runs over the variable,
  and a type without a width leaves it unset.
\<close>

definition get_byte :: "device \<Rightarrow> dataloc \<Rightarrow> u8 res" where
  "get_byte dev loc =
     (case get_width dev of
        None \<Rightarrow> Inl Uninit | Some W8 \<Rightarrow> Inr (ucast (data_loc loc dev)) | Some _ \<Rightarrow> Inl OutOfBounds)"

text \<open>
  A device of the collector: the one of the configuration when it is there, else \<open>dev\<close>, which is then
  added to the configuration; it goes into the table in both cases.
\<close>

definition provide_device :: "device \<Rightarrow> 'a collector_scheme \<Rightarrow> (dptr \<times> 'a collector_scheme) res" where
  "provide_device dev st =
     bindE (new_dev_from_conf (coll_conf st) (d_uid dev) st) (\<lambda>(found, st1).
     bindE (case found of
              Some p \<Rightarrow> Inr (p, st1)
            | None \<Rightarrow>
                bindE (new_conf_from_dev (coll_conf st1) dev) (\<lambda>cf.
                  let (p, st2) = alloc_dev dev st1 in Inr (p, st2\<lparr>coll_conf := cf\<rparr>))) (\<lambda>(p, st3).
       Inr (p, insert_device p st3)))"

text \<open>
  \<open>num\<close> is the count given, \<open>ss\<close> the strings of the call. For an odd number the array has room for
  \<open>num\<close> pointers and one byte, and the padding pointer is written behind them.
\<close>

definition build_tags :: "nat \<Rightarrow> string list \<Rightarrow> strarr res" where
  "build_tags num ss =
     (if length ss < num then Inl Uninit
      else if odd num then Inl OutOfBounds
      else Inr (Arr (map Heap (take num ss))))"

text \<open>\<^verbatim>\<open>%0.Nd\<close>: at least \<open>N\<close> digits.\<close>

definition fmt_prec :: "nat \<Rightarrow> int \<Rightarrow> string" where
  "fmt_prec n i = (if i < 0 then ''-'' else []) @ pad_zeros n (nat_dec (nat \<bar>i\<bar>))"

text \<open>A new device, with the arguments of \<^verbatim>\<open>generic_build_device\<close>.\<close>

record build_args =
  b_uid :: string
  b_name :: "string option"
  b_rrdname :: "string option"
  b_proto :: proto
  b_type :: dev_type
  b_subtype :: subtype
  b_loc :: "string option"
  b_tscale :: u8
  b_tags :: strarr
  b_nroftags :: nat

definition fresh_device :: "build_args \<Rightarrow> device res" where
  "fresh_device b =
     (let dev = (new_device (b_uid b))\<lparr>d_name := b_name b, d_rrdname := b_rrdname b,
        d_proto := proto_code (b_proto b), d_type := dev_type_code (b_type b),
        d_subtype := subtype_code (b_subtype b),
        d_scale := (if b_subtype b = SUBTYPE_TEMP then b_tscale b else 0), d_loc := b_loc b\<rparr>
      in if b_tags b \<noteq> NullArr \<and> 0 < b_nroftags b
         then bindE (arr_strs cell_str (b_tags b) (b_nroftags b)) (\<lambda>ss.
                Inr (dev\<lparr>d_tags := Arr (map Heap ss), d_nroftags := b_nroftags b\<rparr>))
         else Inr dev)"

text \<open>The device of the configuration gets the location given; a new one goes into the configuration.\<close>

definition make_device ::
    "build_args \<Rightarrow> dptr option \<Rightarrow> 'a collector_scheme \<Rightarrow> (dptr \<times> 'a collector_scheme) res" where
  "make_device b found st =
     (case found of
        None \<Rightarrow>
          bindE (fresh_device b) (\<lambda>dev.
          bindE (new_conf_from_dev (coll_conf st) dev) (\<lambda>cf.
            let (p, st1) = alloc_dev dev st in Inr (p, st1\<lparr>coll_conf := cf\<rparr>)))
      | Some p \<Rightarrow> Inr (p, if b_loc b \<noteq> None then upd_dev p (\<lambda>d. d\<lparr>d_loc := b_loc b\<rparr>) st else st))"

text \<open>
  \<open>dumping\<close>: \<^verbatim>\<open>dumpconf\<close> is not NULL, and nothing is sent.
\<close>

definition announce_device :: "bool \<Rightarrow> nat option \<Rightarrow> dptr \<Rightarrow> 'a collector_scheme \<Rightarrow> 'a collector_scheme res" where
  "announce_device dumping bev p st =
     (let dev = dmem st p
      in if \<not> dumping \<and> d_name dev \<noteq> None
         then bindE (send_register bev p st) (\<lambda>st1. bindE (gn_modify_device dev) (\<lambda>m. send_msg bev m st1))
         else Inr st)"

definition generic_build_device ::
    "bool \<Rightarrow> build_args \<Rightarrow> nat option \<Rightarrow> 'a collector_scheme \<Rightarrow> 'a collector_scheme res" where
  "generic_build_device dumping b bev st =
     bindE (new_dev_from_conf (coll_conf st) (b_uid b) st) (\<lambda>(found, st1).
     bindE (make_device b found st1) (\<lambda>(p, st2). announce_device dumping bev p (insert_device p st2)))"

end
