(* ===== verification/Oldconn.thy ===== *)
theory Oldconn
  imports Genconn Build
begin

text \<open>
  What the collectors that do not use \<^verbatim>\<open>common/genconn.c\<close> have in common: a connection to the
  server and one to the hardware, made again after a loss, and the devices registered anew.
\<close>

datatype conn_role = To_hardware | To_server    \<comment> \<open>\<^verbatim>\<open>conn->type\<close>\<close>

record oconn =
  oc_role :: conn_role
  oc_bev :: "nat option"
  oc_shutdown :: bool

text \<open>\<open>odumping\<close>: \<^verbatim>\<open>dumpconf\<close> is not NULL. The timers are as in \<open>gencoll\<close>.\<close>

record oldcoll = collector +
  oconns :: "nat \<Rightarrow> oconn"
  oserver :: nat               \<comment> \<open>\<^verbatim>\<open>gnhastd_conn\<close>\<close>
  oneed_rereg :: bool
  oinstance :: int
  odumping :: bool
  oretry :: "nat list"
  ohealth :: "nat list"
  ostop :: nat
  oexit :: bool

definition server_bev :: "'a oldcoll_scheme \<Rightarrow> nat option" where
  "server_bev st = oc_bev (oconns st (oserver st))"

definition upd_oconn :: "nat \<Rightarrow> (oconn \<Rightarrow> oconn) \<Rightarrow> 'a oldcoll_scheme \<Rightarrow> 'a oldcoll_scheme" where
  "upd_oconn c f st = st\<lparr>oconns := (oconns st)(c := f (oconns st c))\<rparr>"

definition open_bev :: "nat \<Rightarrow> 'a oldcoll_scheme \<Rightarrow> 'a oldcoll_scheme" where
  "open_bev c st =
     (let k = bufnext st
      in upd_oconn c (\<lambda>x. x\<lparr>oc_bev := Some k\<rparr>) (st\<lparr>bufs := (bufs st)(k \<mapsto> []), bufnext := k + 1\<rparr>))"

definition free_bev :: "nat \<Rightarrow> 'a collector_scheme \<Rightarrow> 'a collector_scheme" where
  "free_bev k st = st\<lparr>bufs := (bufs st)(k := None)\<rparr>"

text \<open>A device with a name is registered, unless only the configuration is wanted.\<close>

definition register_dev :: "nat option \<Rightarrow> dptr \<Rightarrow> 'a oldcoll_scheme \<Rightarrow> 'a oldcoll_scheme res" where
  "register_dev b p st =
     (if \<not> odumping st \<and> d_name (dmem st p) \<noteq> None then send_register b p st else Inr st)"

text \<open>
  The part of \<^verbatim>\<open>connect_server_cb\<close> for the server, on the connection just opened: after a loss the
  devices are registered again and the collector introduces itself.
\<close>

definition reregister :: "string \<Rightarrow> nat \<Rightarrow> 'a oldcoll_scheme \<Rightarrow> 'a oldcoll_scheme res" where
  "reregister cname c st =
     bindE (if oneed_rereg st
            then bindE (foldE (register_dev (oc_bev (oconns st c))) (alldevs st) st) (\<lambda>st1.
                   write_bev (server_bev st1) (gn_client_name (Some cname) (oinstance st1)) st1)
            else Inr st) (\<lambda>st2.
       Inr (st2\<lparr>oneed_rereg := False\<rparr>))"

definition reconnected :: "string \<Rightarrow> nat \<Rightarrow> 'a oldcoll_scheme \<Rightarrow> 'a oldcoll_scheme res" where
  "reconnected cname c st =
     bindE (reregister cname c st) (\<lambda>st1. Inr (st1\<lparr>gnhastd_bev := oc_bev (oconns st c)\<rparr>))"

text \<open>The loss of a connection in \<^verbatim>\<open>connect_event_cb\<close>: the buffer is freed, the pointer to it stays.\<close>

definition connection_lost :: "bool \<Rightarrow> nat \<Rightarrow> nat \<Rightarrow> 'a oldcoll_scheme \<Rightarrow> 'a oldcoll_scheme res" where
  "connection_lost dnserr k c st =
     (if dnserr then Inl FatalExit
      else
        let st1 = free_bev k st
        in Inr (if \<not> oc_shutdown (oconns st1 c)
                then st1\<lparr>oneed_rereg := True, oretry := oretry st1 @ [c]\<rparr>
                else st1\<lparr>oexit := True\<rparr>))"

text \<open>The devices of the configuration, at the start.\<close>

definition load_devices :: "'a oldcoll_scheme \<Rightarrow> 'a oldcoll_scheme res" where
  "load_devices st =
     foldE (\<lambda>sec st.
         bindE (new_dev_from_conf (coll_conf st) (cs_title sec) st) (\<lambda>(found, st1).
           case found of
             None \<Rightarrow> Inl NullDeref
           | Some p \<Rightarrow> let st2 = insert_device p st1 in register_dev (server_bev st2) p st2))
       (cf_devices (coll_conf st)) st"

definition sigterm_server :: "'a oldcoll_scheme \<Rightarrow> 'a oldcoll_scheme res" where
  "sigterm_server st =
     (let st1 = upd_oconn (oserver st) (\<lambda>x. x\<lparr>oc_shutdown := True\<rparr>) st
      in write_bev (server_bev st1) gn_disconnect st1)"

section \<open>Between the loss and the next connection\<close>

lemma lost_leaves_buffer:
  assumes "server_bev st = Some k" and "connection_lost False k c st = Inr st1"
  shows "server_bev st1 = Some k" and "bufs st1 k = None" and "dmem st1 = dmem st" and "devtab st1 = devtab st"
  using assms by (auto simp: connection_lost_def free_bev_def server_bev_def Let_def split: if_splits)

lemma update_text_nonempty:
  assumes "d_name dev \<noteq> None" and "\<not> unregistered dev"
  obtains m where "gn_update_device dev GNC_NOSCALE = Inr m" and "m \<noteq> []"
  using assms noscale_bits by (auto simp: gn_update_device_def Let_def)

text \<open>Whatever is sent to the server while the connection is down goes to the freed buffer.\<close>

lemma send_after_loss:
  assumes "server_bev st = Some k" and "bufs st k = None"
    and "d_name (dmem st p) \<noteq> None" and "\<not> unregistered (dmem st p)"
  shows "send_update (server_bev st) p st = Inl UseAfterFree"
proof -
  obtain m where "gn_update_device (dmem st p) GNC_NOSCALE = Inr m" "m \<noteq> []"
    using update_text_nonempty [OF assms(3,4)] by blast
  then show ?thesis by (simp add: send_update_def send_msg_def write_bev_def assms(1,2))
qed

lemma sigterm_after_loss:
  assumes "server_bev st = Some k" and "bufs st k = None"
  shows "sigterm_server st = Inl UseAfterFree"
  using assms by (simp add: sigterm_server_def Let_def write_bev_def upd_oconn_def server_bev_def)

end
