(* ===== verification/Framing.thy ===== *)
theory Framing
  imports Prelude
begin

text \<open>
  Reading a byte stream in frames, as the read callbacks of the collectors do: look at the start of
  the buffer, wait for the rest of the frame, handle it, drain it, look again. The loop is shared;
  a collector supplies the test of the start and the handler. \<open>frames_of\<close> is the reference: cut the
  buffer into frames first, handle them afterwards.
\<close>

text \<open>
  What one look at the buffer leads to: the loop ends, the callback returns to wait for more, a
  frame of \<open>n\<close> bytes is there, or the iteration changes nothing and the next one looks at the
  same bytes.
\<close>

datatype look = Done | Wait | Frame nat | Stuck

text \<open>\<open>None\<close> where the loop never ends; \<open>True\<close> where it ended, \<open>False\<close> where the callback returned.\<close>

partial_function (option) stream_loop ::
    "(u8 list \<Rightarrow> look) \<Rightarrow> (u8 list \<Rightarrow> 's \<Rightarrow> 's res) \<Rightarrow> u8 list \<Rightarrow> 's \<Rightarrow> (bool \<times> u8 list \<times> 's) res option" where
  [code]: "stream_loop look handle buf st =
     (case look buf of
        Done \<Rightarrow> Some (Inr (True, buf, st))
      | Wait \<Rightarrow> Some (Inr (False, buf, st))
      | Frame n \<Rightarrow>
          (case handle (take n buf) st of
             Inl e \<Rightarrow> Some (Inl e)
           | Inr st1 \<Rightarrow> stream_loop look handle (drop n buf) st1)
      | Stuck \<Rightarrow> stream_loop look handle buf st)"

function frames_of :: "(u8 list \<Rightarrow> look) \<Rightarrow> u8 list \<Rightarrow> u8 list list \<times> u8 list" where
  "frames_of look buf =
     (case look buf of
        Frame n \<Rightarrow>
          if 0 < n \<and> n \<le> length buf
          then let (fs, rest) = frames_of look (drop n buf) in (take n buf # fs, rest)
          else ([], buf)
      | _ \<Rightarrow> ([], buf))"
  by pat_completeness auto
termination
  by (relation "measure (\<lambda>(look, buf). length buf)") auto

declare frames_of.simps [simp del]

definition read_frames ::
    "(u8 list \<Rightarrow> look) \<Rightarrow> (u8 list \<Rightarrow> 's \<Rightarrow> 's res) \<Rightarrow> u8 list \<Rightarrow> 's \<Rightarrow> (bool \<times> u8 list \<times> 's) res option" where
  "read_frames look handle buf st =
     (let (fs, rest) = frames_of look buf
      in case foldE handle fs st of
           Inl e \<Rightarrow> Some (Inl e)
         | Inr st1 \<Rightarrow> if look rest = Stuck then None else Some (Inr (look rest = Done, rest, st1)))"

text \<open>A stream that comes in pieces: each is put behind what the loop has left in the buffer.\<close>

fun feed_stream ::
    "(u8 list \<Rightarrow> look) \<Rightarrow> (u8 list \<Rightarrow> 's \<Rightarrow> 's res) \<Rightarrow> u8 list list \<Rightarrow> u8 list \<Rightarrow> 's \<Rightarrow>
      (u8 list \<times> 's) res option" where
  "feed_stream look handle [] buf st = Some (Inr (buf, st))"
| "feed_stream look handle (c # cs) buf st =
     (case stream_loop look handle (buf @ c) st of
        None \<Rightarrow> None
      | Some (Inl e) \<Rightarrow> Some (Inl e)
      | Some (Inr (d, rest, st1)) \<Rightarrow> feed_stream look handle cs rest st1)"

lemma stream_loop_stuck:
  assumes "look buf = Stuck"
  shows "stream_loop look handle buf st = None"
proof -
  have "look buf \<noteq> Stuck" if ret: "stream_loop look handle buf st = Some r" for r
    by (rule stream_loop.raw_induct [where P = "\<lambda>look handle buf st r. look buf \<noteq> Stuck", OF _ ret])
      (auto split: look.splits)
  with assms show ?thesis by (cases "stream_loop look handle buf st") auto
qed

text \<open>
  The test of the start of the buffer: a frame is never empty and wholly in the buffer, and what
  has been decided does not change when more bytes come in.
\<close>

locale framing =
  fixes look :: "u8 list \<Rightarrow> look"
  assumes frame_bounds: "look buf = Frame n \<Longrightarrow> 0 < n \<and> n \<le> length buf"
    and frame_stable: "look xs = Frame n \<Longrightarrow> look (xs @ ys) = Frame n"
    and stuck_stable: "look xs = Stuck \<Longrightarrow> look (xs @ ys) = Stuck"
begin

lemma frames_step:
  "look buf = Frame n \<Longrightarrow>
     frames_of look buf = (take n buf # fst (frames_of look (drop n buf)), snd (frames_of look (drop n buf)))"
  by (subst frames_of.simps) (simp add: frame_bounds split: prod.split)

lemma frames_stop: "(\<And>n. look buf \<noteq> Frame n) \<Longrightarrow> frames_of look buf = ([], buf)"
  by (subst frames_of.simps) (simp split: look.split)

lemma loop_reads_frames: "stream_loop look handle buf st = read_frames look handle buf st"
proof (induction buf arbitrary: st rule: length_induct)
  case (1 buf)
  show ?case
  proof (cases "look buf")
    case (Frame n)
    have "length (drop n buf) < length buf" using frame_bounds [OF Frame] by auto
    then have IH: "stream_loop look handle (drop n buf) st1 = read_frames look handle (drop n buf) st1" for st1
      using 1 by blast
    show ?thesis
      by (subst stream_loop.simps)
        (simp add: Frame IH read_frames_def frames_step split: sum.split prod.split)
  next
    case Stuck
    then show ?thesis by (simp add: stream_loop_stuck read_frames_def frames_stop)
  qed (subst stream_loop.simps, simp add: read_frames_def frames_stop)+
qed

lemma frames_append:
  "frames_of look (xs @ ys) =
     (fst (frames_of look xs) @ fst (frames_of look (snd (frames_of look xs) @ ys)),
      snd (frames_of look (snd (frames_of look xs) @ ys)))"
proof (induction xs rule: length_induct)
  case (1 xs)
  show ?case
  proof (cases "\<exists>n. look xs = Frame n")
    case True
    then obtain n where n: "look xs = Frame n" by blast
    note b = frame_bounds [OF n]
    then have "length (drop n xs) < length xs" by auto
    then have IH: "frames_of look (drop n xs @ ys) =
        (fst (frames_of look (drop n xs)) @ fst (frames_of look (snd (frames_of look (drop n xs)) @ ys)),
         snd (frames_of look (snd (frames_of look (drop n xs)) @ ys)))"
      using 1 by blast
    show ?thesis
      using b by (simp add: frames_step [OF n] frames_step [OF frame_stable [OF n]] IH)
  next
    case False
    then show ?thesis by (simp add: frames_stop)
  qed
qed

lemma loop_append:
  assumes "stream_loop look handle xs st = Some (Inr (d, rest, st1))"
  shows "stream_loop look handle (xs @ ys) st = stream_loop look handle (rest @ ys) st1"
proof -
  have fs: "snd (frames_of look xs) = rest" "foldE handle (fst (frames_of look xs)) st = Inr st1"
    using assms by (auto simp: loop_reads_frames read_frames_def split: prod.splits sum.splits if_splits)
  then show ?thesis
    by (simp add: loop_reads_frames read_frames_def frames_append [of xs ys] foldE_append split_beta)
qed

lemma feed_at_once:
  assumes "feed_stream look handle cs buf st = Some (Inr (rest, st1))" and "\<exists>d. stream_loop look handle buf st = Some (Inr (d, buf, st))"
  shows "\<exists>d. stream_loop look handle (buf @ concat cs) st = Some (Inr (d, rest, st1))"
  using assms
proof (induction cs arbitrary: buf st)
  case (Cons c cs)
  from Cons.prems(1) obtain d r st2 where
    loop: "stream_loop look handle (buf @ c) st = Some (Inr (d, r, st2))" and
    later: "feed_stream look handle cs r st2 = Some (Inr (rest, st1))"
    by (auto split: option.splits sum.splits)
  have "\<exists>d. stream_loop look handle r st2 = Some (Inr (d, r, st2))"
    using loop_append [OF loop, of "[]"] loop by (metis append_Nil2)
  from Cons.IH [OF later this] show ?case using loop_append [OF loop, of "concat cs"] by simp
qed simp

end

end
