(* ===== verification/Wmr918.thy ===== *)
theory Wmr918
  imports Oldconn Framing
begin

text \<open>
  \<^verbatim>\<open>wmr918coll/collector.c\<close>: the collector for WX200 and WMR918 weather stations. Bytes come in
  from a serial line or a network daemon; each checked frame is decoded into readings, which
  become devices the first time and updates afterwards.
\<close>

section \<open>State\<close>

datatype wmr_conntype = CONN_TYPE_WX200D | CONN_TYPE_WX200SERIAL | CONN_TYPE_WMRSERIAL | CONN_TYPE_GNHASTD

text \<open>
  \<open>clock_count\<close> is the static counter of \<^verbatim>\<open>wmr_handle_clock\<close>. The options are those of the
  section \<^verbatim>\<open>wmr918\<close>.
\<close>

record wmr = oldcoll +
  gotdata :: u32
  uidprefix :: string
  wmr_lastupd :: int
  clock_count :: int
  opt_tscale :: tscale
  opt_baroscale :: baroscale
  opt_lengthscale :: lengthscale
  opt_speedscale :: speedscale

text \<open>What the two variables that some frames leave unset hold, for each frame.\<close>

record wmr_env = cenv +
  we_thnum :: "u8 list \<Rightarrow> u32"
  we_wstatus :: "u8 list \<Rightarrow> int"

definition conf_parse_conntype :: "string \<Rightarrow> wmr_conntype option" where
  "conf_parse_conntype value =
     (if strcaseeq value ''net'' then Some CONN_TYPE_WX200D
      else if strcaseeq value ''wx200d'' then Some CONN_TYPE_WX200D
      else if value = ''wmr918'' then Some CONN_TYPE_WMRSERIAL
      else if value = ''wx200'' then Some CONN_TYPE_WX200SERIAL
      else if value = ''wx200serial'' then Some CONN_TYPE_WX200SERIAL
      else None)"

definition conf_print_conntype :: "wmr_conntype \<Rightarrow> string" where
  "conf_print_conntype t =
     (case t of CONN_TYPE_WX200D \<Rightarrow> ''wx200d'' | CONN_TYPE_WMRSERIAL \<Rightarrow> ''wmr918''
      | CONN_TYPE_WX200SERIAL \<Rightarrow> ''wx200'' | _ \<Rightarrow> ''wx200d'')"

section \<open>Readings\<close>

text \<open>A double or an \<^verbatim>\<open>int\<close>; the word at the address that \<^verbatim>\<open>store_data_dev\<close> is given.\<close>

datatype reading = DblVal dbl | IntVal int

fun reading_word :: "reading \<Rightarrow> u64" where
  "reading_word (DblVal x) = x"
| "reading_word (IntVal i) = ucast (word_of_int i :: u32)"

definition dev_uid :: "'a wmr_scheme \<Rightarrow> string \<Rightarrow> string" where
  "dev_uid st suffix = uidprefix st @ ''-'' @ suffix"

text \<open>The scale that \<^verbatim>\<open>new_dev\<close> gives a device; \<^verbatim>\<open>new_int_dev\<close> sets none.\<close>

definition reading_scale :: "'a wmr_scheme \<Rightarrow> subtype \<Rightarrow> reading \<Rightarrow> u8" where
  "reading_scale st sub v =
     (case v of
        IntVal _ \<Rightarrow> 0
      | DblVal _ \<Rightarrow>
          (case sub of
             SUBTYPE_TEMP \<Rightarrow> of_nat (enum_index (opt_tscale st) tscales)
           | SUBTYPE_PRESSURE \<Rightarrow> of_nat (enum_index (opt_baroscale st) baroscales)
           | SUBTYPE_SPEED \<Rightarrow> of_nat (enum_index (opt_speedscale st) speedscales)
           | SUBTYPE_RAINRATE \<Rightarrow> of_nat (enum_index (opt_lengthscale st) lengthscales)
           | _ \<Rightarrow> 0))"

definition sensor_device :: "'a wmr_scheme \<Rightarrow> subtype \<Rightarrow> reading \<Rightarrow> string \<Rightarrow> device" where
  "sensor_device st sub v suffix =
     (let uid = dev_uid st suffix
      in (new_device uid)\<lparr>d_loc := Some uid, d_type := dev_type_code DEVICE_SENSOR,
           d_proto := proto_code PROTO_SENSOR_WMR918, d_subtype := subtype_code sub,
           d_scale := reading_scale st sub v\<rparr>)"

text \<open>\<^verbatim>\<open>new_dev\<close> and \<^verbatim>\<open>new_int_dev\<close> have the same body, but for the scale.\<close>

definition add_reading :: "subtype \<Rightarrow> reading \<Rightarrow> string \<Rightarrow> 'a wmr_scheme \<Rightarrow> 'a wmr_scheme res" where
  "add_reading sub v suffix st =
     bindE (provide_device (sensor_device st sub v suffix) st) (\<lambda>(p, st1).
       let st2 = upd_dev p (\<lambda>d. store_data_dev d DATALOC_DATA (reading_word v)) st1
       in if \<not> odumping st2 \<and> d_name (dmem st2 p) \<noteq> None
          then bindE (send_register (server_bev st2) p st2) (send_update (server_bev st2) p)
          else Inr st2)"

definition new_dev :: "subtype \<Rightarrow> dbl \<Rightarrow> string \<Rightarrow> 'a wmr_scheme \<Rightarrow> 'a wmr_scheme res" where
  "new_dev sub v = add_reading sub (DblVal v)"

definition new_int_dev :: "subtype \<Rightarrow> int \<Rightarrow> string \<Rightarrow> 'a wmr_scheme \<Rightarrow> 'a wmr_scheme res" where
  "new_int_dev sub v = add_reading sub (IntVal v)"

definition store_reading :: "reading \<Rightarrow> string \<Rightarrow> 'a wmr_scheme \<Rightarrow> 'a wmr_scheme res" where
  "store_reading v suffix st =
     (case find_device_byuid st (dev_uid st suffix) of
        None \<Rightarrow> Inl FatalExit
      | Some p \<Rightarrow>
          let st1 = upd_dev p (\<lambda>d. store_data_dev d DATALOC_DATA (reading_word v)) st
          in if d_name (dmem st1 p) \<noteq> None then send_update (server_bev st1) p st1 else Inr st1)"

definition update_dev :: "dbl \<Rightarrow> string \<Rightarrow> 'a wmr_scheme \<Rightarrow> 'a wmr_scheme res" where
  "update_dev v = store_reading (DblVal v)"

definition update_int_dev :: "int \<Rightarrow> string \<Rightarrow> 'a wmr_scheme \<Rightarrow> 'a wmr_scheme res" where
  "update_int_dev v = store_reading (IntVal v)"

text \<open>
  The end of every handler: with no bit of \<open>flag\<close> in \<open>gotdata\<close> the readings become devices,
  otherwise they update them, in the order of the list.
\<close>

definition report :: "u32 \<Rightarrow> (subtype \<times> reading \<times> string) list \<Rightarrow> 'a wmr_scheme \<Rightarrow> 'a wmr_scheme res" where
  "report flag rs st =
     (if gotdata st AND flag = 0
      then foldE (\<lambda>(sub, v, suffix).
             case v of DblVal x \<Rightarrow> new_dev sub x suffix | IntVal i \<Rightarrow> new_int_dev sub i suffix) rs st
      else foldE (\<lambda>(sub, v, suffix).
             case v of DblVal x \<Rightarrow> update_dev x suffix | IntVal i \<Rightarrow> update_int_dev i suffix) rs st)"

definition DGROUP_ALL :: u32 where "DGROUP_ALL = 0x1F"

text \<open>Once the configuration is dumped the process ends.\<close>

definition maybe_dump_conf :: "cenv \<Rightarrow> bool \<Rightarrow> 'a wmr_scheme \<Rightarrow> 'a wmr_scheme res" where
  "maybe_dump_conf e forcedump st =
     (if (forcedump \<and> odumping st) \<or> (odumping st \<and> gotdata st = DGROUP_ALL)
      then bindE (dump_conf st 0 (ce_open e) (coll_conf st)) (\<lambda>_. Inl CleanExit)
      else Inr st)"

definition set_got :: "u32 \<Rightarrow> 'a wmr_scheme \<Rightarrow> 'a wmr_scheme" where
  "set_got flag st = st\<lparr>gotdata := gotdata st OR flag\<rparr>"

section \<open>Decoding numbers\<close>

text \<open>The macros \<^verbatim>\<open>BCDHI\<close> and \<^verbatim>\<open>BCDLO\<close>: the two digits of a byte.\<close>

definition BCDHI :: "u8 \<Rightarrow> int" where "BCDHI x = uint (x AND 0xF0) div 16"
definition BCDLO :: "u8 \<Rightarrow> int" where "BCDLO x = uint (x AND 0xF) mod 16"

text \<open>\<open>(d / 16) * 10 + (d % 16)\<close> in \<^verbatim>\<open>int\<close>, and the same without the factor.\<close>

definition bcd2 :: "u8 \<Rightarrow> int" where "bcd2 d = uint d div 16 * 10 + uint d mod 16"
definition bcd_sum :: "u8 \<Rightarrow> int" where "bcd_sum d = uint d div 16 + uint d mod 16"

abbreviation (input) tenths :: "int \<Rightarrow> dbl" where "tenths i \<equiv> dbl_div (dbl_of_int i) (dbl_lit 10 1)"
abbreviation (input) dtimes :: "int \<Rightarrow> nat \<Rightarrow> dbl" where
  "dtimes i k \<equiv> dbl_mul (dbl_of_int i) (dbl_lit k 1)"

definition wx2_calc_cs :: "u8 list \<Rightarrow> nat \<Rightarrow> u8" where
  "wx2_calc_cs data len = of_nat (sum_list (map unat (take (len - 1) data)) mod 256)"

text \<open>The station's value, made millibars by the format bits, then in the scale asked for.\<close>

definition baro_to_scale :: "baroscale \<Rightarrow> dbl \<Rightarrow> dbl" where
  "baro_to_scale bscale baro =
     (case bscale of
        BAROSCALE_IN \<Rightarrow> BARO_MBTOIN baro
      | BAROSCALE_MM \<Rightarrow> BARO_MBTOMM baro
      | BAROSCALE_CB \<Rightarrow> MBTOCB baro
      | BAROSCALE_MB \<Rightarrow> baro)"

definition wx2_calc_baro :: "baroscale \<Rightarrow> u8 \<Rightarrow> u8 \<Rightarrow> u8 \<Rightarrow> u8 \<Rightarrow> bool \<Rightarrow> dbl" where
  "wx2_calc_baro scale d1 d2 d3 format sealevel =
     (let baro = (if sealevel
                  then dbl_add (dbl_add (tenths (bcd2 d1)) (dtimes (bcd2 d2) 10))
                         (dtimes (uint (d3 AND 0xF) mod 16) 1000)
                  else dbl_add (dbl_of_int (bcd2 d1)) (dtimes (bcd_sum d2) 100));
          mb = (if format AND 0x30 = 0 then BARO_INTOMB baro
                else if format AND 0x30 = 0x10 then BARO_MMTOMB baro
                else baro)
      in baro_to_scale scale mb)"

definition wx2_calc_temp :: "tscale \<Rightarrow> u8 \<Rightarrow> u8 \<Rightarrow> u8 \<Rightarrow> dbl" where
  "wx2_calc_temp tscale d1 d2 format =
     (let t1 = dbl_add (tenths (uint (d1 AND 0xF) mod 16)) (dbl_of_int (uint d1 div 16));
          t2 = dbl_add t1 (dtimes (uint (d2 AND 0x7)) 10);
          temp = (if d2 AND 0x8 \<noteq> 0 then dbl_sub 0 t2 else t2)
      in if format AND 0x4 \<noteq> 0
         then (case tscale of TSCALE_C \<Rightarrow> FTOC temp | TSCALE_K \<Rightarrow> CTOK (FTOC temp) | _ \<Rightarrow> temp)
         else (case tscale of TSCALE_F \<Rightarrow> CTOF temp | TSCALE_K \<Rightarrow> CTOK temp | _ \<Rightarrow> temp))"

text \<open>A temperature the station gives in degrees Celsius.\<close>

definition celsius_to_scale :: "tscale \<Rightarrow> dbl \<Rightarrow> dbl" where
  "celsius_to_scale tscale t = (case tscale of TSCALE_F \<Rightarrow> CTOF t | TSCALE_K \<Rightarrow> CTOK t | _ \<Rightarrow> t)"

section \<open>WX200\<close>

definition DGROUP_HUMID :: u32 where "DGROUP_HUMID = push_bit 0 1"
definition DGROUP_TEMP :: u32 where "DGROUP_TEMP = push_bit 1 1"
definition DGROUP_BARO :: u32 where "DGROUP_BARO = push_bit 2 1"
definition DGROUP_RAIN :: u32 where "DGROUP_RAIN = push_bit 3 1"
definition DGROUP_WIND :: u32 where "DGROUP_WIND = push_bit 4 1"

definition wx2_handle_time :: "wmr_env \<Rightarrow> u8 list \<Rightarrow> 'a wmr_scheme \<Rightarrow> 'a wmr_scheme res" where
  "wx2_handle_time e data st = maybe_dump_conf (cenv.truncate e) False st"

definition wx2_handle_humid :: "wmr_env \<Rightarrow> u8 list \<Rightarrow> 'a wmr_scheme \<Rightarrow> 'a wmr_scheme res" where
  "wx2_handle_humid e data st =
     bindE (report DGROUP_HUMID
        [(SUBTYPE_HUMID, DblVal (dbl_of_int (bcd2 (data ! 8))), ''inhumid''),
         (SUBTYPE_HUMID, DblVal (dbl_of_int (bcd2 (data ! 20))), ''outhumid'')] st)
       (maybe_dump_conf (cenv.truncate e) False)"

definition wx2_handle_temp :: "wmr_env \<Rightarrow> u8 list \<Rightarrow> 'a wmr_scheme \<Rightarrow> 'a wmr_scheme res" where
  "wx2_handle_temp e data st =
     bindE (report DGROUP_TEMP
        [(SUBTYPE_TEMP, DblVal (wx2_calc_temp (opt_tscale st) (data ! 1) (data ! 2) (data ! 15)), ''intemp''),
         (SUBTYPE_TEMP, DblVal (wx2_calc_temp (opt_tscale st) (data ! 16) (data ! 17) (data ! 15)), ''outtemp'')] st)
       (maybe_dump_conf (cenv.truncate e) False)"

text \<open>
  Both pressures are already in the scale asked for when \<^verbatim>\<open>wx2_calc_baro\<close> returns them, and are
  converted once more.
\<close>

definition wx2_handle_baro :: "wmr_env \<Rightarrow> u8 list \<Rightarrow> 'a wmr_scheme \<Rightarrow> 'a wmr_scheme res" where
  "wx2_handle_baro e data st =
     (let tscale = opt_tscale st; bscale = opt_baroscale st;
          local = wx2_calc_baro bscale (data ! 1) (data ! 2) 0 (data ! 5) False;
          sealevel = wx2_calc_baro bscale (data ! 3) (data ! 4) (data ! 5) (data ! 5) True;
          idew = celsius_to_scale tscale (dbl_of_int (bcd2 (data ! 7)));
          odew = celsius_to_scale tscale (dbl_of_int (bcd2 (data ! 18)))
      in bindE (report DGROUP_BARO
           [(SUBTYPE_TEMP, DblVal idew, ''indew''), (SUBTYPE_TEMP, DblVal odew, ''outdew''),
            (SUBTYPE_PRESSURE, DblVal (baro_to_scale bscale local), ''localbaro''),
            (SUBTYPE_PRESSURE, DblVal (baro_to_scale bscale sealevel), ''sealevelbaro'')] st)
           (maybe_dump_conf (cenv.truncate e) False))"

definition wx2_length :: "lengthscale \<Rightarrow> u8 \<Rightarrow> dbl \<Rightarrow> dbl" where
  "wx2_length lscale format x =
     (if format AND 0x2 \<noteq> 0 \<and> lscale = LENGTH_MM then INTOMM x
      else if format AND 0x2 = 0 \<and> lscale = LENGTH_IN then MMTOIN x
      else x)"

text \<open>The tens digits of the amounts lack their factor in the source.\<close>

definition wx2_handle_rain :: "wmr_env \<Rightarrow> u8 list \<Rightarrow> 'a wmr_scheme \<Rightarrow> 'a wmr_scheme res" where
  "wx2_handle_rain e data st =
     (let conv = wx2_length (opt_lengthscale st) (data ! 10);
          rate = dbl_add (dbl_of_int (bcd_sum (data ! 1))) (dtimes (bcd_sum (data ! 2 AND 0xF)) 100);
          yest = dbl_add (dbl_of_int (bcd_sum (data ! 3))) (dtimes (bcd_sum (data ! 4)) 100);
          total = dbl_add (dbl_of_int (bcd_sum (data ! 5))) (dtimes (bcd_sum (data ! 6)) 100)
      in bindE (report DGROUP_RAIN
           [(SUBTYPE_RAINRATE, DblVal (conv rate), ''rain''),
            (SUBTYPE_RAINRATE, DblVal (conv yest), ''ydayrain''),
            (SUBTYPE_RAINRATE, DblVal (conv total), ''totalrain'')] st)
           (maybe_dump_conf (cenv.truncate e) False))"

text \<open>The speed in miles per hour, from the unit the format bits name.\<close>

definition wx2_mph :: "u8 \<Rightarrow> dbl \<Rightarrow> dbl" where
  "wx2_mph format x =
     (let f = format AND 0xC0
      in if f = 0x40 then KNOTSTOMPH x else if f = 0x80 then MSTOMPH x
         else if f = 0xC0 then KPHTOMPH x else x)"

definition mph_to_scale :: "speedscale \<Rightarrow> dbl \<Rightarrow> dbl" where
  "mph_to_scale sscale x =
     (case sscale of
        SPEED_KPH \<Rightarrow> MPHTOKPH x | SPEED_MS \<Rightarrow> MPHTOMS x | SPEED_KNOTS \<Rightarrow> MPHTOKNOTS x | SPEED_MPH \<Rightarrow> x)"

definition wx2_handle_wind :: "wmr_env \<Rightarrow> u8 list \<Rightarrow> 'a wmr_scheme \<Rightarrow> 'a wmr_scheme res" where
  "wx2_handle_wind e data st =
     (let conv = (\<lambda>x. mph_to_scale (opt_speedscale st) (wx2_mph (data ! 15) x));
          speed = (\<lambda>d1 d2. dbl_add (tenths (bcd2 d1)) (dtimes (uint (d2 AND 0xF) mod 16) 10));
          dir = (\<lambda>d1 d2. dbl_add (dbl_div (dbl_of_int (uint (d1 AND 0xF0))) (dbl_lit 16 1)) (dtimes (bcd2 d2) 10));
          windchill = celsius_to_scale (opt_tscale st) (dbl_of_int (bcd2 (data ! 16)))
      in bindE (report DGROUP_WIND
           [(SUBTYPE_SPEED, DblVal (conv (speed (data ! 1) (data ! 2))), ''windgust''),
            (SUBTYPE_SPEED, DblVal (conv (speed (data ! 4) (data ! 5))), ''windavg''),
            (SUBTYPE_DIR, DblVal (dir (data ! 2) (data ! 3)), ''windgustdir''),
            (SUBTYPE_DIR, DblVal (dir (data ! 5) (data ! 6)), ''windavgdir''),
            (SUBTYPE_TEMP, DblVal windchill, ''windchill'')] st)
           (maybe_dump_conf (cenv.truncate e) False))"

text \<open>The groups: first byte, size, handler, and the bit set afterwards.\<close>

definition wx2_size :: "u8 \<Rightarrow> nat option" where
  "wx2_size b =
     (if b = 0x8F then Some 35 else if b = 0x9F then Some 34 else if b = 0xAF then Some 31
      else if b = 0xBF then Some 14 else if b = 0xCF then Some 27 else if b = 0xFF then Some 5
      else None)"

definition wx2_handle :: "wmr_env \<Rightarrow> u8 list \<Rightarrow> 'a wmr_scheme \<Rightarrow> 'a wmr_scheme res" where
  "wx2_handle e data st =
     (let b = data ! 0; fin = (\<lambda>h flag. bindE (h e data st) (\<lambda>st1. Inr (set_got flag st1)))
      in if b = 0x8F then fin wx2_handle_humid DGROUP_HUMID
         else if b = 0x9F then fin wx2_handle_temp DGROUP_TEMP
         else if b = 0xAF then fin wx2_handle_baro DGROUP_BARO
         else if b = 0xBF then fin wx2_handle_rain DGROUP_RAIN
         else if b = 0xCF then fin wx2_handle_wind DGROUP_WIND
         else wx2_handle_time e data st)"

text \<open>A frame whose last byte is not the sum of the others is drained without being looked at.\<close>

definition checked :: "(u8 list \<Rightarrow> 's \<Rightarrow> 's res) \<Rightarrow> u8 list \<Rightarrow> 's \<Rightarrow> 's res" where
  "checked handle data st =
     (if wx2_calc_cs data (length data) = last data then handle data st else Inr st)"

definition wx2_look :: "u8 list \<Rightarrow> look" where
  "wx2_look buf =
     (case buf of
        [] \<Rightarrow> Done
      | b # _ \<Rightarrow>
          (case wx2_size b of
             None \<Rightarrow> Stuck
           | Some n \<Rightarrow> if length buf < n then Wait else Frame n))"

text \<open>A callback: the loop, and the time of the last update where the loop came to its end.\<close>

definition read_stream ::
    "(u8 list \<Rightarrow> look) \<Rightarrow> (u8 list \<Rightarrow> 'a wmr_scheme \<Rightarrow> 'a wmr_scheme res) \<Rightarrow> wmr_env \<Rightarrow> u8 list \<Rightarrow>
      'a wmr_scheme \<Rightarrow> (u8 list \<times> 'a wmr_scheme) res option" where
  "read_stream look handle e buf st =
     (case stream_loop look (checked handle) buf st of
        None \<Rightarrow> None
      | Some (Inl f) \<Rightarrow> Some (Inl f)
      | Some (Inr (ended, rest, st1)) \<Rightarrow>
          Some (Inr (rest, if ended then st1\<lparr>wmr_lastupd := ce_now e\<rparr> else st1)))"

definition wx2_buf_read_cb ::
    "wmr_env \<Rightarrow> u8 list \<Rightarrow> 'a wmr_scheme \<Rightarrow> (u8 list \<times> 'a wmr_scheme) res option" where
  "wx2_buf_read_cb e = read_stream wx2_look (wx2_handle e) e"

section \<open>WMR918\<close>

definition DWMR_WIND :: u32 where "DWMR_WIND = push_bit 0 1"
definition DWMR_RAIN :: u32 where "DWMR_RAIN = push_bit 1 1"
definition DWMR_TH :: "nat \<Rightarrow> u32" where "DWMR_TH i = push_bit (2 + i) 1"    \<comment> \<open>\<open>DWMR_TH0\<close> to \<open>DWMR_TH3\<close>\<close>
definition DWMR_MUSH :: u32 where "DWMR_MUSH = push_bit 6 1"
definition DWMR_T :: "nat \<Rightarrow> u32" where "DWMR_T i = push_bit (7 + i) 1"    \<comment> \<open>\<open>DWMR_T0\<close> to \<open>DWMR_T3\<close>\<close>
definition DWMR_THB :: u32 where "DWMR_THB = push_bit 11 1"
definition DWMR_MIN :: u32 where "DWMR_MIN = push_bit 12 1"
definition DWMR_CLOCK :: u32 where "DWMR_CLOCK = push_bit 13 1"
definition DWMR_EXTTHB :: u32 where "DWMR_EXTTHB = push_bit 14 1"

text \<open>The sum of digits with their weights, added from the left.\<close>

fun weigh :: "dbl \<Rightarrow> (int \<times> nat) list \<Rightarrow> dbl" where
  "weigh acc [] = acc"
| "weigh acc ((d, k) # ds) = weigh (dbl_add acc (if k = 1 then dbl_of_int d else dtimes d k)) ds"

definition wmr_calc_temp :: "tscale \<Rightarrow> u8 \<Rightarrow> u8 \<Rightarrow> dbl" where
  "wmr_calc_temp tscale d1 d2 =
     (let t = weigh (tenths (BCDLO d1)) [(BCDHI d1, 1), (BCDLO d2, 10), (uint (d2 AND 0x30), 100)];
          temp = (if d2 AND 0x80 \<noteq> 0 then dbl_sub 0 t else t)
      in celsius_to_scale tscale temp)"

definition battery_of :: "u8 \<Rightarrow> u8 \<Rightarrow> int" where "battery_of bits b = uint (b AND bits)"

definition bcd_dbl :: "u8 \<Rightarrow> dbl" where
  "bcd_dbl b = dbl_add (dbl_of_int (BCDLO b)) (dtimes (BCDHI b) 10)"

definition ms_to_scale :: "speedscale \<Rightarrow> dbl \<Rightarrow> dbl" where
  "ms_to_scale sscale x =
     (case sscale of
        SPEED_KPH \<Rightarrow> MPHTOKPH (MSTOMPH x) | SPEED_MPH \<Rightarrow> MSTOMPH x
      | SPEED_KNOTS \<Rightarrow> MPHTOKNOTS (MSTOMPH x) | SPEED_MS \<Rightarrow> x)"

definition wmr_handle_wind :: "u8 list \<Rightarrow> 'a wmr_scheme \<Rightarrow> 'a wmr_scheme res" where
  "wmr_handle_wind data st =
     (let dir = weigh (dbl_of_int (BCDLO (data ! 4))) [(BCDHI (data ! 4), 10), (BCDLO (data ! 5), 100)];
          gust = weigh (tenths (BCDHI (data ! 5))) [(BCDLO (data ! 6), 1), (BCDHI (data ! 6), 10)];
          avg = weigh (tenths (BCDLO (data ! 7))) [(BCDHI (data ! 7), 1), (BCDLO (data ! 8), 10)];
          chill = bcd_dbl (data ! 9);
          windchill = celsius_to_scale (opt_tscale st) (if data ! 8 AND 0x80 \<noteq> 0 then dbl_sub 0 chill else chill);
          conv = ms_to_scale (opt_speedscale st)
      in report DWMR_WIND
           [(SUBTYPE_SPEED, DblVal (conv gust), ''windgust''), (SUBTYPE_SPEED, DblVal (conv avg), ''windavg''),
            (SUBTYPE_DIR, DblVal dir, ''winddir''), (SUBTYPE_TEMP, DblVal windchill, ''windchill''),
            (SUBTYPE_SWITCH, IntVal (battery_of 0x40 (data ! 3)), ''windbattery'')] st)"

text \<open>
  The bit of a thermometer. A channel above 3 leaves the variable unset, except for the mushroom
  sensors, which all share one bit.
\<close>

definition wmr_thnum :: "wmr_env \<Rightarrow> u8 list \<Rightarrow> bool \<Rightarrow> u32" where
  "wmr_thnum e data hygro =
     (let channel = unat (data ! 3 AND 0xF)
      in if hygro \<and> data ! 2 = 0x03 then DWMR_MUSH
         else if 3 < channel then we_thnum e data
         else if hygro then DWMR_TH channel else DWMR_T channel)"

definition wmr_handle_th ::
    "wmr_env \<Rightarrow> u8 list \<Rightarrow> string \<Rightarrow> bool \<Rightarrow> 'a wmr_scheme \<Rightarrow> 'a wmr_scheme res" where
  "wmr_handle_th e data prefix hygro st =
     (let name = prefix @ int_dec (uint (data ! 3 AND 0xF));
          temp = wmr_calc_temp (opt_tscale st) (data ! 4) (data ! 5);
          thnum = wmr_thnum e data hygro
      in bindE (report thnum
           ([(SUBTYPE_TEMP, DblVal temp, name @ ''temp''),
             (SUBTYPE_SWITCH, IntVal (battery_of 0x40 (data ! 3)), name @ ''battery'')] @
            (if hygro
             then [(SUBTYPE_HUMID, DblVal (bcd_dbl (data ! 6)), name @ ''humid''),
                   (SUBTYPE_TEMP, DblVal (celsius_to_scale (opt_tscale st) (bcd_dbl (data ! 7))), name @ ''dew'')]
             else [])) st)
           (\<lambda>st1. Inr (if gotdata st AND thnum = 0 then set_got thnum st1 else st1)))"

text \<open>The forecast of the station; another code leaves the variable unset.\<close>

definition wmr_weather :: "wmr_env \<Rightarrow> u8 list \<Rightarrow> int \<Rightarrow> int" where
  "wmr_weather e data code =
     (if code = 0xC then 0 else if code = 0x6 then 1 else if code = 0x2 then 2 else if code = 0x3 then 3
      else we_wstatus e data)"

text \<open>The readings of the two barometers; \<open>pre\<close> are the names of the devices.\<close>

definition baro_readings ::
    "'a wmr_scheme \<Rightarrow> u8 list \<Rightarrow> dbl \<Rightarrow> dbl \<Rightarrow> int \<Rightarrow> string list \<Rightarrow> (subtype \<times> reading \<times> string) list" where
  "baro_readings st data baro seabaro wstatus names =
     (let tscale = opt_tscale st; bscale = opt_baroscale st
      in zip [SUBTYPE_HUMID, SUBTYPE_TEMP, SUBTYPE_TEMP, SUBTYPE_PRESSURE, SUBTYPE_PRESSURE, SUBTYPE_SWITCH,
              SUBTYPE_WEATHER]
          (zip [DblVal (bcd_dbl (data ! 6)), DblVal (wmr_calc_temp tscale (data ! 4) (data ! 5)),
                DblVal (celsius_to_scale tscale (bcd_dbl (data ! 7))),
                DblVal (baro_to_scale bscale baro), DblVal (baro_to_scale bscale seabaro),
                IntVal (battery_of 0x40 (data ! 3)), IntVal wstatus]
             names))"

definition wmr_handle_bth :: "wmr_env \<Rightarrow> u8 list \<Rightarrow> 'a wmr_scheme \<Rightarrow> 'a wmr_scheme res" where
  "wmr_handle_bth e data st =
     (let adcbaro = dbl_of_int (uint (data ! 8));
          seaoff = weigh (tenths (BCDLO (data ! 10)))
                     [(BCDHI (data ! 10), 1), (BCDLO (data ! 11), 10), (BCDHI (data ! 11), 100)];
          seabaro = (if dbl_lt seaoff (dbl_lit 400 1) then dbl_add (dbl_add adcbaro seaoff) (dbl_lit 1000 1)
                     else dbl_add adcbaro seaoff)
      in report DWMR_THB
           (baro_readings st data (dbl_add adcbaro (dbl_lit 795 1)) seabaro
              (wmr_weather e data (BCDLO (data ! 9)))
              [''thbhumid'', ''thbtemp'', ''thbdew'', ''thblocalbaro'', ''thbsealevelbaro'', ''thbbattery'',
               ''thbweather'']) st)"

definition wmr_handle_extbth :: "wmr_env \<Rightarrow> u8 list \<Rightarrow> 'a wmr_scheme \<Rightarrow> 'a wmr_scheme res" where
  "wmr_handle_extbth e data st =
     (let adcbaro = dbl_of_int (uint (data ! 8) + 256 * uint (data ! 9 AND 0x1));
          seaoff = weigh (tenths (BCDHI (data ! 10)))
                     [(BCDLO (data ! 11), 1), (BCDHI (data ! 11), 10), (BCDLO (data ! 12), 100),
                      (BCDHI (data ! 12), 1000)]
      in report DWMR_EXTTHB
           (baro_readings st data (dbl_add adcbaro (dbl_lit 600 1)) (dbl_add adcbaro seaoff)
              (wmr_weather e data (BCDHI (data ! 9)))
              [''inhumid'', ''intemp'', ''indew'', ''localbaro'', ''sealevelbaro'', ''inthbbattery'',
               ''inthbweather'']) st)"

definition wmr_handle_rain :: "u8 list \<Rightarrow> 'a wmr_scheme \<Rightarrow> 'a wmr_scheme res" where
  "wmr_handle_rain data st =
     (let rate = weigh (dbl_of_int (BCDLO (data ! 4))) [(BCDHI (data ! 4), 10), (BCDLO (data ! 5), 100)];
          yest = weigh (dbl_of_int (BCDLO (data ! 8)))
                   [(BCDHI (data ! 8), 10), (BCDLO (data ! 9), 100), (BCDHI (data ! 9), 1000)];
          total = dbl_sub (weigh (tenths (BCDHI (data ! 5)))
                    [(BCDLO (data ! 6), 1), (BCDHI (data ! 6), 10), (BCDLO (data ! 7), 100),
                     (BCDHI (data ! 7), 1000)]) (dbl_lit 5 10);
          conv = (\<lambda>x. if opt_lengthscale st = LENGTH_IN then MMTOIN x else x)
      in report DWMR_RAIN
           [(SUBTYPE_RAINRATE, DblVal (conv rate), ''rain''), (SUBTYPE_RAINRATE, DblVal (conv yest), ''ydayrain''),
            (SUBTYPE_RAINRATE, DblVal (conv total), ''totalrain''),
            (SUBTYPE_SWITCH, IntVal (battery_of 0x40 (data ! 3)), ''rainbattery'')] st)"

definition wmr_handle_clock :: "wmr_env \<Rightarrow> u8 list \<Rightarrow> 'a wmr_scheme \<Rightarrow> 'a wmr_scheme res" where
  "wmr_handle_clock e data st =
     bindE (report DWMR_MIN [(SUBTYPE_SWITCH, IntVal (battery_of 0x80 (data ! 3)), ''mainbattery'')] st) (\<lambda>st1.
       if odumping st1
       then bindE (if 1 < clock_count st1 then maybe_dump_conf (cenv.truncate e) True st1 else Inr st1) (\<lambda>st2.
              Inr (st2\<lparr>clock_count := clock_count st2 + 1\<rparr>))
       else Inr st1)"

definition wmr_size :: "u8 \<Rightarrow> nat option" where
  "wmr_size t =
     (if t = 0x00 then Some 11 else if t = 0x01 then Some 16 else if t = 0x02 then Some 9
      else if t = 0x03 then Some 9 else if t = 0x04 then Some 7 else if t = 0x05 then Some 13
      else if t = 0x0E then Some 5 else if t = 0x0F then Some 9 else if t = 0x06 then Some 14
      else None)"

definition wmr_handle :: "wmr_env \<Rightarrow> u8 list \<Rightarrow> 'a wmr_scheme \<Rightarrow> 'a wmr_scheme res" where
  "wmr_handle e data st =
     (let t = data ! 2; fin = (\<lambda>flag. map_sum id (set_got flag))
      in if t = 0x00 then fin DWMR_WIND (wmr_handle_wind data st)
         else if t = 0x01 then fin DWMR_RAIN (wmr_handle_rain data st)
         else if t = 0x02 then wmr_handle_th e data ''th'' True st
         else if t = 0x03 then wmr_handle_th e data ''outside'' True st
         else if t = 0x04 then wmr_handle_th e data ''temp'' False st
         else if t = 0x05 then fin DWMR_THB (wmr_handle_bth e data st)
         else if t = 0x0E then fin DWMR_MIN (wmr_handle_clock e data st)
         else if t = 0x0F then fin DWMR_CLOCK (wmr_handle_clock e data st)
         else fin DWMR_EXTTHB (wmr_handle_extbth e data st))"

definition wmr_look :: "u8 list \<Rightarrow> look" where
  "wmr_look buf =
     (case buf of
        b0 # b1 # t # _ \<Rightarrow>
          if b0 = 0xFF \<and> b1 = 0xFF
          then (case wmr_size t of
                  None \<Rightarrow> Stuck
                | Some n \<Rightarrow> if length buf < n then Wait else Frame n)
          else Done
      | _ \<Rightarrow> Done)"

definition wmr_buf_read_cb ::
    "wmr_env \<Rightarrow> u8 list \<Rightarrow> 'a wmr_scheme \<Rightarrow> (u8 list \<times> 'a wmr_scheme) res option" where
  "wmr_buf_read_cb e = read_stream wmr_look (wmr_handle e) e"

section \<open>Connections\<close>

definition wmr_is_ok :: "cenv \<Rightarrow> 'a wmr_scheme \<Rightarrow> bool" where
  "wmr_is_ok e st \<longleftrightarrow> ce_now e - wmr_lastupd st < 300"

definition health_cb :: "cenv \<Rightarrow> nat \<Rightarrow> 'a wmr_scheme \<Rightarrow> 'a wmr_scheme res" where
  "health_cb e c st =
     (if wmr_is_ok e st then write_bev (oc_bev (oconns st c)) gn_imalive st else Inr st)"

definition connect_server_cb :: "nat \<Rightarrow> 'a wmr_scheme \<Rightarrow> 'a wmr_scheme res" where
  "connect_server_cb c st =
     (let st1 = open_bev c st
      in if oc_role (oconns st1 c) = To_server then reconnected ''wmr918coll'' c st1 else Inr st1)"

text \<open>The station's connection over the network: on a loss it is opened again at once.\<close>

definition wx200d_connect_event_cb :: "conn_event \<Rightarrow> nat \<Rightarrow> nat \<Rightarrow> 'a wmr_scheme \<Rightarrow> 'a wmr_scheme res" where
  "wx200d_connect_event_cb what k c st =
     (case what of
        Ev_lost dnserr \<Rightarrow> if dnserr then Inl FatalExit else connect_server_cb c (free_bev k st)
      | _ \<Rightarrow> Inr st)"

text \<open>The connection to the server; unlike the network daemon it is retried after 30 seconds.\<close>

definition connect_event_cb :: "conn_event \<Rightarrow> nat \<Rightarrow> nat \<Rightarrow> 'a wmr_scheme \<Rightarrow> 'a wmr_scheme res" where
  "connect_event_cb what k c st =
     (case what of
        Ev_connected \<Rightarrow>
          Inr (if oc_role (oconns st c) = To_server then st\<lparr>ohealth := ohealth st @ [c]\<rparr> else st)
      | Ev_lost dnserr \<Rightarrow> connection_lost dnserr k c st
      | Ev_other \<Rightarrow> Inr st)"

definition parse_devices :: "'a wmr_scheme \<Rightarrow> 'a wmr_scheme res" where
  "parse_devices st = load_devices st"

definition cb_shutdown :: "'a wmr_scheme \<Rightarrow> 'a wmr_scheme" where
  "cb_shutdown st = st\<lparr>oexit := True\<rparr>"

definition cb_sigterm :: "'a wmr_scheme \<Rightarrow> 'a wmr_scheme res" where
  "cb_sigterm st = bindE (sigterm_server st) (\<lambda>st1. Inr (st1\<lparr>ostop := ostop st1 + 1\<rparr>))"

end
