(* ===== verification/Weather.thy ===== *)
theory Weather
  imports Wmr918 Runs
begin

text \<open>
  The collector for weather stations: its streams are framed, so the readings do not depend on how
  the bytes come in, and what happens on a frame nobody expects.
\<close>

section \<open>The two streams are framed\<close>

lemma wx2_size_pos: "wx2_size b = Some n \<Longrightarrow> 0 < n"
  by (auto simp: wx2_size_def split: if_splits)

lemma wmr_size_pos: "wmr_size b = Some n \<Longrightarrow> 0 < n"
  by (auto simp: wmr_size_def split: if_splits)

interpretation wx2: framing wx2_look
  by unfold_locales
    (auto simp: wx2_look_def wx2_size_pos split: list.splits option.splits if_splits)

interpretation wmr918: framing wmr_look
  by unfold_locales
    (auto simp: wmr_look_def wmr_size_pos split: list.splits option.splits if_splits)

section \<open>A first station\<close>

definition first_station :: wmr where
  "first_station = registry.extend empty_registry
     \<lparr>bufs = [0 \<mapsto> []], bufnext = 1, gnhastd_bev = Some 0, coll_alarms = [],
      coll_conf = no_conf, coll_conf_file = None, min_proto_version = 0, rrd_freed = (\<lambda>_. False),
      oconns = (\<lambda>_. \<lparr>oc_role = To_server, oc_bev = Some 0, oc_shutdown = False\<rparr>),
      oserver = 0, oneed_rereg = False, oinstance = 1, odumping = False, oretry = [], ohealth = [],
      ostop = 0, oexit = False, gotdata = 0, uidprefix = ''wmr918'',
      wmr_lastupd = 0, clock_count = 0, opt_tscale = TSCALE_F,
      opt_baroscale = BAROSCALE_MB, opt_lengthscale = LENGTH_IN, opt_speedscale = SPEED_MPH\<rparr>"

definition quiet_env :: wmr_env where
  "quiet_env = \<lparr>ce_now = 100, ce_open = True, we_thnum = (\<lambda>_. 0), we_wstatus = (\<lambda>_. 0)\<rparr>"

text \<open>A minute message in three pieces.\<close>

definition minute_pieces :: "u8 list list" where
  "minute_pieces = [[0xFF], [0xFF, 0x0E], [0x80, 0x8C]]"

section \<open>Properties\<close>

text \<open>
  C31. The WX200 callback reads the frames at the start of its buffer, in order, each handled when
  its checksum is right and skipped when it is not, and leaves an incomplete last frame in the
  buffer. It never returns exactly when, after the complete frames, the next byte starts no group
  it knows: nothing drains that byte.
\<close>

theorem wx2_reads_frames:
  "wx2_buf_read_cb e buf st =
     (let (fs, rest) = frames_of wx2_look buf
      in case foldE (checked (wx2_handle e)) fs st of
           Inl f \<Rightarrow> Some (Inl f)
         | Inr st1 \<Rightarrow>
             if rest = [] then Some (Inr ([], st1\<lparr>wmr_lastupd := ce_now e\<rparr>))
             else if wx2_size (hd rest) = None then None
             else Some (Inr (rest, st1)))"
proof -
  obtain fs rest where fr: "frames_of wx2_look buf = (fs, rest)" by fastforce
  have "wx2_look rest = Stuck \<longleftrightarrow> rest \<noteq> [] \<and> wx2_size (hd rest) = None" "wx2_look rest = Done \<longleftrightarrow> rest = []"
    by (cases rest; auto simp: wx2_look_def split: option.splits)+
  then show ?thesis
    unfolding wx2_buf_read_cb_def read_stream_def wx2.loop_reads_frames read_frames_def fr
    by (cases "foldE (checked (wx2_handle e)) fs st"; cases "rest = []") simp_all
qed

text \<open>
  C32. What the WMR918 collector makes of a stream does not depend on the pieces in which the serial
  line delivers it: fed piece by piece it ends with the same bytes left over and the same state as
  when all of it is in the buffer at once.
\<close>

theorem wmr_pieces:
  assumes "feed_stream wmr_look (checked (wmr_handle e)) cs [] st = Some (Inr (rest, st1))"
  shows "\<exists>d. stream_loop wmr_look (checked (wmr_handle e)) (concat cs) st = Some (Inr (d, rest, st1))"
proof -
  have "stream_loop wmr_look (checked (wmr_handle e)) [] st = Some (Inr (True, [], st))"
    by (subst stream_loop.simps) (simp add: wmr_look_def)
  then show ?thesis using wmr918.feed_at_once [OF assms] by fastforce
qed

theorem wmr_pieces_witness:
  "\<exists>d st1. stream_loop wmr_look (checked (wmr_handle quiet_env)) (concat minute_pieces) first_station =
       Some (Inr (d, [], st1)) \<and> devtab st1 ''wmr918-mainbattery'' = Some 0"
proof -
  let ?r = "feed_stream wmr_look (checked (wmr_handle quiet_env)) minute_pieces [] first_station"
  have "map_option (map_sum id (\<lambda>(rest, st). (rest, devtab st ''wmr918-mainbattery''))) ?r = Some (Inr ([], Some 0))"
    by code_simp
  then obtain st1 where "?r = Some (Inr ([], st1))" "devtab st1 ''wmr918-mainbattery'' = Some 0"
    by (cases ?r; cases "the ?r") auto
  then show ?thesis using wmr_pieces by blast
qed

text \<open>
  The loss of the server's connection is noticed, its buffer freed, and the next connection made
  30 seconds later; a frame or a signal that comes in between writes to the freed buffer.
\<close>

lemma update_after_loss:
  assumes "server_bev st = Some k" and "connection_lost False k c st = Inr st1" and "uidprefix st1 = uidprefix st"
    and "devtab st (dev_uid st suffix) = Some p" and "d_name (dmem st p) \<noteq> None" and "\<not> unregistered (dmem st p)"
  shows "store_reading v suffix st1 = Inl UseAfterFree"
proof -
  note l = lost_leaves_buffer [OF assms(1,2)]
  let ?st = "upd_dev p (\<lambda>d. store_data_dev d DATALOC_DATA (reading_word v)) st1"
  have "send_update (server_bev ?st) p ?st = Inl UseAfterFree"
    by (rule send_after_loss) (use l assms(5,6) in \<open>simp_all add: upd_dev_def server_bev_def unregistered_def\<close>)
  then show ?thesis
    using assms l by (simp add: store_reading_def find_eta dev_uid_def Let_def upd_dev_def server_bev_def)
qed

end
