(* ===== verification/Scan.thy ===== *)
theory Scan
  imports Common Netparser
begin

text \<open>
  Reading text the way the collectors do: lines from a buffer, substrings, and the conversions of
  \<^verbatim>\<open>sscanf\<close>.
\<close>

section \<open>Lines\<close>

text \<open>\<^verbatim>\<open>evbuffer_readln\<close> with \<^verbatim>\<open>EVBUFFER_EOL_CRLF\<close>: a line, without its end, and what follows it.\<close>

definition readln :: "u8 list \<Rightarrow> (u8 list \<times> u8 list) option" where
  "readln bs =
     (case dropWhile (\<lambda>b. b \<noteq> 10) bs of
        [] \<Rightarrow> None
      | _ # rest \<Rightarrow>
          let l = takeWhile (\<lambda>b. b \<noteq> 10) bs
          in Some (if l \<noteq> [] \<and> last l = 13 then butlast l else l, rest))"

definition text_of :: "u8 list \<Rightarrow> string" where
  "text_of bs = c_string (map (\<lambda>b. char_of (unat b)) bs)"

lemma readln_shorter:
  assumes "readln bs = Some (l, rest)"
  shows "length rest < length bs"
proof (cases "dropWhile (\<lambda>b. b \<noteq> 10) bs")
  case Nil
  with assms show ?thesis by (simp add: readln_def)
next
  case (Cons x xs)
  then have "length (x # xs) \<le> length bs" using length_dropWhile_le [of "\<lambda>b. b \<noteq> 10" bs] by simp
  moreover have "rest = xs" using assms Cons by (simp add: readln_def Let_def)
  ultimately show ?thesis by simp
qed

section \<open>Substrings\<close>

text \<open>Whether \<^verbatim>\<open>strstr\<close> and \<^verbatim>\<open>strcasestr\<close> find the text \<open>w\<close>.\<close>

fun strstr :: "string \<Rightarrow> string \<Rightarrow> bool" where
  "strstr w [] = (w = [])"
| "strstr w (c # s) = (take (length w) (c # s) = w \<or> strstr w s)"

definition strcasestr :: "string \<Rightarrow> string \<Rightarrow> bool" where
  "strcasestr w s = strstr (map c_tolower w) (map c_tolower s)"

lemma strstr_iff: "strstr w s \<longleftrightarrow> (\<exists>a b. s = a @ w @ b)"
proof
  show "strstr w s \<Longrightarrow> \<exists>a b. s = a @ w @ b"
  proof (induction s)
    case (Cons c s)
    show ?case
    proof (cases "take (length w) (c # s) = w")
      case True
      then have "c # s = [] @ w @ drop (length w) (c # s)" by (metis append_Nil append_take_drop_id)
      then show ?thesis by blast
    next
      case False
      with Cons obtain a b where "s = a @ w @ b" by auto
      then have "c # s = (c # a) @ w @ b" by simp
      then show ?thesis by blast
    qed
  qed simp
next
  have "strstr w (a @ w @ b)" for a b
  proof (induction a)
    case Nil
    have "take (length w) (w @ b) = w" by simp
    then show ?case by (cases "w @ b") auto
  qed simp
  then show "\<exists>a b. s = a @ w @ b \<Longrightarrow> strstr w s" by blast
qed

lemma strstr_part: "strstr w s \<Longrightarrow> strstr w (a @ s @ b)"
  unfolding strstr_iff by (metis append.assoc)

lemma strcasestr_part: "strcasestr w s \<Longrightarrow> strcasestr w (a @ s @ b)"
  unfolding strcasestr_def by (simp add: strstr_part)

text \<open>A token is a part of the text.\<close>

lemma strtok_part: "t \<in> set (strtok d s) \<Longrightarrow> \<exists>a b. s = a @ t @ b"
proof (induction d s rule: strtok.induct)
  case (2 d c s)
  show ?case
  proof (cases "c = d")
    case True
    with 2 obtain a b where "s = a @ t @ b" by auto
    then have "c # s = (c # a) @ t @ b" by simp
    then show ?thesis by blast
  next
    case False
    let ?w = "c # takeWhile (\<lambda>x. x \<noteq> d) s" and ?r = "dropWhile (\<lambda>x. x \<noteq> d) s"
    have s: "c # s = ?w @ ?r" by simp
    show ?thesis
    proof (cases "t = ?w")
      case True
      with s have "c # s = [] @ t @ ?r" by simp
      then show ?thesis by blast
    next
      case other: False
      with 2 False obtain a b where "?r = a @ t @ b" by auto
      then have "c # s = (?w @ a) @ t @ b" using s by simp
      then show ?thesis by blast
    qed
  qed
qed simp

lemma strcasestr_token: "t \<in> set (strtok d s) \<Longrightarrow> strcasestr w t \<Longrightarrow> strcasestr w s"
  using strtok_part strcasestr_part by metis

section \<open>Numbers\<close>

text \<open>\<^verbatim>\<open>%d\<close>: the number and what follows it, \<open>None\<close> where nothing matches.\<close>

definition scan_d :: "string \<Rightarrow> (u32 \<times> string) option" where
  "scan_d s =
     (let t = snd (scan_sign (dropWhile is_space s))
      in if takeWhile is_digit t = [] then None else Some (c_atoi s, dropWhile is_digit t))"

text \<open>
  \<^verbatim>\<open>sscanf\<close> with \<^verbatim>\<open>%x\<close>: blanks, a sign, a prefix, and hexadecimal digits. The value is that of
  \<^verbatim>\<open>strtoul\<close>, which stops at the largest 64-bit number, cut to 32 bits.
\<close>

definition is_hex :: "char \<Rightarrow> bool" where
  "is_hex c \<longleftrightarrow> is_digit c \<or> (97 \<le> chr_code c \<and> chr_code c \<le> 102) \<or> (65 \<le> chr_code c \<and> chr_code c \<le> 70)"

definition hex_number :: "string \<Rightarrow> nat" where
  "hex_number s = fold (\<lambda>c n. n * 16 + unat (hexof c)) s 0"

definition scan_x :: "string \<Rightarrow> (u32 \<times> string) option" where
  "scan_x s =
     (let s1 = dropWhile is_space s;
          (neg, s2) = (case s1 of c # r \<Rightarrow> if c = CHR ''-'' then (True, r) else if c = CHR ''+'' then (False, r) else (False, s1)
                       | [] \<Rightarrow> (False, []));
          s3 = (if map c_tolower (take 2 s2) = ''0x'' \<and> takeWhile is_hex (drop 2 s2) \<noteq> [] then drop 2 s2 else s2);
          ds = takeWhile is_hex s3; v = hex_number ds
      in if ds = [] then None
         else Some (if 2 ^ 64 \<le> v then 0xFFFFFFFF else if neg then - of_nat v else of_nat v, dropWhile is_hex s3))"

end
