(* ===== verification/Brulcoll.thy ===== *)
theory Brulcoll
  imports Oldconn Scan
begin

text \<open>
  \<^verbatim>\<open>brulcoll/collector.c\<close>: the collector for Brultech energy monitors. The monitor is set up by a
  dialogue of commands and answers, each answer leading to the next command; then it sends binary
  packets with the counters of its channels, from which energy and power of each are worked out.
\<close>

section \<open>State\<close>

datatype brul_mode =
    MODE_NONE | MODE_RTON | MODE_RTOFF | MODE_PKT | MODE_IVL | MODE_SRN | MODE_TEMPTYPE | MODE_TST
  | MODE_PST | MODE_CMX | MODE_DATA | MODE_WAITREADY | MODE_ECMREADY | MODE_WAITTOG | MODE_ECMTOG | MODE_ECMDATA

text \<open>\<open>mode < BRUL_MODE_DATA\<close>.\<close>

definition setting_up :: "brul_mode \<Rightarrow> bool" where
  "setting_up m \<longleftrightarrow>
     m \<in> {MODE_NONE, MODE_RTON, MODE_RTOFF, MODE_PKT, MODE_IVL, MODE_SRN, MODE_TEMPTYPE, MODE_TST, MODE_PST, MODE_CMX}"

datatype brul_model = BRUL_MODEL_GEM | BRUL_MODEL_ECM1240
datatype brul_comm = BRUL_COMM_NET | BRUL_COMM_SERIAL
datatype brul_temp = BRUL_TEMP_F | BRUL_TEMP_C

record bruldata =
  bd_channel :: "int list"
  bd_polar :: "int list"
  bd_voltage :: dbl
  bd_seconds :: int
  bd_temp :: "dbl list"
  bd_pulse :: "int list"
  bd_serial :: int

text \<open>
  The fields of \<^verbatim>\<open>brulconf\<close>, of the connection to the monitor and its input, the current and the
  previous data, and the state of the reset over the network adapter. \<open>wiz_out\<close> are the datagrams
  handed to the event loop.
\<close>

record brul = oldcoll +
  br_net :: nat
  br_mode :: brul_mode
  br_tempbase :: brul_temp
  br_pkttype :: int
  br_input :: "u8 list"
  nrofchannels :: int
  validtemp :: u32
  validpulse :: u32
  br_serial :: int
  br_cur :: bruldata
  br_prev :: bruldata
  br_lastupd :: int
  br_tempscale :: tscale
  br_update :: int
  br_model :: brul_model
  br_comm :: brul_comm
  gemconnattempts :: int
  gemipaddr :: "u8 list"
  wiz_fd_open :: bool
  wizresetbuf :: "u8 list option"
  wiz_out :: "u8 list list"

definition brul_bev :: "'a brul_scheme \<Rightarrow> nat option" where
  "brul_bev st = oc_bev (oconns st (br_net st))"

definition conf_parse_brul_model :: "string \<Rightarrow> brul_model option" where
  "conf_parse_brul_model value =
     (if strcaseeq value ''gem'' then Some BRUL_MODEL_GEM
      else if strcaseeq value ''ecm1240'' then Some BRUL_MODEL_ECM1240
      else None)"

definition conf_print_brul_model :: "brul_model \<Rightarrow> string" where
  "conf_print_brul_model m = (case m of BRUL_MODEL_GEM \<Rightarrow> ''gem'' | BRUL_MODEL_ECM1240 \<Rightarrow> ''ecm1240'')"

definition conf_parse_brul_conn :: "string \<Rightarrow> brul_comm option" where
  "conf_parse_brul_conn value =
     (if strcaseeq value ''net'' then Some BRUL_COMM_NET
      else if value = ''serial'' then Some BRUL_COMM_SERIAL
      else None)"

definition conf_print_brul_conn :: "brul_comm \<Rightarrow> string" where
  "conf_print_brul_conn c = (case c of BRUL_COMM_SERIAL \<Rightarrow> ''serial'' | BRUL_COMM_NET \<Rightarrow> ''net'')"

section \<open>The dialogue\<close>

text \<open>The next command and the mode in which its answer is awaited.\<close>

definition gem_command :: "'a brul_scheme \<Rightarrow> string \<times> brul_mode" where
  "gem_command st =
     (case br_mode st of
        MODE_NONE \<Rightarrow> (''^^^SYSOFF'' @ [newline], MODE_RTOFF)
      | MODE_RTOFF \<Rightarrow> (''^^^SYSPKT'' @ fmt_prec 2 (br_pkttype st) @ [newline], MODE_PKT)
      | MODE_PKT \<Rightarrow> (''^^^SYSIVL'' @ fmt_prec 3 (br_update st) @ [newline], MODE_IVL)
      | MODE_IVL \<Rightarrow> (''^^^RQSSRN'' @ [newline], MODE_SRN)
      | MODE_SRN \<Rightarrow>
          ((if br_tempbase st = BRUL_TEMP_F then ''^^^TMPDGF'' else ''^^^TMPDGC'') @ [newline], MODE_TEMPTYPE)
      | MODE_TEMPTYPE \<Rightarrow> (''^^^RQSTST'' @ [newline], MODE_TST)
      | MODE_TST \<Rightarrow> (''^^^RQSPST'' @ [newline], MODE_PST)
      | MODE_PST \<Rightarrow> (''^^^RQSCMX'' @ [newline], MODE_CMX)
      | MODE_CMX \<Rightarrow> (''^^^SYS_ON'' @ [newline], MODE_RTON)
      | m \<Rightarrow> ([], m))"

definition brul_setup_gem :: "'a brul_scheme \<Rightarrow> 'a brul_scheme res" where
  "brul_setup_gem st =
     (let (cmd, m) = gem_command st
      in write_bev (brul_bev st) cmd (st\<lparr>br_mode := m, br_input := []\<rparr>))"

definition brul_setup_ecm :: "'a brul_scheme \<Rightarrow> 'a brul_scheme res" where
  "brul_setup_ecm st =
     (let (cmd, m) = (case br_mode st of
                        MODE_NONE \<Rightarrow> ([char_of (0xFC :: nat)], MODE_WAITREADY)
                      | MODE_ECMREADY \<Rightarrow> (''TOG'', MODE_WAITTOG)
                      | MODE_ECMTOG \<Rightarrow> (''XTD'', MODE_ECMDATA)
                      | m \<Rightarrow> ([], m))
      in write_bev (brul_bev st) cmd (st\<lparr>br_mode := m, br_input := []\<rparr>))"

section \<open>Devices\<close>

definition brul_device ::
    "proto \<Rightarrow> subtype \<Rightarrow> u8 \<Rightarrow> string option \<Rightarrow> string option \<Rightarrow> string \<Rightarrow> 'a brul_scheme \<Rightarrow> 'a brul_scheme res" where
  "brul_device proto sub scale name rrdname uid st =
     bindE (provide_device
              ((new_device uid)\<lparr>d_name := name, d_rrdname := rrdname, d_proto := proto_code proto,
                 d_type := dev_type_code DEVICE_SENSOR, d_subtype := subtype_code sub, d_scale := scale\<rparr>) st)
       (\<lambda>(p, st1). register_dev (server_bev st1) p st1)"

text \<open>
  The enabled temperature or pulse probes, \<open>0\<close> or \<open>1\<close> for each, counted down from the last.
\<close>

definition enable_probe :: "bool \<Rightarrow> nat \<Rightarrow> 'a brul_scheme \<Rightarrow> 'a brul_scheme res" where
  "enable_probe tst t st =
     (if tst
      then brul_device PROTO_SENSOR_BRULTECH_GEM SUBTYPE_TEMP (of_nat (enum_index (br_tempscale st) tscales)) None None
             (fmt_prec 8 (br_serial st) @ ''-t'' @ nat_dec t)
             (st\<lparr>validtemp := validtemp st + push_bit t 1\<rparr>)
      else brul_device PROTO_SENSOR_BRULTECH_GEM SUBTYPE_COUNTER 0 None None
             (fmt_prec 8 (br_serial st) @ ''-p'' @ nat_dec t)
             (st\<lparr>validpulse := validpulse st + push_bit t 1\<rparr>))"

fun tstpst_loop :: "bool \<Rightarrow> nat \<Rightarrow> string \<Rightarrow> 'a brul_scheme \<Rightarrow> 'a brul_scheme res" where
  "tstpst_loop tst t [] st = Inr st"
| "tstpst_loop tst 0 (c # s) st = Inr st"
| "tstpst_loop tst (Suc t) (c # s) st =
     (if c = CHR 0x0D \<or> c = newline then Inr st
      else if c = CHR ''0'' then tstpst_loop tst t s st
      else bindE (enable_probe tst (Suc t) st) (tstpst_loop tst t s))"

definition brul_handle_tstpst :: "bool \<Rightarrow> string \<Rightarrow> 'a brul_scheme \<Rightarrow> 'a brul_scheme res" where
  "brul_handle_tstpst tst data st = tstpst_loop tst (if tst then 8 else 4) data st"

text \<open>A device has a name of its own only in a configuration about to be dumped.\<close>

definition named_device ::
    "proto \<Rightarrow> subtype \<Rightarrow> string \<Rightarrow> string \<Rightarrow> string \<Rightarrow> 'a brul_scheme \<Rightarrow> 'a brul_scheme res" where
  "named_device proto sub uid name rrdname st =
     (let opt = (\<lambda>s. if odumping st then Some s else None)
      in brul_device proto sub 0 (opt name) (opt rrdname) (fmt_prec 8 (br_serial st) @ uid) st)"

definition brul_build_devices :: "int \<Rightarrow> int \<Rightarrow> proto \<Rightarrow> 'a brul_scheme \<Rightarrow> 'a brul_scheme res" where
  "brul_build_devices channels amps proto st =
     bindE (foldE (\<lambda>i st.
              let n = int_dec (int i); nn = fmt_prec 2 (int i)
              in bindE (named_device proto SUBTYPE_WATTSEC (''-c'' @ nn) (''brultech wattsec '' @ n) (''brulwsec'' @ nn) st)
                   (named_device proto SUBTYPE_WATT (''-w'' @ nn) (''brultech watt '' @ n) (''brulwatt'' @ nn)))
            [0..<nat channels] st) (\<lambda>st1.
     bindE (foldE (\<lambda>i.
              let n = int_dec (int i); nn = fmt_prec 2 (int i)
              in named_device proto SUBTYPE_AMPS (''-a'' @ nn) (''brultech amps '' @ n) (''brulamp'' @ nn))
            [0..<nat amps] st1) (\<lambda>st2.
     bindE (named_device proto SUBTYPE_COUNTER ''-sec'' ''brultech seconds counter'' ''brulsec'' st2)
       (named_device proto SUBTYPE_VOLTAGE ''-volt'' ''brultech voltage'' ''brulvolt'')))"

section \<open>Packets\<close>

definition le_int :: "u8 list \<Rightarrow> int" where
  "le_int bs = foldr (\<lambda>b n. int (unat b) + 256 * n) bs 0"

definition be_int :: "u8 list \<Rightarrow> int" where
  "be_int bs = le_int (rev bs)"

text \<open>\<open>n\<close> members of \<open>size\<close> bytes each from the offset \<open>off\<close> of a packed structure.\<close>

definition members :: "nat \<Rightarrow> nat \<Rightarrow> nat \<Rightarrow> u8 list \<Rightarrow> u8 list list" where
  "members off sz n bs = map (\<lambda>i. take sz (drop (off + sz * i) bs)) [0..<n]"

definition field_at :: "nat \<Rightarrow> nat \<Rightarrow> u8 list \<Rightarrow> u8 list" where
  "field_at off sz bs = take sz (drop off bs)"

text \<open>
  \<^verbatim>\<open>evbuffer_remove\<close> into a cleared structure: what is missing in the buffer stays zero.
\<close>

definition remove_struct :: "nat \<Rightarrow> u8 list \<Rightarrow> u8 list \<times> u8 list" where
  "remove_struct sz input =
     (let got = take sz input in (got @ replicate (sz - length got) 0, drop sz input))"

text \<open>The places of the fields in the packets of the two formats of the GEM.\<close>

record gem_layout =
  gl_size :: nat
  gl_chans :: nat
  gl_channel :: nat
  gl_polar :: nat
  gl_serial :: nat
  gl_seconds :: nat
  gl_pulse :: nat
  gl_temp :: nat
  gl_footer :: nat

definition gem_polar32 :: gem_layout where
  "gem_polar32 = \<lparr>gl_size = 429, gl_chans = 32, gl_channel = 5, gl_polar = 165, gl_serial = 325, gl_seconds = 393,
     gl_pulse = 396, gl_temp = 408, gl_footer = 426\<rparr>"

definition gem_polar48dt :: gem_layout where
  "gem_polar48dt = \<lparr>gl_size = 625, gl_chans = 48, gl_channel = 5, gl_polar = 245, gl_serial = 485, gl_seconds = 585,
     gl_pulse = 588, gl_temp = 600, gl_footer = 622\<rparr>"

text \<open>The first \<open>n\<close> elements of an array are overwritten; the test says which of them.\<close>

definition overwrite :: "(nat \<Rightarrow> bool) \<Rightarrow> 'v list \<Rightarrow> 'v list \<Rightarrow> 'v list" where
  "overwrite sel new old = map (\<lambda>i. if i < length new \<and> sel i then new ! i else old ! i) [0..<length old]"

definition half :: "int \<Rightarrow> dbl" where "half i = dbl_div (dbl_of_int i) (dbl_lit 2 1)"

text \<open>
  More channels than the structure has would read past its array. \<open>conv\<close> reads the two bytes of a
  temperature.
\<close>

definition brul_handle_gem :: "gem_layout \<Rightarrow> (u8 list \<Rightarrow> int) \<Rightarrow> 'a brul_scheme \<Rightarrow> 'a brul_scheme res" where
  "brul_handle_gem l conv st =
     (let (pkt, rest) = remove_struct (gl_size l) (br_input st); st1 = st\<lparr>br_input := rest\<rparr>
      in if field_at (gl_footer l) 2 pkt \<noteq> [0xFF, 0xFE] then Inr st1
         else if int (gl_chans l) < nrofchannels st then Inl OutOfBounds
         else
           let n = nat (nrofchannels st); old = br_cur st;
               new = old\<lparr>bd_channel := overwrite (\<lambda>_. True) (map le_int (members (gl_channel l) 5 n pkt)) (bd_channel old),
                 bd_polar := overwrite (\<lambda>_. True) (map le_int (members (gl_polar l) 5 n pkt)) (bd_polar old),
                 bd_voltage := dbl_div (dbl_of_int (be_int (field_at 3 2 pkt))) (dbl_lit 10 1),
                 bd_seconds := le_int (field_at (gl_seconds l) 3 pkt),
                 bd_serial := be_int (field_at (gl_serial l) 2 pkt),
                 bd_temp := overwrite (bit (validtemp st)) (map (\<lambda>b. half (conv b)) (members (gl_temp l) 2 8 pkt)) (bd_temp old),
                 bd_pulse := overwrite (bit (validpulse st)) (map le_int (members (gl_pulse l) 3 4 pkt)) (bd_pulse old)\<rparr>
           in Inr (st1\<lparr>br_prev := old, br_cur := new\<rparr>))"

definition brul_handle_type7 :: "'a brul_scheme \<Rightarrow> 'a brul_scheme res" where
  "brul_handle_type7 = brul_handle_gem gem_polar32 le_int"

definition brul_handle_type5 :: "'a brul_scheme \<Rightarrow> 'a brul_scheme res" where
  "brul_handle_type5 = brul_handle_gem gem_polar48dt be_int"

definition brul_handle_ecm1240 :: "'a brul_scheme \<Rightarrow> 'a brul_scheme" where
  "brul_handle_ecm1240 st =
     (let (pkt, rest) = remove_struct 65 (br_input st); st1 = st\<lparr>br_input := rest\<rparr>; old = br_cur st
      in if field_at 62 2 pkt \<noteq> [0xFF, 0xFE] then st1
         else st1\<lparr>br_prev := old, br_cur :=
                old\<lparr>bd_channel := overwrite (\<lambda>_. True) (map le_int (members 5 5 2 pkt @ members 40 4 4 pkt)) (bd_channel old),
                  bd_polar := overwrite (\<lambda>_. True) (map le_int (members 15 5 2 pkt)) (bd_polar old),
                  bd_voltage := dbl_div (dbl_of_int (be_int (field_at 3 2 pkt))) (dbl_lit 10 1),
                  bd_seconds := le_int (field_at 37 3 pkt), bd_serial := le_int (field_at 29 2 pkt)\<rparr>\<rparr>)"

section \<open>Energy and power\<close>

text \<open>The fraction n / d rounded to the 24 bits of a \<^verbatim>\<open>float\<close>; the amounts here are well in its range.\<close>

definition flt_ratio :: "nat \<Rightarrow> nat \<Rightarrow> dbl" where
  "flt_ratio n d =
     (if n = 0 then 0
      else
        let x0 = int (nbits n) - int (nbits d) - 24; (a, b) = scale_frac x0 n d;
            x = (if 2 ^ 24 \<le> a div b then x0 + 1 else x0); (a, b) = scale_frac x n d; m = half_even a b
        in if 0 \<le> x then dbl_lit (m * 2 ^ nat x) 1 else dbl_lit m (2 ^ nat (- x)))"

text \<open>\<open>(float) w / (float) s\<close> for amounts that are not negative, widened to a double.\<close>

definition flt_div :: "int \<Rightarrow> int \<Rightarrow> dbl" where
  "flt_div w s =
     (if s = 0 then (if w = 0 then dbl_default_nan else dbl_inf False)
      else
        let (n1, d1) = dbl_ratio (flt_ratio (nat w) 1); (n2, d2) = dbl_ratio (flt_ratio (nat s) 1)
        in flt_ratio (n1 * d2) (d1 * n2))"

abbreviation (input) MAX_WSEC :: int where "MAX_WSEC \<equiv> 256 * 256 * 256 * 256 * 256"
abbreviation (input) MAX_THREE :: int where "MAX_THREE \<equiv> 256 * 256 * 256"

text \<open>How far a counter has come that starts again at 0 when it reaches \<open>bound\<close>.\<close>

definition counter_delta :: "int \<Rightarrow> int \<Rightarrow> int \<Rightarrow> int" where
  "counter_delta bound prev cur = (if cur < prev then bound - prev + cur else cur - prev)"

definition watts :: "bruldata \<Rightarrow> bruldata \<Rightarrow> nat \<Rightarrow> dbl" where
  "watts prev cur i =
     flt_div (counter_delta MAX_WSEC (bd_channel prev ! i) (bd_channel cur ! i))
       (counter_delta MAX_THREE (bd_seconds prev) (bd_seconds cur))"

text \<open>A value for the device of a name, when there is one.\<close>

definition put_value :: "string \<Rightarrow> u64 \<Rightarrow> 'a oldcoll_scheme \<Rightarrow> 'a oldcoll_scheme res" where
  "put_value uid v st =
     (case find_device_byuid st uid of
        None \<Rightarrow> Inr st
      | Some p \<Rightarrow>
          let st1 = upd_dev p (\<lambda>d. store_data_dev d DATALOC_DATA v) st
          in send_update (server_bev st1) p st1)"

definition int_word :: "int \<Rightarrow> u64" where
  "int_word i = ucast (word_of_int i :: u32)"

definition brul_uid :: "'a brul_scheme \<Rightarrow> string \<Rightarrow> string" where
  "brul_uid st s = fmt_prec 8 (br_serial st) @ s"

definition channels :: "'a brul_scheme \<Rightarrow> nat list" where
  "channels st = [0..<nat (nrofchannels st)]"

text \<open>What the packet says: energy, temperatures, pulses, voltage and time.\<close>

definition show_counters :: "'a brul_scheme \<Rightarrow> 'a brul_scheme res" where
  "show_counters st =
     (let cur = br_cur st; uid = brul_uid st
      in bindE (foldE (\<lambda>i. put_value (uid (''-c'' @ fmt_prec 2 (int i))) (word_of_int (bd_channel cur ! i)))
                  (channels st) st) (\<lambda>st1.
         bindE (foldE (\<lambda>i. put_value (uid (''-t'' @ nat_dec i)) (bd_temp cur ! i))
                  (filter (bit (validtemp st)) [0..<8]) st1) (\<lambda>st2.
         bindE (foldE (\<lambda>i. put_value (uid (''-p'' @ nat_dec i)) (int_word (bd_pulse cur ! i)))
                  (filter (bit (validpulse st)) [0..<4]) st2) (\<lambda>st3.
         bindE (put_value (uid ''-volt'') (bd_voltage cur) st3)
           (put_value (uid ''-sec'') (int_word (bd_seconds cur)))))))"

text \<open>The power of each channel, from the second packet on.\<close>

definition calc_devices :: "'a brul_scheme \<Rightarrow> 'a brul_scheme res" where
  "calc_devices st =
     (let cur = br_cur st; prev = br_prev st; uid = brul_uid st
      in if 48 < nrofchannels st then Inl OutOfBounds
         else
           bindE (show_counters st) (\<lambda>st1.
             if bd_seconds prev = 0 then Inr st1
             else foldE (\<lambda>i. put_value (uid (''-w'' @ fmt_prec 2 (int i))) (watts prev cur i)) (channels st) st1))"

section \<open>Reading\<close>

text \<open>Lines are skipped until one says \<^verbatim>\<open>OFF\<close>; an empty one ends the callback.\<close>

function await_off :: "u8 list \<Rightarrow> bool \<times> u8 list" where
  "await_off bs =
     (case readln bs of
        None \<Rightarrow> (False, bs)
      | Some (l, rest) \<Rightarrow>
          if l = [] then (False, rest)
          else if text_of l = ''OFF'' then (True, rest)
          else await_off rest)"
  by pat_completeness auto
termination
  by (relation "measure length") (auto dest: readln_shorter)

declare await_off.simps [simp del]

definition expect :: "string \<Rightarrow> string \<Rightarrow> 'a brul_scheme \<Rightarrow> 'a brul_scheme res" where
  "expect word data st = (if data = word then brul_setup_gem st else Inr st)"

text \<open>An answer on a line of its own.\<close>

definition gem_answer :: "string \<Rightarrow> cenv \<Rightarrow> 'a brul_scheme \<Rightarrow> 'a brul_scheme res" where
  "gem_answer data e st =
     (case br_mode st of
        MODE_PKT \<Rightarrow> expect ''PKT'' data st
      | MODE_IVL \<Rightarrow> expect ''IVL'' data st
      | MODE_SRN \<Rightarrow> brul_setup_gem (st\<lparr>br_serial := sint (c_atoi data)\<rparr>)
      | MODE_TST \<Rightarrow> bindE (brul_handle_tstpst True data (st\<lparr>validtemp := 0\<rparr>)) brul_setup_gem
      | MODE_PST \<Rightarrow> bindE (brul_handle_tstpst False data (st\<lparr>validpulse := 0\<rparr>)) brul_setup_gem
      | MODE_CMX \<Rightarrow>
          let n = sint (c_atoi data)
          in bindE (brul_build_devices n 0 PROTO_SENSOR_BRULTECH_GEM (st\<lparr>nrofchannels := n\<rparr>)) (\<lambda>st1.
               if odumping st1
               then bindE (dump_conf st1 0 (ce_open e) (coll_conf st1)) (\<lambda>_. Inl CleanExit)
               else brul_setup_gem st1)
      | MODE_RTON \<Rightarrow> Inr (if data = ''_ON'' then st\<lparr>br_mode := MODE_DATA\<rparr> else st)
      | _ \<Rightarrow> Inr st)"

definition brul_dialogue :: "cenv \<Rightarrow> 'a brul_scheme \<Rightarrow> 'a brul_scheme res" where
  "brul_dialogue e st =
     (case br_mode st of
        MODE_RTOFF \<Rightarrow>
          let (found, rest) = await_off (br_input st); st1 = st\<lparr>br_input := rest\<rparr>
          in if found then brul_setup_gem st1 else Inr st1
      | MODE_TEMPTYPE \<Rightarrow>
          (case br_input st of
             [] \<Rightarrow> Inr st
           | b # rest \<Rightarrow>
               if b = 0x46 \<or> b = 0x43
               then bindE (brul_setup_gem st) (\<lambda>st1. Inr (st1\<lparr>br_input := drop 1 (br_input st1)\<rparr>))
               else Inr (st\<lparr>br_input := rest\<rparr>))
      | _ \<Rightarrow>
          (case readln (br_input st) of
             None \<Rightarrow> Inr st
           | Some (l, rest) \<Rightarrow>
               let st1 = st\<lparr>br_input := rest\<rparr>
               in if l = [] then Inr st1 else gem_answer (text_of l) e st1))"

text \<open>
  A header is taken when either of its first two bytes is right. A packet of an unknown format stays
  in the buffer.
\<close>

fun find_header :: "u8 list \<Rightarrow> u8 list" where
  "find_header (a # b # c # bs) =
     (if a \<noteq> 0xFE \<and> b \<noteq> 0xFF then find_header (b # c # bs) else a # b # c # bs)"
| "find_header bs = bs"

definition brul_packet :: "cenv \<Rightarrow> 'a brul_scheme \<Rightarrow> 'a brul_scheme res" where
  "brul_packet e st =
     (let st1 = st\<lparr>br_input := find_header (br_input st)\<rparr>
      in case br_input st1 of
           a # b # c # _ \<Rightarrow>
             let st2 = st1\<lparr>br_lastupd := ce_now e\<rparr>
             in if c = 7 then bindE (brul_handle_type7 st2) calc_devices
                else if c = 5 then bindE (brul_handle_type5 st2) calc_devices
                else if c = 3 then Inr (brul_handle_ecm1240 st2)
                else Inr st2
         | _ \<Rightarrow> Inr st1)"

text \<open>The modes of the ECM1240 come after \<^verbatim>\<open>BRUL_MODE_DATA\<close>, so their cases are never reached.\<close>

definition brul_buf_read_cb :: "cenv \<Rightarrow> 'a brul_scheme \<Rightarrow> 'a brul_scheme res" where
  "brul_buf_read_cb e st = (if setting_up (br_mode st) then brul_dialogue e st else brul_packet e st)"

text \<open>What the event loop does when bytes have come in.\<close>

definition brul_receive :: "cenv \<Rightarrow> u8 list \<Rightarrow> 'a brul_scheme \<Rightarrow> 'a brul_scheme res" where
  "brul_receive e bs st = brul_buf_read_cb e (st\<lparr>br_input := br_input st @ bs\<rparr>)"

section \<open>Connections\<close>

definition brul_is_ok :: "cenv \<Rightarrow> 'a brul_scheme \<Rightarrow> bool" where
  "brul_is_ok e st \<longleftrightarrow> ce_now e - br_lastupd st < br_update st * 5"

definition brul_health_cb :: "cenv \<Rightarrow> nat \<Rightarrow> 'a brul_scheme \<Rightarrow> 'a brul_scheme res" where
  "brul_health_cb e c st =
     (if brul_is_ok e st then write_bev (oc_bev (oconns st c)) gn_imalive st else Inr st)"

text \<open>The datagram is sent as a string: it ends at the first zero byte.\<close>

definition wiz_send :: "u8 list \<Rightarrow> 'a brul_scheme \<Rightarrow> 'a brul_scheme" where
  "wiz_send buf st = st\<lparr>wiz_out := wiz_out st @ [takeWhile (\<lambda>b. b \<noteq> 0) buf]\<rparr>"

definition maybe_reset_gem :: "'a brul_scheme \<Rightarrow> 'a brul_scheme" where
  "maybe_reset_gem st =
     (case wizresetbuf st of
        Some buf \<Rightarrow>
          if br_model st = BRUL_MODEL_GEM \<and> br_comm st = BRUL_COMM_NET \<and> 10 < gemconnattempts st \<and> wiz_fd_open st
          then (wiz_send buf st)\<lparr>gemconnattempts := gemconnattempts st - 5\<rparr>
          else st
      | None \<Rightarrow> st)"

definition brul_connect_server_cb :: "nat \<Rightarrow> 'a brul_scheme \<Rightarrow> 'a brul_scheme res" where
  "brul_connect_server_cb c st =
     (let st1 = open_bev c st
      in case oc_role (oconns st1 c) of
           To_server \<Rightarrow> reconnected ''brulcoll'' c st1
         | To_hardware \<Rightarrow>
             Inr (maybe_reset_gem (st1\<lparr>br_input := [], gemconnattempts := gemconnattempts st1 + 1\<rparr>)))"

text \<open>The loss of the monitor: a new connection at once, and the command that follows the mode it was in.\<close>

definition brul_netconnect_event_cb :: "conn_event \<Rightarrow> nat \<Rightarrow> 'a brul_scheme \<Rightarrow> 'a brul_scheme res" where
  "brul_netconnect_event_cb what k st =
     (case what of
        Ev_lost dnserr \<Rightarrow>
          if dnserr then Inl FatalExit
          else bindE (brul_connect_server_cb (br_net st) (free_bev k st)) brul_setup_gem
      | _ \<Rightarrow> Inr st)"

definition brul_connect_event_cb :: "conn_event \<Rightarrow> nat \<Rightarrow> nat \<Rightarrow> 'a brul_scheme \<Rightarrow> 'a brul_scheme res" where
  "brul_connect_event_cb what k c st =
     (case what of
        Ev_connected \<Rightarrow>
          Inr (case oc_role (oconns st c) of
                 To_hardware \<Rightarrow> st\<lparr>gemconnattempts := 0\<rparr>
               | To_server \<Rightarrow> st\<lparr>ohealth := ohealth st @ [c]\<rparr>)
      | Ev_lost dnserr \<Rightarrow> connection_lost dnserr k c st
      | Ev_other \<Rightarrow> Inr st)"

definition brul_parse_devices :: "'a brul_scheme \<Rightarrow> 'a brul_scheme res" where
  "brul_parse_devices st = load_devices st"

definition brul_cb_shutdown :: "'a brul_scheme \<Rightarrow> 'a brul_scheme" where
  "brul_cb_shutdown st = st\<lparr>oexit := True\<rparr>"

definition brul_cb_sigterm :: "'a brul_scheme \<Rightarrow> 'a brul_scheme res" where
  "brul_cb_sigterm st =
     bindE (sigterm_server st) (\<lambda>st1.
     bindE (case brul_bev st1 of
              None \<Rightarrow> Inr st1
            | Some k \<Rightarrow> if bufs st1 k = None then Inl UseAfterFree else Inr (free_bev k st1)) (\<lambda>st2.
       Inr (st2\<lparr>ostop := ostop st2 + 1\<rparr>)))"

section \<open>The network adapter\<close>

text \<open>
  An answer to \<^verbatim>\<open>FIND\<close> is \<^verbatim>\<open>IMIN\<close> and the 159 bytes of the adapter's configuration, with its
  address at offset 7. The adapter of the monitor is remembered with the datagram that resets it.
\<close>

definition cb_wiznet_read :: "u8 list \<Rightarrow> 'a brul_scheme \<Rightarrow> 'a brul_scheme" where
  "cb_wiznet_read buf st =
     (if length buf = 163 \<and> take 4 buf = [0x49, 0x4D, 0x49, 0x4E] \<and> field_at 11 4 buf = gemipaddr st
      then st\<lparr>wizresetbuf := Some ([0x53, 0x45, 0x54, 0x54] @ drop 4 buf)\<rparr>
      else st)"

definition cb_wiznet_send :: "u8 list option \<Rightarrow> 'a brul_scheme \<Rightarrow> 'a brul_scheme" where
  "cb_wiznet_send arg st = (case arg of None \<Rightarrow> st | Some buf \<Rightarrow> wiz_send buf st)"

text \<open>The start of the dialogue in \<^verbatim>\<open>main\<close>.\<close>

definition brul_start :: "'a brul_scheme \<Rightarrow> 'a brul_scheme res" where
  "brul_start st =
     (case br_model st of BRUL_MODEL_GEM \<Rightarrow> brul_setup_gem st | BRUL_MODEL_ECM1240 \<Rightarrow> brul_setup_ecm st)"

end
