(* ===== verification/Energy.thy ===== *)
theory Energy
  imports Brulcoll Collinv Lifecycle
begin

text \<open>
  What the energy monitor's collector shows: the power of a channel is its energy over the time
  between two packets, across the overflow of either counter. The lemmas say what a pass over the
  devices leaves alone.
\<close>

section \<open>Storing values\<close>

definition server_live :: "'a oldcoll_scheme \<Rightarrow> bool" where
  "server_live st \<longleftrightarrow> (\<exists>k. server_bev st = Some k \<and> bufs st k \<noteq> None)"

text \<open>\<open>values_only st st'\<close>: a pass changes values of devices and sends messages.\<close>

definition values_only :: "'a oldcoll_scheme \<Rightarrow> 'a oldcoll_scheme \<Rightarrow> bool" where
  "values_only st st' \<longleftrightarrow>
     devtab st' = devtab st \<and> server_live st' \<and>
     (\<forall>p. store_width (dmem st' p) = store_width (dmem st p) \<and> d_uid (dmem st' p) = d_uid (dmem st p))"

lemma values_only_refl: "server_live st \<Longrightarrow> values_only st st"
  by (simp add: values_only_def)

lemma values_only_trans: "values_only a b \<Longrightarrow> values_only b c \<Longrightarrow> values_only a c"
  by (simp add: values_only_def)

lemma values_only_live: "values_only st st' \<Longrightarrow> server_live st'"
  by (simp add: values_only_def)

lemma store_width_store [simp]: "store_width (store_data_dev d l v) = store_width d"
  by (rule store_width_cong) simp_all

lemma store_data_64: "store_width d = Some W64 \<Longrightarrow> d_data (store_data_dev d DATALOC_DATA v) = v"
  using store_loc [of DATALOC_DATA d DATALOC_DATA v] by (simp add: data_loc_def)

lemma send_update_live:
  assumes "server_live st"
  obtains st' where "send_update (server_bev st) p st = Inr st'" "server_live st'" "dmem st' = dmem st" "devtab st' = devtab st"
proof -
  obtain m where m: "gn_update_device (dmem st p) GNC_NOSCALE = Inr m" using gn_update_plain [OF noscale_bits(1-3)] by blast
  obtain k out where k: "server_bev st = Some k" "bufs st k = Some out" using assms by (auto simp: server_live_def)
  show ?thesis
  proof (cases "m = []")
    case True
    with m k assms that [of st] show ?thesis by (simp add: send_update_def send_msg_def)
  next
    case False
    with m k that [of "st\<lparr>bufs := (bufs st)(k \<mapsto> out @ m)\<rparr>"] show ?thesis
      by (simp add: send_update_def send_msg_def write_bev_def server_live_def server_bev_def)
  qed
qed

lemma put_value_effect:
  assumes "server_live st"
  obtains st' where "put_value uid v st = Inr st'" "values_only st st'"
    "\<And>p. dmem st' p = (if devtab st uid = Some p then store_data_dev (dmem st p) DATALOC_DATA v else dmem st p)"
proof (cases "devtab st uid")
  case None
  with assms that [of st] show ?thesis by (simp add: put_value_def find_eta values_only_refl)
next
  case (Some p)
  let ?st = "upd_dev p (\<lambda>d. store_data_dev d DATALOC_DATA v) st"
  have "server_live ?st" using assms by (simp add: server_live_def server_bev_def upd_dev_def)
  then obtain st' where st': "send_update (server_bev ?st) p ?st = Inr st'" "server_live st'" "dmem st' = dmem ?st" "devtab st' = devtab ?st"
    by (rule send_update_live)
  then have "put_value uid v st = Inr st'" by (simp add: put_value_def find_eta Some Let_def)
  moreover have "values_only st st'"
    using st' by (simp add: values_only_def upd_dev_def)
  ultimately show ?thesis using that st' Some by (simp add: upd_dev_def)
qed

text \<open>A pass over several names: whose device has none of them keeps its value.\<close>

lemma put_values_effect:
  assumes "server_live st"
  obtains st' where "foldE (\<lambda>i. put_value (u i) (f i)) is st = Inr st'" "values_only st st'"
    "\<forall>p. (\<forall>i \<in> set is. devtab st (u i) \<noteq> Some p) \<longrightarrow> dmem st' p = dmem st p"
  using assms
proof (induction "is" arbitrary: st thesis)
  case Nil
  then show ?case by (simp add: values_only_refl)
next
  case (Cons i "is")
  obtain st1 where st1: "put_value (u i) (f i) st = Inr st1" "values_only st st1"
    "\<And>p. dmem st1 p = (if devtab st (u i) = Some p then store_data_dev (dmem st p) DATALOC_DATA (f i) else dmem st p)"
    using put_value_effect [OF Cons.prems(2)] by blast
  obtain st2 where st2: "foldE (\<lambda>i. put_value (u i) (f i)) is st1 = Inr st2" "values_only st1 st2"
    "\<forall>p. (\<forall>i \<in> set is. devtab st1 (u i) \<noteq> Some p) \<longrightarrow> dmem st2 p = dmem st1 p"
    using Cons.IH [OF _ values_only_live [OF st1(2)]] by blast
  show ?case
  proof (rule Cons.prems(1))
    show "foldE (\<lambda>i. put_value (u i) (f i)) (i # is) st = Inr st2" using st1(1) st2(1) by simp
    show "values_only st st2" using st1(2) st2(2) by (rule values_only_trans)
    show "\<forall>p. (\<forall>j \<in> set (i # is). devtab st (u j) \<noteq> Some p) \<longrightarrow> dmem st2 p = dmem st p"
      using st1(2,3) st2(3) by (simp add: values_only_def)
  qed
qed

lemma put_values_at:
  assumes live: "server_live st" and i: "i \<in> set is" and d: "distinct is" and p: "devtab st (u i) = Some p"
    and others: "\<And>j. j \<in> set is \<Longrightarrow> j \<noteq> i \<Longrightarrow> devtab st (u j) \<noteq> Some p" and w: "store_width (dmem st p) = Some W64"
  obtains st' where "foldE (\<lambda>i. put_value (u i) (f i)) is st = Inr st'" "d_data (dmem st' p) = f i"
proof -
  obtain xs ys where split: "is = xs @ i # ys" using i by (meson split_list)
  obtain st1 where st1: "foldE (\<lambda>i. put_value (u i) (f i)) xs st = Inr st1" "values_only st st1"
    by (rule put_values_effect [OF live, of u f xs])
  obtain st2 where st2: "put_value (u i) (f i) st1 = Inr st2" "values_only st1 st2"
    "\<And>q. dmem st2 q = (if devtab st1 (u i) = Some q then store_data_dev (dmem st1 q) DATALOC_DATA (f i) else dmem st1 q)"
    using put_value_effect [OF values_only_live [OF st1(2)], of "u i" "f i"] by blast
  obtain st3 where st3: "foldE (\<lambda>i. put_value (u i) (f i)) ys st2 = Inr st3" "values_only st2 st3"
    "\<forall>q. (\<forall>i \<in> set ys. devtab st2 (u i) \<noteq> Some q) \<longrightarrow> dmem st3 q = dmem st2 q"
    using put_values_effect [OF values_only_live [OF st2(2)], of u f ys] by blast
  have "devtab st2 = devtab st" "devtab st1 = devtab st" "store_width (dmem st1 p) = Some W64"
    using st1(2) st2(2) w by (simp_all add: values_only_def)
  note same = this
  have "j \<noteq> i" "j \<in> set is" if "j \<in> set ys" for j using that d split by auto
  then have "dmem st3 p = dmem st2 p" using others st3(3) by (simp add: same(1))
  also have "\<dots> = store_data_dev (dmem st1 p) DATALOC_DATA (f i)" by (simp add: st2(3) same(2) p)
  finally have "dmem st3 p = store_data_dev (dmem st1 p) DATALOC_DATA (f i)" .
  then have "d_data (dmem st3 p) = f i"
    using same(3) by (simp add: store_data_64)
  with st1(1) st2(1) st3(1) show ?thesis by (intro that [of st3]) (simp_all add: split foldE_append)
qed

lemma channel_names: "i < 48 \<Longrightarrow> j < 48 \<Longrightarrow> fmt_prec 2 (int i) = fmt_prec 2 (int j) \<Longrightarrow> i = j"
proof -
  have "distinct (map (\<lambda>i. fmt_prec 2 (int i)) [0..<48])" by code_simp
  then have "inj_on (\<lambda>i. fmt_prec 2 (int i)) (set [0..<48])" by (simp add: distinct_map)
  then show "i < 48 \<Longrightarrow> j < 48 \<Longrightarrow> fmt_prec 2 (int i) = fmt_prec 2 (int j) \<Longrightarrow> i = j"
    by (auto simp: inj_on_def)
qed

lemma counter_wraps:
  assumes "0 \<le> p" "p < m" "0 \<le> w" "w < (m :: int)"
  shows "counter_delta m p ((p + w) mod m) = w"
proof (cases "p + w < m")
  case True
  with assms show ?thesis by (simp add: counter_delta_def)
next
  case False
  have "(p + w) mod m = (p + w - m) mod m" by (rule minus_mod_self2 [symmetric])
  also have "\<dots> = p + w - m" using assms False by (intro mod_pos_pos_trivial) simp_all
  finally have "(p + w) mod m = p + w - m" .
  with assms False show ?thesis by (simp add: counter_delta_def)
qed

section \<open>A pass over all devices\<close>

lemma put_passes: "server_live st \<Longrightarrow> \<exists>a. put_value uid v st = Inr a \<and> values_only st a"
  using put_value_effect by metis

lemma puts_pass: "server_live st \<Longrightarrow> \<exists>a. foldE (\<lambda>i. put_value (u i) (f i)) is st = Inr a \<and> values_only st a"
  using put_values_effect by metis

lemma bind_passes:
  assumes "\<exists>a. r = Inr a \<and> values_only st a" and "\<And>a. server_live a \<Longrightarrow> \<exists>b. g a = Inr b \<and> values_only a b"
  shows "\<exists>b. bindE r g = Inr b \<and> values_only st b"
  using assms by (metis bindE_simps(2) values_only_live values_only_trans)

lemma show_counters_passes:
  assumes "server_live st"
  obtains st' where "show_counters st = Inr st'" "values_only st st'"
proof -
  have "\<exists>a. show_counters st = Inr a \<and> values_only st a"
    unfolding show_counters_def Let_def
    by (intro bind_passes puts_pass put_passes assms; assumption)
  then show ?thesis using that by blast
qed

section \<open>The power of a channel\<close>

definition watt_uid :: "'a brul_scheme \<Rightarrow> nat \<Rightarrow> string" where
  "watt_uid st i = brul_uid st (''-w'' @ fmt_prec 2 (int i))"

text \<open>
  C17. When a packet has come in, the device for the power of a channel shows the energy the channel
  has used since the packet before over the seconds between them, also when the 40-bit energy
  counter or the 24-bit counter of seconds has started again at zero in between.
\<close>

theorem power_from_counters:
  assumes ok: "reg_ok st" and live: "server_live st" and n: "nrofchannels st \<le> 48" and i: "i < nat (nrofchannels st)"
    and p: "devtab st (watt_uid st i) = Some p" and wide: "store_width (dmem st p) = Some W64"
    and energy: "0 \<le> bd_channel (br_prev st) ! i" "bd_channel (br_prev st) ! i < MAX_WSEC" "0 \<le> w" "w < MAX_WSEC"
      "bd_channel (br_cur st) ! i = (bd_channel (br_prev st) ! i + w) mod MAX_WSEC"
    and time: "0 < bd_seconds (br_prev st)" "bd_seconds (br_prev st) < MAX_THREE" "0 \<le> s" "s < MAX_THREE"
      "bd_seconds (br_cur st) = (bd_seconds (br_prev st) + s) mod MAX_THREE"
  shows "\<exists>st'. calc_devices st = Inr st' \<and> d_data (dmem st' p) = flt_div w s"
proof -
  obtain st1 where st1: "show_counters st = Inr st1" "values_only st st1" using show_counters_passes [OF live] .
  let ?f = "watts (br_prev st) (br_cur st)"
  have others: "devtab st1 (watt_uid st j) \<noteq> Some p" if "j \<in> set (channels st)" "j \<noteq> i" for j
  proof
    assume "devtab st1 (watt_uid st j) = Some p"
    then have "watt_uid st j = watt_uid st i"
      using reg_ok_find [OF ok] p st1(2) by (metis values_only_def find_eta)
    moreover have "nat (nrofchannels st) \<le> 48" using n by simp
    ultimately show False
      using channel_names [of j i] that i by (auto simp: watt_uid_def brul_uid_def channels_def)
  qed
  obtain st2 where st2: "foldE (\<lambda>i. put_value (watt_uid st i) (?f i)) (channels st) st1 = Inr st2" "d_data (dmem st2 p) = ?f i"
    by (rule put_values_at [OF values_only_live [OF st1(2)], of i "channels st" "watt_uid st" p])
      (use i p wide others st1(2) in \<open>simp_all add: values_only_def channels_def\<close>)
  have "?f i = flt_div w s" using energy time by (simp add: watts_def counter_wraps)
  with st1(1) st2 n time(1) show ?thesis by (simp add: calc_devices_def Let_def watt_uid_def)
qed

text \<open>A monitor with one channel, just before the update of its devices; both counters have started again.\<close>

definition bare_monitor :: brul where
  "bare_monitor = registry.extend empty_registry
     \<lparr>bufs = [0 \<mapsto> []], bufnext = 1, gnhastd_bev = Some 0, coll_alarms = [],
      coll_conf = no_conf, coll_conf_file = None, min_proto_version = 0, rrd_freed = (\<lambda>_. False),
      oconns = (\<lambda>_. \<lparr>oc_role = To_server, oc_bev = Some 0, oc_shutdown = False\<rparr>),
      oserver = 0, oneed_rereg = False, oinstance = 1, odumping = False, oretry = [], ohealth = [],
      ostop = 0, oexit = False, br_net = 1, br_mode = MODE_DATA, br_tempbase = BRUL_TEMP_F, br_pkttype = 8,
      br_input = [], nrofchannels = 1, validtemp = 0, validpulse = 0, br_serial = 7,
      br_cur = \<lparr>bd_channel = [2600], bd_polar = [0], bd_voltage = 0, bd_seconds = 4, bd_temp = [], bd_pulse = [], bd_serial = 0\<rparr>,
      br_prev = \<lparr>bd_channel = [1099511626776], bd_polar = [0], bd_voltage = 0, bd_seconds = 16777210, bd_temp = [],
        bd_pulse = [], bd_serial = 0\<rparr>,
      br_lastupd = 0, br_tempscale = TSCALE_F, br_update = 10, br_model = BRUL_MODEL_GEM, br_comm = BRUL_COMM_NET,
      gemconnattempts = 0, gemipaddr = [], wiz_fd_open = False, wizresetbuf = None, wiz_out = []\<rparr>"

definition watt_device :: device where
  "watt_device = (new_device ''00000007-w00'')\<lparr>d_name := Some ''power'', d_type := dev_type_code DEVICE_SENSOR,
     d_subtype := subtype_code SUBTYPE_WATT, d_proto := proto_code PROTO_SENSOR_BRULTECH_GEM\<rparr>"

definition monitor :: brul where
  "monitor = insert_device 0 (snd (alloc_dev watt_device bare_monitor))"

theorem power_from_counters_witness:
  "\<exists>st'. calc_devices monitor = Inr st' \<and> d_data (dmem st' 0) = flt_div 3600 10"
proof (rule power_from_counters [of monitor 0 0 3600 10])
  have "reg_ok bare_monitor"
    using reg_ok_empty by (simp add: reg_ok_def bare_monitor_def registry.defs empty_registry_def keyed_ok_def find_eta)
  moreover have "dnext bare_monitor = 0" "devtab bare_monitor = Map.empty" by (simp_all add: bare_monitor_def registry.defs empty_registry_def)
  ultimately show "reg_ok monitor"
    using reg_ok_new_dev [of bare_monitor watt_device] by (simp add: monitor_def watt_device_def find_eta new_device_def)
  show "devtab monitor (watt_uid monitor 0) = Some 0" by code_simp
  show "store_width (dmem monitor 0) = Some W64" by code_simp
qed (simp_all add: monitor_def bare_monitor_def registry.defs insert_device_def alloc_dev_def upd_dev_def
    server_live_def server_bev_def Let_def)

text \<open>
  The first piece of a packet that arrives in two is taken for a packet with a wrong end: nothing of
  it is used, and the rest is then not recognised.
\<close>

lemma partial_packet_dropped:
  assumes "length bs \<le> 426"
  shows "brul_handle_type7 (st\<lparr>br_input := bs\<rparr>) = Inr (st\<lparr>br_input := []\<rparr>)"
proof -
  have "field_at 426 2 (bs @ replicate (429 - length bs) 0) = replicate 2 0"
    using assms by (simp add: field_at_def)
  then have "field_at 426 2 (bs @ replicate (429 - length bs) 0) \<noteq> [0xFF, 0xFE]" by (simp only:) code_simp
  then show ?thesis
    using assms by (simp add: brul_handle_type7_def brul_handle_gem_def gem_polar32_def remove_struct_def Let_def)
qed

text \<open>A loss in the last step of the dialogue: the monitor is told to start although no device was built.\<close>

lemma lost_before_devices:
  assumes "br_mode st = MODE_CMX" and "oc_role (oconns st (br_net st)) = To_hardware"
    and "brul_netconnect_event_cb (Ev_lost False) k st = Inr st1"
  shows "br_mode st1 = MODE_RTON" and "alldevs st1 = alldevs st" and "nrofchannels st1 = nrofchannels st"
  using assms
  by (auto simp: brul_netconnect_event_cb_def brul_connect_server_cb_def brul_setup_gem_def gem_command_def
      maybe_reset_gem_def wiz_send_def open_bev_def free_bev_def upd_oconn_def write_bev_def Let_def
      split: option.splits if_splits)

end
