(* ===== verification/Plmqueue.thy ===== *)
theory Plmqueue
  imports Oldconn Common
begin

text \<open>
  The command queue of the Insteon collector (\<^verbatim>\<open>insteoncoll/insteon.h\<close>,
  \<^verbatim>\<open>insteon_common.c\<close>): commands for the modem (PLM) wait in a queue; the head is sent, sent
  again when the answers it waits for do not come in time, and dropped at last.
\<close>

type_synonym u16 = "16 word"

section \<open>State\<close>

abbreviation (input) PLM_START :: u8 where "PLM_START \<equiv> 0x02"
abbreviation (input) PLM_SEND :: u8 where "PLM_SEND \<equiv> 0x62"
abbreviation (input) PLM_SEND_X10 :: u8 where "PLM_SEND_X10 \<equiv> 0x63"
abbreviation (input) PLM_ALINK_START :: u8 where "PLM_ALINK_START \<equiv> 0x64"
abbreviation (input) PLMCMD_ACK :: u8 where "PLMCMD_ACK \<equiv> 0x06"
abbreviation (input) PLMCMD_NAK :: u8 where "PLMCMD_NAK \<equiv> 0x15"

abbreviation (input) PLMFLAG_MAXHOP1 :: u8 where "PLMFLAG_MAXHOP1 \<equiv> 0x01"
abbreviation (input) PLMFLAG_MAXHOP2 :: u8 where "PLMFLAG_MAXHOP2 \<equiv> 0x02"
abbreviation (input) PLMFLAG_REMHOP1 :: u8 where "PLMFLAG_REMHOP1 \<equiv> 0x04"
abbreviation (input) PLMFLAG_REMHOP2 :: u8 where "PLMFLAG_REMHOP2 \<equiv> 0x08"
abbreviation (input) PLMFLAG_EXT :: u8 where "PLMFLAG_EXT \<equiv> 0x10"
abbreviation (input) PLMFLAG_GROUP :: u8 where "PLMFLAG_GROUP \<equiv> 0x40"
abbreviation (input) PLMFLAG_BROAD :: u8 where "PLMFLAG_BROAD \<equiv> 0x80"
abbreviation (input) PLMFLAGSET_STD3HOPS :: u8 where "PLMFLAGSET_STD3HOPS \<equiv> 0x0F"

abbreviation (input) STDCMD_ON :: u8 where "STDCMD_ON \<equiv> 0x11"
abbreviation (input) STDCMD_OFF :: u8 where "STDCMD_OFF \<equiv> 0x13"
abbreviation (input) STDCMD_STATUSREQ :: u8 where "STDCMD_STATUSREQ \<equiv> 0x19"
abbreviation (input) EXTCMD_RWALDB :: u8 where "EXTCMD_RWALDB \<equiv> 0x2F"

abbreviation (input) CMDQ_MAX_SEND :: u8 where "CMDQ_MAX_SEND \<equiv> 2"
abbreviation (input) CMDQ_NOPWAIT :: u8 where "CMDQ_NOPWAIT \<equiv> 0xFF"
abbreviation (input) CMDQ_WAITACK :: u8 where "CMDQ_WAITACK \<equiv> 0x01"
abbreviation (input) CMDQ_WAITDATA :: u8 where "CMDQ_WAITDATA \<equiv> 0x02"
abbreviation (input) CMDQ_WAITEXT :: u8 where "CMDQ_WAITEXT \<equiv> 0x04"
abbreviation (input) CMDQ_WAITSEND :: u8 where "CMDQ_WAITSEND \<equiv> 0x08"
abbreviation (input) CMDQ_WAITALINK :: u8 where "CMDQ_WAITALINK \<equiv> 0x10"
abbreviation (input) CMDQ_WAITANY :: u8 where "CMDQ_WAITANY \<equiv> 0x20"
abbreviation (input) CMDQ_WAITALDB :: u8 where "CMDQ_WAITALDB \<equiv> 0x40"
abbreviation (input) CMDQ_WAITACKDATA :: u8 where "CMDQ_WAITACKDATA \<equiv> 0x03"

text \<open>\<open>cq_cmd\<close> is an array of 25 bytes; a \<^verbatim>\<open>struct timespec\<close> is a number of nanoseconds.\<close>

record cmdq =
  cq_cmd :: "u8 list"
  cq_sendcount :: u8
  cq_msglen :: u8
  cq_state :: u8
  cq_wait :: u8
  cq_tp :: int
  cq_uid :: "string option"

record aldb =
  ab_addr :: u16
  ab_lflags :: u8
  ab_group :: u8
  ab_devaddr :: "u8 list"
  ab_ldata1 :: u8
  ab_ldata2 :: u8
  ab_ldata3 :: u8

text \<open>Fields that the collector neither reads nor writes are left out.\<close>

record devdata =
  dd_daddr :: "u8 list"
  dd_hopflag :: u8
  dd_aldb :: "aldb list"      \<comment> \<open>\<open>ALDB_MAXSIZE\<close> records\<close>
  dd_aldblen :: nat
  dd_devcat :: u8
  dd_subcat :: u8
  dd_firmware :: u8
  dd_group :: u8

definition ALDB_MAXSIZE :: nat where "ALDB_MAXSIZE = 64"

definition zero_aldb :: aldb where
  "zero_aldb = \<lparr>ab_addr = 0, ab_lflags = 0, ab_group = 0, ab_devaddr = [0, 0, 0], ab_ldata1 = 0,
     ab_ldata2 = 0, ab_ldata3 = 0\<rparr>"

definition zero_devdata :: devdata where
  "zero_devdata = \<lparr>dd_daddr = [0, 0, 0], dd_hopflag = 0, dd_aldb = replicate ALDB_MAXSIZE zero_aldb,
     dd_aldblen = 0, dd_devcat = 0, dd_subcat = 0, dd_firmware = 0, dd_group = 0\<rparr>"

datatype plm_type = PLM_TYPE_SERIAL | PLM_TYPE_HUBPLM | PLM_TYPE_HUBHTTP

datatype hub_html_state =
  HUBHTMLSTATE_IDLE | HUBHTMLSTATE_WCLEAR | HUBHTMLSTATE_WCMD | HUBHTMLSTATE_WSEND

text \<open>
  The work queue holds the arrays of 30 bytes that \<^verbatim>\<open>plm_readcb\<close> fills. \<open>hub_posts\<close> are the
  paths of the HTTP requests made, \<open>hub_clears\<close> counts the pending one-shot timers of
  \<^verbatim>\<open>hubhtml_clear_im_buffer_cb\<close>, and \<open>plm_data\<close> is \<^verbatim>\<open>dev->localdata\<close>.
\<close>

record plm = oldcoll +
  cmdfifo :: "cmdq list"
  workfifo :: "u8 list list"
  plm_conn :: "nat option"
  plm_input :: "u8 list"
  plm_addr :: "u8 list"
  plminfo :: devdata
  plm_data :: "dptr \<Rightarrow> devdata option"
  plmtype :: plm_type
  hubhtmlstate :: hub_html_state
  hub_workbuf :: string
  hub_posts :: "string list"
  hub_clears :: nat
  hub_new :: bool               \<comment> \<open>\<^verbatim>\<open>hubtype\<close> is \<^verbatim>\<open>HUB_TYPE_NEW\<close>\<close>
  hub_feeding :: bool           \<comment> \<open>\<^verbatim>\<open>hubhtml_bufget_ev\<close> is pending\<close>
  need_query :: int
  plmaldbmorerecords :: bool
  plm_config_bits :: u8
  plm_lastupd :: int
  plm_rescan_rate :: int

text \<open>
  What the callbacks read from their surroundings: \<open>ie_mono\<close> is \<^verbatim>\<open>clock_gettime\<close> in nanoseconds,
  taken to stand still within one callback; \<open>ie_ack\<close>, \<open>ie_scan\<close> and \<open>ie_dbuf\<close> are what the variables
  \<^verbatim>\<open>ackbit\<close>, \<^verbatim>\<open>a b c g\<close> and \<^verbatim>\<open>dbuf\<close> hold where they are read unset.
\<close>

record plm_env = cenv +
  ie_mono :: int
  ie_ack :: u8
  ie_scan :: "nat \<Rightarrow> u32"
  ie_dbuf :: "nat \<Rightarrow> char"

section \<open>Building commands\<close>

text \<open>An array of \<open>n\<close> bytes from a zeroing allocation, with the first ones written.\<close>

definition padded :: "nat \<Rightarrow> u8 list \<Rightarrow> u8 list" where
  "padded n bs = bs @ replicate (n - length bs) 0"

definition plm_entry :: "u8 list \<Rightarrow> u8 \<Rightarrow> string option \<Rightarrow> cmdq" where
  "plm_entry bs wait uid =
     \<lparr>cq_cmd = padded 25 bs, cq_sendcount = 0, cq_msglen = of_nat (length bs),
      cq_state = wait OR CMDQ_WAITSEND, cq_wait = wait, cq_tp = 0, cq_uid = uid\<rparr>"

definition plm_enqueue :: "cmdq \<Rightarrow> 'a plm_scheme \<Rightarrow> 'a plm_scheme" where
  "plm_enqueue c st = st\<lparr>cmdfifo := cmdfifo st @ [c]\<rparr>"

definition plm_localdata :: "dptr \<Rightarrow> 'a plm_scheme \<Rightarrow> devdata res" where
  "plm_localdata p st = (case plm_data st p of None \<Rightarrow> Inl NullDeref | Some dd \<Rightarrow> Inr dd)"

definition plm_get_hops :: "devdata \<Rightarrow> u8" where
  "plm_get_hops dd = (if dd_hopflag dd = 255 then PLMFLAGSET_STD3HOPS else dd_hopflag dd)"

definition plm_set_hops :: "dptr \<Rightarrow> u8 \<Rightarrow> 'a plm_scheme \<Rightarrow> 'a plm_scheme res" where
  "plm_set_hops p flag st =
     bindE (plm_localdata p st) (\<lambda>dd.
       if dd_hopflag dd \<noteq> 255 then Inr st
       else
         let h1 = (if flag AND PLMFLAG_REMHOP1 \<noteq> 0 then 3 - 2 else 3 :: int);
             h2 = (if flag AND PLMFLAG_REMHOP2 \<noteq> 0 then h1 - 1 else h1);
             hop = (if h2 = 0 then 0
                    else if h2 = 1 then PLMFLAG_REMHOP1 OR PLMFLAG_MAXHOP1
                    else if h2 = 2 then PLMFLAG_REMHOP2 OR PLMFLAG_MAXHOP2
                    else PLMFLAGSET_STD3HOPS)
         in Inr (st\<lparr>plm_data := (plm_data st)(p \<mapsto> dd\<lparr>dd_hopflag := hop\<rparr>)\<rparr>))"

text \<open>The first eight bytes of a message to a device.\<close>

definition plm_header :: "devdata \<Rightarrow> u8 \<Rightarrow> u8 \<Rightarrow> u8 \<Rightarrow> u8 list" where
  "plm_header dd ext com1 com2 =
     [PLM_START, PLM_SEND] @ dd_daddr dd @ [plm_get_hops dd OR ext, com1, com2]"

definition plm_calc_cs :: "u8 \<Rightarrow> u8 \<Rightarrow> u8 list \<Rightarrow> u8" where
  "plm_calc_cs com1 com2 data =
     (let sum = uint com1 + uint com2 + sum_list (map uint (take 14 data))
      in NOT (word_of_int (sum mod 256)) + 1)"

definition plm_enq_stdcs :: "dptr \<Rightarrow> u8 \<Rightarrow> u8 \<Rightarrow> u8 \<Rightarrow> 'a plm_scheme \<Rightarrow> 'a plm_scheme res" where
  "plm_enq_stdcs p com1 com2 waitflags st =
     bindE (plm_localdata p st) (\<lambda>dd.
       let data = padded 14 (if 1 < dd_group dd then [dd_group dd] else [])
       in Inr (plm_enqueue (plm_entry (plm_header dd PLMFLAG_EXT com1 com2
                 @ data[13 := plm_calc_cs com1 com2 data]) waitflags (Some (d_uid (dmem st p)))) st))"

definition plm_enq_std :: "dptr \<Rightarrow> u8 \<Rightarrow> u8 \<Rightarrow> u8 \<Rightarrow> 'a plm_scheme \<Rightarrow> 'a plm_scheme res" where
  "plm_enq_std p com1 com2 waitflags st =
     (if proto_of (d_proto (dmem st p)) = Some PROTO_INSTEON_V2CS \<and> com1 \<noteq> STDCMD_STATUSREQ
      then plm_enq_stdcs p com1 com2 waitflags st
      else bindE (plm_localdata p st) (\<lambda>dd.
             Inr (plm_enqueue (plm_entry (plm_header dd 0 com1 com2) waitflags (Some (d_uid (dmem st p)))) st)))"

definition plm_enq_ext ::
    "dptr \<Rightarrow> u8 \<Rightarrow> u8 \<Rightarrow> u8 list \<Rightarrow> u8 \<Rightarrow> 'a plm_scheme \<Rightarrow> 'a plm_scheme res" where
  "plm_enq_ext p com1 com2 data waitflags st =
     bindE (plm_localdata p st) (\<lambda>dd.
       let data1 = (if proto_of (d_proto (dmem st p)) = Some PROTO_INSTEON_V2CS
                    then data[13 := plm_calc_cs com1 com2 data] else data)
       in Inr (plm_enqueue (plm_entry (plm_header dd PLMFLAG_EXT com1 com2 @ data1) waitflags
                 (Some (d_uid (dmem st p)))) st))"

text \<open>A pause of the queue; its count is a \<^verbatim>\<open>uint8_t\<close>.\<close>

definition plm_pause :: "u8 \<Rightarrow> cmdq" where
  "plm_pause howlong =
     \<lparr>cq_cmd = padded 25 [CMDQ_NOPWAIT], cq_sendcount = howlong, cq_msglen = 0, cq_state = 0,
      cq_wait = 0, cq_tp = 0, cq_uid = None\<rparr>"

definition plm_enq_wait :: "u8 \<Rightarrow> 'a plm_scheme \<Rightarrow> 'a plm_scheme" where
  "plm_enq_wait howlong st = plm_enqueue (plm_pause howlong) st"

definition plm_getinfo :: "'a plm_scheme \<Rightarrow> 'a plm_scheme" where
  "plm_getinfo st = plm_enqueue (plm_entry [PLM_START, 0x60] CMDQ_WAITACK None) st"

definition plm_getconf :: "'a plm_scheme \<Rightarrow> 'a plm_scheme" where
  "plm_getconf st = plm_enqueue (plm_entry [PLM_START, 0x73] CMDQ_WAITACK None) st"

definition plm_setconf :: "u8 \<Rightarrow> 'a plm_scheme \<Rightarrow> 'a plm_scheme" where
  "plm_setconf cfgflags st = plm_enqueue (plm_entry [PLM_START, 0x6B, cfgflags] CMDQ_WAITACK None) st"

text \<open>\<open>fl\<close>: not the first record.\<close>

definition plm_getplm_aldb :: "bool \<Rightarrow> 'a plm_scheme \<Rightarrow> 'a plm_scheme" where
  "plm_getplm_aldb fl st =
     (if \<not> fl
      then plm_enqueue (plm_entry [PLM_START, 0x69] CMDQ_WAITACK None) (st\<lparr>plmaldbmorerecords := True\<rparr>)
      else plm_enqueue (plm_entry [PLM_START, 0x6A] CMDQ_WAITACK None) st)"

definition plm_all_link :: "u8 \<Rightarrow> u8 \<Rightarrow> 'a plm_scheme \<Rightarrow> 'a plm_scheme" where
  "plm_all_link linkcode grp st =
     plm_enqueue ((plm_entry [PLM_START, PLM_ALINK_START, linkcode, grp] (CMDQ_WAITACKDATA OR CMDQ_WAITALINK) None)
       \<lparr>cq_state := CMDQ_WAITACK OR CMDQ_WAITALINK OR CMDQ_WAITSEND\<rparr>) st"

definition plm_req_aldb :: "dptr \<Rightarrow> 'a plm_scheme \<Rightarrow> 'a plm_scheme res" where
  "plm_req_aldb p st =
     plm_enq_ext p EXTCMD_RWALDB 0 (replicate 14 0) (CMDQ_WAITACK OR CMDQ_WAITDATA OR CMDQ_WAITALDB) st"

definition plm_switch_on :: "dptr \<Rightarrow> u8 \<Rightarrow> 'a plm_scheme \<Rightarrow> 'a plm_scheme res" where
  "plm_switch_on p level = plm_enq_std p STDCMD_ON level CMDQ_WAITACKDATA"

definition plm_switch_off :: "dptr \<Rightarrow> 'a plm_scheme \<Rightarrow> 'a plm_scheme res" where
  "plm_switch_off p = plm_enq_std p STDCMD_OFF 0 CMDQ_WAITACKDATA"

section \<open>Queries\<close>

definition plm_query_all_devices :: "'a plm_scheme \<Rightarrow> 'a plm_scheme res" where
  "plm_query_all_devices st =
     foldE (\<lambda>p. plm_enq_std p STDCMD_STATUSREQ 0 (CMDQ_WAITACK OR CMDQ_WAITANY)) (alldevs st) st"

definition plm_queue_empty_cb :: "'a plm_scheme \<Rightarrow> 'a plm_scheme res" where
  "plm_queue_empty_cb st =
     bindE (if need_query st \<noteq> 0 then plm_query_all_devices (plm_enq_wait 10 st) else Inr st) (\<lambda>st1.
       Inr (st1\<lparr>need_query := 0\<rparr>))"

section \<open>The queue runner\<close>

text \<open>Copies of the head go; then the head itself, when a later message begins like it.\<close>

definition plm_condense :: "cmdq list \<Rightarrow> cmdq list" where
  "plm_condense q =
     (case q of
        [] \<Rightarrow> []
      | cmd # rest \<Rightarrow>
          let rest1 = filter (\<lambda>chk. \<not> (hd (cq_cmd chk) \<noteq> CMDQ_NOPWAIT \<and> cq_cmd chk = cq_cmd cmd)) rest
          in if cq_cmd cmd ! 1 = PLM_SEND \<and> (\<exists>chk \<in> set rest1. take 8 (cq_cmd chk) = take 8 (cq_cmd cmd))
             then rest1 else cmd # rest1)"

definition plm_condense_runq :: "'a plm_scheme \<Rightarrow> 'a plm_scheme" where
  "plm_condense_runq st = st\<lparr>cmdfifo := plm_condense (cmdfifo st)\<rparr>"

definition byte_string :: "u8 list \<Rightarrow> string" where
  "byte_string bs = map (\<lambda>b. char_of (unat b)) bs"

definition plm_send_cmd :: "cmdq \<Rightarrow> 'a plm_scheme \<Rightarrow> 'a plm_scheme res" where
  "plm_send_cmd cmd st =
     (let bs = take (unat (cq_msglen cmd)) (cq_cmd cmd)
      in case plm_conn st of
           Some c \<Rightarrow> write_bev (oc_bev (oconns st c)) (byte_string bs) st
         | None \<Rightarrow> Inr (st\<lparr>hub_posts := hub_posts st @ [''/3?'' @ hex_text True bs @ ''=I=3'']\<rparr>))"

text \<open>When the wait for the answers to a command is over, in nanoseconds after it was sent.\<close>

definition cmdq_timeout :: "plm_type \<Rightarrow> cmdq \<Rightarrow> int" where
  "cmdq_timeout t cmd =
     (if cq_state cmd AND CMDQ_WAITALINK \<noteq> 0 then 5000000000
      else if cq_state cmd AND CMDQ_WAITALDB \<noteq> 0 then 10000000000
      else if t = PLM_TYPE_HUBHTTP then 12500000000 else 3500000000)"

text \<open>One round of the loop: it is left with a result, or goes on with the next head.\<close>

datatype 's round = Again 's | Return "'s res"

definition plm_runq_round :: "plm_env \<Rightarrow> 'a plm_scheme \<Rightarrow> 'a plm_scheme round" where
  "plm_runq_round e st =
     (case cmdfifo st of
        [] \<Rightarrow> Return (plm_queue_empty_cb st)
      | cmd # q \<Rightarrow>
          if hd (cq_cmd cmd) = CMDQ_NOPWAIT
          then Return (Inr (if cq_sendcount cmd = 0 then st\<lparr>cmdfifo := q\<rparr>
                            else st\<lparr>cmdfifo := cmd\<lparr>cq_sendcount := cq_sendcount cmd - 1\<rparr> # q\<rparr>))
          else if cq_state cmd = 0 \<or> CMDQ_MAX_SEND < cq_sendcount cmd
          then Again (st\<lparr>cmdfifo := q\<rparr>)
          else if cq_state cmd AND CMDQ_WAITSEND \<noteq> 0 \<and> 0 < cq_msglen cmd
          then
            let cmd1 = cmd\<lparr>cq_sendcount := cq_sendcount cmd + 1, cq_state := cq_state cmd AND NOT CMDQ_WAITSEND,
                           cq_tp := ie_mono e\<rparr>
            in Return (bindE (plm_send_cmd cmd1 (st\<lparr>cmdfifo := cmd1 # q\<rparr>)) (\<lambda>st1.
                 Inr (if plmtype st1 = PLM_TYPE_HUBHTTP then st1\<lparr>hubhtmlstate := HUBHTMLSTATE_WCMD\<rparr> else st1)))
          else if cq_tp cmd + cmdq_timeout (plmtype st) cmd < ie_mono e
          then Again (if CMDQ_MAX_SEND \<le> cq_sendcount cmd then st\<lparr>cmdfifo := q\<rparr>
                      else st\<lparr>cmdfifo := cmd\<lparr>cq_state := cq_wait cmd OR CMDQ_WAITSEND\<rparr> # q\<rparr>)
          else Return (Inr st))"

text \<open>\<open>None\<close>: the loop never returns.\<close>

partial_function (option) plm_runq_loop :: "plm_env \<Rightarrow> 'a plm_scheme \<Rightarrow> 'a plm_scheme res option" where
  [code]: "plm_runq_loop e st =
     (case plm_runq_round e st of Return r \<Rightarrow> Some r | Again st1 \<Rightarrow> plm_runq_loop e st1)"

definition plm_runq :: "plm_env \<Rightarrow> 'a plm_scheme \<Rightarrow> 'a plm_scheme res option" where
  "plm_runq e st =
     (if plmtype st = PLM_TYPE_HUBHTTP \<and> hubhtmlstate st \<noteq> HUBHTMLSTATE_IDLE then Some (Inr st)
      else plm_runq_loop e (plm_condense_runq st))"

section \<open>What changes the queue from outside\<close>

text \<open>A change of the head, where there is one.\<close>

definition upd_head :: "(cmdq \<Rightarrow> cmdq) \<Rightarrow> 'a plm_scheme \<Rightarrow> 'a plm_scheme" where
  "upd_head f st = (case cmdfifo st of [] \<Rightarrow> st | cmd # q \<Rightarrow> st\<lparr>cmdfifo := f cmd # q\<rparr>)"

definition plmcmdq_retry_cur :: "'a plm_scheme \<Rightarrow> 'a plm_scheme" where
  "plmcmdq_retry_cur =
     upd_head (\<lambda>cmd. cmd\<lparr>cq_state := cq_wait cmd OR CMDQ_WAITSEND, cq_sendcount := cq_sendcount cmd + 1\<rparr>)"

definition plmcmdq_got_data :: "plm_env \<Rightarrow> u8 \<Rightarrow> 'a plm_scheme \<Rightarrow> 'a plm_scheme" where
  "plmcmdq_got_data e whatkind =
     upd_head (\<lambda>cmd. cmd\<lparr>cq_state := cq_state cmd AND NOT whatkind, cq_tp := ie_mono e\<rparr>)"

definition plmcmdq_check_ack :: "plm_env \<Rightarrow> u8 list \<Rightarrow> 'a plm_scheme \<Rightarrow> 'a plm_scheme" where
  "plmcmdq_check_ack e data st =
     (case cmdfifo st of
        [] \<Rightarrow> st
      | cmd # _ \<Rightarrow>
          let kind = cq_cmd cmd ! 1;
              ackbit = (if kind = PLM_ALINK_START then data ! 4
                        else if kind = PLM_SEND then (if 20 < cq_msglen cmd then data ! 22 else data ! 8)
                        else ie_ack e);
              mine = (cq_msglen cmd < 8 \<or> \<not> (kind = PLM_SEND \<or> kind = PLM_SEND_X10) \<or>
                      (take 5 data = take 5 (cq_cmd cmd) \<and> take 2 (drop 6 data) = take 2 (drop 6 (cq_cmd cmd))))
          in if \<not> mine then st
             else if ackbit = PLMCMD_ACK then plmcmdq_got_data e CMDQ_WAITACK st
             else plmcmdq_retry_cur st)"

definition plmcmdq_dequeue :: "'a plm_scheme \<Rightarrow> 'a plm_scheme" where
  "plmcmdq_dequeue st = st\<lparr>cmdfifo := tl (cmdfifo st)\<rparr>"

definition plmcmdq_flush :: "'a plm_scheme \<Rightarrow> 'a plm_scheme" where
  "plmcmdq_flush st = st\<lparr>cmdfifo := []\<rparr>"

definition plmcmdq_check_recv ::
    "plm_env \<Rightarrow> u8 list \<Rightarrow> u8 list \<Rightarrow> u8 \<Rightarrow> u8 \<Rightarrow> 'a plm_scheme \<Rightarrow> 'a plm_scheme" where
  "plmcmdq_check_recv e fromaddr toaddr cmd1 whatkind st =
     (case cmdfifo st of
        [] \<Rightarrow> st
      | cmd # _ \<Rightarrow>
          if fromaddr = take 3 (drop 2 (cq_cmd cmd)) \<and> toaddr = plm_addr st
          then let st1 = (if cmd1 = cq_cmd cmd ! 6 then plmcmdq_got_data e whatkind st else st)
               in plmcmdq_got_data e CMDQ_WAITANY st1
          else st)"

text \<open>The first pause of the queue is made longer, or one is put in front.\<close>

fun extend_pause :: "cmdq list \<Rightarrow> cmdq list" where
  "extend_pause [] = []"
| "extend_pause (c # q) =
     (if hd (cq_cmd c) = CMDQ_NOPWAIT then c\<lparr>cq_sendcount := 10\<rparr> # q else c # extend_pause q)"

definition plm_check_proper_delay :: "u8 list \<Rightarrow> 'a plm_scheme \<Rightarrow> 'a plm_scheme" where
  "plm_check_proper_delay devaddr st =
     (let q = cmdfifo st
      in if \<exists>c \<in> set q. cq_cmd c ! 1 = PLM_SEND \<and> take 3 (drop 2 (cq_cmd c)) = devaddr
         then st\<lparr>cmdfifo := (if \<exists>c \<in> set q. hd (cq_cmd c) = CMDQ_NOPWAIT then extend_pause q
                             else plm_pause 10 # q)\<rparr>
         else st)"

end
