(* ===== verification/Plmrecv.thy ===== *)
theory Plmrecv
  imports Plmqueue "HOL-Library.Signed_Division"
begin

text \<open>
  What the Insteon modem sends: bytes become messages on the work queue (\<^verbatim>\<open>plm_readcb\<close>, or
  \<^verbatim>\<open>hubhtml_readcb\<close> for a hub that is asked over HTTP), and \<^verbatim>\<open>handle_command\<close> acts on each.
\<close>

section \<open>Links of a device\<close>

text \<open>\<^verbatim>\<open>addr_to_string\<close> and \<^verbatim>\<open>addr_to_groupuid\<close>.\<close>

definition addr_to_string :: "u8 list \<Rightarrow> string" where
  "addr_to_string a = hex_byte True (a ! 0) @ ''.'' @ hex_byte True (a ! 1) @ ''.'' @ hex_byte True (a ! 2)"

text \<open>
  The record \<open>ALDB_MAXSIZE\<close> passes the test of the code and lies behind the array.
\<close>

definition plm_write_aldb_record :: "dptr \<Rightarrow> nat \<Rightarrow> 'a plm_scheme \<Rightarrow> 'a plm_scheme res" where
  "plm_write_aldb_record p recno st =
     (if ALDB_MAXSIZE < recno then Inr st
      else if recno = ALDB_MAXSIZE then Inl OutOfBounds
      else bindE (plm_localdata p st) (\<lambda>dd.
        let rec = (dd_aldb dd ! recno)\<lparr>ab_addr := 0x0FFF - 8 * of_nat recno\<rparr>;
            st1 = st\<lparr>plm_data := (plm_data st)(p \<mapsto> dd\<lparr>dd_aldb := (dd_aldb dd)[recno := rec]\<rparr>)\<rparr>;
            data = [0, 0x02, ucast (drop_bit 8 (ab_addr rec AND 0xFF00)), ucast (ab_addr rec AND 0x00FF), 0x08,
                    ab_lflags rec, ab_group rec] @ ab_devaddr rec @ [ab_ldata1 rec, ab_ldata2 rec, ab_ldata3 rec, 0]
        in plm_enq_ext p EXTCMD_RWALDB 0 data (CMDQ_WAITACK OR CMDQ_WAITDATA) st1))"

definition plm_write_aldb :: "dptr \<Rightarrow> 'a plm_scheme \<Rightarrow> 'a plm_scheme res" where
  "plm_write_aldb p st =
     bindE (plm_localdata p st) (\<lambda>dd. foldE (plm_write_aldb_record p) [0..<dd_aldblen dd] st)"

text \<open>The record of a link, from the fourteen data bytes of an extended message.\<close>

definition aldb_record :: "u8 list \<Rightarrow> aldb" where
  "aldb_record data =
     \<lparr>ab_addr = ucast (data ! 3) OR push_bit 8 (ucast (data ! 2)), ab_lflags = data ! 5, ab_group = data ! 6,
      ab_devaddr = [data ! 7, data ! 8, data ! 9], ab_ldata1 = data ! 10, ab_ldata2 = data ! 11,
      ab_ldata3 = data ! 12\<rparr>"

text \<open>The number of a record: \<^verbatim>\<open>int\<close> division rounds towards zero.\<close>

definition aldb_recno :: "u16 \<Rightarrow> int" where
  "aldb_recno addr = (0x0FFF - uint addr) sdiv 8"

definition find_or_new_group :: "string \<Rightarrow> 'a registry_scheme \<Rightarrow> gptr \<times> 'a registry_scheme" where
  "find_or_new_group gn st =
     (case find_devgroup_byuid st gn of
        Some g \<Rightarrow> (g, st)
      | None \<Rightarrow> let (g, st1) = new_devgroup gn st in (g, upd_grp g (\<lambda>r. r\<lparr>g_name := Some gn\<rparr>) st1))"

definition join_group :: "dptr \<Rightarrow> gptr \<Rightarrow> 'a registry_scheme \<Rightarrow> 'a registry_scheme" where
  "join_group p g st = (if dev_in_group p g st then st else add_dev_group p g st)"

text \<open>A record in which the device is the controller makes it and the linked device members of a group.\<close>

definition aldb_group :: "dptr \<Rightarrow> aldb \<Rightarrow> 'a plm_scheme \<Rightarrow> 'a plm_scheme res" where
  "aldb_group p rec st =
     (case d_loc (dmem st p) of
        None \<Rightarrow> Inl NullDeref
      | Some loc \<Rightarrow>
          let (g, st1) = find_or_new_group (take 8 loc @ ''-'' @ hex_byte True (ab_group rec)) st;
              st2 = join_group p g st1
          in Inr (case find_device_byuid st2 (addr_to_string (ab_devaddr rec)) of
                    None \<Rightarrow> st2 | Some q \<Rightarrow> join_group q g st2))"

definition first_unused :: "aldb list \<Rightarrow> nat option" where
  "first_unused recs = find (\<lambda>i. ab_addr (recs ! i) = 0) [0..<ALDB_MAXSIZE]"

definition plm_handle_aldb :: "dptr \<Rightarrow> u8 list \<Rightarrow> 'a plm_scheme \<Rightarrow> (int \<times> 'a plm_scheme) res" where
  "plm_handle_aldb p data st =
     (let rec = aldb_record data; recno = aldb_recno (ab_addr rec)
      in if int ALDB_MAXSIZE \<le> recno then Inr (if int ALDB_MAXSIZE * 3 < recno then 0 else 1, st)
         else if recno < 0 then Inr (0, st)
         else bindE (plm_localdata p st) (\<lambda>dd.
           let recs = (dd_aldb dd)[nat recno := rec];
               len = (case first_unused recs of None \<Rightarrow> dd_aldblen dd | Some i \<Rightarrow> i);
               st1 = st\<lparr>plm_data := (plm_data st)(p \<mapsto> dd\<lparr>dd_aldb := recs, dd_aldblen := len\<rparr>)\<rparr>
           in bindE (if ab_lflags rec AND 0x40 \<noteq> 0 then aldb_group p rec st1 else Inr st1) (\<lambda>st2.
                Inr (if \<forall>i \<in> set [5..<13]. data ! i = 0 then 1 else 0, st2))))"

text \<open>Every group of the device needs a record that makes the modem a responder.\<close>

definition links_modem :: "u8 list \<Rightarrow> u8 \<Rightarrow> aldb \<Rightarrow> bool" where
  "links_modem addr grp rec \<longleftrightarrow> grp = ab_group rec \<and> ab_devaddr rec = addr \<and> ab_lflags rec AND 0x40 = 0"

definition link_group :: "dptr \<Rightarrow> u8 \<Rightarrow> 'a plm_scheme \<Rightarrow> 'a plm_scheme res" where
  "link_group p grp st =
     bindE (plm_enq_std p 0x09 grp (CMDQ_WAITACK OR CMDQ_WAITDATA) (plm_all_link 0 grp st))
       (plm_enq_std p 0x01 grp (CMDQ_WAITACK OR CMDQ_WAITDATA))"

definition verify_aldb_group_links :: "dptr \<Rightarrow> 'a plm_scheme \<Rightarrow> 'a plm_scheme res" where
  "verify_aldb_group_links p st =
     (case plm_data st p of
        None \<Rightarrow> Inr st
      | Some dd \<Rightarrow>
          let recs = take (dd_aldblen dd) (dd_aldb dd)
          in foldE (\<lambda>rec st. if \<exists>r \<in> set recs. links_modem (plm_addr st) (ab_group rec) r then Inr st
                             else link_group p (ab_group rec) st) recs st)"

section \<open>Messages from devices\<close>

definition storelog_switch :: "dptr \<Rightarrow> u8 \<Rightarrow> 'a plm_scheme \<Rightarrow> 'a plm_scheme" where
  "storelog_switch p s st = upd_dev p (\<lambda>d. store_data_dev d DATALOC_DATA (ucast s)) st"

definition storelog_dimmer :: "dptr \<Rightarrow> dbl \<Rightarrow> 'a plm_scheme \<Rightarrow> 'a plm_scheme" where
  "storelog_dimmer p d st = upd_dev p (\<lambda>x. store_data_dev x DATALOC_DATA d) st"

text \<open>A value from a device: stored by its type, and sent to the server.\<close>

definition report_level :: "dptr \<Rightarrow> u8 \<Rightarrow> dbl \<Rightarrow> 'a plm_scheme \<Rightarrow> 'a plm_scheme res" where
  "report_level p s d st =
     (let st1 = (if dev_type_of (d_type (dmem st p)) = Some DEVICE_SWITCH then storelog_switch p s st
                 else storelog_dimmer p d st)
      in send_update (server_bev st1) p st1)"

definition level_of :: "u8 \<Rightarrow> dbl" where
  "level_of com2 = dbl_div (dbl_of_int (uint com2)) (dbl_lit 255 1)"

text \<open>
  The uid of the group is written to an array of 16 characters. \<open>group\<close> is a \<^verbatim>\<open>uint8_t\<close> here.
\<close>

definition plm_query_grouped_devices :: "dptr \<Rightarrow> u8 \<Rightarrow> 'a plm_scheme \<Rightarrow> 'a plm_scheme res" where
  "plm_query_grouped_devices p grp st =
     (let gn = opt_fmt (d_loc (dmem st p)) @ ''-'' @ hex_byte True grp
      in if 16 \<le> length gn then Inl OutOfBounds
         else case find_devgroup_byuid st gn of
           None \<Rightarrow> Inr (st\<lparr>need_query := need_query st + 1\<rparr>)
         | Some g \<Rightarrow>
             bindE (foldE (\<lambda>q. plm_enq_std q STDCMD_STATUSREQ 0 (CMDQ_WAITACK OR CMDQ_WAITANY))
                      (g_members (gmem st g)) (plm_enq_wait 10 st)) (\<lambda>st1.
               Inr (plm_enq_wait 1 st1)))"

definition maybe_query :: "dptr \<Rightarrow> u8 list \<Rightarrow> u8 \<Rightarrow> 'a plm_scheme \<Rightarrow> 'a plm_scheme res" where
  "maybe_query p fromaddr grp st =
     (let st1 = plm_check_proper_delay fromaddr st
      in if grp \<noteq> 0 then plm_query_grouped_devices p grp st1
         else Inr (st1\<lparr>need_query := need_query st1 + 1\<rparr>))"

text \<open>A group broadcast without a level stands for fully on, or off; here the level 100.\<close>

definition on_off :: "bool \<Rightarrow> u8 \<Rightarrow> u8 \<Rightarrow> u8 \<times> dbl" where
  "on_off on flags com2 =
     (if flags AND PLMFLAG_GROUP \<noteq> 0 \<and> com2 = 0 then (if on then (1, dbl_lit 100 1) else (0, 0))
      else (com2, level_of com2))"

definition set_proto :: "u8 \<Rightarrow> device \<Rightarrow> device" where
  "set_proto com2 d =
     (if com2 = 0x00 then d\<lparr>d_proto := proto_code PROTO_INSTEON_V1\<rparr>
      else if com2 = 0x01 then d\<lparr>d_proto := proto_code PROTO_INSTEON_V2\<rparr>
      else if com2 = 0x02 \<or> com2 = 0xFF then d\<lparr>d_proto := proto_code PROTO_INSTEON_V2CS\<rparr>
      else d)"

text \<open>The \<^verbatim>\<open>switch\<close> over the first command byte.\<close>

definition std_command ::
    "dptr \<Rightarrow> u8 list \<Rightarrow> u8 \<Rightarrow> u8 \<Rightarrow> u8 \<Rightarrow> u8 \<Rightarrow> 'a plm_scheme \<Rightarrow> 'a plm_scheme res" where
  "std_command p fromaddr flags grp com1 com2 st =
     (if com1 = 0x0D then Inr (upd_dev p (set_proto com2) st)
      else if com1 = 0x0F
      then bindE (plm_set_hops p flags st) (\<lambda>st1. Inr (st1\<lparr>need_query := need_query st1 + 1\<rparr>))
      else if com1 \<in> {0x11, 0x12, 0x13, 0x14}
      then let (s, d) = on_off (com1 \<in> {0x11, 0x12}) flags com2
           in bindE (report_level p s d st) (maybe_query p fromaddr grp)
      else if com1 = 0x18 then maybe_query p fromaddr grp st
      else Inr st)"

text \<open>The answer to a status request: its first byte is not a command, the level is the second one.\<close>

definition status_reply :: "dptr \<Rightarrow> cmdq \<Rightarrow> u8 \<Rightarrow> 'a plm_scheme \<Rightarrow> 'a plm_scheme res" where
  "status_reply p cmd com2 st =
     (case (case cq_uid cmd of None \<Rightarrow> Some p | Some uid \<Rightarrow> find_device_byuid st uid) of
        None \<Rightarrow> Inr st
      | Some q \<Rightarrow> report_level q (if 0 < com2 then 1 else 0) (level_of com2) st)"

definition plm_handle_stdrecv ::
    "plm_env \<Rightarrow> u8 list \<Rightarrow> u8 list \<Rightarrow> u8 \<Rightarrow> u8 \<Rightarrow> u8 \<Rightarrow> 'a plm_scheme \<Rightarrow> 'a plm_scheme res" where
  "plm_handle_stdrecv e fromaddr toaddr flags com1 com2 st =
     (let st1 = (plmcmdq_check_recv e fromaddr toaddr com1 CMDQ_WAITDATA st)\<lparr>plm_lastupd := ce_now e\<rparr>
      in case find_device_byuid st1 (addr_to_string fromaddr) of
           None \<Rightarrow> Inr st1
         | Some p \<Rightarrow>
             let grp = (if flags AND PLMFLAG_GROUP \<noteq> 0 \<and> flags AND PLMFLAG_BROAD \<noteq> 0 then toaddr ! 2 else 0)
             in case cmdfifo st1 of
                  [] \<Rightarrow> std_command p fromaddr flags grp com1 com2 st1
                | cmd # _ \<Rightarrow>
                    if cq_cmd cmd ! 6 = STDCMD_STATUSREQ then status_reply p cmd com2 st1
                    else std_command p fromaddr flags grp com1 com2 st1)"

definition plm_handle_extrecv ::
    "plm_env \<Rightarrow> u8 list \<Rightarrow> u8 list \<Rightarrow> u8 \<Rightarrow> u8 \<Rightarrow> u8 \<Rightarrow> u8 list \<Rightarrow> 'a plm_scheme \<Rightarrow> 'a plm_scheme res" where
  "plm_handle_extrecv e fromaddr toaddr flags com1 com2 ext st =
     (let st1 = plmcmdq_check_recv e fromaddr toaddr com1 CMDQ_WAITEXT st
      in case find_device_byuid st1 (addr_to_string fromaddr) of
           None \<Rightarrow> Inr st1
         | Some p \<Rightarrow>
             if com1 = EXTCMD_RWALDB
             then bindE (plm_handle_aldb p ext st1) (\<lambda>(last, st2).
                    if last \<noteq> 0 then verify_aldb_group_links p (plmcmdq_got_data e CMDQ_WAITALDB st2)
                    else Inr st2)
             else Inr st1)"

section \<open>Messages from the modem\<close>

definition plm_handle_getinfo :: "u8 list \<Rightarrow> 'a plm_scheme \<Rightarrow> 'a plm_scheme" where
  "plm_handle_getinfo data st =
     (if data ! 8 \<noteq> PLMCMD_ACK then st
      else plmcmdq_dequeue (st\<lparr>plm_addr := take 3 (drop 2 data),
             plminfo := (plminfo st)\<lparr>dd_daddr := take 3 (drop 2 data), dd_devcat := data ! 5,
                                     dd_subcat := data ! 6, dd_firmware := data ! 7\<rparr>\<rparr>))"

text \<open>The head of the queue is read without a test for an empty queue.\<close>

definition plm_handle_alink_complete :: "u8 list \<Rightarrow> 'a plm_scheme \<Rightarrow> 'a plm_scheme res" where
  "plm_handle_alink_complete data st =
     (case cmdfifo st of
        [] \<Rightarrow> Inl NullDeref
      | cmd # _ \<Rightarrow> Inr (if take 3 (drop 4 data) = take 3 (drop 2 (cq_cmd cmd)) then plmcmdq_dequeue st else st))"

text \<open>The macro \<^verbatim>\<open>CHECKHTMLSTATE\<close>.\<close>

definition check_html_state :: "'a plm_scheme \<Rightarrow> 'a plm_scheme" where
  "check_html_state st =
     (if plmtype st = PLM_TYPE_HUBHTTP \<and> hubhtmlstate st = HUBHTMLSTATE_WCMD
      then st\<lparr>hubhtmlstate := HUBHTMLSTATE_IDLE\<rparr> else st)"

text \<open>The state of the command that was the head before, as the pointer \<^verbatim>\<open>cmd\<close> sees it afterwards.\<close>

definition cmdq_waiting :: "cmdq \<Rightarrow> bool" where
  "cmdq_waiting c \<longleftrightarrow> cq_state c AND 0x77 \<noteq> 0"

definition confirm_send :: "plm_env \<Rightarrow> u8 list \<Rightarrow> 'a plm_scheme \<Rightarrow> 'a plm_scheme" where
  "confirm_send e data st =
     (let st1 = plmcmdq_check_ack e data st
      in if plmtype st1 \<noteq> PLM_TYPE_HUBHTTP then st1
         else
           let st2 = (if hubhtmlstate st1 = HUBHTMLSTATE_WSEND then st1\<lparr>hubhtmlstate := HUBHTMLSTATE_IDLE\<rparr> else st1)
           in (case cmdfifo st2 of
                 [] \<Rightarrow> st2
               | cmd # _ \<Rightarrow> if cmdq_waiting cmd then st2\<lparr>hubhtmlstate := HUBHTMLSTATE_WCMD\<rparr> else st2))"

definition next_aldb :: "u8 list \<Rightarrow> 'a plm_scheme \<Rightarrow> 'a plm_scheme" where
  "next_aldb data st =
     (let mine = (case cmdfifo st of [] \<Rightarrow> False | cmd # _ \<Rightarrow> data ! 1 = cq_cmd cmd ! 1);
          st1 = (if data ! 2 = PLMCMD_ACK then plm_getplm_aldb True st
                 else if data ! 2 = PLMCMD_NAK then st\<lparr>plmaldbmorerecords := False\<rparr> else st);
          st2 = check_html_state st1
      in if mine then plmcmdq_dequeue st2 else st2)"

text \<open>
  The monitor bit is set in every configuration the modem reports. The kinds of message that are
  only logged fall into the last two groups, by whether \<^verbatim>\<open>CHECKHTMLSTATE\<close> follows.
\<close>

definition handle_command :: "plm_env \<Rightarrow> u8 list \<Rightarrow> 'a plm_scheme \<Rightarrow> 'a plm_scheme res" where
  "handle_command e data st =
     (let plmcmd = data ! 1; check = map_sum id check_html_state
      in if plmcmd = 0x62 then Inr (confirm_send e data st)
         else if plmcmd = 0x50
         then check (plm_handle_stdrecv e (take 3 (drop 2 data)) (take 3 (drop 5 data)) (data ! 8) (data ! 9)
                       (data ! 10) st)
         else if plmcmd = 0x51
         then check (plm_handle_extrecv e (take 3 (drop 2 data)) (take 3 (drop 5 data)) (data ! 8) (data ! 9)
                       (data ! 10) (take 14 (drop 11 data)) st)
         else if plmcmd = 0x60 then check (Inr (plm_handle_getinfo data st))
         else if plmcmd = 0x53 then check (plm_handle_alink_complete data st)
         else if plmcmd = 0x64 then check (Inr (plmcmdq_check_ack e data st))
         else if plmcmd = 0x69 \<or> plmcmd = 0x6A then Inr (next_aldb data st)
         else if plmcmd = 0x73
         then Inr (plm_setconf (data ! 2 OR 0x40) (st\<lparr>plm_config_bits := data ! 2\<rparr>))
         else if plmcmd \<in> {0x56, 0x58, 0x65, 0x61, 0x6C, 0x57, 0x6F} then check (Inr st)
         else Inr st)"

primrec run_works :: "nat \<Rightarrow> plm_env \<Rightarrow> 'a plm_scheme \<Rightarrow> 'a plm_scheme res" where
  "run_works 0 e st = Inr st"
| "run_works (Suc n) e st =
     (case workfifo st of
        [] \<Rightarrow> Inr st
      | w # _ \<Rightarrow> bindE (handle_command e w st) (\<lambda>st1. run_works n e (st1\<lparr>workfifo := tl (workfifo st1)\<rparr>)))"

text \<open>At most two messages are handled in one callback.\<close>

definition plm_run_workq :: "plm_env \<Rightarrow> 'a plm_scheme \<Rightarrow> 'a plm_scheme res" where
  "plm_run_workq = run_works 2"

section \<open>Reading\<close>

text \<open>The length of a message by its second byte; 0 where there is none.\<close>

definition plm_lengths :: "(u8 \<times> nat) list" where
  "plm_lengths =
     [(0x50, 11), (0x51, 25), (0x52, 4), (0x53, 10), (0x54, 3), (0x55, 2), (0x56, 7), (0x57, 10),
      (0x58, 3), (0x60, 9), (0x61, 6), (0x62, 9), (0x63, 5), (0x64, 5), (0x65, 3), (0x66, 6), (0x67, 3),
      (0x68, 4), (0x69, 3), (0x6A, 3), (0x6B, 4), (0x6C, 3), (0x6D, 3), (0x6E, 3), (0x6F, 12), (0x70, 3),
      (0x71, 5), (0x72, 3), (0x73, 6)]"

definition plm_cmdlen :: "u8 \<Rightarrow> nat" where
  "plm_cmdlen t = (case map_of plm_lengths t of None \<Rightarrow> 0 | Some n \<Rightarrow> n)"

text \<open>
  What a look at the input leads to: bytes are dropped, more are waited for, or a message of this
  length is taken.
\<close>

datatype plm_look = Discard nat | Await | Take nat

text \<open>After a NAK of the modem the code drops its two bytes, and then two more.\<close>

definition plm_look_at :: "u8 list \<Rightarrow> plm_look" where
  "plm_look_at buf =
     (case buf of
        b0 # b1 # _ \<Rightarrow>
          if b0 \<noteq> PLM_START then Discard 1
          else if b1 = PLMCMD_NAK then Discard 4
          else
            let clen = plm_cmdlen b1
            in if clen = 0 then Discard 2
               else if length buf < clen then Await
               else if b1 = PLM_SEND \<and> buf ! 5 AND PLMFLAG_EXT \<noteq> 0
               then (if length buf < 23 then Await else Take 23)
               else Take clen
      | _ \<Rightarrow> Await)"

definition plm_readcb :: "'a plm_scheme \<Rightarrow> 'a plm_scheme" where
  "plm_readcb st =
     (let buf = plm_input st
      in case plm_look_at buf of
           Discard n \<Rightarrow> st\<lparr>plm_input := drop n buf\<rparr>
         | Await \<Rightarrow> st
         | Take n \<Rightarrow> st\<lparr>plm_input := drop n buf, workfifo := workfifo st @ [padded 30 (take n buf)]\<rparr>)"

section \<open>The hub over HTTP\<close>

definition hub_clear_path :: string where "hub_clear_path = ''/1?XB=M=1''"

definition hubhtml_plmc_request_cb :: "int option \<Rightarrow> 'a plm_scheme \<Rightarrow> 'a plm_scheme res" where
  "hubhtml_plmc_request_cb response st = (if response = Some 401 then Inl FatalExit else Inr st)"

definition hubhtml_clear_im_buffer_cb :: "'a plm_scheme \<Rightarrow> 'a plm_scheme" where
  "hubhtml_clear_im_buffer_cb st =
     st\<lparr>hub_clears := hub_clears st - 1, hub_posts := hub_posts st @ [hub_clear_path]\<rparr>"

text \<open>What follows the first occurrence of a word, and what precedes it.\<close>

fun text_split :: "string \<Rightarrow> string \<Rightarrow> (string \<times> string) option" where
  "text_split w [] = (if w = [] then Some ([], []) else None)"
| "text_split w (c # s) =
     (if take (length w) (c # s) = w then Some ([], drop (length w) (c # s))
      else map_option (\<lambda>(a, b). (c # a, b)) (text_split w s))"

text \<open>
  The text between the tags is copied, with the NUL that ends it, to an array of 256 characters;
  its length is checked afterwards. \<open>text_at\<close> is what the array holds then.
\<close>

definition hub_usable :: "plm_env \<Rightarrow> string \<Rightarrow> bool \<times> string" where
  "hub_usable e body =
     (let text = body @ [CHR 0x00]; blen = length text
      in if 202 \<le> blen
         then (let n = unat (push_bit 4 (hexof (text ! (blen - 3))) + hexof (text ! (blen - 2)))
               in (True, map (\<lambda>i. if i < blen then text ! i else ie_dbuf e i) [0..<n]))
         else (False, text))"

definition hub_body :: "string \<Rightarrow> string res option" where
  "hub_body buf =
     (case text_split ''<BS>'' buf of
        None \<Rightarrow> None
      | Some (before, rest) \<Rightarrow>
          (case text_split ''</BS>'' buf of
             None \<Rightarrow> None
           | Some (until, _) \<Rightarrow>
               if length until + 1 < length before + 4 then Some (Inl OutOfBounds)
               else let body = drop (length before + 4) until
                    in Some (if 256 < length body + 1 then Inl OutOfBounds else Inr body)))"

definition hubhtml_buf_request_cb :: "plm_env \<Rightarrow> (int \<times> string) option \<Rightarrow> 'a plm_scheme \<Rightarrow> 'a plm_scheme res" where
  "hubhtml_buf_request_cb e response st =
     (case response of
        None \<Rightarrow> Inr st
      | Some (code, buf) \<Rightarrow>
          if code = 401 then Inl FatalExit
          else if code \<noteq> 200 \<or> buf = [] then Inr st
          else case hub_body (c_string buf) of
            None \<Rightarrow> Inr st
          | Some r \<Rightarrow>
              bindE r (\<lambda>body.
                let (new, text) = hub_usable e body;
                    st1 = (if text = [] then st\<lparr>hub_new := new\<rparr>
                           else st\<lparr>hub_new := new, hub_workbuf := hub_workbuf st @ text @ replicate 60 (CHR ''0''),
                                  hub_clears := hub_clears st + 1\<rparr>);
                    n = length (hub_workbuf st1)
                in if 4095 < n then Inl OutOfBounds
                   else Inr (if hubhtmlstate st1 = HUBHTMLSTATE_WCLEAR \<and> n = 0
                             then st1\<lparr>hubhtmlstate := HUBHTMLSTATE_IDLE\<rparr> else st1)))"

text \<open>
  The bytes \<^verbatim>\<open>hex_decode\<close> stores for a part of the text: two characters each, whatever they are, up to a
  pair that begins with a NUL. The rest of the array stays as it is. \<^verbatim>\<open>plmdata\<close> lies on the stack and lives
  as long as the callback: its bytes are \<open>None\<close> until one has been stored, and what an earlier round of the
  loop has stored is still there.
\<close>

fun hub_bytes :: "string \<Rightarrow> u8 list" where
  "hub_bytes (c # d # s) = (if c = CHR 0x00 then [] else (push_bit 4 (hexof c) + hexof d) # hub_bytes s)"
| "hub_bytes s = []"

definition decode_into :: "string \<Rightarrow> u8 option list \<Rightarrow> u8 option list" where
  "decode_into s pd = map Some (hub_bytes s) @ drop (length (hub_bytes s)) pd"

definition plm_byte :: "u8 option list \<Rightarrow> nat \<Rightarrow> u8 res" where
  "plm_byte pd i = (case pd ! i of None \<Rightarrow> Inl Uninit | Some b \<Rightarrow> Inr b)"

text \<open>
  \<open>True\<close>: the loop goes on; \<open>False\<close>: it ends. The bytes are plain \<^verbatim>\<open>char\<close> here, and one
  above 127 is a negative index into \<^verbatim>\<open>plm_cmdlen\<close>.
\<close>

definition hub_look_at :: "string \<Rightarrow> u8 option list \<Rightarrow> (bool \<times> plm_look \<times> u8 option list) res" where
  "hub_look_at buf pd =
     (if length buf < 4 then Inr (False, Await, pd)
      else
        let pd1 = decode_into (take 4 buf) pd
        in bindE (plm_byte pd1 0) (\<lambda>b0.
           if b0 = 0 then Inr (True, Discard 2, pd1)
           else if b0 \<noteq> PLM_START then Inr (False, Discard 2, pd1)
           else bindE (plm_byte pd1 1) (\<lambda>b1.
             if b1 = PLMCMD_NAK then Inr (False, Discard 8, pd1)
             else if 0x80 \<le> b1 then Inl OutOfBounds
             else
               let clen = plm_cmdlen b1 * 2
               in if clen = 0 then Inr (False, Discard 4, pd1)
                  else if length buf < clen then Inr (False, Await, pd1)
                  else if b1 = PLM_SEND
                  then let pd2 = decode_into (take clen buf) pd1
                       in bindE (plm_byte pd2 5) (\<lambda>b5.
                          Inr (if b5 AND PLMFLAG_EXT = 0 then (True, Take (plm_cmdlen b1), pd2)
                               else if length buf < 46 then (False, Await, pd2) else (True, Take 23, pd2)))
                  else Inr (True, Take (plm_cmdlen b1), pd1))))"

lemma hub_look_shrinks:
  "hub_look_at buf pd = Inr (True, Discard n, pd') \<Longrightarrow> 0 < n \<and> buf \<noteq> []"
  "hub_look_at buf pd = Inr (b, Take n, pd') \<Longrightarrow> 0 < n \<and> buf \<noteq> []"
  by (auto simp: hub_look_at_def Let_def bindE_Inr_conv split: if_splits)

function hubhtml_loop :: "string \<Rightarrow> u8 option list \<Rightarrow> u8 list list \<Rightarrow> (string \<times> u8 list list) res" where
  "hubhtml_loop buf pd works =
     (case hub_look_at buf pd of
        Inl err \<Rightarrow> Inl err
      | Inr (again, Await, pd1) \<Rightarrow> Inr (buf, works)
      | Inr (again, Discard n, pd1) \<Rightarrow>
          if again then hubhtml_loop (drop n buf) pd1 works else Inr (drop n buf, works)
      | Inr (again, Take n, pd1) \<Rightarrow>
          hubhtml_loop (drop (2 * n) buf) pd1 (works @ [padded 30 (hub_bytes (take (2 * n) buf))]))"
  by pat_completeness auto
termination
  by (relation "measure (\<lambda>(buf, _, _). length buf)") (auto dest: hub_look_shrinks)

declare hubhtml_loop.simps [simp del]

definition hubhtml_readcb :: "'a plm_scheme \<Rightarrow> 'a plm_scheme res" where
  "hubhtml_readcb st =
     bindE (hubhtml_loop (hub_workbuf st) (replicate 32 None) (workfifo st)) (\<lambda>(buf, works).
       Inr (st\<lparr>hub_workbuf := buf, workfifo := works\<rparr>))"

definition hubhtml_startfeed :: "'a plm_scheme \<Rightarrow> 'a plm_scheme" where
  "hubhtml_startfeed st =
     st\<lparr>hub_workbuf := [], hub_feeding := True, hub_posts := hub_posts st @ [hub_clear_path],
        hubhtmlstate := HUBHTMLSTATE_WCLEAR\<rparr>"

end
