(* ===== verification/Insteon.thy ===== *)
theory Insteon
  imports Plmrecv Scan
begin

text \<open>
  \<^verbatim>\<open>insteoncoll/collector.c\<close> and the connections of \<^verbatim>\<open>insteon_common.c\<close>: what the server asks
  of the Insteon collector, how it starts, loses connections and ends, and the events its main loop
  may deliver.
\<close>

section \<open>Configuration\<close>

definition conf_parse_plmtype :: "string \<Rightarrow> plm_type option" where
  "conf_parse_plmtype value =
     (if strcaseeq value ''serial'' then Some PLM_TYPE_SERIAL
      else if strcaseeq value ''plm'' then Some PLM_TYPE_SERIAL
      else if value = ''hubplm'' then Some PLM_TYPE_HUBPLM
      else if value = ''hubhttp'' then Some PLM_TYPE_HUBHTTP
      else if value = ''http'' then Some PLM_TYPE_HUBHTTP
      else None)"

definition conf_print_plmtype :: "plm_type \<Rightarrow> string" where
  "conf_print_plmtype t =
     (case t of PLM_TYPE_SERIAL \<Rightarrow> ''serial'' | PLM_TYPE_HUBPLM \<Rightarrow> ''hubplm'' | PLM_TYPE_HUBHTTP \<Rightarrow> ''hubhttp'')"

text \<open>The fields of a format \<^verbatim>\<open>%x\<close> with these characters between them, as far as they match.\<close>

fun scan_fields :: "string \<Rightarrow> string \<Rightarrow> u32 list" where
  "scan_fields [] s = (case scan_x s of None \<Rightarrow> [] | Some (v, _) \<Rightarrow> [v])"
| "scan_fields (sep # seps) s =
     (case scan_x s of
        None \<Rightarrow> []
      | Some (v, r) \<Rightarrow>
          v # (case r of [] \<Rightarrow> [] | c # r1 \<Rightarrow> if c = sep then scan_fields seps r1 else []))"

text \<open>Variables that no field was read into keep what they held, from the device before.\<close>

definition scan_into :: "u32 list \<Rightarrow> string \<Rightarrow> string \<Rightarrow> u32 list" where
  "scan_into vars seps s = (let vs = scan_fields seps s in vs @ drop (length vs) vars)"

definition loc_devdata :: "u32 list \<Rightarrow> string \<Rightarrow> u32 list \<times> devdata" where
  "loc_devdata vars loc =
     (let vs = scan_into vars (if length loc = 8 then ''..'' else ''..-'') loc;
          dd = zero_devdata\<lparr>dd_daddr := map ucast (take 3 vs), dd_hopflag := 255\<rparr>
      in (vs, if length loc = 8 then dd else dd\<lparr>dd_group := ucast (vs ! 3)\<rparr>))"

definition insteon_load_device ::
    "devsec \<Rightarrow> u32 list \<times> 'a plm_scheme \<Rightarrow> (u32 list \<times> 'a plm_scheme) res" where
  "insteon_load_device sec = (\<lambda>(vars, st).
     bindE (new_dev_from_conf (coll_conf st) (cs_title sec) st) (\<lambda>(found, st1).
       case found of
         None \<Rightarrow> Inr (vars, st1)
       | Some p \<Rightarrow>
           (case d_loc (dmem st1 p) of
              None \<Rightarrow> Inl NullDeref
            | Some loc \<Rightarrow>
                let (vs, dd) = loc_devdata vars loc;
                    st2 = insert_device p (st1\<lparr>plm_data := (plm_data st1)(p \<mapsto> dd)\<rparr>)
                in bindE (if d_name (dmem st2 p) \<noteq> None then send_register (server_bev st2) p st2 else Inr st2)
                     (\<lambda>st3. Inr (vs, st3)))))"

definition insteon_parse_devices :: "plm_env \<Rightarrow> 'a plm_scheme \<Rightarrow> 'a plm_scheme res" where
  "insteon_parse_devices e st =
     bindE (foldE insteon_load_device (cf_devices (coll_conf st)) (map (ie_scan e) [0..<4], st)) (\<lambda>(_, st1). Inr st1)"

section \<open>Requests of the server\<close>

definition insteon_is_ok :: "plm_env \<Rightarrow> 'a plm_scheme \<Rightarrow> bool" where
  "insteon_is_ok e st \<longleftrightarrow> ce_now e - plm_lastupd st < plm_rescan_rate st * 5"

definition coll_chg_switch_cb :: "dptr \<Rightarrow> u8 \<Rightarrow> 'a plm_scheme \<Rightarrow> 'a plm_scheme res" where
  "coll_chg_switch_cb p state st = (if state \<noteq> 0 then plm_switch_on p 0xFF st else plm_switch_off p st)"

text \<open>The conversion to \<^verbatim>\<open>uint8_t\<close> is undefined for a value that does not fit.\<close>

definition dbl_to_u8 :: "dbl \<Rightarrow> u8 res" where
  "dbl_to_u8 x =
     (let i = sint (dbl_lrint x) in if 0 \<le> i \<and> i < 256 then Inr (word_of_int i) else Inl IntOverflow)"

definition coll_chg_dimmer_cb :: "dptr \<Rightarrow> dbl \<Rightarrow> 'a plm_scheme \<Rightarrow> 'a plm_scheme res" where
  "coll_chg_dimmer_cb p level st =
     (if dbl_eq level 0 then plm_switch_off p st
      else bindE (dbl_to_u8 (dbl_mul (dbl_lit 255 1) level)) (\<lambda>u. plm_switch_on p u st))"

definition insteon_chg_cb :: "dptr \<Rightarrow> 'a plm_scheme \<Rightarrow> 'a plm_scheme res" where
  "insteon_chg_cb p st =
     (let dev = dmem st p; v = get_data_dev dev DATALOC_CHANGE 0
      in if subtype_of (d_subtype dev) = Some SUBTYPE_SWITCH \<and> dev_type_of (d_type dev) = Some DEVICE_SWITCH
         then coll_chg_switch_cb p (ucast v) st
         else if dev_type_of (d_type dev) = Some DEVICE_DIMMER then coll_chg_dimmer_cb p v st
         else Inr st)"

definition insteon_hooks :: "plm_env \<Rightarrow> 'a plm_scheme hooks" where
  "insteon_hooks e = weak_stubs\<lparr>collector_is_ok := \<lambda>st. Inr (insteon_is_ok e st, st), coll_chg_cb := insteon_chg_cb\<rparr>"

definition plm_rescan :: "'a plm_scheme \<Rightarrow> 'a plm_scheme" where
  "plm_rescan st = st\<lparr>need_query := need_query st + 1\<rparr>"

definition plm_ping_all_devices :: "'a plm_scheme \<Rightarrow> 'a plm_scheme res" where
  "plm_ping_all_devices st =
     bindE (foldE (\<lambda>p. plm_enq_std p 0x0F 0 CMDQ_WAITACKDATA) (alldevs st) st) (\<lambda>st1.
       foldE (\<lambda>p st. bindE (plm_req_aldb p st) (\<lambda>st1. Inr (plm_enq_wait 2 st1))) (alldevs st1) (plm_enq_wait 5 st1))"

section \<open>Connections\<close>

text \<open>\<^verbatim>\<open>gnhastd_bev\<close> is not set, unlike in the other collectors.\<close>

definition insteon_connect_server_cb :: "nat \<Rightarrow> 'a plm_scheme \<Rightarrow> 'a plm_scheme res" where
  "insteon_connect_server_cb c st =
     (let st1 = open_bev c st
      in case oc_role (oconns st1 c) of
           To_server \<Rightarrow> reregister ''insteoncoll'' c st1
         | To_hardware \<Rightarrow> Inr st1)"

definition hubplm_connect_event_cb :: "conn_event \<Rightarrow> nat \<Rightarrow> nat \<Rightarrow> 'a plm_scheme \<Rightarrow> 'a plm_scheme res" where
  "hubplm_connect_event_cb what k c st =
     (case what of
        Ev_lost dnserr \<Rightarrow> if dnserr then Inl FatalExit else insteon_connect_server_cb c (free_bev k st)
      | _ \<Rightarrow> Inr st)"

definition insteon_connect_event_cb :: "conn_event \<Rightarrow> nat \<Rightarrow> nat \<Rightarrow> 'a plm_scheme \<Rightarrow> 'a plm_scheme res" where
  "insteon_connect_event_cb what k c st =
     (case what of
        Ev_connected \<Rightarrow>
          Inr (if oc_role (oconns st c) = To_server then st\<lparr>ohealth := ohealth st @ [c]\<rparr> else st)
      | Ev_lost dnserr \<Rightarrow> connection_lost dnserr k c st
      | Ev_other \<Rightarrow> Inr st)"

definition insteon_health_cb :: "plm_env \<Rightarrow> nat \<Rightarrow> 'a plm_scheme \<Rightarrow> 'a plm_scheme res" where
  "insteon_health_cb e c st =
     (if insteon_is_ok e st then write_bev (oc_bev (oconns st c)) gn_imalive st else Inr st)"

text \<open>
  The connection to the modem at the start; \<open>c\<close> is a new one. The name of a hub is put in an array of
  256 characters behind \<^verbatim>\<open>http://\<close>.
\<close>

definition new_oconn :: "conn_role \<Rightarrow> nat \<Rightarrow> 'a oldcoll_scheme \<Rightarrow> 'a oldcoll_scheme" where
  "new_oconn role c = upd_oconn c (\<lambda>_. \<lparr>oc_role = role, oc_bev = None, oc_shutdown = False\<rparr>)"

definition plmtype_connect :: "string option \<Rightarrow> string option \<Rightarrow> nat \<Rightarrow> 'a plm_scheme \<Rightarrow> 'a plm_scheme res" where
  "plmtype_connect device host c st =
     (case plmtype st of
        PLM_TYPE_SERIAL \<Rightarrow>
          if device = None then Inl FatalExit
          else Inr (open_bev c ((new_oconn To_hardware c st)\<lparr>plm_conn := Some c\<rparr>))
      | PLM_TYPE_HUBPLM \<Rightarrow>
          if host = None then Inl FatalExit
          else insteon_connect_server_cb c ((new_oconn To_hardware c st)\<lparr>plm_conn := Some c\<rparr>)
      | PLM_TYPE_HUBHTTP \<Rightarrow>
          (case host of
             None \<Rightarrow> Inl FatalExit
           | Some h \<Rightarrow> if 256 \<le> 7 + length h then Inl OutOfBounds else Inr (hubhtml_startfeed st)))"

definition insteon_cb_sigterm :: "'a plm_scheme \<Rightarrow> 'a plm_scheme res" where
  "insteon_cb_sigterm st =
     bindE (sigterm_server st) (\<lambda>st1.
     bindE (case Option.bind (plm_conn st1) (\<lambda>c. oc_bev (oconns st1 c)) of
              None \<Rightarrow> Inr st1
            | Some k \<Rightarrow> if bufs st1 k = None then Inl UseAfterFree else Inr (free_bev k st1)) (\<lambda>st2.
       Inr (st2\<lparr>ostop := ostop st2 + 1,
               hub_feeding := (hub_feeding st2 \<and> plmtype st2 \<noteq> PLM_TYPE_HUBHTTP)\<rparr>)))"

text \<open>
  \<^verbatim>\<open>main\<close> from the connection to the modem on; the connections are number 0 to the modem and number 1
  to the server.
\<close>

definition insteon_main ::
    "plm_env \<Rightarrow> string option \<Rightarrow> string option \<Rightarrow> int \<Rightarrow> 'a plm_scheme \<Rightarrow> 'a plm_scheme res" where
  "insteon_main e device host instance st =
     bindE (plmtype_connect device host 0 (st\<lparr>plm_lastupd := ce_now e\<rparr>)) (\<lambda>st1.
     bindE (insteon_connect_server_cb 1 (new_oconn To_server 1 ((plm_getconf (plm_getinfo st1))\<lparr>oserver := 1\<rparr>))) (\<lambda>st2.
     bindE (write_bev (server_bev st2) (gn_client_name (Some ''insteoncoll'') instance) (st2\<lparr>oinstance := instance\<rparr>)) (\<lambda>st3.
     bindE (insteon_parse_devices e st3) plm_ping_all_devices)))"

section \<open>Events\<close>

datatype plm_event =
    Ev_runq                              \<comment> \<open>the timer of \<^verbatim>\<open>plm_runq\<close>\<close>
  | Ev_workq
  | Ev_rescan
  | Ev_plm "u8 list"                     \<comment> \<open>bytes of the modem have come in\<close>
  | Ev_server "string list"              \<comment> \<open>lines of the server\<close>
  | Ev_conn conn_event nat nat
  | Ev_retry nat
  | Ev_health nat
  | Ev_sigterm
  | Ev_stop
  | Ev_hub_text "(int \<times> string) option"  \<comment> \<open>the answer to a request for the buffer\<close>
  | Ev_hub_posted "int option"
  | Ev_hub_clear
  | Ev_hub_read

fun insteon_handle :: "plm_env \<Rightarrow> plm_event \<Rightarrow> 'a plm_scheme \<Rightarrow> 'a plm_scheme res option" where
  "insteon_handle e Ev_runq st = plm_runq e st"
| "insteon_handle e Ev_workq st = Some (plm_run_workq e st)"
| "insteon_handle e Ev_rescan st = Some (Inr (plm_rescan st))"
| "insteon_handle e (Ev_plm bs) st = Some (Inr (plm_readcb (st\<lparr>plm_input := plm_input st @ bs\<rparr>)))"
| "insteon_handle e (Ev_server ls) st =
     Some (bindE (gnhastd_read_cb (insteon_hooks e) (cenv.truncate e) ls st) (\<lambda>(_, st1). Inr st1))"
| "insteon_handle e (Ev_conn w k c) st =
     Some (case oc_role (oconns st c) of
             To_server \<Rightarrow> insteon_connect_event_cb w k c st
           | To_hardware \<Rightarrow> if plmtype st = PLM_TYPE_HUBPLM then hubplm_connect_event_cb w k c st else Inr st)"
| "insteon_handle e (Ev_retry c) st = Some (insteon_connect_server_cb c (st\<lparr>oretry := remove1 c (oretry st)\<rparr>))"
| "insteon_handle e (Ev_health c) st = Some (insteon_health_cb e c st)"
| "insteon_handle e Ev_sigterm st = Some (insteon_cb_sigterm st)"
| "insteon_handle e Ev_stop st = Some (Inr (st\<lparr>ostop := ostop st - 1, oexit := True\<rparr>))"
| "insteon_handle e (Ev_hub_text r) st = Some (hubhtml_buf_request_cb e r st)"
| "insteon_handle e (Ev_hub_posted r) st = Some (hubhtml_plmc_request_cb r st)"
| "insteon_handle e Ev_hub_clear st = Some (Inr (hubhtml_clear_im_buffer_cb st))"
| "insteon_handle e Ev_hub_read st = Some (hubhtml_readcb st)"

end
