(* ===== verification/Modem.thy ===== *)
theory Modem
  imports Insteon
begin

text \<open>
  What the command queue of the Insteon collector does over time, and what the two ways of reading
  the modem deliver.
\<close>

section \<open>The queue runner and its specification\<close>

abbreviation (input) is_pause :: "cmdq \<Rightarrow> bool" where
  "is_pause c \<equiv> hd (cq_cmd c) = CMDQ_NOPWAIT"

text \<open>An entry fills its array, and every command has a message; only pauses have none.\<close>

definition entry_ok :: "cmdq \<Rightarrow> bool" where
  "entry_ok c \<longleftrightarrow> length (cq_cmd c) = 25 \<and> (is_pause c \<or> 0 < cq_msglen c)"

definition queue_ok :: "cmdq list \<Rightarrow> bool" where
  "queue_ok q \<longleftrightarrow> list_all entry_ok q"

definition overdue :: "plm_env \<Rightarrow> plm_type \<Rightarrow> cmdq \<Rightarrow> bool" where
  "overdue e t c \<longleftrightarrow> cq_tp c + cmdq_timeout t c < ie_mono e"

definition to_send :: "cmdq \<Rightarrow> bool" where
  "to_send c \<longleftrightarrow> cq_state c AND CMDQ_WAITSEND \<noteq> 0"

text \<open>A command is done with, when it has all its answers or was sent often enough.\<close>

definition spent :: "plm_env \<Rightarrow> plm_type \<Rightarrow> cmdq \<Rightarrow> bool" where
  "spent e t c \<longleftrightarrow> \<not> is_pause c \<and>
     (cq_state c = 0 \<or> CMDQ_MAX_SEND < cq_sendcount c \<or>
      (\<not> to_send c \<and> overdue e t c \<and> CMDQ_MAX_SEND \<le> cq_sendcount c))"

text \<open>The command as it is once sent, the first time or again.\<close>

definition sent :: "plm_env \<Rightarrow> cmdq \<Rightarrow> cmdq" where
  "sent e c =
     c\<lparr>cq_sendcount := cq_sendcount c + 1,
       cq_state := (if to_send c then cq_state c else cq_wait c OR CMDQ_WAITSEND) AND NOT CMDQ_WAITSEND,
       cq_tp := ie_mono e\<rparr>"

definition transmit :: "plm_env \<Rightarrow> cmdq \<Rightarrow> cmdq list \<Rightarrow> 'a plm_scheme \<Rightarrow> 'a plm_scheme res" where
  "transmit e c q st =
     bindE (plm_send_cmd (sent e c) (st\<lparr>cmdfifo := sent e c # q\<rparr>)) (\<lambda>st1.
       Inr (if plmtype st1 = PLM_TYPE_HUBHTTP then st1\<lparr>hubhtmlstate := HUBHTMLSTATE_WCMD\<rparr> else st1))"

text \<open>
  What a run should do: commands that are done with are dropped from the front; a pause counts
  down; a command that is to be sent, or whose answer is overdue, is sent; otherwise it is waited
  for.
\<close>

definition runq_spec :: "plm_env \<Rightarrow> 'a plm_scheme \<Rightarrow> 'a plm_scheme res" where
  "runq_spec e st =
     (case dropWhile (spent e (plmtype st)) (cmdfifo st) of
        [] \<Rightarrow> plm_queue_empty_cb (st\<lparr>cmdfifo := []\<rparr>)
      | c # q \<Rightarrow>
          if is_pause c
          then Inr (st\<lparr>cmdfifo := (if cq_sendcount c = 0 then q else c\<lparr>cq_sendcount := cq_sendcount c - 1\<rparr> # q)\<rparr>)
          else if to_send c \<or> overdue e (plmtype st) c then transmit e c q st
          else Inr (st\<lparr>cmdfifo := c # q\<rparr>))"

lemma round_again:
  assumes "cmdfifo st = c # q" and "spent e (plmtype st) c" and "entry_ok c"
  shows "plm_runq_round e st = Again (st\<lparr>cmdfifo := q\<rparr>)"
  using assms by (auto simp: plm_runq_round_def spent_def to_send_def overdue_def entry_ok_def)

lemma round_send:
  assumes "cmdfifo st = c # q" and "\<not> is_pause c" and "entry_ok c" and "\<not> spent e (plmtype st) c" and "to_send c"
  shows "plm_runq_round e st = Return (transmit e c q st)"
  using assms by (auto simp: plm_runq_round_def spent_def entry_ok_def transmit_def sent_def to_send_def Let_def)

lemma round_resend:
  assumes "cmdfifo st = c # q" and "\<not> is_pause c" and "\<not> spent e (plmtype st) c"
    and "\<not> to_send c" and "overdue e (plmtype st) c"
  shows "plm_runq_round e st = Again (st\<lparr>cmdfifo := c\<lparr>cq_state := cq_wait c OR CMDQ_WAITSEND\<rparr> # q\<rparr>)"
  using assms by (auto simp: plm_runq_round_def spent_def to_send_def overdue_def)

lemma send_bit: "(x OR CMDQ_WAITSEND) AND CMDQ_WAITSEND = CMDQ_WAITSEND"
proof -
  have "(x OR y) AND y = y" for y :: u8 by (rule bit_word_eqI) (auto simp: bit_simps)
  then show ?thesis .
qed

lemma send_state_nonzero: "x OR CMDQ_WAITSEND \<noteq> 0"
proof
  assume zero: "x OR CMDQ_WAITSEND = 0"
  have "0 AND CMDQ_WAITSEND = CMDQ_WAITSEND" using send_bit [of x] unfolding zero .
  then show False by simp
qed

lemma resend_transmits:
  assumes "\<not> is_pause c" and "entry_ok c" and "\<not> spent e t c" and "\<not> to_send c"
  defines "d \<equiv> c\<lparr>cq_state := cq_wait c OR CMDQ_WAITSEND\<rparr>"
  shows "\<not> is_pause d" and "entry_ok d" and "to_send d" and "\<not> spent e t d" and "sent e d = sent e c"
  using assms send_bit [of "cq_wait c"] send_state_nonzero [of "cq_wait c"]
  by (auto simp: d_def entry_ok_def to_send_def spent_def sent_def)

lemma spec_drop:
  assumes "cmdfifo st = c # q" and "spent e (plmtype st) c"
  shows "runq_spec e (st\<lparr>cmdfifo := q\<rparr>) = runq_spec e st"
  using assms by (simp add: runq_spec_def transmit_def split: list.split del: dropWhile_eq_Nil_conv)

text \<open>The loop of the code always returns, and does what is specified.\<close>

lemma runq_loop_spec:
  assumes "queue_ok (cmdfifo st)"
  shows "plm_runq_loop e st = Some (runq_spec e st)"
  using assms
proof (induction "cmdfifo st" arbitrary: st)
  case Nil
  note empty = Nil.hyps [symmetric]
  then have "st\<lparr>cmdfifo := []\<rparr> = st" by (cases st) simp
  then have "plm_queue_empty_cb (st\<lparr>cmdfifo := []\<rparr>) = plm_queue_empty_cb st" by (rule arg_cong)
  with empty show ?case by (subst plm_runq_loop.simps) (simp add: plm_runq_round_def runq_spec_def)
next
  case (Cons c q)
  note fifo = Cons.hyps(2) [symmetric]
  have ok: "entry_ok c" "queue_ok q" using Cons.prems fifo by (simp_all add: queue_ok_def)
  show ?case
  proof (cases "spent e (plmtype st) c")
    case True
    have "plm_runq_loop e (st\<lparr>cmdfifo := q\<rparr>) = Some (runq_spec e (st\<lparr>cmdfifo := q\<rparr>))"
      by (rule Cons.hyps(1)) (simp_all add: ok)
    then show ?thesis
      by (subst plm_runq_loop.simps) (simp add: round_again [OF fifo True ok(1)] spec_drop [OF fifo True])
  next
    case False
    consider "is_pause c" | "\<not> is_pause c" "to_send c" | "\<not> is_pause c" "\<not> to_send c" "overdue e (plmtype st) c"
      | "\<not> is_pause c" "\<not> to_send c" "\<not> overdue e (plmtype st) c" by blast
    then show ?thesis
    proof cases
      case 1
      then show ?thesis
        by (subst plm_runq_loop.simps) (simp add: plm_runq_round_def runq_spec_def fifo spent_def)
    next
      case 2
      then show ?thesis
        by (subst plm_runq_loop.simps) (simp add: round_send [OF fifo 2(1) ok(1) False 2(2)] runq_spec_def fifo False)
    next
      case 3
      let ?d = "c\<lparr>cq_state := cq_wait c OR CMDQ_WAITSEND\<rparr>" and ?st = "st\<lparr>cmdfifo := c\<lparr>cq_state := cq_wait c OR CMDQ_WAITSEND\<rparr> # q\<rparr>"
      note d = resend_transmits [OF 3(1) ok(1) False 3(2)]
      have "plm_runq_round e ?st = Return (transmit e ?d q ?st)"
        by (rule round_send) (use d in simp_all)
      then have "plm_runq_loop e ?st = Some (transmit e ?d q ?st)"
        by (subst plm_runq_loop.simps) simp
      moreover have "transmit e ?d q ?st = transmit e c q st" using d(5) by (simp add: transmit_def)
      ultimately show ?thesis
        using 3 by (subst plm_runq_loop.simps) (simp add: round_resend [OF fifo 3(1) False 3(2,3)] runq_spec_def fifo False)
    next
      case 4
      then show ?thesis using ok False
        by (subst plm_runq_loop.simps) (auto simp: plm_runq_round_def runq_spec_def fifo spent_def to_send_def overdue_def)
    qed
  qed
qed

lemma condense_ok: "queue_ok q \<Longrightarrow> queue_ok (plm_condense q)"
  by (auto simp: plm_condense_def queue_ok_def list_all_iff Let_def split: list.splits)

lemma runq_returns:
  assumes "queue_ok (cmdfifo st)" and "plmtype st = PLM_TYPE_HUBHTTP \<longrightarrow> hubhtmlstate st = HUBHTMLSTATE_IDLE"
  shows "plm_runq e st = Some (runq_spec e (plm_condense_runq st))"
  using assms runq_loop_spec [of "plm_condense_runq st" e] condense_ok
  by (auto simp: plm_runq_def plm_condense_runq_def)

section \<open>A silent modem\<close>

text \<open>The timer of the queue, at several times.\<close>

fun run_ticks :: "plm_env list \<Rightarrow> 'a plm_scheme \<Rightarrow> 'a plm_scheme res option" where
  "run_ticks [] st = Some (Inr st)"
| "run_ticks (e # es) st =
     (case plm_runq e st of
        None \<Rightarrow> None
      | Some (Inl err) \<Rightarrow> Some (Inl err)
      | Some (Inr st1) \<Rightarrow> run_ticks es st1)"

text \<open>More than ten seconds lie between one time and the next.\<close>

fun spaced :: "int \<Rightarrow> plm_env list \<Rightarrow> bool" where
  "spaced t [] \<longleftrightarrow> True"
| "spaced t (e # es) \<longleftrightarrow> t + 10000000000 < ie_mono e \<and> spaced (ie_mono e) es"

text \<open>A command as it is enqueued, which waits for some answer.\<close>

definition fresh_cmd :: "cmdq \<Rightarrow> bool" where
  "fresh_cmd c \<longleftrightarrow> entry_ok c \<and> \<not> is_pause c \<and> cq_sendcount c = 0 \<and> to_send c \<and>
     cq_state c AND NOT CMDQ_WAITSEND \<noteq> 0 \<and> cq_wait c AND NOT CMDQ_WAITSEND \<noteq> 0"

definition cmd_text :: "cmdq \<Rightarrow> string" where
  "cmd_text c = byte_string (take (unat (cq_msglen c)) (cq_cmd c))"

text \<open>The modem is on a connection of its own whose buffer holds \<open>out\<close>.\<close>

definition modem_on :: "nat \<Rightarrow> string \<Rightarrow> 'a plm_scheme \<Rightarrow> bool" where
  "modem_on k out st \<longleftrightarrow> plmtype st \<noteq> PLM_TYPE_HUBHTTP \<and> need_query st = 0 \<and>
     (\<exists>c. plm_conn st = Some c \<and> oc_bev (oconns st c) = Some k) \<and> bufs st k = Some out"

lemma condense_distinct:
  assumes "distinct (map (\<lambda>c. take 8 (cq_cmd c)) q)"
  shows "plm_condense q = q"
proof (cases q)
  case (Cons c rest)
  have "take 8 (cq_cmd x) \<noteq> take 8 (cq_cmd c)" if "x \<in> set rest" for x
    using assms that by (auto simp: Cons image_iff)
  then have "filter (\<lambda>x. \<not> (hd (cq_cmd x) \<noteq> CMDQ_NOPWAIT \<and> cq_cmd x = cq_cmd c)) rest = rest"
    and "\<not> (\<exists>x \<in> set rest. take 8 (cq_cmd x) = take 8 (cq_cmd c))"
    by (force simp: filter_id_conv)+
  then show ?thesis by (simp only: Cons plm_condense_def list.case Let_def simp_thms if_False)
qed (simp add: plm_condense_def)

lemma send_cleared: "(x AND - 9) AND CMDQ_WAITSEND = 0" "(x OR CMDQ_WAITSEND) AND - 9 = x AND - 9"
proof -
  have "(x AND NOT y) AND y = 0" "(x OR y) AND NOT y = x AND NOT y" for y :: u8
    by (rule bit_word_eqI; auto simp: bit_simps)+
  from this [of 8] show "(x AND - 9) AND 8 = 0" "(x OR 8) AND - 9 = x AND - 9" by simp_all
qed

lemma sent_simps [simp]:
  "cq_cmd (sent e c) = cq_cmd c" "cq_msglen (sent e c) = cq_msglen c" "cq_sendcount (sent e c) = cq_sendcount c + 1"
  "cq_tp (sent e c) = ie_mono e" "cq_wait (sent e c) = cq_wait c" "\<not> to_send (sent e c)"
  "entry_ok (sent e c) = entry_ok c"
  by (simp_all add: sent_def to_send_def send_cleared entry_ok_def)

lemma sent_state:
  "cq_state (sent e c) = (if to_send c then cq_state c else cq_wait c) AND NOT CMDQ_WAITSEND"
  by (simp add: sent_def send_cleared)

lemma timeout_bound: "t \<noteq> PLM_TYPE_HUBHTTP \<Longrightarrow> cmdq_timeout t c \<le> 10000000000"
  by (simp add: cmdq_timeout_def)

lemma transmit_on:
  assumes "modem_on k out st"
  obtains st' where "transmit e c q st = Inr st'" "cmdfifo st' = sent e c # q" "modem_on k (out @ cmd_text c) st'"
proof -
  obtain n where n: "plm_conn st = Some n" "oc_bev (oconns st n) = Some k" using assms by (auto simp: modem_on_def)
  let ?st = "st\<lparr>cmdfifo := sent e c # q, bufs := (bufs st)(k \<mapsto> out @ cmd_text c)\<rparr>"
  have "transmit e c q st = Inr ?st"
    using assms n by (simp add: transmit_def plm_send_cmd_def modem_on_def write_bev_def cmd_text_def)
  moreover have "modem_on k (out @ cmd_text c) ?st" using assms n by (simp add: modem_on_def)
  ultimately show ?thesis using that by simp
qed

text \<open>One run of a queue whose commands all begin differently.\<close>

lemma tick:
  assumes "queue_ok (cmdfifo st)" and "distinct (map (\<lambda>c. take 8 (cq_cmd c)) (cmdfifo st))" and "modem_on k out st"
  shows "plm_runq e st = Some (runq_spec e st)"
proof -
  have "plm_condense_runq st = st" using condense_distinct [OF assms(2)] by (cases st) (simp add: plm_condense_runq_def)
  then show ?thesis using runq_returns [OF assms(1), of e] assms(3) by (simp add: modem_on_def)
qed

text \<open>A command sent twice is done with once its last answer is overdue.\<close>

definition sent_twice :: "int \<Rightarrow> cmdq \<Rightarrow> bool" where
  "sent_twice t c \<longleftrightarrow> entry_ok c \<and> \<not> is_pause c \<and> \<not> to_send c \<and> cq_sendcount c = 2 \<and> cq_tp c = t"

lemma sent_twice_spent:
  assumes "sent_twice t c" and "t + 10000000000 < ie_mono e" and "ty \<noteq> PLM_TYPE_HUBHTTP"
  shows "spent e ty c"
  using assms timeout_bound [OF assms(3), of c] by (auto simp: sent_twice_def spent_def overdue_def)

lemma fresh_sent:
  assumes "fresh_cmd c"
  shows "\<not> spent e ty c" and "\<not> spent e ty (sent e1 c)" and "sent_twice (ie_mono e2) (sent e2 (sent e1 c))"
    and "cmd_text (sent e1 c) = cmd_text c"
  using assms by (auto simp: fresh_cmd_def spent_def sent_twice_def cmd_text_def sent_state word_le_nat_alt word_less_nat_alt)

lemma tick_first:
  assumes "cmdfifo st = pre @ c # q" and "list_all (sent_twice t) pre" and "fresh_cmd c" and "queue_ok q"
    and "distinct (map (\<lambda>c. take 8 (cq_cmd c)) (cmdfifo st))" and on: "modem_on k out st"
    and late: "t + 10000000000 < ie_mono e"
  obtains st' where "plm_runq e st = Some (Inr st')" "cmdfifo st' = sent e c # q" "modem_on k (out @ cmd_text c) st'"
proof -
  have "spent e (plmtype st) d" if "d \<in> set pre" for d
    using assms(2) that sent_twice_spent [OF _ late] on by (auto simp: list_all_iff modem_on_def)
  then have "dropWhile (spent e (plmtype st)) (cmdfifo st) = c # q"
    using fresh_sent(1) [OF assms(3)] by (simp add: assms(1) dropWhile_append2)
  then have "runq_spec e st = transmit e c q st" using assms(3) by (simp add: runq_spec_def fresh_cmd_def)
  moreover have "queue_ok (cmdfifo st)"
    using assms by (auto simp: queue_ok_def list_all_iff fresh_cmd_def sent_twice_def)
  ultimately show ?thesis
    using tick [OF _ assms(5) on, of e] transmit_on [OF on, of e c q] that by metis
qed

lemma tick_again:
  assumes "cmdfifo st = sent e1 c # q" and "fresh_cmd c" and "queue_ok q"
    and "distinct (map (\<lambda>c. take 8 (cq_cmd c)) (cmdfifo st))" and on: "modem_on k out st"
    and late: "ie_mono e1 + 10000000000 < ie_mono e"
  obtains st' where "plm_runq e st = Some (Inr st')" "cmdfifo st' = sent e (sent e1 c) # q" "modem_on k (out @ cmd_text c) st'"
proof -
  let ?c = "sent e1 c"
  have "overdue e (plmtype st) ?c"
    using late timeout_bound [of "plmtype st" ?c] on by (simp add: overdue_def modem_on_def)
  then have "runq_spec e st = transmit e ?c q st"
    using assms(1,2) fresh_sent(2) [OF assms(2)] by (simp add: runq_spec_def fresh_cmd_def)
  moreover have "queue_ok (cmdfifo st)" using assms by (auto simp: queue_ok_def fresh_cmd_def)
  ultimately show ?thesis
    using tick [OF _ assms(4) on, of e] transmit_on [OF on, of e ?c q] that fresh_sent(4) [OF assms(2)] by metis
qed

lemma tick_last:
  assumes "list_all (sent_twice t) (cmdfifo st)" and "distinct (map (\<lambda>c. take 8 (cq_cmd c)) (cmdfifo st))"
    and on: "modem_on k out st" and late: "t + 10000000000 < ie_mono e"
  shows "\<exists>st'. plm_runq e st = Some (Inr st') \<and> cmdfifo st' = [] \<and> modem_on k out st'"
proof -
  have "list_all (spent e (plmtype st)) (cmdfifo st)"
    using assms(1) sent_twice_spent [OF _ late] on by (auto simp: list_all_iff modem_on_def)
  then have "runq_spec e st = Inr (st\<lparr>cmdfifo := [], need_query := 0\<rparr>)"
    using on by (simp add: runq_spec_def list_all_iff dropWhile_eq_Nil_conv [THEN iffD2] plm_queue_empty_cb_def modem_on_def)
  moreover have "queue_ok (cmdfifo st)" using assms(1) by (auto simp: queue_ok_def list_all_iff sent_twice_def)
  ultimately show ?thesis using tick [OF _ assms(2) on, of e] on by (simp add: modem_on_def)
qed

text \<open>Without any answer every command goes out twice, one after the other, and the queue runs empty.\<close>

lemma silent_run:
  assumes "cmdfifo st = pre @ q" and "list_all (sent_twice t) pre" and "list_all fresh_cmd q"
    and "distinct (map (\<lambda>c. take 8 (cq_cmd c)) (pre @ q))" and "modem_on k out st"
    and "spaced t es" and "length es = 2 * length q + 1"
  shows "\<exists>st'. run_ticks es st = Some (Inr st') \<and> cmdfifo st' = [] \<and>
    bufs st' k = Some (out @ concat (map (\<lambda>c. cmd_text c @ cmd_text c) q))"
  using assms
proof (induction q arbitrary: st pre t out es)
  case Nil
  then obtain e where es: "es = [e]" "t + 10000000000 < ie_mono e" by (cases es) auto
  with tick_last [of t st k out e] Nil.prems show ?case by (auto simp: modem_on_def)
next
  case (Cons c q)
  then obtain e1 e2 es' where es: "es = e1 # e2 # es'" by (cases es; cases "tl es") auto
  have c: "fresh_cmd c" and q: "queue_ok q"
    using Cons.prems(3) by (auto simp: queue_ok_def list_all_iff fresh_cmd_def)
  obtain st1 where st1: "plm_runq e1 st = Some (Inr st1)" "cmdfifo st1 = sent e1 c # q" "modem_on k (out @ cmd_text c) st1"
    by (rule tick_first [OF Cons.prems(1,2) c q _ Cons.prems(5)]) (use Cons.prems es in auto)
  obtain st2 where st2: "plm_runq e2 st1 = Some (Inr st2)" "cmdfifo st2 = sent e2 (sent e1 c) # q"
      "modem_on k ((out @ cmd_text c) @ cmd_text c) st2"
    by (rule tick_again [OF st1(2) c q _ st1(3)]) (use Cons.prems(4,6) es st1(2) in auto)
  have "\<exists>st'. run_ticks es' st2 = Some (Inr st') \<and> cmdfifo st' = [] \<and>
      bufs st' k = Some (((out @ cmd_text c) @ cmd_text c) @ concat (map (\<lambda>c. cmd_text c @ cmd_text c) q))"
    by (rule Cons.IH [of _ "[sent e2 (sent e1 c)]" "ie_mono e2"])
      (use st2 fresh_sent(3) [OF c] Cons.prems es in auto)
  then show ?case using st1(1) st2(1) es by simp
qed

end
