(* ===== verification/Modeminv.thy ===== *)
theory Modeminv
  imports Modem Collinv
begin

text \<open>
  What holds of the Insteon collector in every state its main loop reaches: the entries of both
  queues fill their arrays, every command has a message, the links of a device stay inside their
  table, and the pointer that answers to pings need is never set.
\<close>

section \<open>The invariant\<close>

definition dd_ok :: "devdata \<Rightarrow> bool" where
  "dd_ok dd \<longleftrightarrow> length (dd_daddr dd) = 3 \<and> length (dd_aldb dd) = ALDB_MAXSIZE \<and>
     list_all (\<lambda>r. length (ab_devaddr r) = 3) (dd_aldb dd) \<and> dd_aldblen dd < ALDB_MAXSIZE"

definition modem_ok :: "'a plm_scheme \<Rightarrow> bool" where
  "modem_ok st \<longleftrightarrow> queue_ok (cmdfifo st) \<and> list_all (\<lambda>w. length w = 30) (workfifo st) \<and>
     length (plm_addr st) = 3 \<and> (\<forall>p dd. plm_data st p = Some dd \<longrightarrow> dd_ok dd) \<and> gnhastd_bev st = None"

text \<open>Everything else may change.\<close>

definition mview :: "'a plm_scheme \<Rightarrow> cmdq list \<times> u8 list list \<times> u8 list \<times> (dptr \<Rightarrow> devdata option) \<times> nat option" where
  "mview st = (cmdfifo st, workfifo st, plm_addr st, plm_data st, gnhastd_bev st)"

lemma mview_ok: "mview s = mview t \<Longrightarrow> modem_ok s \<longleftrightarrow> modem_ok t"
  by (simp add: mview_def modem_ok_def)

lemma mview_registry [simp]:
  "mview (insert_device p st) = mview st" "mview (upd_dev p f st) = mview st" "mview (upd_grp g h st) = mview st"
  by (simp_all add: mview_def insert_device_def upd_dev_def upd_grp_def Let_def)

lemma mview_fields [simp]:
  "mview (st\<lparr>need_query := n\<rparr>) = mview st" "mview (st\<lparr>hubhtmlstate := h\<rparr>) = mview st"
  "mview (st\<lparr>plm_lastupd := t\<rparr>) = mview st" "mview (st\<lparr>plmaldbmorerecords := b\<rparr>) = mview st"
  "mview (st\<lparr>plm_config_bits := x\<rparr>) = mview st" "mview (st\<lparr>hub_posts := ps\<rparr>) = mview st"
  "mview (st\<lparr>bufs := bs\<rparr>) = mview st" "mview (st\<lparr>plminfo := dd\<rparr>) = mview st"
  "mview (st\<lparr>plm_input := i\<rparr>) = mview st" "mview (st\<lparr>oneed_rereg := b\<rparr>) = mview st"
  "mview (st\<lparr>oretry := r\<rparr>) = mview st" "mview (st\<lparr>ohealth := r\<rparr>) = mview st" "mview (st\<lparr>oexit := b\<rparr>) = mview st"
  "mview (st\<lparr>ostop := n1\<rparr>) = mview st" "mview (st\<lparr>hub_workbuf := s\<rparr>) = mview st" "mview (st\<lparr>hub_new := b\<rparr>) = mview st"
  "mview (st\<lparr>hub_clears := n1\<rparr>) = mview st" "mview (st\<lparr>hub_feeding := b\<rparr>) = mview st"
  "mview (st\<lparr>plm_conn := c\<rparr>) = mview st" "mview (st\<lparr>oserver := n1\<rparr>) = mview st" "mview (st\<lparr>oinstance := n\<rparr>) = mview st"
  "mview (st\<lparr>coll_conf := cf\<rparr>) = mview st" "mview (st\<lparr>coll_conf := cf, coll_conf_file := cff\<rparr>) = mview st"
  "mview (st\<lparr>rrd_freed := rf\<rparr>) = mview st" "mview (upd_oconn n1 f st) = mview st" "mview (open_bev n1 st) = mview st"
  "mview (free_bev n1 st) = mview st" "mview (new_oconn role n1 st) = mview st"
  "mview (check_html_state st) = mview st" "mview (storelog_switch p u st) = mview st" "mview (storelog_dimmer p d st) = mview st"
  by (simp_all add: mview_def upd_oconn_def open_bev_def free_bev_def new_oconn_def check_html_state_def Let_def
      storelog_switch_def storelog_dimmer_def upd_dev_def)

text \<open>The relation between the states before and after a step that keeps the invariant.\<close>

definition keeps :: "'a plm_scheme \<Rightarrow> 'a plm_scheme \<Rightarrow> bool" where
  "keeps st st' \<longleftrightarrow> (modem_ok st \<longrightarrow> modem_ok st')"

lemma keeps_refl [simp, keep_intros]: "keeps st st"
  by (simp add: keeps_def)

lemma keeps_trans: "keeps a b \<Longrightarrow> keeps b c \<Longrightarrow> keeps a c"
  by (simp add: keeps_def)

lemma keeps_view: "mview s = mview t \<Longrightarrow> keeps s t"
  using mview_ok by (auto simp: keeps_def)

lemma keeps_fold:
  assumes "foldE f xs st = Inr st'" and "\<And>x s s'. f x s = Inr s' \<Longrightarrow> keeps s s'"
  shows "keeps st st'"
  using assms(1) by (rule foldE_inv) (auto intro: keeps_trans assms(2))

lemma write_keeps: "write_bev b m st = Inr st' \<Longrightarrow> keeps st st'"
  by (auto simp: write_bev_def split: option.splits intro: keeps_view)

lemma send_keeps:
  "send_msg b m st = Inr st' \<Longrightarrow> keeps st st'" "send_register b p st = Inr st' \<Longrightarrow> keeps st st'"
  "send_update b p st = Inr st' \<Longrightarrow> keeps st st'"
  by (auto simp: send_msg_def send_register_def send_update_def Let_def bindE_Inr_conv split: if_splits intro: write_keeps)

section \<open>The command queue\<close>

lemma padded_length: "length bs \<le> n \<Longrightarrow> length (padded n bs) = n"
  by (simp add: padded_def)

lemma entry_made: "0 < length bs \<Longrightarrow> length bs \<le> 25 \<Longrightarrow> entry_ok (plm_entry bs w u)"
  by (simp add: entry_ok_def plm_entry_def padded_length word_less_nat_alt unat_of_nat)

lemma pause_ok: "entry_ok (plm_pause n)"
  by (simp add: entry_ok_def plm_pause_def padded_length) (simp add: padded_def)

lemma enqueue_ok: "modem_ok st \<Longrightarrow> entry_ok c \<Longrightarrow> modem_ok (plm_enqueue c st)"
  by (simp add: modem_ok_def plm_enqueue_def queue_ok_def)

lemma enqueue_keeps: "entry_ok c \<Longrightarrow> keeps st (plm_enqueue c st)"
  by (simp add: keeps_def modem_ok_def plm_enqueue_def queue_ok_def)

lemma localdata_ok: "modem_ok st \<Longrightarrow> plm_localdata p st = Inr dd \<Longrightarrow> dd_ok dd"
  by (auto simp: modem_ok_def plm_localdata_def split: option.splits)

lemma header_length: "dd_ok dd \<Longrightarrow> length (plm_header dd x c1 c2) = 8"
  by (simp add: plm_header_def dd_ok_def)

lemma enq_std_keeps: "plm_enq_std p c1 c2 w st = Inr st' \<Longrightarrow> keeps st st'"
proof (unfold keeps_def, rule impI)
  assume ok: "modem_ok st" and run: "plm_enq_std p c1 c2 w st = Inr st'"
  then obtain dd bs where dd: "plm_localdata p st = Inr dd" and bs: "st' = plm_enqueue (plm_entry bs w (Some (d_uid (dmem st p)))) st"
      "bs = plm_header dd 0 c1 c2 \<or> (\<exists>d. bs = plm_header dd PLMFLAG_EXT c1 c2 @ d \<and> length d = 14)"
    by (force simp: plm_enq_std_def plm_enq_stdcs_def bindE_Inr_conv Let_def padded_def split: if_splits)
  have "length bs = 8 \<or> length bs = 22" using bs(2) header_length [OF localdata_ok [OF ok dd]] by auto
  then have "entry_ok (plm_entry bs w (Some (d_uid (dmem st p))))" by (intro entry_made) linarith+
  with ok show "modem_ok st'" unfolding bs(1) by (rule enqueue_ok)
qed

lemma enq_ext_keeps:
  assumes "plm_enq_ext p c1 c2 d w st = Inr st'" and "length d = 14"
  shows "keeps st st'"
proof (unfold keeps_def, rule impI)
  assume ok: "modem_ok st"
  let ?d = "if proto_of (d_proto (dmem st p)) = Some PROTO_INSTEON_V2CS then d[13 := plm_calc_cs c1 c2 d] else d"
  obtain dd where dd: "plm_localdata p st = Inr dd"
      "st' = plm_enqueue (plm_entry (plm_header dd PLMFLAG_EXT c1 c2 @ ?d) w (Some (d_uid (dmem st p)))) st"
    using assms(1) by (auto simp: plm_enq_ext_def bindE_Inr_conv Let_def)
  have "entry_ok (plm_entry (plm_header dd PLMFLAG_EXT c1 c2 @ ?d) w (Some (d_uid (dmem st p))))"
    using header_length [OF localdata_ok [OF ok dd(1)], of PLMFLAG_EXT c1 c2] assms(2) by (intro entry_made) auto
  with ok show "modem_ok st'" unfolding dd(2) by (rule enqueue_ok)
qed

lemma enq_other_keeps [keep_intros]:
  "keeps st (plm_enq_wait n st)" "keeps st (plm_getinfo st)" "keeps st (plm_getconf st)" "keeps st (plm_setconf x st)"
  "keeps st (plm_getplm_aldb fl st)" "keeps st (plm_all_link lc g st)"
proof -
  show "keeps st (plm_enq_wait n st)" by (simp add: plm_enq_wait_def enqueue_keeps pause_ok)
  show "keeps st (plm_getinfo st)" "keeps st (plm_getconf st)" "keeps st (plm_setconf x st)"
    by (simp_all add: plm_getinfo_def plm_getconf_def plm_setconf_def enqueue_keeps entry_made)
  have "keeps st (st\<lparr>plmaldbmorerecords := True\<rparr>)" by (rule keeps_view) simp
  then show "keeps st (plm_getplm_aldb fl st)"
    by (auto simp: plm_getplm_aldb_def intro!: enqueue_keeps entry_made keeps_trans [of st "st\<lparr>plmaldbmorerecords := True\<rparr>"])
  have "entry_ok (plm_entry bs w u) \<Longrightarrow> entry_ok ((plm_entry bs w u)\<lparr>cq_state := s\<rparr>)" for bs w u s
    by (simp add: entry_ok_def)
  then show "keeps st (plm_all_link lc g st)" by (simp add: plm_all_link_def enqueue_keeps entry_made)
qed

lemma query_keeps: "plm_query_all_devices st = Inr st' \<Longrightarrow> keeps st st'"
  unfolding plm_query_all_devices_def by (rule keeps_fold) (auto intro: enq_std_keeps)

lemma empty_cb_keeps:
  assumes "plm_queue_empty_cb st = Inr st'"
  shows "keeps st st'"
proof -
  obtain st1 where st1: "st' = st1\<lparr>need_query := 0\<rparr>"
      "st1 = st \<or> plm_query_all_devices (plm_enq_wait 10 st) = Inr st1"
    using assms by (auto simp: plm_queue_empty_cb_def bindE_Inr_conv split: if_splits)
  then have "keeps st st1" using keeps_trans [OF enq_other_keeps(1) query_keeps] by auto
  moreover have "keeps st1 st'" unfolding st1(1) by (rule keeps_view) simp
  ultimately show ?thesis by (rule keeps_trans)
qed

lemma queue_keeps: "(queue_ok (cmdfifo st) \<Longrightarrow> queue_ok q) \<Longrightarrow> keeps st (st\<lparr>cmdfifo := q\<rparr>)"
  by (simp add: keeps_def modem_ok_def)

lemma head_keeps [keep_intros]:
  "keeps st (plmcmdq_retry_cur st)" "keeps st (plmcmdq_got_data e w st)" "keeps st (plmcmdq_check_ack e d st)"
  "keeps st (plmcmdq_dequeue st)" "keeps st (plmcmdq_check_recv e f t c k st)"
proof -
  have h: "keeps s (upd_head f s)" if "\<And>c. entry_ok (f c) = entry_ok c" for f and s :: "'a plm_scheme"
    using that by (auto simp: upd_head_def queue_ok_def split: list.split intro!: queue_keeps)
  have r: "keeps s (plmcmdq_retry_cur s)" for s :: "'a plm_scheme"
    unfolding plmcmdq_retry_cur_def by (rule h) (simp add: entry_ok_def)
  have g: "keeps s (plmcmdq_got_data e w s)" for s :: "'a plm_scheme" and w
    unfolding plmcmdq_got_data_def by (rule h) (simp add: entry_ok_def)
  show "keeps st (plmcmdq_retry_cur st)" "keeps st (plmcmdq_got_data e w st)" by (rule r, rule g)
  show "keeps st (plmcmdq_check_ack e d st)" by (auto simp: plmcmdq_check_ack_def Let_def r g split: list.split)
  show "keeps st (plmcmdq_dequeue st)" by (cases "cmdfifo st") (auto simp: plmcmdq_dequeue_def queue_ok_def intro: queue_keeps)
  show "keeps st (plmcmdq_check_recv e f t c k st)"
    by (auto simp: plmcmdq_check_recv_def Let_def g intro: keeps_trans [OF g g] split: list.split)
qed

lemma delay_keeps [keep_intros]: "keeps st (plm_check_proper_delay a st)"
proof -
  have "queue_ok q \<Longrightarrow> queue_ok (extend_pause q)" for q
    by (induction q) (auto simp: queue_ok_def entry_ok_def)
  then show ?thesis
    by (auto simp: plm_check_proper_delay_def Let_def queue_ok_def pause_ok intro!: queue_keeps)
qed

lemma transmit_keeps:
  assumes "transmit e c q st = Inr st'" and "queue_ok (cmdfifo st) \<Longrightarrow> queue_ok (c # q)"
  shows "keeps st st'"
proof -
  obtain st1 where st1: "plm_send_cmd (sent e c) (st\<lparr>cmdfifo := sent e c # q\<rparr>) = Inr st1" and eq: "mview st' = mview st1"
    using assms(1) by (auto simp: transmit_def bindE_Inr_conv)
  have "keeps st (st\<lparr>cmdfifo := sent e c # q\<rparr>)" using assms(2) by (intro queue_keeps) (simp add: queue_ok_def)
  also have "keeps (st\<lparr>cmdfifo := sent e c # q\<rparr>) st1"
    using st1 by (auto simp: plm_send_cmd_def Let_def split: option.splits intro: write_keeps keeps_view)
  finally (keeps_trans) show ?thesis using eq keeps_view keeps_trans by metis
qed

lemma spec_keeps:
  assumes "runq_spec e st = Inr st'"
  shows "keeps st st'"
proof (cases "dropWhile (spent e (plmtype st)) (cmdfifo st)")
  case Nil
  then have "plm_queue_empty_cb (st\<lparr>cmdfifo := []\<rparr>) = Inr st'" using assms by (simp add: runq_spec_def del: dropWhile_eq_Nil_conv)
  moreover have "keeps st (st\<lparr>cmdfifo := []\<rparr>)" by (rule queue_keeps) (simp add: queue_ok_def)
  ultimately show ?thesis using empty_cb_keeps keeps_trans by blast
next
  case (Cons c q)
  have sub: "queue_ok (cmdfifo st) \<Longrightarrow> queue_ok (c # q)"
    using set_dropWhileD [of _ "spent e (plmtype st)" "cmdfifo st"] by (auto simp: Cons queue_ok_def list_all_iff)
  have run: "(if is_pause c
      then Inr (st\<lparr>cmdfifo := (if cq_sendcount c = 0 then q else c\<lparr>cq_sendcount := cq_sendcount c - 1\<rparr> # q)\<rparr>)
      else if to_send c \<or> overdue e (plmtype st) c then transmit e c q st else Inr (st\<lparr>cmdfifo := c # q\<rparr>)) = Inr st'"
    using assms by (simp add: runq_spec_def Cons)
  show ?thesis
  proof (cases "is_pause c")
    case True
    let ?q = "if cq_sendcount c = 0 then q else c\<lparr>cq_sendcount := cq_sendcount c - 1\<rparr> # q"
    have "queue_ok (c # q) \<Longrightarrow> queue_ok ?q" by (auto simp: queue_ok_def entry_ok_def)
    with sub have "keeps st (st\<lparr>cmdfifo := ?q\<rparr>)" by (blast intro: queue_keeps)
    with run True show ?thesis by simp
  next
    case False
    with run sub show ?thesis by (auto split: if_splits intro: queue_keeps transmit_keeps)
  qed
qed

lemma runq_keeps: "plm_runq e st = Some (Inr st') \<Longrightarrow> keeps st st'"
proof (unfold keeps_def, rule impI)
  assume run: "plm_runq e st = Some (Inr st')" and ok: "modem_ok st"
  have q: "queue_ok (cmdfifo st)" using ok by (simp add: modem_ok_def)
  have c: "keeps st (plm_condense_runq st)"
    unfolding plm_condense_runq_def by (rule queue_keeps) (rule condense_ok)
  show "modem_ok st'"
  proof (cases "plmtype st = PLM_TYPE_HUBHTTP \<and> hubhtmlstate st \<noteq> HUBHTMLSTATE_IDLE")
    case True
    with run ok show ?thesis by (simp add: plm_runq_def)
  next
    case False
    with run runq_returns [OF q, of e] have "runq_spec e (plm_condense_runq st) = Inr st'" by auto
    from spec_keeps [OF this] c ok show ?thesis by (simp add: keeps_def)
  qed
qed

section \<open>Devices and links\<close>

lemma data_keeps:
  assumes "plm_localdata p st = Inr dd" and "dd_ok dd \<Longrightarrow> dd_ok dd'"
  shows "keeps st (st\<lparr>plm_data := (plm_data st)(p \<mapsto> dd')\<rparr>)"
  using assms by (auto simp: keeps_def modem_ok_def plm_localdata_def split: option.splits)

lemma set_hops_keeps:
  assumes "plm_set_hops p f st = Inr st'"
  shows "keeps st st'"
proof -
  obtain dd where dd: "plm_localdata p st = Inr dd" using assms by (auto simp: plm_set_hops_def bindE_Inr_conv)
  have h: "keeps st (st\<lparr>plm_data := (plm_data st)(p \<mapsto> dd\<lparr>dd_hopflag := h\<rparr>)\<rparr>)" for h
    using dd by (rule data_keeps) (simp add: dd_ok_def)
  show ?thesis
  proof (cases "dd_hopflag dd = 255")
    case True
    have "Inr st' = (Inr (st\<lparr>plm_data := (plm_data st)(p \<mapsto> dd\<lparr>dd_hopflag := h\<rparr>)\<rparr>) :: 'a plm_scheme res) \<Longrightarrow> ?thesis" for h
      using h [of h] by simp
    then show ?thesis using assms unfolding plm_set_hops_def dd bindE_simps Let_def by (metis True)
  next
    case False
    with assms dd show ?thesis by (simp add: plm_set_hops_def)
  qed
qed

lemma mview_groups [simp]:
  "mview (snd (new_devgroup u st)) = mview st" "mview (add_dev_group p g st) = mview st"
  "mview (add_group_group h g st) = mview st" "mview (snd (alloc_dev d st)) = mview st"
  "mview (join_group p g st) = mview st" "mview (snd (find_or_new_group u st)) = mview st"
  by (simp_all add: mview_def new_devgroup_def add_dev_group_def add_group_group_def upd_grp_def alloc_dev_def
      join_group_def find_or_new_group_def Let_def split: option.split)

lemma found_group_view: "find_or_new_group u st = (g, s) \<Longrightarrow> mview s = mview st"
  using mview_groups(6) [of u st] by simp

lemma aldb_group_view:
  assumes "aldb_group p r st = Inr st'"
  shows "mview st' = mview st"
proof -
  obtain loc where loc: "d_loc (dmem st p) = Some loc" using assms by (auto simp: aldb_group_def split: option.splits)
  obtain g s where gs: "find_or_new_group (take 8 loc @ ''-'' @ hex_byte True (ab_group r)) st = (g, s)" by fastforce
  have "mview st' = mview (join_group p g s)"
    using assms unfolding aldb_group_def loc option.case gs Let_def prod.case
    by (cases "find_device_byuid (join_group p g s) (addr_to_string (ab_devaddr r))") auto
  with found_group_view [OF gs] show ?thesis by simp
qed

lemma recno_bound:
  "\<not> int ALDB_MAXSIZE \<le> aldb_recno a \<Longrightarrow> \<not> aldb_recno a < 0 \<Longrightarrow> nat (aldb_recno a) < ALDB_MAXSIZE"
  by (simp add: ALDB_MAXSIZE_def)

lemma unused_bound: "first_unused recs = Some i \<Longrightarrow> i < ALDB_MAXSIZE"
  by (auto simp: first_unused_def find_Some_iff)

lemma record_stored:
  assumes "dd_ok dd" and "len < ALDB_MAXSIZE"
  shows "dd_ok (dd\<lparr>dd_aldb := (dd_aldb dd)[i := aldb_record d], dd_aldblen := len\<rparr>)"
  using assms set_update_subset_insert [of "dd_aldb dd" i "aldb_record d"]
  by (auto simp: dd_ok_def list_all_iff aldb_record_def)

lemma handle_aldb_keeps:
  assumes "plm_handle_aldb p d st = Inr (r, st')"
  shows "keeps st st'"
proof (cases "int ALDB_MAXSIZE \<le> aldb_recno (ab_addr (aldb_record d)) \<or> aldb_recno (ab_addr (aldb_record d)) < 0")
  case True
  with assms have "st' = st" by (auto simp: plm_handle_aldb_def Let_def split: if_splits)
  then show ?thesis by simp
next
  case False
  define recno where "recno = nat (aldb_recno (ab_addr (aldb_record d)))"
  from False assms obtain dd where dd: "plm_localdata p st = Inr dd"
    and run: "let recs = (dd_aldb dd)[recno := aldb_record d];
      len = (case first_unused recs of None \<Rightarrow> dd_aldblen dd | Some i \<Rightarrow> i);
      st1 = st\<lparr>plm_data := (plm_data st)(p \<mapsto> dd\<lparr>dd_aldb := recs, dd_aldblen := len\<rparr>)\<rparr>
      in mview st' = mview st1"
    by (auto simp: plm_handle_aldb_def Let_def bindE_Inr_conv recno_def dest: aldb_group_view split: if_splits)
  let ?recs = "(dd_aldb dd)[recno := aldb_record d]"
  let ?len = "case first_unused ?recs of None \<Rightarrow> dd_aldblen dd | Some i \<Rightarrow> i"
  let ?st = "st\<lparr>plm_data := (plm_data st)(p \<mapsto> dd\<lparr>dd_aldb := ?recs, dd_aldblen := ?len\<rparr>)\<rparr>"
  have "keeps st ?st"
    using dd unused_bound by (intro data_keeps record_stored) (auto simp: dd_ok_def split: option.split)
  moreover have "keeps ?st st'" using run by (intro keeps_view) (simp add: Let_def)
  ultimately show ?thesis by (rule keeps_trans)
qed

lemma link_keeps: "link_group p g st = Inr st' \<Longrightarrow> keeps st st'"
  by (auto simp: link_group_def bindE_Inr_conv
      intro: keeps_trans [OF enq_other_keeps(6) keeps_trans [OF enq_std_keeps enq_std_keeps]])

lemma verify_keeps: "verify_aldb_group_links p st = Inr st' \<Longrightarrow> keeps st st'"
  by (auto simp: verify_aldb_group_links_def Let_def split: option.splits if_splits intro: link_keeps elim!: keeps_fold)

section \<open>Messages\<close>

lemma report_keeps: "report_level p s d st = Inr st' \<Longrightarrow> keeps st st'"
proof -
  assume run: "report_level p s d st = Inr st'"
  have "keeps st (storelog_switch p s st)" "keeps st (storelog_dimmer p d st)" by (rule keeps_view, simp)+
  with run show ?thesis by (auto simp: report_level_def Let_def split: if_splits intro: keeps_trans send_keeps)
qed

lemma query_grouped_keeps: "plm_query_grouped_devices p g st = Inr st' \<Longrightarrow> keeps st st'"
proof -
  assume run: "plm_query_grouped_devices p g st = Inr st'"
  consider "st' = st\<lparr>need_query := need_query st + 1\<rparr>"
    | gp st1 where "foldE (\<lambda>q. plm_enq_std q STDCMD_STATUSREQ 0 (CMDQ_WAITACK OR CMDQ_WAITANY)) (g_members (gmem st gp))
        (plm_enq_wait 10 st) = Inr st1" "st' = plm_enq_wait 1 st1"
    using run by (auto simp: plm_query_grouped_devices_def Let_def bindE_Inr_conv split: if_splits option.splits)
  then show ?thesis
  proof cases
    case 1
    then show ?thesis by (simp add: keeps_view)
  next
    case 2
    have "keeps (plm_enq_wait 10 st) st1" using 2(1) by (rule keeps_fold) (rule enq_std_keeps)
    then show ?thesis using 2(2) by (blast intro: keeps_trans enq_other_keeps(1))
  qed
qed

lemma maybe_query_keeps: "maybe_query p f g st = Inr st' \<Longrightarrow> keeps st st'"
proof -
  assume run: "maybe_query p f g st = Inr st'"
  have "keeps s (s\<lparr>need_query := n\<rparr>)" for s :: "'a plm_scheme" and n by (rule keeps_view) simp
  with run show ?thesis
    by (auto simp: maybe_query_def Let_def split: if_splits intro: keeps_trans [OF delay_keeps] query_grouped_keeps)
qed

lemma std_keeps: "std_command p f fl g c1 c2 st = Inr st' \<Longrightarrow> keeps st st'"
proof -
  assume run: "std_command p f fl g c1 c2 st = Inr st'"
  have n: "keeps s (s\<lparr>need_query := n\<rparr>)" for s :: "'a plm_scheme" and n by (rule keeps_view) simp
  have u: "keeps st (upd_dev p (set_proto c2) st)" by (rule keeps_view) simp
  from run show ?thesis
    by (auto simp: std_command_def bindE_Inr_conv u split: if_splits prod.splits
        intro: maybe_query_keeps keeps_trans [OF set_hops_keeps n] keeps_trans [OF report_keeps maybe_query_keeps])
qed

lemma status_keeps: "status_reply p c x st = Inr st' \<Longrightarrow> keeps st st'"
  by (auto simp: status_reply_def split: option.splits intro: report_keeps)

lemma stdrecv_keeps: "plm_handle_stdrecv e f t fl c1 c2 st = Inr st' \<Longrightarrow> keeps st st'"
proof -
  assume run: "plm_handle_stdrecv e f t fl c1 c2 st = Inr st'"
  let ?st = "(plmcmdq_check_recv e f t c1 CMDQ_WAITDATA st)\<lparr>plm_lastupd := ce_now e\<rparr>"
  have "keeps (plmcmdq_check_recv e f t c1 CMDQ_WAITDATA st) ?st" by (rule keeps_view) simp
  then have "keeps st ?st" by (rule keeps_trans [OF head_keeps(5)])
  moreover have "keeps ?st st'"
    using run unfolding plm_handle_stdrecv_def Let_def
    by (auto split: option.splits list.splits if_splits intro: std_keeps status_keeps)
  ultimately show ?thesis by (rule keeps_trans)
qed

lemma extrecv_keeps: "plm_handle_extrecv e f t fl c1 c2 x st = Inr st' \<Longrightarrow> keeps st st'"
proof -
  assume run: "plm_handle_extrecv e f t fl c1 c2 x st = Inr st'"
  have "keeps (plmcmdq_check_recv e f t c1 CMDQ_WAITEXT st) st'"
    using run unfolding plm_handle_extrecv_def Let_def
    by (auto simp: bindE_Inr_conv split: option.splits if_splits
        intro: keeps_trans [OF handle_aldb_keeps] keeps_trans [OF head_keeps(2) verify_keeps])
  then show ?thesis by (rule keeps_trans [OF head_keeps(5)])
qed

lemma html_keeps: "keeps st (check_html_state st)"
  by (rule keeps_view) simp

lemma check_keeps:
  assumes "map_sum id check_html_state r = Inr st'" and "\<And>s. r = Inr s \<Longrightarrow> keeps st s"
  shows "keeps st st'"
  using assms by (cases r) (auto intro: keeps_trans html_keeps)

lemma getinfo_keeps:
  assumes "length d = 30"
  shows "keeps st (plm_handle_getinfo d st)"
proof (cases "d ! 8 = PLMCMD_ACK")
  case True
  let ?st = "st\<lparr>plm_addr := take 3 (drop 2 d), plminfo := (plminfo st)\<lparr>dd_daddr := take 3 (drop 2 d), dd_devcat := d ! 5,
    dd_subcat := d ! 6, dd_firmware := d ! 7\<rparr>\<rparr>"
  have "keeps st ?st" using assms by (simp add: keeps_def modem_ok_def)
  then have "keeps st (plmcmdq_dequeue ?st)" using head_keeps(4) by (rule keeps_trans)
  with True show ?thesis by (simp add: plm_handle_getinfo_def)
qed (simp add: plm_handle_getinfo_def)

lemma confirm_keeps: "keeps st (confirm_send e d st)"
proof -
  have "keeps (plmcmdq_check_ack e d st) (confirm_send e d st)"
    by (rule keeps_view) (auto simp: confirm_send_def Let_def split: list.split)
  then show ?thesis by (rule keeps_trans [OF head_keeps(3)])
qed

lemma next_aldb_keeps: "keeps st (next_aldb d st)"
proof -
  let ?st = "if d ! 2 = PLMCMD_ACK then plm_getplm_aldb True st
    else if d ! 2 = PLMCMD_NAK then st\<lparr>plmaldbmorerecords := False\<rparr> else st"
  have "keeps st ?st" using enq_other_keeps(5) [of st True] keeps_view [of st "st\<lparr>plmaldbmorerecords := False\<rparr>"] by simp
  then have "keeps st (check_html_state ?st)" using html_keeps by (rule keeps_trans)
  then have "keeps st (plmcmdq_dequeue (check_html_state ?st))" "keeps st (check_html_state ?st)"
    using head_keeps(4) keeps_trans by blast+
  then show ?thesis by (simp add: next_aldb_def Let_def split del: if_split) (simp split: if_split)
qed

lemma alink_keeps: "plm_handle_alink_complete d st = Inr st' \<Longrightarrow> keeps st st'"
  by (auto simp: plm_handle_alink_complete_def split: list.splits if_splits intro: head_keeps)

lemma command_keeps:
  assumes "handle_command e d st = Inr st'" and "length d = 30"
  shows "keeps st st'"
proof -
  have "keeps st (plm_setconf x (st\<lparr>plm_config_bits := y\<rparr>))" for x y
    by (rule keeps_trans [OF keeps_view enq_other_keeps(4)]) simp
  note cases = this stdrecv_keeps extrecv_keeps getinfo_keeps [OF assms(2)] alink_keeps confirm_keeps next_aldb_keeps head_keeps
  show ?thesis
    using assms(1) unfolding handle_command_def Let_def
    by (auto split: if_split_asm intro: cases html_keeps keeps_trans [OF _ html_keeps] elim!: check_keeps)
qed

lemma works_keeps: "run_works n e st = Inr st' \<Longrightarrow> modem_ok st \<Longrightarrow> modem_ok st'"
proof (induction n arbitrary: st)
  case (Suc n)
  show ?case
  proof (cases "workfifo st")
    case (Cons w ws)
    with Suc.prems obtain st1 where st1: "handle_command e w st = Inr st1"
        "run_works n e (st1\<lparr>workfifo := tl (workfifo st1)\<rparr>) = Inr st'"
      by (auto simp: bindE_Inr_conv)
    have "length w = 30" using Suc.prems(2) Cons by (simp add: modem_ok_def)
    with st1(1) Suc.prems(2) have "modem_ok st1" using command_keeps by (auto simp: keeps_def)
    then have "modem_ok (st1\<lparr>workfifo := tl (workfifo st1)\<rparr>)"
      by (cases "workfifo st1") (auto simp: modem_ok_def)
    with Suc.IH [OF st1(2)] show ?thesis by simp
  qed (use Suc.prems in auto)
qed simp

section \<open>Reading\<close>

lemma cmdlen_bound: "plm_cmdlen t \<le> 25"
  by (auto simp: plm_cmdlen_def plm_lengths_def split: option.split dest!: map_of_SomeD)

lemma look_take: "plm_look_at buf = Take n \<Longrightarrow> n \<le> 25"
  using cmdlen_bound by (auto simp: plm_look_at_def Let_def split: list.splits if_splits)

lemma hub_take: "hub_look_at buf pd = Inr (b, Take n, pd') \<Longrightarrow> n \<le> 25"
  using cmdlen_bound by (auto simp: hub_look_at_def Let_def bindE_Inr_conv split: if_splits)

lemma hub_bytes_length: "2 * length (hub_bytes s) \<le> length s"
  by (induction s rule: hub_bytes.induct) simp_all

lemma works_only:
  assumes "list_all (\<lambda>w. length w = 30) (workfifo st) \<Longrightarrow> list_all (\<lambda>w. length w = 30) ws"
  shows "keeps st (st\<lparr>workfifo := ws\<rparr>)"
  using assms by (simp add: keeps_def modem_ok_def)

lemma readcb_keeps: "keeps st (plm_readcb st)"
proof (cases "plm_look_at (plm_input st)")
  case (Take n)
  have "keeps st (st\<lparr>workfifo := workfifo st @ [padded 30 (take n (plm_input st))]\<rparr>)"
    using look_take [OF Take] by (intro works_only) (simp add: padded_length)
  also have "keeps \<dots> (plm_readcb st)" by (rule keeps_view) (simp add: plm_readcb_def Take mview_def Let_def)
  finally (keeps_trans) show ?thesis .
qed (auto simp: plm_readcb_def Let_def intro: keeps_view)

lemma hub_loop_works:
  assumes "hubhtml_loop buf pd ws = Inr (buf', ws')" and "list_all (\<lambda>w. length w = 30) ws"
  shows "list_all (\<lambda>w. length w = 30) ws'"
  using assms
proof (induction buf pd ws rule: hubhtml_loop.induct)
  case (1 buf pd ws)
  note run = "1.prems"(1) [unfolded hubhtml_loop.simps [of buf pd ws]] "1.prems"(2)
  show ?case
  proof (cases "hub_look_at buf pd")
    case (Inl err)
    with run show ?thesis by simp
  next
    case (Inr r)
    obtain b l pd1 where r: "r = (b, l, pd1)" by (cases r)
    show ?thesis
    proof (cases l)
      case (Discard n)
      with run "1.IH"(1) [OF Inr r [symmetric] refl Discard] Inr r show ?thesis by (auto split: if_splits)
    next
      case Await
      with run Inr r show ?thesis by simp
    next
      case (Take n)
      have "2 * length (hub_bytes (take (2 * n) buf)) \<le> 2 * 25"
        using hub_bytes_length [of "take (2 * n) buf"] hub_take [of buf pd b n pd1] Inr r Take by simp
      then have "length (padded 30 (hub_bytes (take (2 * n) buf))) = 30" by (simp add: padded_length)
      with run "1.IH"(2) [OF Inr r [symmetric] refl Take] Inr r Take show ?thesis by simp
    qed
  qed
qed

lemma hub_read_keeps:
  assumes "hubhtml_readcb st = Inr st'"
  shows "keeps st st'"
proof -
  obtain buf ws where ws: "hubhtml_loop (hub_workbuf st) (replicate 32 None) (workfifo st) = Inr (buf, ws)"
      "st' = st\<lparr>hub_workbuf := buf, workfifo := ws\<rparr>"
    using assms by (auto simp: hubhtml_readcb_def bindE_Inr_conv)
  have "keeps st (st\<lparr>workfifo := ws\<rparr>)" using hub_loop_works [OF ws(1)] by (intro works_only) auto
  also have "keeps \<dots> st'" using ws(2) by (intro keeps_view) (simp add: mview_def)
  finally (keeps_trans) show ?thesis .
qed

lemma hub_text_keeps:
  assumes "hubhtml_buf_request_cb e r st = Inr st'"
  shows "keeps st st'"
proof -
  consider "st' = st" | code buf body where "r = Some (code, buf)" "code = 200" "buf \<noteq> []" "hub_body (c_string buf) = Some (Inr body)"
    using assms
    by (auto simp: hubhtml_buf_request_cb_def bindE_Inr_conv split: option.splits if_split_asm)
  then show ?thesis
  proof cases
    case (2 code buf body)
    obtain nw tx where "hub_usable e body = (nw, tx)" by fastforce
    with assms 2 show ?thesis
      by (intro keeps_view) (auto simp: hubhtml_buf_request_cb_def Let_def mview_def split: if_split_asm)
  qed simp
qed

section \<open>Requests and connections\<close>

lemma chg_keeps:
  assumes "insteon_chg_cb p st = Inr st'"
  shows "keeps st st'"
proof -
  have "\<exists>a b. plm_enq_std p a b CMDQ_WAITACKDATA st = Inr st'" if "coll_chg_switch_cb p x st = Inr st'" for x
    using that by (auto simp: coll_chg_switch_cb_def plm_switch_on_def plm_switch_off_def split: if_splits)
  moreover have "\<exists>a b. plm_enq_std p a b CMDQ_WAITACKDATA st = Inr st'" if "coll_chg_dimmer_cb p x st = Inr st'" for x
    using that by (auto simp: coll_chg_dimmer_cb_def plm_switch_on_def plm_switch_off_def bindE_Inr_conv split: if_splits)
  ultimately have "st' = st \<or> (\<exists>a b. plm_enq_std p a b CMDQ_WAITACKDATA st = Inr st')"
    using assms by (auto simp: insteon_chg_cb_def Let_def split: if_splits)
  then show ?thesis by (auto intro: enq_std_keeps)
qed

interpretation requests: coll_kept keeps "insteon_hooks e" for e
proof (unfold_locales, goal_cases)
  case (2 s1 s2 s3)
  then show ?case by (rule keeps_trans)
next
  case (11 b m st st')
  then show ?case by (rule write_keeps)
next
  case (15 p st st')
  then show ?case by (auto simp: insteon_hooks_def weak_stubs_def intro: chg_keeps)
qed (auto simp: insteon_hooks_def weak_stubs_def intro: keeps_view)

lemma rereg_keeps:
  assumes "reregister n c st = Inr st'"
  shows "keeps st st'"
proof -
  have reg: "keeps s t" if "register_dev b p s = Inr t" for b p and s t :: "'a plm_scheme"
    using that by (auto simp: register_dev_def split: if_splits intro: send_keeps)
  obtain st1 where st1: "st' = st1\<lparr>oneed_rereg := False\<rparr>"
      "st1 = st \<or> (\<exists>st0 m. foldE (register_dev (oc_bev (oconns st c))) (alldevs st) st = Inr st0 \<and>
        write_bev (server_bev st0) m st0 = Inr st1)"
    using assms by (auto simp: reregister_def bindE_Inr_conv split: if_splits)
  from st1(2) have "keeps st st1"
  proof (elim disjE exE conjE)
    fix st0 m
    assume f: "foldE (register_dev (oc_bev (oconns st c))) (alldevs st) st = Inr st0" and w: "write_bev (server_bev st0) m st0 = Inr st1"
    have "keeps st st0" by (rule keeps_fold [OF f]) (erule reg)
    then show "keeps st st1" using write_keeps [OF w] by (rule keeps_trans)
  qed simp
  moreover have "keeps st1 st'" unfolding st1 by (rule keeps_view) simp
  ultimately show ?thesis using keeps_trans by blast
qed

lemma connect_keeps: "insteon_connect_server_cb c st = Inr st' \<Longrightarrow> keeps st st'"
proof -
  assume run: "insteon_connect_server_cb c st = Inr st'"
  have "keeps (open_bev c st) st'"
    using run by (auto simp: insteon_connect_server_cb_def Let_def split: conn_role.splits intro: rereg_keeps)
  then show ?thesis by (rule keeps_trans [OF keeps_view, rotated]) simp
qed

lemma sigterm_keeps: "insteon_cb_sigterm st = Inr st' \<Longrightarrow> keeps st st'"
proof -
  assume run: "insteon_cb_sigterm st = Inr st'"
  obtain st1 where st1: "sigterm_server st = Inr st1" using run by (auto simp: insteon_cb_sigterm_def bindE_Inr_conv)
  have "keeps (upd_oconn (oserver st) (\<lambda>x. x\<lparr>oc_shutdown := True\<rparr>) st) st1"
    using st1 by (auto simp: sigterm_server_def Let_def intro: write_keeps)
  then have "keeps st st1" by (rule keeps_trans [OF keeps_view, rotated]) simp
  moreover have "keeps st1 st'"
    using run st1 unfolding insteon_cb_sigterm_def
    by (cases "Option.bind (plm_conn st1) (\<lambda>c. oc_bev (oconns st1 c))")
      (auto split: if_splits intro!: keeps_view)
  ultimately show ?thesis by (rule keeps_trans)
qed

lemma conn_keeps:
  "hubplm_connect_event_cb w k c st = Inr st' \<Longrightarrow> keeps st st'"
  "insteon_connect_event_cb w k c st = Inr st' \<Longrightarrow> keeps st st'"
proof -
  have f: "keeps st (free_bev k st)" by (rule keeps_view) simp
  show "hubplm_connect_event_cb w k c st = Inr st' \<Longrightarrow> keeps st st'"
    by (auto simp: hubplm_connect_event_cb_def split: conn_event.splits if_splits intro: keeps_trans [OF f connect_keeps])
  show "insteon_connect_event_cb w k c st = Inr st' \<Longrightarrow> keeps st st'"
    by (auto simp: insteon_connect_event_cb_def connection_lost_def Let_def
        split: conn_event.splits if_splits intro!: keeps_view)
qed

lemma insteon_handle_keeps:
  assumes "insteon_handle e ev st = Some (Inr st')"
  shows "keeps st st'"
proof (cases ev)
  case Ev_runq
  with assms show ?thesis by (simp add: runq_keeps)
next
  case Ev_workq
  with assms show ?thesis using works_keeps by (auto simp: keeps_def plm_run_workq_def)
next
  case (Ev_plm bs)
  have "keeps st (st\<lparr>plm_input := plm_input st @ bs\<rparr>)" by (rule keeps_view) simp
  with assms Ev_plm show ?thesis by (auto intro: keeps_trans readcb_keeps)
next
  case (Ev_server ls)
  with assms show ?thesis by (auto simp: bindE_Inr_conv intro: requests.read_kept)
next
  case (Ev_conn w k c)
  with assms show ?thesis by (auto split: conn_role.splits if_splits intro: conn_keeps)
next
  case (Ev_retry c)
  have "keeps st (st\<lparr>oretry := remove1 c (oretry st)\<rparr>)" by (rule keeps_view) simp
  with assms Ev_retry show ?thesis by (auto intro: keeps_trans connect_keeps)
next
  case (Ev_health c)
  with assms show ?thesis by (auto simp: insteon_health_cb_def split: if_splits intro: write_keeps)
next
  case Ev_sigterm
  with assms show ?thesis by (simp add: sigterm_keeps)
next
  case (Ev_hub_text r)
  with assms show ?thesis by (simp add: hub_text_keeps)
next
  case Ev_hub_read
  with assms show ?thesis by (simp add: hub_read_keeps)
qed (use assms in \<open>auto simp: plm_rescan_def hubhtml_plmc_request_cb_def hubhtml_clear_im_buffer_cb_def mview_def
    split: if_splits intro!: keeps_view\<close>)

section \<open>The start\<close>

lemma fields_length: "length (scan_fields seps s) \<le> Suc (length seps)"
  by (induction seps s rule: scan_fields.induct) (auto split: option.splits prod.splits list.splits)

lemma loc_devdata_ok:
  assumes "length vars = 4" and "loc_devdata vars loc = (vs, dd)"
  shows "length vs = 4" and "dd_ok dd"
proof -
  have len: "length (scan_into vars seps s) = 4" if "length seps \<le> 3" for seps s
    using fields_length [of seps s] that assms(1) by (simp add: scan_into_def Let_def)
  have vs: "vs = scan_into vars (if length loc = 8 then ''..'' else ''..-'') loc"
    using assms(2) by (simp add: loc_devdata_def Let_def)
  then show "length vs = 4" using len [of "''..''" loc] len [of "''..-''" loc] by simp
  moreover have "dd = (if length loc = 8 then zero_devdata\<lparr>dd_daddr := map ucast (take 3 vs), dd_hopflag := 255\<rparr>
      else zero_devdata\<lparr>dd_daddr := map ucast (take 3 vs), dd_hopflag := 255, dd_group := ucast (vs ! 3)\<rparr>)"
    using assms(2) by (cases "length loc = 8") (auto simp: loc_devdata_def Let_def)
  ultimately show "dd_ok dd" by (simp add: dd_ok_def zero_devdata_def zero_aldb_def ALDB_MAXSIZE_def list_all_iff)
qed

lemma new_dev_view: "new_dev_from_conf cf u st = Inr (f, st') \<Longrightarrow> mview st' = mview st"
  by (auto simp: new_dev_from_conf_def bindE_Inr_conv Let_def alloc_dev_def mview_def upd_dev_def
      split: option.splits if_splits prod.splits)

lemma load_device_keeps:
  assumes "insteon_load_device sec (vars, st) = Inr (vs, st')" and "length vars = 4"
  shows "length vs = 4 \<and> keeps st st'"
proof -
  obtain found st1 where st1: "new_dev_from_conf (coll_conf st) (cs_title sec) st = Inr (found, st1)"
    using assms(1) by (auto simp: insteon_load_device_def bindE_Inr_conv)
  have keep: "keeps st st1" using new_dev_view [OF st1] by (intro keeps_view) simp
  show ?thesis
  proof (cases found)
    case None
    with assms st1 keep show ?thesis by (simp add: insteon_load_device_def)
  next
    case (Some p)
    obtain loc where loc: "d_loc (dmem st1 p) = Some loc"
      using assms(1) st1 Some by (auto simp: insteon_load_device_def split: option.splits)
    obtain ws dd where dd: "loc_devdata vars loc = (ws, dd)" by fastforce
    let ?st = "insert_device p (st1\<lparr>plm_data := (plm_data st1)(p \<mapsto> dd)\<rparr>)"
    have run: "vs = ws" "st' = ?st \<or> send_register (server_bev ?st) p ?st = Inr st'"
      using assms(1) st1 Some loc dd by (auto simp: insteon_load_device_def Let_def bindE_Inr_conv split: if_splits)
    have "keeps st1 (st1\<lparr>plm_data := (plm_data st1)(p \<mapsto> dd)\<rparr>)"
      using loc_devdata_ok(2) [OF assms(2) dd] by (simp add: keeps_def modem_ok_def)
    then have "keeps st ?st" using keep by (metis keeps_trans keeps_view mview_registry(1))
    then have "keeps st st'" using run(2) send_keeps(2) keeps_trans by blast
    then show ?thesis using loc_devdata_ok(1) [OF assms(2) dd] run(1) by simp
  qed
qed

lemma parse_devices_keeps:
  assumes "insteon_parse_devices e st = Inr st'"
  shows "keeps st st'"
proof -
  obtain vs where fold: "foldE insteon_load_device (cf_devices (coll_conf st)) (map (ie_scan e) [0..<4], st) = Inr (vs, st')"
    using assms by (auto simp: insteon_parse_devices_def bindE_Inr_conv)
  have "(\<lambda>x. length (fst x) = 4 \<and> keeps st (snd x)) (vs, st')"
    by (rule foldE_inv [OF fold]) (auto dest!: load_device_keeps intro: keeps_trans)
  then show ?thesis by simp
qed

lemma ping_all_keeps: "plm_ping_all_devices st = Inr st' \<Longrightarrow> keeps st st'"
proof -
  assume run: "plm_ping_all_devices st = Inr st'"
  obtain st1 where st1: "foldE (\<lambda>p. plm_enq_std p 0x0F 0 CMDQ_WAITACKDATA) (alldevs st) st = Inr st1"
      "foldE (\<lambda>p st. bindE (plm_req_aldb p st) (\<lambda>st1. Inr (plm_enq_wait 2 st1))) (alldevs st1) (plm_enq_wait 5 st1) = Inr st'"
    using run by (auto simp: plm_ping_all_devices_def bindE_Inr_conv)
  have "keeps st st1" using st1(1) by (rule keeps_fold) (rule enq_std_keeps)
  moreover have "keeps (plm_enq_wait 5 st1) st'"
    using st1(2)
    by (rule keeps_fold)
      (auto simp: bindE_Inr_conv plm_req_aldb_def intro: keeps_trans [OF enq_ext_keeps enq_other_keeps(1)])
  ultimately show ?thesis using enq_other_keeps(1) by (metis keeps_trans)
qed

text \<open>What \<^verbatim>\<open>main\<close> starts from: static storage is zero, and the options are those of the configuration.\<close>

definition insteon_boot :: "conf \<Rightarrow> plm_type \<Rightarrow> int \<Rightarrow> plm" where
  "insteon_boot cf t rescan = registry.extend empty_registry
     \<lparr>bufs = (\<lambda>_. None), bufnext = 0, gnhastd_bev = None, coll_alarms = [], coll_conf = cf, coll_conf_file = None,
      min_proto_version = 0, rrd_freed = (\<lambda>_. False),
      oconns = (\<lambda>_. \<lparr>oc_role = To_hardware, oc_bev = None, oc_shutdown = False\<rparr>), oserver = 0, oneed_rereg = False,
      oinstance = 0, odumping = False, oretry = [], ohealth = [], ostop = 0, oexit = False,
      cmdfifo = [], workfifo = [], plm_conn = None, plm_input = [], plm_addr = [0, 0, 0], plminfo = zero_devdata,
      plm_data = (\<lambda>_. None), plmtype = t, hubhtmlstate = HUBHTMLSTATE_IDLE, hub_workbuf = [], hub_posts = [],
      hub_clears = 0, hub_new = False, hub_feeding = False, need_query = 0, plmaldbmorerecords = False,
      plm_config_bits = 0, plm_lastupd = 0, plm_rescan_rate = rescan\<rparr>"

lemma boot_ok: "modem_ok (insteon_boot cf t r)"
  by (simp add: modem_ok_def insteon_boot_def queue_ok_def registry.defs)

lemma main_keeps:
  assumes "insteon_main e device host inst st = Inr st'"
  shows "keeps st st'"
proof -
  obtain st1 st2 st3 st4 where
      st: "plmtype_connect device host 0 (st\<lparr>plm_lastupd := ce_now e\<rparr>) = Inr st1"
      "insteon_connect_server_cb 1 (new_oconn To_server 1 ((plm_getconf (plm_getinfo st1))\<lparr>oserver := 1\<rparr>)) = Inr st2"
      "write_bev (server_bev st2) (gn_client_name (Some ''insteoncoll'') inst) (st2\<lparr>oinstance := inst\<rparr>) = Inr st3"
      "insteon_parse_devices e st3 = Inr st4" "plm_ping_all_devices st4 = Inr st'"
    using assms by (auto simp: insteon_main_def bindE_Inr_conv)
  have "keeps st st1"
  proof -
    let ?st = "(new_oconn To_hardware 0 (st\<lparr>plm_lastupd := ce_now e\<rparr>))\<lparr>plm_conn := Some 0\<rparr>"
    have "keeps st ?st" by (rule keeps_view) simp
    moreover have "st1 = open_bev 0 ?st \<or> insteon_connect_server_cb 0 ?st = Inr st1 \<or> mview st1 = mview st"
      using st(1) by (auto simp: plmtype_connect_def hubhtml_startfeed_def mview_def split: plm_type.splits if_splits option.splits)
    moreover have "keeps ?st (open_bev 0 ?st)" by (rule keeps_view) simp
    ultimately show ?thesis
      using connect_keeps [of 0 ?st st1] keeps_trans [of st ?st st1] keeps_view [of st st1] by auto
  qed
  moreover have "keeps st1 st2"
  proof -
    let ?s = "plm_getconf (plm_getinfo st1)"
    have "keeps st1 ?s" using enq_other_keeps(2,3) by (blast intro: keeps_trans)
    moreover have "keeps ?s (new_oconn To_server 1 (?s\<lparr>oserver := 1\<rparr>))" by (rule keeps_view) simp
    ultimately show ?thesis using connect_keeps [OF st(2)] by (blast intro: keeps_trans)
  qed
  moreover have "keeps st2 st3"
    using write_keeps [OF st(3)] by (rule keeps_trans [OF keeps_view, rotated]) simp
  ultimately show ?thesis
    using parse_devices_keeps [OF st(4)] ping_all_keeps [OF st(5)] by (blast intro: keeps_trans)
qed

section \<open>Reachable states\<close>

text \<open>The loop delivers events until it is left.\<close>

inductive insteon_reach :: "plm \<Rightarrow> bool" where
  start: "insteon_main e device host inst (insteon_boot cf t rescan) = Inr st \<Longrightarrow> insteon_reach st"
| step: "insteon_reach st \<Longrightarrow> \<not> oexit st \<Longrightarrow> insteon_handle e ev st = Some (Inr st') \<Longrightarrow> insteon_reach st'"

lemma insteon_reach_ok: "insteon_reach st \<Longrightarrow> modem_ok st"
proof (induction rule: insteon_reach.induct)
  case (start e device host inst cf t rescan st)
  from main_keeps [OF this] show ?case using boot_ok by (simp add: keeps_def)
next
  case (step st e ev st')
  from insteon_handle_keeps [OF step.hyps(3)] show ?case using step.IH by (simp add: keeps_def)
qed

end
