(* ===== verification/Lights.thy ===== *)
theory Lights
  imports Modeminv Lifecycle
begin

text \<open>
  The properties of the Insteon collector: its queue of commands, the two ways its messages come in,
  and the commands that get lost.
\<close>

section \<open>Messages\<close>

text \<open>A message of the modem, from its first byte to its last.\<close>

definition plm_message :: "u8 list \<Rightarrow> bool" where
  "plm_message m \<longleftrightarrow>
     (case m of
        b0 # t # _ \<Rightarrow> b0 = PLM_START \<and> plm_cmdlen t \<noteq> 0 \<and>
          length m = (if t = PLM_SEND \<and> m ! 5 AND PLMFLAG_EXT \<noteq> 0 then 23 else plm_cmdlen t)
      | _ \<Rightarrow> False)"

lemma cmdlen_codes: "plm_cmdlen t \<noteq> 0 \<Longrightarrow> 0x50 \<le> t \<and> t \<le> 0x73"
proof (cases "map_of plm_lengths t")
  case (Some n)
  from map_of_SomeD [OF this] show "0x50 \<le> t \<and> t \<le> 0x73" by (auto simp: plm_lengths_def)
qed (simp add: plm_cmdlen_def)

lemma cmdlen_send [simp]: "plm_cmdlen PLM_SEND = 9"
  by (simp add: plm_cmdlen_def plm_lengths_def)

lemma message_parts:
  assumes "plm_message m"
  obtains t r where "m = PLM_START # t # r" "plm_cmdlen t \<noteq> 0" "t \<noteq> PLMCMD_NAK" "\<not> 0x80 \<le> t" "plm_cmdlen t \<le> length m"
    "length m \<le> 25" "t = PLM_SEND \<Longrightarrow> 9 \<le> length m"
    "length m = (if t = PLM_SEND \<and> m ! 5 AND PLMFLAG_EXT \<noteq> 0 then 23 else plm_cmdlen t)"
proof -
  obtain t r where m: "m = PLM_START # t # r" "plm_cmdlen t \<noteq> 0"
      "length m = (if t = PLM_SEND \<and> m ! 5 AND PLMFLAG_EXT \<noteq> 0 then 23 else plm_cmdlen t)"
    using assms by (auto simp: plm_message_def split: list.splits)
  have "t \<noteq> PLMCMD_NAK" "\<not> 0x80 \<le> t" using cmdlen_codes [OF m(2)] by (auto simp: word_le_nat_alt)
  moreover have "plm_cmdlen t \<le> length m" "length m \<le> 25" "t = PLM_SEND \<Longrightarrow> 9 \<le> length m"
    unfolding m(3) using cmdlen_bound [of t] by auto
  ultimately show ?thesis using that m by blast
qed

lemma look_message:
  assumes "plm_message m"
  shows "plm_look_at (m @ rest) = Take (length m)"
proof (rule message_parts [OF assms])
  fix t r
  assume m: "m = PLM_START # t # r" "plm_cmdlen t \<noteq> 0" "t \<noteq> PLMCMD_NAK" "plm_cmdlen t \<le> length m" "t = PLM_SEND \<Longrightarrow> 9 \<le> length m"
    and len: "length m = (if t = PLM_SEND \<and> m ! 5 AND PLMFLAG_EXT \<noteq> 0 then 23 else plm_cmdlen t)"
  have look: "plm_look_at (m @ rest) =
      (if t = PLM_SEND \<and> (m @ rest) ! 5 AND PLMFLAG_EXT \<noteq> 0
       then (if length (m @ rest) < 23 then Await else Take 23) else Take (plm_cmdlen t))"
    using m(2,3,4) unfolding m(1) by (simp add: plm_look_at_def Let_def)
  show ?thesis
  proof (cases "t = PLM_SEND")
    case True
    with m(5) have "(m @ rest) ! 5 = m ! 5" by (simp add: nth_append)
    with look len show ?thesis by auto
  next
    case False
    with look len show ?thesis by simp
  qed
qed

lemma readcb_message:
  assumes "plm_message m" and "plm_input st = m @ rest"
  shows "plm_readcb st = st\<lparr>plm_input := rest, workfifo := workfifo st @ [padded 30 m]\<rparr>"
  using look_message [OF assms(1), of rest] assms(2) by (simp add: plm_readcb_def Let_def)

lemma readcb_messages:
  assumes "list_all plm_message ms" and "plm_input st = concat ms @ rest"
  shows "(plm_readcb ^^ length ms) st = st\<lparr>plm_input := rest, workfifo := workfifo st @ map (padded 30) ms\<rparr>"
  using assms
proof (induction ms arbitrary: st)
  case Nil
  then show ?case by (cases st) simp
next
  case (Cons m ms)
  then have "plm_readcb st = st\<lparr>plm_input := concat ms @ rest, workfifo := workfifo st @ [padded 30 m]\<rparr>"
    by (intro readcb_message) simp_all
  with Cons show ?case by (simp add: funpow_Suc_right del: funpow.simps)
qed

section \<open>The same messages from a hub\<close>

lemma hex_text_simps [simp]: "hex_text u [] = []" "hex_text u (b # m) = hex_byte u b @ hex_text u m"
  by (simp_all add: hex_text_def)

lemma hex_byte_length [simp]: "length (hex_byte u b) = 2"
  by (simp add: hex_byte_def)

lemma hex_text_length [simp]: "length (hex_text u m) = 2 * length m"
  by (induction m) simp_all

lemma hex_digit_nul: "n < 16 \<Longrightarrow> hex_digit u n \<noteq> CHR 0x00"
  by (auto simp: hex_digit_def Let_def dest: arg_cong [where f = "of_char :: char \<Rightarrow> nat"])

text \<open>The text has no NUL, so all of it is decoded, or the part that is asked for.\<close>

lemma hub_bytes_text: "n \<le> length m \<Longrightarrow> hub_bytes (take (2 * n) (hex_text u m @ r)) = take n m"
proof (induction m arbitrary: n)
  case (Cons b m)
  show ?case
  proof (cases n)
    case (Suc k)
    have "unat b < 256" using unsigned_less [of b] by simp
    then have "unat b div 16 < 16" by simp
    with Suc Cons show ?thesis
      using hex_byte_value [of b] by (simp add: hex_byte_def hexof_digit hex_digit_nul)
  qed simp
qed simp

lemma decode_into_text:
  assumes "n \<le> length m"
  shows "decode_into (take (2 * n) (hex_text u m @ r)) pd = map Some (take n m) @ drop n pd"
  unfolding decode_into_def hub_bytes_text [OF assms] using assms by (simp add: min_absorb2)

lemma hub_look_message:
  assumes "plm_message m"
  shows "\<exists>pd'. hub_look_at (hex_text u m @ rest) pd = Inr (True, Take (length m), pd')"
proof (rule message_parts [OF assms])
  fix t r
  assume m: "m = PLM_START # t # r" "plm_cmdlen t \<noteq> 0" "t \<noteq> PLMCMD_NAK" "\<not> 0x80 \<le> t" "plm_cmdlen t \<le> length m"
      "t = PLM_SEND \<Longrightarrow> 9 \<le> length m"
    and len: "length m = (if t = PLM_SEND \<and> m ! 5 AND PLMFLAG_EXT \<noteq> 0 then 23 else plm_cmdlen t)"
  let ?pd1 = "decode_into (take 4 (hex_text u m @ rest)) pd" and ?pd2 = "decode_into (take (plm_cmdlen t * 2) (hex_text u m @ rest))"
  have "?pd1 = map Some (take 2 m) @ drop 2 pd" using decode_into_text [of 2 m u rest pd] by (simp add: m(1))
  then have b: "plm_byte ?pd1 0 = Inr PLM_START" "plm_byte ?pd1 1 = Inr t" by (simp_all add: plm_byte_def m(1))
  have p2: "?pd2 x = map Some (take (plm_cmdlen t) m) @ drop (plm_cmdlen t) x" for x
    using decode_into_text [OF m(5), of u rest x] by (simp add: mult.commute)
  have long: "\<not> length (hex_text u m @ rest) < 4" by (simp add: m(1))
  show ?thesis
  proof (cases "t = PLM_SEND")
    case True
    have n: "plm_cmdlen PLM_SEND = 9" by code_simp
    have "plm_byte (?pd2 ?pd1) 5 = Inr (m ! 5)"
      unfolding p2 using m(6) [OF True] n True by (simp add: plm_byte_def nth_append)
    with long b m(2-5) len True show ?thesis by (auto simp: hub_look_at_def Let_def)
  next
    case False
    with long b m(2-5) len show ?thesis by (auto simp: hub_look_at_def Let_def)
  qed
qed

lemma hub_loop_message:
  assumes "plm_message m"
  shows "\<exists>pd'. hubhtml_loop (hex_text u m @ rest) pd ws = hubhtml_loop rest pd' (ws @ [padded 30 m])"
proof -
  obtain pd' where "hub_look_at (hex_text u m @ rest) pd = Inr (True, Take (length m), pd')"
    using hub_look_message [OF assms] by blast
  then show ?thesis using hub_bytes_text [of "length m" m u rest] by (subst hubhtml_loop.simps) auto
qed

lemma hub_look_zeros:
  assumes "4 \<le> length rest + 2"
  shows "\<exists>pd'. hub_look_at (CHR ''0'' # CHR ''0'' # rest) pd = Inr (True, Discard 2, pd')"
proof -
  have "hub_bytes (take 4 (CHR ''0'' # CHR ''0'' # rest)) = 0 # hub_bytes (take 2 rest)"
    by (simp add: hexof_def)
  then have "plm_byte (decode_into (take 4 (CHR ''0'' # CHR ''0'' # rest)) pd) 0 = Inr 0"
    by (simp only: decode_into_def) (simp add: plm_byte_def)
  then show ?thesis using assms by (simp add: hub_look_at_def Let_def)
qed

lemma hub_loop_zeros:
  assumes "2 \<le> length rest"
  shows "\<exists>pd'. hubhtml_loop (replicate (2 * z) (CHR ''0'') @ rest) pd ws = hubhtml_loop rest pd' ws"
proof (induction z arbitrary: pd)
  case 0
  show ?case by auto
next
  case (Suc z)
  let ?buf = "replicate (2 * z) (CHR ''0'') @ rest"
  obtain pd1 where "hub_look_at (CHR ''0'' # CHR ''0'' # ?buf) pd = Inr (True, Discard 2, pd1)"
    using hub_look_zeros [of ?buf pd] assms by auto
  then have "hubhtml_loop (CHR ''0'' # CHR ''0'' # ?buf) pd ws = hubhtml_loop ?buf pd1 ws"
    by (subst hubhtml_loop.simps) simp
  moreover obtain pd' where "hubhtml_loop ?buf pd1 ws = hubhtml_loop rest pd' ws" using Suc by blast
  ultimately show ?case by (auto simp: numeral_2_eq_2)
qed

lemma hub_loop_padding: "\<exists>n < 4. hubhtml_loop (replicate k (CHR ''0'')) pd ws = Inr (replicate n (CHR ''0''), ws)"
proof (induction k arbitrary: pd rule: less_induct)
  case (less k)
  show ?case
  proof (cases "k < 4")
    case True
    then have "hub_look_at (replicate k (CHR ''0'')) pd = Inr (False, Await, pd)" by (simp add: hub_look_at_def)
    with True show ?thesis by (subst hubhtml_loop.simps) auto
  next
    case False
    then obtain j where k: "k = Suc (Suc j)" "2 \<le> j" by (intro that [of "k - 2"]) simp_all
    then obtain pd1 where "hub_look_at (CHR ''0'' # CHR ''0'' # replicate j (CHR ''0'')) pd = Inr (True, Discard 2, pd1)"
      using hub_look_zeros [of "replicate j (CHR ''0'')" pd] by auto
    then have "hubhtml_loop (CHR ''0'' # CHR ''0'' # replicate j (CHR ''0'')) pd ws = hubhtml_loop (replicate j (CHR ''0'')) pd1 ws"
      by (subst hubhtml_loop.simps) simp
    with less [of j pd1] k(1) show ?thesis by simp
  qed
qed

definition hub_text :: "bool \<Rightarrow> (nat \<times> u8 list) list \<Rightarrow> string" where
  "hub_text u zms = concat (map (\<lambda>(z, m). replicate (2 * z) (CHR ''0'') @ hex_text u m) zms)"

lemma hub_loop_messages:
  assumes "list_all (plm_message \<circ> snd) zms"
  shows "\<exists>n < 4. hubhtml_loop (hub_text u zms @ replicate k (CHR ''0'')) pd ws =
    Inr (replicate n (CHR ''0''), ws @ map (padded 30 \<circ> snd) zms)"
  using assms
proof (induction zms arbitrary: pd ws)
  case Nil
  then show ?case using hub_loop_padding [of k pd ws] by (simp add: hub_text_def)
next
  case (Cons zm zms)
  obtain z m where zm: "zm = (z, m)" by fastforce
  let ?rest = "hub_text u zms @ replicate k (CHR ''0'')"
  have m: "plm_message m" using Cons.prems zm by simp
  then have "2 \<le> length (hex_text u m @ ?rest)" by (auto elim: message_parts)
  then obtain pd1 where "hubhtml_loop (replicate (2 * z) (CHR ''0'') @ hex_text u m @ ?rest) pd ws = hubhtml_loop (hex_text u m @ ?rest) pd1 ws"
    using hub_loop_zeros by blast
  moreover obtain pd2 where "hubhtml_loop (hex_text u m @ ?rest) pd1 ws = hubhtml_loop ?rest pd2 (ws @ [padded 30 m])"
    using hub_loop_message [OF m] by blast
  ultimately have "hubhtml_loop (hub_text u (zm # zms) @ replicate k (CHR ''0'')) pd ws = hubhtml_loop ?rest pd2 (ws @ [padded 30 m])"
    by (simp add: hub_text_def zm)
  with Cons.IH [of pd2 "ws @ [padded 30 m]"] Cons.prems zm show ?case by simp
qed

text \<open>A NUL in front, as the text of an older hub leaves one behind: nothing is decoded, but looked at.\<close>

lemma hub_nul_uninit:
  assumes "4 \<le> length buf" and "hd buf = CHR 0x00"
  shows "hub_look_at buf (replicate 32 None) = Inl Uninit"
proof -
  obtain d s where "buf = CHR 0x00 # d # s" using assms by (cases buf rule: hub_bytes.cases) auto
  with assms(1) show ?thesis by (simp add: hub_look_at_def decode_into_def plm_byte_def Let_def)
qed

text \<open>
  C21. The modem's messages arrive whole and in order, on either way: when they lie one behind the
  other in the buffer, each call of the serial line's callback puts the next one on the work queue and
  leaves what follows; a hub's text of the same messages, in hexadecimal digits with zeros between
  them, puts the same entries on the queue in one call.
\<close>

theorem modem_messages_delivered:
  assumes "list_all (plm_message \<circ> snd) zms"
    and "plm_input st = concat (map snd zms) @ rest"
    and "hub_workbuf hst = hub_text up zms @ replicate k (CHR ''0'')" and "workfifo hst = workfifo st"
  defines "st' \<equiv> (plm_readcb ^^ length zms) st"
  shows "workfifo st' = workfifo st @ map (padded 30 \<circ> snd) zms \<and> plm_input st' = rest \<and>
    (\<exists>hst'. hubhtml_readcb hst = Inr hst' \<and> workfifo hst' = workfifo st')"
proof -
  have "st' = st\<lparr>plm_input := rest, workfifo := workfifo st @ map (padded 30) (map snd zms)\<rparr>"
    using readcb_messages [of "map snd zms" st rest] assms(1,2) by (simp add: st'_def list_all_iff)
  moreover obtain n where "hubhtml_loop (hub_workbuf hst) (replicate 32 None) (workfifo hst) =
      Inr (replicate n (CHR ''0''), workfifo st @ map (padded 30 \<circ> snd) zms)"
    using hub_loop_messages [OF assms(1), of up k "replicate 32 None" "workfifo hst"] assms(3,4) by auto
  ultimately show ?thesis by (simp add: hubhtml_readcb_def)
qed

text \<open>The echo of a command and a device's answer to it.\<close>

definition two_messages :: "u8 list list" where
  "two_messages =
     [[0x02, 0x62, 0x11, 0x22, 0x33, 0x0F, 0x11, 0xFF, 0x06],
      [0x02, 0x50, 0x11, 0x22, 0x33, 0x0A, 0x0B, 0x0C, 0x2B, 0x11, 0xFF]]"

theorem modem_messages_delivered_witness:
  "workfifo ((plm_readcb ^^ 2) ((insteon_boot no_conf PLM_TYPE_SERIAL 60)\<lparr>plm_input := concat two_messages @ [0x02]\<rparr>)) =
     map (padded 30) two_messages"
proof -
  let ?st = "(insteon_boot no_conf PLM_TYPE_SERIAL 60)\<lparr>plm_input := concat two_messages @ [0x02]\<rparr>"
  let ?zms = "map (Pair 3) two_messages"
  let ?hst = "?st\<lparr>hub_workbuf := hub_text True ?zms @ replicate 0 (CHR ''0'')\<rparr>"
  have ok: "list_all (plm_message \<circ> snd) ?zms" by code_simp
  have input: "plm_input ?st = concat (map snd ?zms) @ [0x02]" by (simp add: comp_def)
  have same: "length ?zms = 2" "workfifo ?st = []" "map (padded 30 \<circ> snd) ?zms = map (padded 30) two_messages"
    by (simp_all add: two_messages_def insteon_boot_def registry.defs)
  have "workfifo ((plm_readcb ^^ length ?zms) ?st) = workfifo ?st @ map (padded 30 \<circ> snd) ?zms"
    using modem_messages_delivered [OF ok input, of ?hst True 0] by simp
  then show ?thesis unfolding same by simp
qed

section \<open>The collector as a whole\<close>

text \<open>A collector on a serial line that has just started, without devices.\<close>

definition calm_env :: plm_env where
  "calm_env = \<lparr>ce_now = 100, ce_open = True, ie_mono = 1000000000, ie_ack = 0, ie_scan = (\<lambda>_. 0), ie_dbuf = (\<lambda>_. CHR ''0'')\<rparr>"

abbreviation (input) modem_start :: "plm res" where
  "modem_start \<equiv> insteon_main calm_env (Some ''tty'') None 1 (insteon_boot no_conf PLM_TYPE_SERIAL 60)"

definition modem_coll :: plm where
  "modem_coll = (case modem_start of Inr st \<Rightarrow> st | Inl _ \<Rightarrow> insteon_boot no_conf PLM_TYPE_SERIAL 60)"

definition modem_summary ::
    "plm res \<Rightarrow> (dptr list \<times> nat option \<times> nat option list \<times> string option \<times> plm_type \<times> int \<times> cmdq list) option" where
  "modem_summary r =
     (case r of
        Inl _ \<Rightarrow> None
      | Inr st \<Rightarrow> Some (alldevs st, plm_conn st, map (\<lambda>c. oc_bev (oconns st c)) [0, 1], bufs st 0, plmtype st, need_query st,
          cmdfifo st))"

lemma modem_start_summary:
  "modem_summary modem_start = Some ([], Some 0, [Some 0, Some 1], Some [], PLM_TYPE_SERIAL, 0,
     [plm_entry [0x02, 0x60] 1 None, plm_entry [0x02, 0x73] 1 None, plm_pause 5])"
  by code_simp

lemma modem_start_Inr: "modem_start = Inr modem_coll"
  using modem_start_summary by (simp add: modem_coll_def modem_summary_def split: sum.splits)

lemma modem_coll_facts:
  "alldevs modem_coll = []" "plm_conn modem_coll = Some 0" "oc_bev (oconns modem_coll 0) = Some 0"
  "bufs modem_coll 0 = Some []" "plmtype modem_coll = PLM_TYPE_SERIAL" "need_query modem_coll = 0"
  "cmdfifo modem_coll = [plm_entry [0x02, 0x60] 1 None, plm_entry [0x02, 0x73] 1 None, plm_pause 5]"
  using modem_start_summary unfolding modem_start_Inr by (simp_all add: modem_summary_def)

lemma modem_reach: "insteon_reach modem_coll"
  using modem_start_Inr by (rule insteon_reach.start)

text \<open>
  C20. In every state the Insteon collector reaches, whatever the modem, the hub and the server send
  and however the connections fail: each entry of the command queue fills its array and, unless it
  is a pause, has a message; each entry of the work queue is a whole array; and of every device the
  number of links is below the size of their table.
\<close>

theorem modem_invariant:
  assumes "insteon_reach st"
  shows "(\<forall>c \<in> set (cmdfifo st). length (cq_cmd c) = 25 \<and> (hd (cq_cmd c) \<noteq> 0xFF \<longrightarrow> 0 < cq_msglen c)) \<and>
    (\<forall>w \<in> set (workfifo st). length w = 30) \<and>
    (\<forall>p dd. plm_data st p = Some dd \<longrightarrow>
      length (dd_daddr dd) = 3 \<and> length (dd_aldb dd) = ALDB_MAXSIZE \<and> dd_aldblen dd < ALDB_MAXSIZE)"
  using insteon_reach_ok [OF assms]
  by (auto simp: modem_ok_def queue_ok_def list_all_iff entry_ok_def dd_ok_def)

theorem modem_invariant_witness:
  "list_all (\<lambda>c. length (cq_cmd c) = 25) (cmdfifo modem_coll)"
  using modem_invariant [OF modem_reach] by (simp add: list_all_iff)

text \<open>
  C19. In every reachable state the queue runner returns, and does what is specified: after copies of
  the head are dropped, commands that have all their answers or have been sent often enough leave the
  queue; then a pause counts down, a command that is to be sent or whose answer is overdue is sent,
  and any other is waited for. Only a hub that is busy keeps it from doing anything.
\<close>

theorem queue_run_meets_spec:
  assumes "insteon_reach st"
  shows "plm_runq e st =
    Some (if plmtype st = PLM_TYPE_HUBHTTP \<and> hubhtmlstate st \<noteq> HUBHTMLSTATE_IDLE then Inr st
          else runq_spec e (plm_condense_runq st))"
  using insteon_reach_ok [OF assms] runq_returns [of st e] by (auto simp: modem_ok_def plm_runq_def)

theorem queue_run_meets_spec_witness:
  "plm_runq calm_env modem_coll = Some (runq_spec calm_env (plm_condense_runq modem_coll))"
  using queue_run_meets_spec [OF modem_reach, of calm_env] by (simp add: modem_coll_facts)



text \<open>
  No ping of the server is ever answered: the pointer that the answer needs is set in the
  other collectors when they connect, here it stays NULL.
\<close>

theorem pings_unanswered:
  assumes "insteon_reach st"
  shows "coll_ping (insteon_hooks e) e' args st = Inr (0, st)"
  using insteon_reach_ok [OF assms] by (simp add: modem_ok_def coll_ping_def insteon_hooks_def)

theorem pings_unanswered_witness:
  "coll_ping (insteon_hooks calm_env) (cenv.truncate calm_env) [] modem_coll = Inr (0, modem_coll) \<and>
   insteon_is_ok calm_env modem_coll = (ce_now calm_env - plm_lastupd modem_coll < plm_rescan_rate modem_coll * 5)"
  using pings_unanswered [OF modem_reach] by (simp add: insteon_is_ok_def)

section \<open>Commands that are lost\<close>

text \<open>The command that \<^verbatim>\<open>plm_enq_stdcs\<close> makes.\<close>

definition stdcs_cmd :: "devdata \<Rightarrow> u8 \<Rightarrow> u8 \<Rightarrow> u8 \<Rightarrow> string \<Rightarrow> cmdq" where
  "stdcs_cmd dd com1 com2 w uid =
     (let data = padded 14 (if 1 < dd_group dd then [dd_group dd] else [])
      in plm_entry (plm_header dd PLMFLAG_EXT com1 com2 @ data[13 := plm_calc_cs com1 com2 data]) w (Some uid))"

lemma enq_stdcs_cmd:
  assumes "proto_of (d_proto (dmem st p)) = Some PROTO_INSTEON_V2CS" and "plm_data st p = Some dd" and "com1 \<noteq> STDCMD_STATUSREQ"
  shows "plm_enq_std p com1 com2 w st = Inr (plm_enqueue (stdcs_cmd dd com1 com2 w (d_uid (dmem st p))) st)"
  using assms by (simp add: plm_enq_std_def plm_enq_stdcs_def plm_localdata_def stdcs_cmd_def Let_def)

lemma stdcs_cmd_facts:
  assumes "length (dd_daddr dd) = 3"
  shows "entry_ok (stdcs_cmd dd c1 c2 w u)" and "\<not> is_pause (stdcs_cmd dd c1 c2 w u)" and "cq_cmd (stdcs_cmd dd c1 c2 w u) ! 1 = PLM_SEND"
    and "take 8 (cq_cmd (stdcs_cmd dd c1 c2 w u)) = plm_header dd PLMFLAG_EXT c1 c2"
    and "cq_cmd (stdcs_cmd dd c1 c2 w u) ! 8 = (if 1 < dd_group dd then dd_group dd else 0)"
    and "cq_uid (stdcs_cmd dd c1 c2 w u) = Some u"
proof -
  have h: "length (plm_header dd PLMFLAG_EXT c1 c2) = 8" using assms by (simp add: plm_header_def)
  let ?data = "padded 14 (if 1 < dd_group dd then [dd_group dd] else [])"
  have d: "length ?data = 14" by (simp add: padded_length)
  show "entry_ok (stdcs_cmd dd c1 c2 w u)" unfolding stdcs_cmd_def Let_def by (rule entry_made) (simp_all add: h d)
  have cmd: "cq_cmd (stdcs_cmd dd c1 c2 w u) =
      plm_header dd PLMFLAG_EXT c1 c2 @ ?data[13 := plm_calc_cs c1 c2 ?data] @ replicate 3 0"
    by (simp add: stdcs_cmd_def Let_def plm_entry_def padded_def h)
  show "take 8 (cq_cmd (stdcs_cmd dd c1 c2 w u)) = plm_header dd PLMFLAG_EXT c1 c2" by (simp add: cmd h)
  show "\<not> is_pause (stdcs_cmd dd c1 c2 w u)" "cq_cmd (stdcs_cmd dd c1 c2 w u) ! 1 = PLM_SEND"
    by (simp_all add: cmd plm_header_def)
  have "cq_cmd (stdcs_cmd dd c1 c2 w u) ! 8 = ?data[13 := plm_calc_cs c1 c2 ?data] ! 0" using h d by (simp add: cmd nth_append)
  then show "cq_cmd (stdcs_cmd dd c1 c2 w u) ! 8 = (if 1 < dd_group dd then dd_group dd else 0)" by (simp add: padded_def)
  show "cq_uid (stdcs_cmd dd c1 c2 w u) = Some u" by (simp add: stdcs_cmd_def plm_entry_def Let_def)
qed

text \<open>A new command that is alone in the queue, but for one before it that begins alike.\<close>

lemma early_command_dropped:
  assumes "cmdfifo st = [a, b]" and "entry_ok a" and "entry_ok b" and "\<not> is_pause b" and "cq_cmd a ! 1 = PLM_SEND"
    and "take 8 (cq_cmd b) = take 8 (cq_cmd a)" and "cq_cmd a \<noteq> cq_cmd b" and "to_send b" and "cq_sendcount b = 0"
    and on: "modem_on k out st"
  obtains st' where "plm_runq e st = Some (Inr st')" "cmdfifo st' = [sent e b]" "modem_on k (out @ cmd_text b) st'"
proof -
  let ?st = "st\<lparr>cmdfifo := [b]\<rparr>"
  have st: "plm_condense_runq st = ?st"
    using assms by (auto simp: plm_condense_runq_def plm_condense_def)
  have "modem_on k out ?st" using on by (simp add: modem_on_def)
  then obtain st' where st': "transmit e b [] ?st = Inr st'" "cmdfifo st' = [sent e b]" "modem_on k (out @ cmd_text b) st'"
    by (rule transmit_on)
  have "\<not> spent e (plmtype ?st) b" using assms(8,9) by (auto simp: spent_def to_send_def)
  then have "runq_spec e ?st = Inr st'" using assms(4,8) st'(1) by (simp add: runq_spec_def)
  moreover have "queue_ok (cmdfifo st)" using assms(1-3) by (simp add: queue_ok_def)
  ultimately have "plm_runq e st = Some (Inr st')"
    using runq_returns [of st e] on by (simp add: st modem_on_def)
  with st' that show ?thesis by blast
qed

text \<open>
  When the server switches both halves of an outlet (two devices with one address and different
  groups) to the same state, the command for the first half is dropped from the queue unsent: the
  queue runner takes two commands with the same first eight bytes for the same command, and the group
  is the ninth.
\<close>

theorem outlet_command_lost:
  assumes "proto_of (d_proto (dmem st p)) = Some PROTO_INSTEON_V2CS" and "plm_data st p = Some dp"
    and "proto_of (d_proto (dmem st q)) = Some PROTO_INSTEON_V2CS" and "plm_data st q = Some dq"
    and "dd_daddr dp = dd_daddr dq" and "length (dd_daddr dq) = 3" and "dd_hopflag dp = dd_hopflag dq"
    and "dd_group dp \<le> 1" and "1 < dd_group dq" and "cmdfifo st = []" and "modem_on k out st"
  shows "\<exists>st1 st2 st3 c. coll_chg_switch_cb p s st = Inr st1 \<and> coll_chg_switch_cb q s st1 = Inr st2 \<and>
    map cq_uid (cmdfifo st2) = [Some (d_uid (dmem st p)), Some (d_uid (dmem st q))] \<and>
    plm_runq e st2 = Some (Inr st3) \<and> cmdfifo st3 = [c] \<and> cq_uid c = Some (d_uid (dmem st q)) \<and>
    bufs st3 k = Some (out @ cmd_text c)"
proof -
  define c1 c2 where "c1 = (if s = 0 then STDCMD_OFF else STDCMD_ON)" and "c2 = (if s = 0 then 0 else 0xFF :: u8)"
  then have c: "c1 \<noteq> STDCMD_STATUSREQ"
      "\<And>r t. coll_chg_switch_cb r s (t :: 'a plm_scheme) = plm_enq_std r c1 c2 CMDQ_WAITACKDATA t"
    by (simp_all add: coll_chg_switch_cb_def plm_switch_on_def plm_switch_off_def)
  let ?a = "stdcs_cmd dp c1 c2 CMDQ_WAITACKDATA (d_uid (dmem st p))"
  let ?b = "stdcs_cmd dq c1 c2 CMDQ_WAITACKDATA (d_uid (dmem st q))"
  let ?st1 = "plm_enqueue ?a st" and ?st2 = "plm_enqueue ?b (plm_enqueue ?a st)"
  have lens: "length (dd_daddr dp) = 3" using assms(5,6) by simp
  note a = stdcs_cmd_facts [OF lens, of c1 c2 CMDQ_WAITACKDATA "d_uid (dmem st p)"]
  note b = stdcs_cmd_facts [OF assms(6), of c1 c2 CMDQ_WAITACKDATA "d_uid (dmem st q)"]
  have runs: "coll_chg_switch_cb p s st = Inr ?st1" "coll_chg_switch_cb q s ?st1 = Inr ?st2"
    using enq_stdcs_cmd [OF assms(1,2) c(1)] enq_stdcs_cmd [of ?st1 q dq, OF _ _ c(1)] assms(3,4) c(2)
    by (simp_all add: plm_enqueue_def)
  have fifo: "cmdfifo ?st2 = [?a, ?b]" by (simp add: plm_enqueue_def assms(10))
  have "plm_header dp PLMFLAG_EXT c1 c2 = plm_header dq PLMFLAG_EXT c1 c2"
    by (simp add: plm_header_def plm_get_hops_def assms(5,7))
  then have same: "take 8 (cq_cmd ?b) = take 8 (cq_cmd ?a)" using a(4) b(4) by simp
  have "cq_cmd ?a ! 8 \<noteq> cq_cmd ?b ! 8" using a(5) b(5) assms(8,9) by (auto simp: not_less [symmetric])
  then have diff: "cq_cmd ?a \<noteq> cq_cmd ?b" by auto
  have new: "to_send ?b" "cq_sendcount ?b = 0"
    by (simp_all add: stdcs_cmd_def plm_entry_def to_send_def Let_def)
  have "modem_on k out ?st2" using assms(11) by (simp add: modem_on_def plm_enqueue_def)
  then obtain st3 where st3: "plm_runq e ?st2 = Some (Inr st3)" "cmdfifo st3 = [sent e ?b]" "modem_on k (out @ cmd_text ?b) st3"
    by (rule early_command_dropped [OF fifo a(1) b(1,2) a(3) same diff new])
  have "map cq_uid (cmdfifo ?st2) = [Some (d_uid (dmem st p)), Some (d_uid (dmem st q))]" using a(6) b(6) by (simp add: fifo)
  moreover have "cq_uid (sent e ?b) = Some (d_uid (dmem st q))" using b(6) by (simp add: sent_def)
  moreover have "bufs st3 k = Some (out @ cmd_text (sent e ?b))" using st3(3) by (simp add: modem_on_def cmd_text_def)
  ultimately show ?thesis
    using runs st3(1,2) by (intro exI [of _ ?st1] exI [of _ ?st2] exI [of _ st3] exI [of _ "sent e ?b"] conjI)
qed

text \<open>The two halves of one outlet.\<close>

definition half_data :: "dptr \<Rightarrow> devdata" where
  "half_data p = zero_devdata\<lparr>dd_daddr := [0x11, 0x22, 0x33], dd_hopflag := 255, dd_group := (if p = 0 then 0 else 2)\<rparr>"

definition outlet_coll :: plm where
  "outlet_coll = modem_coll\<lparr>cmdfifo := [], plm_data := (\<lambda>p. Some (half_data p)),
     dmem := (\<lambda>p. (new_device (if p = 0 then ''top'' else ''bottom''))\<lparr>d_proto := 3\<rparr>)\<rparr>"

theorem outlet_command_lost_witness:
  "\<exists>st1 st2 st3 c. coll_chg_switch_cb 0 1 outlet_coll = Inr st1 \<and> coll_chg_switch_cb 1 1 st1 = Inr st2 \<and>
    map cq_uid (cmdfifo st2) = [Some ''top'', Some ''bottom''] \<and>
    plm_runq calm_env st2 = Some (Inr st3) \<and> cmdfifo st3 = [c] \<and> cq_uid c = Some ''bottom'' \<and>
    bufs st3 0 = Some (cmd_text c)"
proof -
  have p: "proto_of (d_proto (dmem outlet_coll p)) = Some PROTO_INSTEON_V2CS" for p
    by (simp add: outlet_coll_def proto_of_def enum_at_def protos_def)
  have u: "d_uid (dmem outlet_coll 0) = ''top''" "d_uid (dmem outlet_coll 1) = ''bottom''"
    by (simp_all add: outlet_coll_def new_device_def)
  have d: "plm_data outlet_coll p = Some (half_data p)" for p by (simp add: outlet_coll_def)
  have h: "dd_daddr (half_data 0) = dd_daddr (half_data 1)" "length (dd_daddr (half_data 1)) = 3"
    "dd_hopflag (half_data 0) = dd_hopflag (half_data 1)" "dd_group (half_data 0) \<le> 1" "1 < dd_group (half_data 1)"
    by (simp_all add: half_data_def word_less_nat_alt)
  have q: "cmdfifo outlet_coll = []" and on: "modem_on 0 [] outlet_coll"
    by (simp_all add: outlet_coll_def modem_on_def modem_coll_facts)
  show ?thesis using outlet_command_lost [OF p d p d h q on, of 1 calm_env] unfolding u append_Nil .
qed

section \<open>Checksums, and more of what goes wrong\<close>

lemma word_of_int_sum: "word_of_int (sum_list (map uint bs)) = sum_list (bs :: u8 list)"
  by (induction bs) (simp_all add: wi_hom_add)

lemma calc_cs_neg: "plm_calc_cs c1 c2 data = - (c1 + c2 + sum_list (take 14 data))"
proof -
  have m: "(word_of_int (i mod 256) :: u8) = word_of_int i" for i
    by (simp add: word_of_int_eq_iff take_bit_eq_mod)
  have "(word_of_int (uint c1 + uint c2 + sum_list (map uint (take 14 data))) :: u8) = c1 + c2 + sum_list (take 14 data)"
    by (simp add: wi_hom_syms word_of_int_sum)
  then show ?thesis by (simp add: plm_calc_cs_def m not_eq_complement)
qed

text \<open>The bytes of an i2cs command, from the first command byte to the checksum, add up to zero.\<close>

lemma checksum_cancels:
  assumes "length d = 14" and "d ! 13 = 0"
  shows "c1 + c2 + sum_list (d[13 := plm_calc_cs c1 c2 d]) = 0"
proof -
  obtain d0 where d: "d = d0 @ [0]" "length d0 = 13"
    using assms id_take_nth_drop [of 13 d] that [of "take 13 d"] by simp
  then show ?thesis by (simp add: calc_cs_neg list_update_append)
qed

text \<open>The modem reports a completed link while no command waits: the code reads the head of an empty queue.\<close>

lemma alink_complete_alone:
  assumes "cmdfifo st = []" and "data ! 1 = 0x53"
  shows "handle_command e data st = Inl NullDeref"
  using assms by (simp add: handle_command_def plm_handle_alink_complete_def)

text \<open>The address behind the first record is taken for the first record, since the division rounds towards zero.\<close>

lemma first_record_overwritten: "aldb_recno 0x1000 = 0" "aldb_recno 0x0FFF = 0"
  by (simp_all add: aldb_recno_def signed_divide_int_def)

text \<open>A NAK of the modem takes the first two bytes of the message behind it along.\<close>

lemma nak_takes_more:
  assumes "plm_input st = 0x02 # 0x15 # m"
  shows "plm_readcb st = st\<lparr>plm_input := drop 2 m\<rparr>"
  using assms by (simp add: plm_readcb_def plm_look_at_def)

text \<open>The answer to a request for the configuration leaves the request at the head of the queue, as it was.\<close>

lemma config_answer_not_taken:
  assumes "data ! 1 = 0x73" and "cmdfifo st = c # q"
  shows "\<exists>st' q'. handle_command e data st = Inr st' \<and> cmdfifo st' = c # q'"
  using assms by (simp add: handle_command_def plm_setconf_def plm_enqueue_def)

text \<open>While the collector waits for the server to close, its queue runner still sends to the modem.\<close>

lemma sigterm_then_send:
  assumes "cmdfifo st = [c]" and "fresh_cmd c" and on: "modem_on k out st"
    and "server_bev st = Some j" and "bufs st j \<noteq> None" and "plm_conn st \<noteq> Some (oserver st)"
  shows "\<exists>st'. insteon_cb_sigterm st = Inr st' \<and> plm_runq e st' = Some (Inl UseAfterFree)"
proof -
  obtain n where n: "plm_conn st = Some n" "oc_bev (oconns st n) = Some k" "bufs st k \<noteq> None" "plmtype st \<noteq> PLM_TYPE_HUBHTTP"
    using on by (auto simp: modem_on_def)
  obtain b where b: "bufs st j = Some b" using assms(5) by blast
  let ?st0 = "upd_oconn (oserver st) (\<lambda>x. x\<lparr>oc_shutdown := True\<rparr>) st"
  let ?st1 = "?st0\<lparr>bufs := (bufs ?st0)(j \<mapsto> b @ gn_disconnect)\<rparr>"
  have "server_bev ?st0 = Some j" "bufs ?st0 j = Some b" using assms(4) b by (simp_all add: server_bev_def upd_oconn_def)
  then have "sigterm_server st = Inr ?st1" by (simp add: sigterm_server_def Let_def write_bev_def)
  moreover have "plm_conn ?st1 = Some n" "oc_bev (oconns ?st1 n) = Some k" "bufs ?st1 k \<noteq> None"
    using n assms(6) by (auto simp: upd_oconn_def)
  ultimately obtain st' where st': "insteon_cb_sigterm st = Inr st'" "plm_conn st' = Some n" "oc_bev (oconns st' n) = Some k"
      "bufs st' k = None" "cmdfifo st' = [c]" "plmtype st' \<noteq> PLM_TYPE_HUBHTTP"
    using assms(1) n(4) by (auto simp: insteon_cb_sigterm_def free_bev_def upd_oconn_def split: if_splits)
  have "plm_condense_runq st' = st'" using st'(5) by (cases st') (simp add: plm_condense_runq_def plm_condense_def)
  moreover have "runq_spec e st' = Inl UseAfterFree"
    using fresh_sent(1) [OF assms(2), of e "plmtype st'"] assms(2) st'
    by (simp add: runq_spec_def fresh_cmd_def transmit_def plm_send_cmd_def write_bev_def)
  moreover have "queue_ok (cmdfifo st')" using st'(5) assms(2) by (simp add: queue_ok_def fresh_cmd_def)
  ultimately show ?thesis using runq_returns [of st' e] st'(1,6) by auto
qed

end
