(* ===== verification/Discover.thy ===== *)
theory Discover
  imports Common Gncoll
begin

text \<open>
  \<^verbatim>\<open>common/30303_disc.c\<close>: finding a device that answers on UDP port 30303. Every answer to the
  broadcast is noted in a table; when the time is over the wanted device is looked up by the
  beginning of its hardware address, or by its name.
\<close>

definition MAX_D30303_DEVS :: nat where "MAX_D30303_DEVS = 16"

record disc_resp =
  dr_ipaddr :: "string option"
  dr_hostname :: "string option"
  dr_macaddr :: "string option"

definition no_resp :: disc_resp where
  "no_resp = \<lparr>dr_ipaddr = None, dr_hostname = None, dr_macaddr = None\<rparr>"

text \<open>\<open>disc_ev\<close>: the socket is bound and the event that reads it was made.\<close>

record disc =
  disc_ev :: bool
  disc_count :: nat
  disc_done :: bool
  disc_list :: "disc_resp list"
  dd_hostname :: "string option"
  dd_mac_prefix :: "string option"
  dd_url :: "string option"

definition d30303_setup :: "bool \<Rightarrow> string option \<Rightarrow> string option \<Rightarrow> disc" where
  "d30303_setup bound mac_prefix hostname =
     \<lparr>disc_ev = bound, disc_count = 0, disc_done = False, disc_list = replicate MAX_D30303_DEVS no_resp,
      dd_hostname = hostname, dd_mac_prefix = mac_prefix, dd_url = None\<rparr>"

text \<open>
  An answer: \<open>dgram\<close> is what \<^verbatim>\<open>recvfrom\<close> puts in the buffer of 2048 bytes, \<open>None\<close> when it fails, and
  \<open>from\<close> the address of the sender. The terminator goes behind the bytes received. A text without a
  line break is counted but leaves no entry.
\<close>

definition dgram_entry :: "string \<Rightarrow> string \<Rightarrow> disc_resp option" where
  "dgram_entry from dgram =
     (let buf = c_string dgram
      in if newline \<notin> set buf then None
         else Some \<lparr>dr_ipaddr = Some from,
                    dr_hostname = Some (takeWhile (\<lambda>c. c \<noteq> CHR '' '') (takeWhile (\<lambda>c. c \<noteq> newline) buf)),
                    dr_macaddr = Some (takeWhile (\<lambda>c. c \<noteq> CHR 0x0D) (tl (dropWhile (\<lambda>c. c \<noteq> newline) buf)))\<rparr>)"

definition cb_d30303_read :: "string \<Rightarrow> string option \<Rightarrow> disc \<Rightarrow> disc res" where
  "cb_d30303_read from dgram d =
     (case dgram of
        None \<Rightarrow> Inl OutOfBounds
      | Some t \<Rightarrow>
          if 2048 \<le> length t then Inl OutOfBounds
          else
            let n = disc_count d + 1; d1 = d\<lparr>disc_count := n\<rparr>
            in if MAX_D30303_DEVS \<le> n then Inr d1
               else case dgram_entry from t of
                      None \<Rightarrow> Inr d1
                    | Some r \<Rightarrow> Inr (d1\<lparr>disc_list := (disc_list d1)[n - 1 := r]\<rparr>))"

text \<open>
  The search. \<open>ip\<close> is the variable \<^verbatim>\<open>ip_match\<close>, which is not set when a host name is wanted, until
  an address equals that name; it keeps its value from one entry to the next.
\<close>

definition mac_matches :: "string option \<Rightarrow> disc_resp \<Rightarrow> bool" where
  "mac_matches mp r =
     (case mp of
        None \<Rightarrow> True
      | Some m \<Rightarrow>
          (case dr_macaddr r of
             None \<Rightarrow> False
           | Some a \<Rightarrow> map c_tolower m = take (length m) (map c_tolower a)))"

definition name_matches :: "string option \<Rightarrow> string option \<Rightarrow> bool" where
  "name_matches hn s = (case (hn, s) of (Some h, Some u) \<Rightarrow> strcaseeq h u | _ \<Rightarrow> False)"

definition http_url :: "string option \<Rightarrow> string option res" where
  "http_url s = (case s of None \<Rightarrow> Inl NullDeref | Some t \<Rightarrow> Inr (Some (''http://'' @ t)))"

fun disc_search :: "string option \<Rightarrow> string option \<Rightarrow> bool option \<Rightarrow> disc_resp list \<Rightarrow> string option res" where
  "disc_search hn mp ip [] = Inr None"
| "disc_search hn mp ip (r # rs) =
     (let ip1 = (if hn = None then Some True else ip);
          ip2 = (if name_matches hn (dr_ipaddr r) then Some True else ip1)
      in if name_matches hn (dr_hostname r) \<and> mac_matches mp r then http_url (dr_hostname r)
         else case ip2 of
                None \<Rightarrow> Inl Uninit
              | Some b \<Rightarrow>
                  if b \<and> mac_matches mp r then http_url (dr_ipaddr r)
                  else disc_search hn mp ip2 rs)"

text \<open>
  The end of the discovery: the URL and the host name handed to \<^verbatim>\<open>d30303_found_cb\<close>, or \<open>None\<close> when the
  collector is to stop. The event that reads the socket is deleted, whether there is one or not.
\<close>

definition cb_end_d30303 :: "disc \<Rightarrow> (disc \<times> (string \<times> string option) option) res" where
  "cb_end_d30303 d =
     (if \<not> disc_ev d then Inl NullDeref
      else
        let d1 = d\<lparr>disc_ev := False, disc_done := True\<rparr>
        in if dd_hostname d1 = None \<and> dd_mac_prefix d1 = None \<and> disc_count d1 \<noteq> 1 then Inr (d1, None)
           else
             let d2 = (if dd_hostname d1 = None \<and> dd_mac_prefix d1 = None
                       then d1\<lparr>dd_hostname := dr_hostname (hd (disc_list d1))\<rparr> else d1)
             in bindE (disc_search (dd_hostname d2) (dd_mac_prefix d2) None (disc_list d2)) (\<lambda>u.
                  let d3 = (case u of None \<Rightarrow> d2 | Some _ \<Rightarrow> d2\<lparr>dd_url := u\<rparr>)
                  in case dd_url d3 of
                       None \<Rightarrow> Inr (d3, None)
                     | Some url \<Rightarrow> Inr (d3, Some (url, dd_hostname d3))))"

end
