(* ===== verification/Balboa.thy ===== *)
theory Balboa
  imports Genconn Build Discover
begin

text \<open>
  \<^verbatim>\<open>balboacoll/collector.c\<close>: the collector for the Balboa spa. The spa is found by broadcast, then it
  is asked for its configuration, from which the devices are made; after that it sends its status
  several times a second. Its keys are toggles: a change request is turned into presses.
\<close>

section \<open>State\<close>

record spaconfig =
  pump_array :: "bool list"
  light_array :: "bool list"
  sp_mister :: bool
  aux_array :: "bool list"
  sp_blower :: bool
  sp_tscale :: int
  sp_trange :: int
  sp_circpump :: bool
  done_conf :: bool
  done_panel :: bool
  done_status :: bool

definition no_spaconfig :: spaconfig where
  "no_spaconfig =
     \<lparr>pump_array = replicate 6 False, light_array = replicate 2 False, sp_mister = False,
      aux_array = replicate 2 False, sp_blower = False, sp_tscale = 0, sp_trange = 0, sp_circpump = False,
      done_conf = False, done_panel = False, done_status = False\<rparr>"

text \<open>
  \<open>spa_out\<close> is \<^verbatim>\<open>balboa_conn\<close>: \<open>None\<close> for the null pointer before the spa is found, then the bytes
  written to its connection; \<open>spa_input\<close> are the bytes that have arrived on it. \<open>spa_dumping\<close>: the
  collector was started to write a configuration file.
\<close>

record spa = gencoll +
  spacfg :: spaconfig
  mac_suffix :: "u8 list"
  prev_stat :: "u8 list"
  spa_lastupd :: int
  devices_ready :: bool
  spa_dumping :: bool
  spa_out :: "u8 list option"
  spa_input :: "u8 list"
  spa_disc :: disc

definition spa_write :: "u8 list \<Rightarrow> 'a spa_scheme \<Rightarrow> 'a spa_scheme res" where
  "spa_write bs st =
     (case spa_out st of None \<Rightarrow> Inl NullDeref | Some out \<Rightarrow> Inr (st\<lparr>spa_out := Some (out @ bs)\<rparr>))"

definition upd_cfg :: "(spaconfig \<Rightarrow> spaconfig) \<Rightarrow> 'a spa_scheme \<Rightarrow> 'a spa_scheme" where
  "upd_cfg f st = st\<lparr>spacfg := f (spacfg st)\<rparr>"

section \<open>Messages\<close>

datatype balboa_mtype =
    BMTR_STATUS_UPDATE | BMTR_FILTER_CONFIG | BMTS_CONFIG_REQ | BMTR_CONFIG_RESP | BMTS_FILTER_REQ
  | BMTS_CONTROL_REQ | BMTS_SET_TEMP | BMTS_SET_TIME | BMTS_SET_WIFI | BMTS_PANEL_REQ | BMTS_SET_TSCALE
  | BMTR_PANEL_RESP | BMTR_PANEL_NOCLUE1 | BMTR_PANEL_NOCLUE2

definition mtypes :: "(balboa_mtype \<times> u8 list) list" where
  "mtypes =
     [(BMTR_STATUS_UPDATE, [0xFF, 0xAF, 0x13]), (BMTR_FILTER_CONFIG, [0x0A, 0xBF, 0x23]),
      (BMTS_CONFIG_REQ, [0x0A, 0xBF, 0x04]), (BMTR_CONFIG_RESP, [0x0A, 0xBF, 0x94]),
      (BMTS_FILTER_REQ, [0x0A, 0xBF, 0x22]), (BMTS_CONTROL_REQ, [0x0A, 0xBF, 0x11]),
      (BMTS_SET_TEMP, [0x0A, 0xBF, 0x20]), (BMTS_SET_TIME, [0x0A, 0xBF, 0x21]),
      (BMTS_SET_WIFI, [0x0A, 0xBF, 0x92]), (BMTS_PANEL_REQ, [0x0A, 0xBF, 0x22]),
      (BMTS_SET_TSCALE, [0x0A, 0xBF, 0x27]), (BMTR_PANEL_RESP, [0x0A, 0xBF, 0x2E]),
      (BMTR_PANEL_NOCLUE1, [0x0A, 0xBF, 0x24]), (BMTR_PANEL_NOCLUE2, [0x0A, 0xBF, 0x25])]"

definition mtype_code :: "balboa_mtype \<Rightarrow> u8 list" where
  "mtype_code t = the (map_of mtypes t)"

definition M_START :: u8 where "M_START = 0x7e"
definition M_END :: u8 where "M_END = 0x7e"
definition C_PUMP1 :: u8 where "C_PUMP1 = 0x04"
definition C_LIGHT1 :: u8 where "C_LIGHT1 = 0x11"
definition C_LIGHT2 :: u8 where "C_LIGHT2 = 0x12"
definition C_MISTER :: u8 where "C_MISTER = 0x0e"
definition C_AUX1 :: u8 where "C_AUX1 = 0x16"
definition C_AUX2 :: u8 where "C_AUX2 = 0x17"
definition C_BLOWER :: u8 where "C_BLOWER = 0x0c"
definition C_TEMPRANGE :: u8 where "C_TEMPRANGE = 0x50"
definition C_HEATMODE :: u8 where "C_HEATMODE = 0x51"
definition MAX_PUMPS :: nat where "MAX_PUMPS = 6"

text \<open>
  The checksum: the bits of the message, high bits first, are shifted through a register of eight
  bits; whenever a one falls out the polynomial is subtracted.
\<close>

definition crc_bit :: "u8 \<Rightarrow> bool \<Rightarrow> u8" where
  "crc_bit crc b =
     (let crc1 = push_bit 1 crc OR (if b then 1 else 0) in if bit crc 7 then crc1 XOR 0x07 else crc1)"

definition crc_init :: u8 where "crc_init = 0xb5"

definition crc_byte :: "u8 \<Rightarrow> u8 \<Rightarrow> u8" where
  "crc_byte crc c = foldl (\<lambda>crc i. crc_bit crc (bit c (7 - i))) crc [0..<8]"

definition crc_update :: "u8 \<Rightarrow> u8 list \<Rightarrow> u8" where
  "crc_update crc data = foldl crc_byte crc data"

definition crc_finalize :: "u8 \<Rightarrow> u8" where
  "crc_finalize crc = foldl (\<lambda>crc _. crc_bit crc False) crc [0..<8] XOR 0x02"

definition balboa_calc_cs :: "u8 list \<Rightarrow> u8" where
  "balboa_calc_cs data = crc_finalize (crc_update crc_init data)"

text \<open>The commands, as the arrays that the functions fill in.\<close>

definition control_msg :: "u8 \<Rightarrow> u8 list" where
  "control_msg c =
     (let body = [7] @ mtype_code BMTS_CONTROL_REQ @ [c, 0x00] in [M_START] @ body @ [balboa_calc_cs body, M_END])"

definition settemp_msg :: "u8 \<Rightarrow> u8 list" where
  "settemp_msg val =
     (let body = [6] @ mtype_code BMTS_SET_TEMP @ [val] in [M_START] @ body @ [balboa_calc_cs body, M_END])"

definition panel_msg :: "u8 \<Rightarrow> u8 \<Rightarrow> u8 list" where
  "panel_msg ba bb =
     (let body = [8] @ mtype_code BMTS_PANEL_REQ @ [ba, 0, bb] in [M_START] @ body @ [balboa_calc_cs body, M_END])"

definition config_msg :: "u8 list" where
  "config_msg = [M_START, 5] @ mtype_code BMTS_CONFIG_REQ @ [0x77, M_END]"

definition send_panel_req :: "int \<Rightarrow> int \<Rightarrow> 'a spa_scheme \<Rightarrow> 'a spa_scheme res" where
  "send_panel_req ba bb st = spa_write (panel_msg (word_of_int ba) (word_of_int bb)) st"

definition send_config_req :: "'a spa_scheme \<Rightarrow> 'a spa_scheme res" where
  "send_config_req st = spa_write config_msg st"

section \<open>Change requests\<close>

text \<open>\<^verbatim>\<open>get_data_dev\<close> into a double.\<close>

definition get_double :: "device \<Rightarrow> dataloc \<Rightarrow> dbl res" where
  "get_double dev loc = (case get_width dev of Some W64 \<Rightarrow> Inr (data_loc loc dev) | _ \<Rightarrow> Inl Uninit)"

text \<open>The number of presses that leads from one state to another in a cycle of \<open>n\<close>.\<close>

definition presses :: "nat \<Rightarrow> nat \<Rightarrow> nat \<Rightarrow> nat" where
  "presses n cur state = length (takeWhile (\<lambda>i. state \<noteq> (cur + i) mod n) [0..<n])"

text \<open>
  The control of a location and the number of states of its cycle, in the order in which the
  locations are compared. The temperature range, the heat mode and the others are one press.
\<close>

definition spa_control :: "string \<Rightarrow> (u8 \<times> nat option) option" where
  "spa_control loc =
     (if loc = ''l0'' then Some (C_LIGHT1, None)
      else if loc = ''l1'' then Some (C_LIGHT2, None)
      else case find (\<lambda>i. loc = ''p'' @ fmt_prec 2 (int i)) [0..<MAX_PUMPS] of
             Some i \<Rightarrow> Some (C_PUMP1 + of_nat i, Some 3)
           | None \<Rightarrow>
               if loc = ''hm'' then Some (C_HEATMODE, None)
               else if loc = ''tr'' then Some (C_TEMPRANGE, None)
               else if loc = ''a0'' then Some (C_AUX1, None)
               else if loc = ''a1'' then Some (C_AUX2, None)
               else if loc = ''mi'' then Some (C_MISTER, None)
               else if loc = ''bl'' then Some (C_BLOWER, Some 4)
               else None)"

text \<open>
  Every branch first compares the present value with the wanted one; for the locations behind the
  pumps the loop over the pumps has done so already.
\<close>

definition spa_chg_switch_cb :: "dptr \<Rightarrow> u8 \<Rightarrow> 'a spa_scheme \<Rightarrow> 'a spa_scheme res" where
  "spa_chg_switch_cb p state st =
     (case d_loc (dmem st p) of
        None \<Rightarrow> Inr st
      | Some loc \<Rightarrow>
          bindE (get_byte (dmem st p) DATALOC_DATA) (\<lambda>curval.
            if curval = state then Inr st
            else case spa_control loc of
                   None \<Rightarrow> Inr st
                 | Some (c, None) \<Rightarrow> spa_write (control_msg c) st
                 | Some (c, Some n) \<Rightarrow>
                     foldE (\<lambda>_. spa_write (control_msg c)) [0..<presses n (unat curval) (unat state)] st))"

definition tmin :: "dbl list list" where
  "tmin = [[dbl_of_int 50, dbl_of_int 10], [dbl_of_int 80, dbl_of_int 26]]"

definition tmax :: "dbl list list" where
  "tmax = [[dbl_of_int 80, dbl_of_int 26], [dbl_of_int 104, dbl_of_int 40]]"

definition in_table :: "int \<Rightarrow> int \<Rightarrow> bool" where
  "in_table i j \<longleftrightarrow> 0 \<le> i \<and> i < 2 \<and> 0 \<le> j \<and> j < 2"

text \<open>The conversion to \<^verbatim>\<open>uint8_t\<close> cuts the fraction off and is undefined for a value that does not fit.\<close>

definition dbl_trunc_u8 :: "dbl \<Rightarrow> u8 res" where
  "dbl_trunc_u8 x =
     (let (n, d) = dbl_ratio x; m = n div d
      in if dbl_exp x = 2047 \<or> 256 \<le> m \<or> (dbl_neg x \<and> 0 < m) then Inl IntOverflow else Inr (of_nat m))"

definition spa_chg_temp_cb :: "dbl \<Rightarrow> 'a spa_scheme \<Rightarrow> 'a spa_scheme res" where
  "spa_chg_temp_cb temp st =
     (let i = sp_trange (spacfg st); j = sp_tscale (spacfg st)
      in if \<not> in_table i j then Inl OutOfBounds
         else if dbl_lt temp (tmin ! nat i ! nat j) \<or> dbl_lt (tmax ! nat i ! nat j) temp then Inr st
         else bindE (dbl_trunc_u8 temp) (\<lambda>val. spa_write (settemp_msg (if j = 1 then val * 2 else val)) st))"

definition spa_chg_cb :: "dptr \<Rightarrow> 'a spa_scheme \<Rightarrow> 'a spa_scheme res" where
  "spa_chg_cb p st =
     (case subtype_of (d_subtype (dmem st p)) of
        Some SUBTYPE_TRISTATE \<Rightarrow> bindE (get_byte (dmem st p) DATALOC_CHANGE) (\<lambda>s. spa_chg_switch_cb p s st)
      | Some SUBTYPE_SWITCH \<Rightarrow> bindE (get_byte (dmem st p) DATALOC_CHANGE) (\<lambda>s. spa_chg_switch_cb p s st)
      | Some SUBTYPE_TEMP \<Rightarrow> bindE (get_double (dmem st p) DATALOC_CHANGE) (\<lambda>d. spa_chg_temp_cb d st)
      | _ \<Rightarrow> Inr st)"

text \<open>When nothing has been heard for a while the spa is asked for its configuration.\<close>

definition spa_is_ok :: "cenv \<Rightarrow> 'a spa_scheme \<Rightarrow> (bool \<times> 'a spa_scheme) res" where
  "spa_is_ok e st =
     (if ce_now e - spa_lastupd st < 15 then Inr (True, st)
      else bindE (send_config_req st) (\<lambda>st1. Inr (False, st1)))"

definition spa_hooks :: "cenv \<Rightarrow> 'a spa_scheme hooks" where
  "spa_hooks e = weak_stubs\<lparr>collector_is_ok := spa_is_ok e, coll_chg_cb := spa_chg_cb\<rparr>"

definition spa_ghooks :: "cenv \<Rightarrow> 'a spa_scheme ghooks" where
  "spa_ghooks e = hooks.extend (spa_hooks e) \<lparr>genconn_connect_cb = (\<lambda>_ _ st. Inr st)\<rparr>"

section \<open>Devices\<close>

definition spa_uid :: "'a spa_scheme \<Rightarrow> string \<Rightarrow> string" where
  "spa_uid st s = hex_text True (mac_suffix st) @ s"

definition spa_device ::
    "strarr \<Rightarrow> string \<Rightarrow> string \<Rightarrow> proto \<Rightarrow> dev_type \<Rightarrow> subtype \<Rightarrow> string option \<Rightarrow> u8 \<Rightarrow> 'a spa_scheme \<Rightarrow> 'a spa_scheme res" where
  "spa_device tags suffix name proto type subtype loc scale st =
     generic_build_device (spa_dumping st)
       \<lparr>b_uid = spa_uid st suffix, b_name = Some name, b_rrdname = None, b_proto = proto, b_type = type,
        b_subtype = subtype, b_loc = loc, b_tscale = scale, b_tags = tags, b_nroftags = 6\<rparr> (gnhastd_out st) st"

definition spa_tags :: "string list" where
  "spa_tags = [''device_source'', ''spa'', ''device_manufacturer'', ''balboa'', ''device_model'', ''unset'']"

definition numbered :: "bool list \<Rightarrow> nat list" where
  "numbered bs = filter (\<lambda>i. bs ! i) [0..<length bs]"

definition spa_switches :: "strarr \<Rightarrow> 'a spa_scheme \<Rightarrow> 'a spa_scheme res" where
  "spa_switches tags st =
     bindE (foldE (\<lambda>i. spa_device tags (''-pump'' @ fmt_prec 2 (int i)) (''Spa Pump #'' @ fmt_prec 2 (int i))
              PROTO_POOL DEVICE_SWITCH SUBTYPE_TRISTATE (Some (''p'' @ fmt_prec 2 (int i))) 0)
            (numbered (pump_array (spacfg st))) st) (\<lambda>st1.
     bindE (if sp_circpump (spacfg st1)
            then spa_device tags ''-circpump'' ''Spa Circulation Pump'' PROTO_POOL DEVICE_SWITCH SUBTYPE_SWITCH None 0 st1
            else Inr st1) (\<lambda>st2.
     bindE (foldE (\<lambda>i. spa_device tags (''-light'' @ fmt_prec 2 (int i)) (''Spa Light #'' @ fmt_prec 2 (int i))
              PROTO_LIGHT DEVICE_SWITCH SUBTYPE_SWITCH (Some (''l'' @ int_dec (int i))) 0)
            (numbered (light_array (spacfg st2))) st2) (\<lambda>st3.
     bindE (foldE (\<lambda>i. spa_device tags (''-aux'' @ fmt_prec 2 (int i)) (''Spa Aux #'' @ fmt_prec 2 (int i))
              PROTO_POOL DEVICE_SWITCH SUBTYPE_SWITCH (Some (''a'' @ int_dec (int i))) 0)
            (numbered (aux_array (spacfg st3))) st3) (\<lambda>st4.
       if sp_mister (spacfg st4)
       then spa_device tags ''-mister'' ''Spa Mister'' PROTO_POOL DEVICE_SWITCH SUBTYPE_SWITCH (Some ''mi'') 0 st4
       else Inr st4))))"

text \<open>The scale of the temperatures is the one of the device, which may come from the configuration.\<close>

definition spa_sensors :: "strarr \<Rightarrow> 'a spa_scheme \<Rightarrow> 'a spa_scheme res" where
  "spa_sensors tags st =
     bindE (spa_device tags ''-curtemp'' ''Spa Curent Temp'' PROTO_POOL DEVICE_SENSOR SUBTYPE_TEMP None
              (word_of_int (sp_tscale (spacfg st))) st) (\<lambda>st1.
     let st2 = (case find_device_byuid st1 (spa_uid st1 ''-curtemp'') of
                  None \<Rightarrow> st1
                | Some p \<Rightarrow> upd_cfg (\<lambda>c. c\<lparr>sp_tscale := int (unat (d_scale (dmem st1 p)))\<rparr>) st1)
     in bindE (spa_device tags ''-settemp'' ''Spa Set Temp'' PROTO_SETTINGS DEVICE_SENSOR SUBTYPE_TEMP (Some ''st'')
                 (word_of_int (sp_tscale (spacfg st2))) st2) (\<lambda>st3.
        bindE (spa_device tags ''-heatmode'' ''Spa Heating Mode'' PROTO_SETTINGS DEVICE_SENSOR SUBTYPE_TRISTATE
                 (Some ''hm'') 0 st3) (\<lambda>st4.
        bindE (spa_device tags ''-heatstate'' ''Spa Heating State'' PROTO_POOL DEVICE_SENSOR SUBTYPE_TRISTATE
                 None 0 st4)
          (spa_device tags ''-temprange'' ''Spa Temperature Range'' PROTO_POOL DEVICE_SENSOR SUBTYPE_SWITCH
             (Some ''tr'') 0))))"

definition init_balboa_devs :: "cenv \<Rightarrow> 'a spa_scheme \<Rightarrow> 'a spa_scheme res" where
  "init_balboa_devs e st =
     (if mac_suffix st = [0, 0, 0] then Inr st
      else if \<not> done_conf (spacfg st) \<or> \<not> done_panel (spacfg st) \<or> \<not> done_status (spacfg st) then Inr st
      else
        bindE (build_tags 6 spa_tags) (\<lambda>tags.
        bindE (spa_switches tags st) (\<lambda>st1.
        bindE (spa_sensors tags st1) (\<lambda>st2.
          if spa_dumping st2
          then bindE (dump_conf st2 0 (ce_open e) (coll_conf st2)) (\<lambda>_. Inl CleanExit)
          else Inr (st2\<lparr>devices_ready := True, prev_stat := replicate 23 0\<rparr>)))))"

section \<open>The answers of the spa\<close>

text \<open>An access behind the end of the message.\<close>

definition within :: "nat \<Rightarrow> u8 list \<Rightarrow> 'b res \<Rightarrow> 'b res" where
  "within n data r = (if length data < n then Inl OutOfBounds else r)"

definition parse_config_resp :: "cenv \<Rightarrow> u8 list \<Rightarrow> 'a spa_scheme \<Rightarrow> 'a spa_scheme res" where
  "parse_config_resp e data st =
     bindE (if mac_suffix st = [0, 0, 0]
            then within 14 data (Inr (st\<lparr>mac_suffix := [data ! 11, data ! 12, data ! 13]\<rparr>))
            else Inr st) (\<lambda>st1.
       let st2 = st1\<lparr>spa_lastupd := ce_now e\<rparr>
       in if devices_ready st2 then Inr st2
          else init_balboa_devs e (upd_cfg (\<lambda>c. c\<lparr>done_conf := True\<rparr>) st2))"

definition set_if :: "bool \<Rightarrow> nat \<Rightarrow> bool list \<Rightarrow> bool list" where
  "set_if b i xs = (if b then xs[i := True] else xs)"

text \<open>The second auxiliary device is stored at index 2 of an array of two.\<close>

definition panel_config :: "u8 list \<Rightarrow> spaconfig \<Rightarrow> spaconfig res" where
  "panel_config data c =
     (let has = (\<lambda>i m. data ! i AND m \<noteq> 0);
          c1 = c\<lparr>pump_array := set_if (has 6 0xc0) 5 (set_if (has 6 0x03) 4 (set_if (has 5 0xc0) 3
                   (set_if (has 5 0x30) 2 (set_if (has 5 0x0c) 1 (set_if (has 5 0x03) 0 (pump_array c)))))),
                 light_array := set_if (has 7 0xc0) 1 (set_if (has 7 0x03) 0 (light_array c)),
                 sp_blower := sp_blower c \<or> has 8 0x03, sp_circpump := sp_circpump c \<or> has 8 0x80,
                 aux_array := set_if (has 9 0x01) 1 (aux_array c)\<rparr>
      in if has 9 0x02 then Inl OutOfBounds
         else Inr (c1\<lparr>sp_mister := sp_mister c \<or> has 9 0x30, done_panel := True\<rparr>))"

definition parse_panel_config_resp :: "cenv \<Rightarrow> u8 list \<Rightarrow> 'a spa_scheme \<Rightarrow> 'a spa_scheme res" where
  "parse_panel_config_resp e data st =
     (let st1 = st\<lparr>spa_lastupd := ce_now e\<rparr>
      in if devices_ready st1 then Inr st1
         else within 10 data (bindE (panel_config data (spacfg st1)) (\<lambda>c. init_balboa_devs e (st1\<lparr>spacfg := c\<rparr>))))"

text \<open>
  One value of the status: it is stored in its device and sent to the server. \<open>full\<close>: the scale of
  the temperatures has changed; all of the device is sent then, its \<^verbatim>\<open>rrdname\<close> with it, which may be dangling.
  The result says whether the device is there.
\<close>

definition spa_reading :: "bool \<Rightarrow> string \<Rightarrow> u64 \<Rightarrow> 'a spa_scheme \<Rightarrow> (bool \<times> 'a spa_scheme) res" where
  "spa_reading full suffix v st =
     (case find_device_byuid st (spa_uid st suffix) of
        None \<Rightarrow> Inr (False, st)
      | Some p \<Rightarrow>
          let st1 = upd_dev p (\<lambda>d. store_data_dev d DATALOC_DATA v) st;
              st2 = (if full then upd_dev p (\<lambda>d. d\<lparr>d_scale := word_of_int (sp_tscale (spacfg st1))\<rparr>) st1 else st1)
          in bindE (gn_update_device (dmem st2 p) (if full then GNC_UPD_FULL else 0)) (\<lambda>m.
             if full \<and> m \<noteq> [] \<and> rrd_freed st2 p then Inl UseAfterFree else
             bindE (send_msg (gnhastd_out st2) m st2) (\<lambda>st3. Inr (True, st3))))"

fun spa_readings :: "bool \<Rightarrow> (string \<times> u64) list \<Rightarrow> 'a spa_scheme \<Rightarrow> (bool \<times> 'a spa_scheme) res" where
  "spa_readings full [] st = Inr (True, st)"
| "spa_readings full ((suffix, v) # rs) st =
     bindE (spa_reading full suffix v st) (\<lambda>(found, st1). if found then spa_readings full rs st1 else Inr (False, st1))"

definition spa_temp :: "int \<Rightarrow> u8 \<Rightarrow> dbl" where
  "spa_temp tscale x =
     (let d = dbl_of_int (int (unat x)) in if tscale \<noteq> 0 then dbl_div d (dbl_of_int 2) else d)"

definition heat_mode :: "u8 \<Rightarrow> u8" where
  "heat_mode x = (if x AND 0x03 = 3 then 2 else x AND 0x03)"

text \<open>The shift is by the number of the pump, though a pump has two bits.\<close>

definition pump_state :: "u8 list \<Rightarrow> nat \<Rightarrow> u8" where
  "pump_state data i =
     (if i < 4 then drop_bit i (data ! 16) AND 0x03 else drop_bit (i - 4) (data ! 17) AND 0x03)"

definition switch_readings :: "spaconfig \<Rightarrow> u8 list \<Rightarrow> (string \<times> u8) list" where
  "switch_readings c data =
     map (\<lambda>i. (''-pump'' @ fmt_prec 2 (int i), pump_state data i)) (numbered (pump_array c)) @
     (if sp_circpump c then [(''-circpump'', if data ! 18 = 0x02 then 1 else 0)] else []) @
     map (\<lambda>i. (''-light'' @ fmt_prec 2 (int i), if drop_bit i (data ! 19) AND 0x03 \<noteq> 0 then 1 else 0))
       (numbered (light_array c)) @
     (if sp_mister c then [(''-mister'', data ! 20 AND 0x01)] else []) @
     map (\<lambda>i. (''-aux'' @ fmt_prec 2 (int i), if i = 0 then data ! 20 AND 0x08 else data ! 20 AND 0x10))
       (numbered (aux_array c))"

definition as_word :: "string \<times> u8 \<Rightarrow> string \<times> u64" where
  "as_word r = (fst r, ucast (snd r))"

text \<open>
  A status update once the devices are there. The scale is corrected, then the values are passed on
  in their order, until a device is not found; only after the last one is the status remembered.
\<close>

definition status_values :: "u8 list \<Rightarrow> 'a spa_scheme \<Rightarrow> (int \<times> 'a spa_scheme) res" where
  "status_values data st =
     (let tscale = (if bit (data ! 14) 0 then 1 else 0);
          upd = (tscale \<noteq> sp_tscale (spacfg st));
          st1 = upd_cfg (\<lambda>c. c\<lparr>sp_tscale := tscale\<rparr>) st;
          trange = drop_bit 2 (data ! 15 AND 0x04)
      in bindE (spa_readings upd [(''-curtemp'', spa_temp tscale (data ! 7)), (''-settemp'', spa_temp tscale (data ! 25))]
                  st1) (\<lambda>(ok, st2).
         if \<not> ok then Inr (1, st2)
         else
           bindE (spa_readings False (map as_word [(''-heatmode'', heat_mode (data ! 10)),
                    (''-heatstate'', drop_bit 4 (data ! 15 AND 0x30))]) st2) (\<lambda>(ok, st3).
           if \<not> ok \<or> find_device_byuid st3 (spa_uid st3 ''-temprange'') = None then Inr (1, st3)
           else
             bindE (spa_readings False (map as_word ((''-temprange'', trange) # switch_readings (spacfg st3) data))
                      (upd_cfg (\<lambda>c. c\<lparr>sp_trange := int (unat trange)\<rparr>) st3)) (\<lambda>(ok, st4).
               if ok then Inr (0, st4\<lparr>prev_stat := take 23 (drop 6 data)\<rparr>) else Inr (1, st4)))))"

definition parse_status_update :: "cenv \<Rightarrow> u8 list \<Rightarrow> 'a spa_scheme \<Rightarrow> (int \<times> 'a spa_scheme) res" where
  "parse_status_update e data st =
     (if \<not> devices_ready st
      then within 16 data
             (bindE (init_balboa_devs e (upd_cfg (\<lambda>c. c\<lparr>sp_tscale := (if bit (data ! 14) 0 then 1 else 0),
                 sp_trange := int (unat (drop_bit 2 (data ! 15 AND 0x04))), done_status := True\<rparr>) st))
                (\<lambda>st1. Inr (1, st1)))
      else
        let st1 = st\<lparr>spa_lastupd := ce_now e\<rparr>
        in within 29 data
             (if prev_stat st1 = take 23 (drop 6 data) then Inr (0, st1) else status_values data st1))"

section \<open>Reading\<close>

definition find_balboa_mtype :: "u8 list \<Rightarrow> balboa_mtype option" where
  "find_balboa_mtype data = map_option fst (find (\<lambda>(t, m). take 3 (drop 2 data) = m) mtypes)"

text \<open>
  \<^verbatim>\<open>evbuffer_remove\<close> into cleared memory of the length the message says: what has not arrived yet is
  zero. The result of handling it is the variable \<^verbatim>\<open>j\<close>, set by a status update only.
\<close>

definition handle_balboa_msg :: "cenv \<Rightarrow> u8 list \<Rightarrow> 'a spa_scheme \<Rightarrow> (int option \<times> 'a spa_scheme) res" where
  "handle_balboa_msg e data st =
     (case find_balboa_mtype data of
        Some BMTR_CONFIG_RESP \<Rightarrow> bindE (parse_config_resp e data st) (\<lambda>st1. Inr (None, st1))
      | Some BMTR_STATUS_UPDATE \<Rightarrow> bindE (parse_status_update e data st) (\<lambda>(j, st1). Inr (Some j, st1))
      | Some BMTR_PANEL_RESP \<Rightarrow> bindE (parse_panel_config_resp e data st) (\<lambda>st1. Inr (None, st1))
      | _ \<Rightarrow> Inr (None, st))"

definition balboa_take :: "u8 list \<Rightarrow> u8 list \<times> u8 list" where
  "balboa_take buf =
     (let rlen = unat (buf ! 1) + 2; data = take rlen buf
      in (data @ replicate (rlen - length data) 0, drop rlen buf))"

text \<open>Status updates keep coming without any use: the configuration is asked for again.\<close>

definition ask_again :: "cenv \<Rightarrow> int option \<Rightarrow> 'a spa_scheme \<Rightarrow> 'a spa_scheme res" where
  "ask_again e j st =
     (if 5 < ce_now e - spa_lastupd st
      then (case j of None \<Rightarrow> Inl Uninit | Some n \<Rightarrow> if n \<noteq> 0 then send_config_req st else Inr st)
      else Inr st)"

definition balboa_message :: "cenv \<Rightarrow> u8 list \<Rightarrow> 'a spa_scheme \<Rightarrow> 'a spa_scheme res" where
  "balboa_message e data st =
     (let rlen = length data
      in within 3 data
           (if balboa_calc_cs (take (rlen - 3) (drop 1 data)) \<noteq> data ! (rlen - 2) then Inr st
            else within 5 data
                   (if find_balboa_mtype data = None then Inr st
                    else bindE (handle_balboa_msg e data st) (\<lambda>(j, st1). ask_again e j st1))))"

definition balboa_buf_read_cb :: "cenv \<Rightarrow> 'a spa_scheme \<Rightarrow> 'a spa_scheme res" where
  "balboa_buf_read_cb e st =
     (let buf = spa_input st
      in if length buf < 2 \<or> buf ! 0 \<noteq> M_START then Inr st
         else let (data, rest) = balboa_take buf in balboa_message e data (st\<lparr>spa_input := rest\<rparr>))"

section \<open>Connections and start-up\<close>

text \<open>\<^verbatim>\<open>connect_server_cb\<close> for the connection to the spa: a new buffer in both directions.\<close>

definition spa_connect_cb :: "'a spa_scheme \<Rightarrow> 'a spa_scheme" where
  "spa_connect_cb st = st\<lparr>spa_out := Some [], spa_input := []\<rparr>"

definition d30303_found_cb :: "string \<Rightarrow> string option \<Rightarrow> 'a spa_scheme \<Rightarrow> 'a spa_scheme" where
  "d30303_found_cb url hostname st = spa_connect_cb st"

definition balboa_connect_event_cb :: "conn_event \<Rightarrow> 'a spa_scheme \<Rightarrow> 'a spa_scheme res" where
  "balboa_connect_event_cb what st =
     (case what of
        Ev_connected \<Rightarrow> bindE (send_config_req st) (send_panel_req 0 1)
      | Ev_lost dnserr \<Rightarrow> if dnserr then Inl FatalExit else Inr (spa_connect_cb st)
      | Ev_other \<Rightarrow> Inr st)"

definition spa_scan_end :: "'a spa_scheme \<Rightarrow> 'a spa_scheme res" where
  "spa_scan_end st =
     bindE (cb_end_d30303 (spa_disc st)) (\<lambda>(d, found).
       let st1 = st\<lparr>spa_disc := d\<rparr>
       in case found of
            None \<Rightarrow> Inr (generic_cb_shutdown st1)
          | Some (url, hn) \<Rightarrow> Inr (d30303_found_cb url hn st1))"

text \<open>
  The state when \<^verbatim>\<open>main\<close> has read the configuration \<open>cf\<close>; \<open>bound\<close>: the socket for the answers
  could be bound. The device table is set up before the configuration is read, and stays empty.
\<close>

definition spa_start :: "conf \<Rightarrow> bool \<Rightarrow> bool \<Rightarrow> spa" where
  "spa_start cf dumping bound = registry.extend empty_registry
     \<lparr>bufs = (\<lambda>_. None), bufnext = 0, gnhastd_bev = None, coll_alarms = [],
      coll_conf = cf, coll_conf_file = None, min_proto_version = 0x11, rrd_freed = (\<lambda>_. False),
      conns = (\<lambda>_. \<lparr>cn_bev = None, cn_connected = False, cn_shutdown = False, cn_kind = ''gnhastd'', cn_cname = Some ''balboacoll''\<rparr>),
      gnhastd_conn = 0, need_rereg = False, collector_instance = 1, retry_timers = [], health_timers = [],
      stop_timers = 0, loop_exit = False,
      spacfg = no_spaconfig, mac_suffix = [0, 0, 0], prev_stat = replicate 23 0, spa_lastupd = 0,
      devices_ready = False, spa_dumping = dumping, spa_out = None, spa_input = [],
      spa_disc = d30303_setup bound (Some ''00-15-27'') None\<rparr>"

definition balboa_main :: "conf \<Rightarrow> int \<Rightarrow> bool \<Rightarrow> bool \<Rightarrow> spa res" where
  "balboa_main cf inst dumping bound =
     bindE (generic_connect_server_cb 0 (spa_start cf dumping bound)) (\<lambda>st1.
     let st2 = st1\<lparr>collector_instance := inst\<rparr>
     in bindE (write_bev (gnhastd_out st2) (gn_client_name (Some ''balboacoll'') inst) st2)
          (write_bev (gnhastd_out st2) gn_get_apiv))"

datatype spa_event =
    Ev_server gevent
  | Ev_answer string "string option"
  | Ev_scan_end
  | Ev_spa_conn conn_event
  | Ev_spa_data "u8 list"
  | Ev_keepalive

fun spa_enabled :: "spa_event \<Rightarrow> 'a spa_scheme \<Rightarrow> bool" where
  "spa_enabled (Ev_server g) st = gen_enabled g st"
| "spa_enabled (Ev_answer from dgram) st = disc_ev (spa_disc st)"
| "spa_enabled Ev_scan_end st = (\<not> disc_done (spa_disc st))"
| "spa_enabled (Ev_spa_conn w) st = (spa_out st \<noteq> None)"
| "spa_enabled (Ev_spa_data bs) st = (spa_out st \<noteq> None)"
| "spa_enabled Ev_keepalive st = True"

fun spa_handle :: "cenv \<Rightarrow> spa_event \<Rightarrow> 'a spa_scheme \<Rightarrow> 'a spa_scheme res" where
  "spa_handle e (Ev_server g) st = gen_handle (spa_ghooks e) e g st"
| "spa_handle e (Ev_answer from dgram) st =
     bindE (cb_d30303_read from dgram (spa_disc st)) (\<lambda>d. Inr (st\<lparr>spa_disc := d\<rparr>))"
| "spa_handle e Ev_scan_end st = spa_scan_end st"
| "spa_handle e (Ev_spa_conn w) st = balboa_connect_event_cb w st"
| "spa_handle e (Ev_spa_data bs) st = balboa_buf_read_cb e (st\<lparr>spa_input := spa_input st @ bs\<rparr>)"
| "spa_handle e Ev_keepalive st = send_config_req st"

end
