(* ===== verification/Spaframe.thy ===== *)
theory Spaframe
  imports Balboa
begin

text \<open>
  The frames of the Balboa spa: the checksum as a linear map on bit strings and the errors it
  detects, the commands as frames that pass the reader's own test, and what the reader does with
  frames that are damaged or come in pieces.
\<close>

section \<open>The checksum on bits\<close>

definition byte_bits :: "u8 \<Rightarrow> bool list" where
  "byte_bits c = map (\<lambda>i. bit c (7 - i)) [0..<8]"

definition msg_bits :: "u8 list \<Rightarrow> bool list" where
  "msg_bits bs = concat (map byte_bits bs)"

definition crc_bits :: "u8 \<Rightarrow> bool list \<Rightarrow> u8" where
  "crc_bits crc bs = foldl crc_bit crc bs"

lemma crc_bits_simps [simp]:
  "crc_bits c [] = c" "crc_bits c (b # bs) = crc_bits (crc_bit c b) bs"
  "crc_bits c (xs @ ys) = crc_bits (crc_bits c xs) ys"
  by (simp_all add: crc_bits_def)

lemma length_byte_bits [simp]: "length (byte_bits c) = 8"
  by (simp add: byte_bits_def)

lemma length_msg_bits [simp]: "length (msg_bits bs) = 8 * length bs"
  by (induction bs) (simp_all add: msg_bits_def)

lemma msg_bits_simps [simp]:
  "msg_bits [] = []" "msg_bits (b # bs) = byte_bits b @ msg_bits bs" "msg_bits (xs @ ys) = msg_bits xs @ msg_bits ys"
  by (simp_all add: msg_bits_def)

lemma crc_byte_bits: "crc_byte c b = crc_bits c (byte_bits b)"
  by (simp add: crc_byte_def crc_bits_def byte_bits_def foldl_map)

lemma crc_update_bits: "crc_update c bs = crc_bits c (msg_bits bs)"
  by (induction bs arbitrary: c) (simp_all add: crc_update_def crc_byte_bits)

lemma foldl_const: "foldl (\<lambda>c _. f c) c xs = foldl (\<lambda>c _. f c) c (replicate (length xs) ())"
  by (induction xs arbitrary: c) simp_all

lemma crc_finalize_bits: "crc_finalize c = crc_bits c (replicate 8 False) XOR 2"
proof -
  have "foldl (\<lambda>c _. crc_bit c False) c xs = crc_bits c (replicate (length xs) False)" for xs :: "nat list" and c
    by (induction xs arbitrary: c) simp_all
  from this [of c "[0..<8]"] show ?thesis by (simp add: crc_finalize_def)
qed

lemma bit_seven: "bit (7 :: u8) i \<longleftrightarrow> i < 3"
proof -
  have "(7 :: u8) = mask 3" by (simp add: mask_eq_exp_minus_1)
  then show ?thesis by (simp only: bit_mask_iff) auto
qed

lemma bit_crc_bit:
  "bit (crc_bit c b) i \<longleftrightarrow> i < 8 \<and> ((if i = 0 then b else bit c (i - 1)) \<noteq> (bit c 7 \<and> i < 3))"
proof -
  have "bit (c * 2) i \<longleftrightarrow> i < 8 \<and> 0 < i \<and> bit c (i - 1)"
    using bit_double_iff [of c i] by (auto simp: mult.commute [of c 2])
  then show ?thesis
    using bit_seven [of i]
    by (cases "i = 0") (simp_all add: crc_bit_def Let_def bit_xor_iff bit_or_iff bit_1_iff, blast+)
qed

lemma crc_bit_linear: "crc_bit (c XOR d) (a \<noteq> b) = crc_bit c a XOR crc_bit d b"
  by (rule bit_word_eqI) (simp add: bit_crc_bit bit_xor_iff, blast)

lemma crc_bit_zero [simp]: "crc_bit 0 False = 0"
  by (simp add: crc_bit_def)

lemma crc_bits_linear:
  "length xs = length ys \<Longrightarrow> crc_bits (c XOR d) (map2 (\<noteq>) xs ys) = crc_bits c xs XOR crc_bits d ys"
  by (induction xs ys arbitrary: c d rule: list_induct2) (simp_all add: crc_bit_linear [simplified])

lemma crc_bit_cancel:
  assumes "crc_bit c False = 0"
  shows "c = 0"
proof -
  have b: "\<not> bit (crc_bit c False) i" for i using assms by simp
  have 7: "\<not> bit c 7" using b [of 0] by (simp add: bit_crc_bit)
  show ?thesis
  proof (rule bit_word_eqI)
    fix i assume "i < LENGTH(8)"
    then have "i = 7 \<or> Suc i < 8" by auto
    then show "bit c i = bit (0 :: u8) i" using 7 b [of "Suc i"] by (auto simp: bit_crc_bit)
  qed
qed

lemma crc_bits_zeros: "crc_bits 0 (replicate n False) = 0"
  by (induction n) simp_all

lemma crc_bits_cancel: "crc_bits c (replicate n False) = 0 \<Longrightarrow> c = 0"
  by (induction n arbitrary: c) (auto dest: crc_bit_cancel)

text \<open>Up to eight bits just fill the empty register.\<close>

lemma crc_bits_short:
  "length w \<le> 8 \<Longrightarrow> bit (crc_bits 0 w) i \<longleftrightarrow> i < length w \<and> w ! (length w - 1 - i)"
proof (induction w arbitrary: i rule: rev_induct)
  case (snoc b w)
  have "\<not> bit (crc_bits 0 w) 7" using snoc by simp
  then have "bit (crc_bits 0 (w @ [b])) i \<longleftrightarrow> i < 8 \<and> (if i = 0 then b else bit (crc_bits 0 w) (i - 1))"
    by (simp add: bit_crc_bit)
  then have step: "bit (crc_bits 0 (w @ [b])) i \<longleftrightarrow>
      i < 8 \<and> (if i = 0 then b else i - 1 < length w \<and> w ! (length w - 1 - (i - 1)))"
    using snoc by simp
  have "i < 8 \<longleftrightarrow> True" if "i < length (w @ [b])" using that snoc.prems by simp
  then show ?case unfolding step by (cases i) (auto simp: nth_append)
qed simp

lemma crc_bits_short_zero: "length w \<le> 8 \<Longrightarrow> crc_bits 0 w = 0 \<longleftrightarrow> (\<forall>b \<in> set w. \<not> b)"
proof
  assume w: "length w \<le> 8" "crc_bits 0 w = 0"
  have "\<not> w ! j" if "j < length w" for j
    using crc_bits_short [OF w(1), of "length w - 1 - j"] w(2) that by simp
  then show "\<forall>b \<in> set w. \<not> b" by (auto simp: in_set_conv_nth)
next
  assume "length w \<le> 8" "\<forall>b \<in> set w. \<not> b"
  then have "w = replicate (length w) False" by (auto intro: replicate_eqI)
  then show "crc_bits 0 w = 0" by (metis crc_bits_zeros)
qed

text \<open>Bit strings that differ, but only within eight consecutive places.\<close>

definition burst :: "nat \<Rightarrow> bool list \<Rightarrow> bool list \<Rightarrow> bool" where
  "burst k xs ys \<longleftrightarrow> length xs = length ys \<and> xs \<noteq> ys \<and>
     (\<forall>i < length xs. xs ! i \<noteq> ys ! i \<longrightarrow> k \<le> i \<and> i < k + 8)"

lemma burst_detected:
  assumes "burst k xs ys"
  shows "crc_bits c xs \<noteq> crc_bits c ys"
proof
  assume eq: "crc_bits c xs = crc_bits c ys"
  let ?d = "map2 (\<noteq>) xs ys" and ?n = "length xs"
  have len: "length xs = length ys" and ne: "xs \<noteq> ys"
    and win: "\<And>i. i < ?n \<Longrightarrow> xs ! i \<noteq> ys ! i \<Longrightarrow> k \<le> i \<and> i < k + 8"
    using assms by (auto simp: burst_def)
  obtain i where i: "i < ?n" "xs ! i \<noteq> ys ! i" using len ne by (auto simp: list_eq_iff_nth_eq)
  have k: "k < ?n" using win [OF i] i by simp
  define a w z where "a = take k ?d" and "w = take 8 (drop k ?d)" and "z = drop (k + 8) ?d"
  have "drop (k + 8) ?d = drop 8 (drop k ?d)" by (simp only: drop_drop add.commute)
  then have d: "?d = a @ w @ z" by (simp only: a_def w_def z_def append_take_drop_id)
  have same: "xs ! i = ys ! i" if "i < ?n" "i < k \<or> k + 8 \<le> i" for i
  proof (rule ccontr)
    assume "xs ! i \<noteq> ys ! i"
    from win [OF that(1) this] that(2) show False by simp
  qed
  have "a = replicate k False"
    using same k len by (intro nth_equalityI) (auto simp: a_def)
  have z: "z = replicate (length z) False"
    using same len by (intro nth_equalityI) (auto simp: z_def)
  have "crc_bits 0 ?d = 0" using crc_bits_linear [OF len, of c c] eq by simp
  then have "crc_bits (crc_bits 0 w) z = 0"
    unfolding d using \<open>a = replicate k False\<close> by (simp add: crc_bits_zeros)
  then have "crc_bits 0 w = 0" using z by (metis crc_bits_cancel)
  moreover have "length w \<le> 8" by (simp add: w_def)
  ultimately have "\<forall>b \<in> set w. \<not> b" using crc_bits_short_zero by blast
  moreover have "w ! (i - k)" and "i - k < length w"
    using win [OF i] i len by (auto simp: w_def)
  ultimately show False using nth_mem by blast
qed

text \<open>A message with its checksum leaves the constant 2 in the register.\<close>

lemma byte_register: "crc_bits 0 (byte_bits b) = b"
proof (rule bit_word_eqI)
  fix i assume i: "i < LENGTH(8)"
  have "bit (crc_bits 0 (byte_bits b)) i \<longleftrightarrow> i < 8 \<and> byte_bits b ! (7 - i)"
    using crc_bits_short [of "byte_bits b" i] by simp
  then show "bit (crc_bits 0 (byte_bits b)) i = bit b i" using i by (simp add: byte_bits_def)
qed

text \<open>A changed byte is a burst.\<close>

lemma byte_burst:
  assumes "b \<noteq> c"
  shows "burst (8 * length pre) (msg_bits (pre @ [b] @ post)) (msg_bits (pre @ [c] @ post))"
proof -
  have "byte_bits b \<noteq> byte_bits c" using assms byte_register by metis
  moreover have "k \<le> i \<and> i < k + 8"
    if "(xs @ byte_bits b @ ys) ! i \<noteq> (xs @ byte_bits c @ ys) ! i" "length xs = k" for xs ys i k
    using that by (auto simp: nth_append split: if_splits)
  ultimately show ?thesis by (fastforce simp: burst_def)
qed

lemma crc_bits_byte: "crc_bits c (byte_bits b) = crc_bits c (replicate 8 False) XOR b"
proof -
  have "map2 (\<noteq>) (replicate (length bs) False) bs = bs" for bs by (induction bs) simp_all
  note d = this [of "byte_bits b", unfolded length_byte_bits]
  have "length (replicate 8 False) = length (byte_bits b)" by (simp only: length_replicate length_byte_bits)
  from crc_bits_linear [OF this, of c 0] show ?thesis unfolding d byte_register xor.right_neutral .
qed

lemma checksum_bits: "balboa_calc_cs body = cs \<longleftrightarrow> crc_bits crc_init (msg_bits (body @ [cs])) = 2"
proof -
  have "balboa_calc_cs body = crc_bits crc_init (msg_bits body @ replicate 8 False) XOR 2"
    by (simp add: balboa_calc_cs_def crc_finalize_bits crc_update_bits)
  moreover have "x XOR 2 = cs \<longleftrightarrow> x XOR cs = 2" for x :: u8
  proof -
    have undo: "x XOR (x XOR z) = z" for z by (simp only: xor.assoc [symmetric] bit.xor_self xor.left_neutral)
    show ?thesis by (metis undo)
  qed
  ultimately show ?thesis by (simp add: crc_bits_byte)
qed

section \<open>Frames\<close>

text \<open>
  The length byte at the head of the body counts the body, its checksum and itself once more less
  the start byte: the two markers are not in it but one of them is in the message.
\<close>

definition spa_frame :: "u8 list \<Rightarrow> u8 list" where
  "spa_frame body = [M_START] @ body @ [balboa_calc_cs body, M_END]"

definition framed :: "u8 list \<Rightarrow> bool" where
  "framed body \<longleftrightarrow> 4 \<le> length body \<and> unat (hd body) = length body + 1"

definition spa_frames :: "u8 list \<Rightarrow> bool" where
  "spa_frames out \<longleftrightarrow> (\<exists>bodies. list_all framed bodies \<and> out = concat (map spa_frame bodies))"

lemma mtype_codes:
  "mtype_code BMTS_CONTROL_REQ = [0x0A, 0xBF, 0x11]" "mtype_code BMTS_SET_TEMP = [0x0A, 0xBF, 0x20]"
  "mtype_code BMTS_PANEL_REQ = [0x0A, 0xBF, 0x22]" "mtype_code BMTS_CONFIG_REQ = [0x0A, 0xBF, 0x04]"
  by (simp_all add: mtype_code_def mtypes_def)

text \<open>The checksum of the configuration request is a literal in the code; it is the right one.\<close>

lemma config_checksum: "balboa_calc_cs [5, 0x0A, 0xBF, 0x04] = 0x77"
  by code_simp

lemma commands_framed:
  "spa_frames (control_msg c)" "spa_frames (settemp_msg v)" "spa_frames (panel_msg ba bb)" "spa_frames config_msg"
proof -
  have one: "spa_frames (spa_frame body)" if "framed body" for body
    unfolding spa_frames_def using that by (intro exI [of _ "[body]"]) simp
  show "spa_frames (control_msg c)" using one [of "[7, 0x0A, 0xBF, 0x11, c, 0]"]
    by (simp add: control_msg_def spa_frame_def framed_def mtype_codes)
  show "spa_frames (settemp_msg v)" using one [of "[6, 0x0A, 0xBF, 0x20, v]"]
    by (simp add: settemp_msg_def spa_frame_def framed_def mtype_codes)
  show "spa_frames (panel_msg ba bb)" using one [of "[8, 0x0A, 0xBF, 0x22, ba, 0, bb]"]
    by (simp add: panel_msg_def spa_frame_def framed_def mtype_codes)
  show "spa_frames config_msg" using one [of "[5, 0x0A, 0xBF, 0x04]"]
    by (simp add: config_msg_def spa_frame_def framed_def mtype_codes config_checksum)
qed

lemma spa_frames_append: "spa_frames a \<Longrightarrow> spa_frames b \<Longrightarrow> spa_frames (a @ b)"
  unfolding spa_frames_def by (elim exE conjE) (rule exI [of _ "_ @ _"], simp)

lemma spa_frames_Nil [simp]: "spa_frames []"
  unfolding spa_frames_def by (rule exI [of _ "[]"]) simp

section \<open>The reader\<close>

lemma take_frame:
  assumes "framed body" "length body' = length body" "hd body' = hd body"
  shows "balboa_take ([M_START] @ body' @ [cs, z] @ rest) = ([M_START] @ body' @ [cs, z], rest)"
proof -
  obtain b bs where body': "body' = b # bs" using assms(1,2) by (cases body') (auto simp: framed_def)
  have n: "unat b = length bs + 2" using assms by (simp add: framed_def body')
  show ?thesis by (simp add: balboa_take_def body' n Let_def)
qed

text \<open>A frame that has arrived is taken off; a wrong checksum is the end of it.\<close>

lemma read_frame:
  assumes "framed body" "length body' = length body" "hd body' = hd body"
  shows "balboa_buf_read_cb e (st\<lparr>spa_input := [M_START] @ body' @ [cs, z] @ rest\<rparr>) =
    balboa_message e ([M_START] @ body' @ [cs, z]) (st\<lparr>spa_input := rest\<rparr>)"
proof -
  have "2 \<le> length ([M_START] @ body' @ [cs, z] @ rest)" by simp
  then show ?thesis
    using take_frame [OF assms, of cs z rest] by (simp add: balboa_buf_read_cb_def Let_def)
qed

lemma wrong_checksum:
  assumes "balboa_calc_cs body' \<noteq> cs"
  shows "balboa_message e ([M_START] @ body' @ [cs, z]) st = Inr st"
  using assms by (simp add: balboa_message_def Let_def within_def nth_append)

lemma right_checksum:
  assumes "4 \<le> length body'" "find_balboa_mtype (spa_frame body') = Some t"
  shows "balboa_message e (spa_frame body') st =
    bindE (handle_balboa_msg e (spa_frame body') st) (\<lambda>(j, st1). ask_again e j st1)"
proof -
  have "length (spa_frame body') = length body' + 3" by (simp add: spa_frame_def)
  moreover have "take (length body') (drop 1 (spa_frame body')) = body'" by (simp add: spa_frame_def)
  moreover have "spa_frame body' ! (length body' + 1) = balboa_calc_cs body'" by (simp add: spa_frame_def nth_append)
  ultimately show ?thesis using assms by (simp add: balboa_message_def Let_def within_def)
qed

text \<open>What comes in on the connection, at the times of the environments.\<close>

definition spa_receive :: "(cenv \<times> u8 list) list \<Rightarrow> 'a spa_scheme \<Rightarrow> 'a spa_scheme res" where
  "spa_receive = foldE (\<lambda>(e, bs). spa_handle e (Ev_spa_data bs))"

lemma out_of_sync:
  "b \<noteq> M_START \<Longrightarrow> spa_input st = b # bs \<Longrightarrow>
    spa_receive ds st = Inr (st\<lparr>spa_input := b # bs @ concat (map snd ds)\<rparr>)"
proof (induction ds arbitrary: st bs)
  case (Cons d ds)
  have "spa_handle (fst d) (Ev_spa_data (snd d)) st = Inr (st\<lparr>spa_input := b # bs @ snd d\<rparr>)"
    using Cons.prems by (simp add: balboa_buf_read_cb_def Let_def)
  with Cons.IH [OF Cons.prems(1), of "st\<lparr>spa_input := b # bs @ snd d\<rparr>" "bs @ snd d"]
  show ?case by (simp add: spa_receive_def split_def)
qed (simp add: spa_receive_def)

end
