(* ===== verification/Spainv.thy ===== *)
theory Spainv
  imports Spaframe Collinv
begin

text \<open>
  The invariant of the spa collector: what has been written to the spa is a sequence of frames, the
  tables have their sizes, and devices exist only when all answers are there. It holds beside the
  invariant of the connection to the server, whose contract the spa's callbacks meet.
\<close>

section \<open>The invariant\<close>

definition spa_ok :: "'a spa_scheme \<Rightarrow> bool" where
  "spa_ok st \<longleftrightarrow>
     (case spa_out st of None \<Rightarrow> \<not> devices_ready st | Some out \<Rightarrow> spa_frames out) \<and>
     length (pump_array (spacfg st)) = MAX_PUMPS \<and> length (light_array (spacfg st)) = 2 \<and>
     length (aux_array (spacfg st)) = 2 \<and> sp_trange (spacfg st) \<in> {0, 1} \<and>
     length (mac_suffix st) = 3 \<and> length (prev_stat st) = 23 \<and>
     length (disc_list (spa_disc st)) = MAX_D30303_DEVS \<and>
     (devices_ready st \<longrightarrow> mac_suffix st \<noteq> [0, 0, 0] \<and> done_conf (spacfg st) \<and> done_panel (spacfg st) \<and> done_status (spacfg st))"

definition spa_keeps :: "'a spa_scheme \<Rightarrow> 'a spa_scheme \<Rightarrow> bool" where
  "spa_keeps s t \<longleftrightarrow> gview s = gview t \<and> (spa_ok s \<longrightarrow> spa_ok t)"

text \<open>Steps that leave the collector's own state as it is.\<close>

definition sview :: "'a spa_scheme \<Rightarrow> spaconfig \<times> u8 list \<times> u8 list \<times> int \<times> bool \<times> bool \<times> u8 list option \<times> u8 list \<times> disc" where
  "sview s = (spacfg s, mac_suffix s, prev_stat s, spa_lastupd s, devices_ready s, spa_dumping s, spa_out s, spa_input s, spa_disc s)"

definition quiet :: "'a spa_scheme \<Rightarrow> 'a spa_scheme \<Rightarrow> bool" where
  "quiet s t \<longleftrightarrow> gview s = gview t \<and> sview s = sview t"

lemma quiet_refl [simp]: "quiet s s"
  by (simp add: quiet_def)

lemma quiet_trans: "quiet a b \<Longrightarrow> quiet b c \<Longrightarrow> quiet a c"
  by (simp add: quiet_def)

lemma sview_ok: "sview s = sview t \<Longrightarrow> spa_ok s \<longleftrightarrow> spa_ok t"
  by (simp add: sview_def spa_ok_def split: option.split)

lemma quiet_keeps: "quiet s t \<Longrightarrow> spa_keeps s t"
  using sview_ok by (auto simp: quiet_def spa_keeps_def)

lemma quiet_registry: "registry.more s = registry.more t \<Longrightarrow> quiet s t"
  by (cases s; cases t) (simp add: quiet_def gview_def sview_def)

lemma quiet_conf: "quiet s (s\<lparr>coll_conf := cf\<rparr>)" "quiet s (s\<lparr>coll_conf := cf, coll_conf_file := cff\<rparr>)"
    "quiet s (s\<lparr>rrd_freed := x\<rparr>)"
  by (simp_all add: quiet_def gview_def sview_def)

lemma quiet_dev [simp]: "quiet s (upd_dev p f s)" "quiet s (insert_device p s)" "quiet s (upd_grp g h s)"
  by (rule quiet_registry, simp add: upd_dev_def upd_grp_def)+

lemma quiet_write: "write_bev b m s = Inr t \<Longrightarrow> quiet s t"
  using write_bev_view [of b m s t] by (auto simp: quiet_def sview_def write_bev_def split: option.splits)

lemma quiet_send: "send_msg b m s = Inr t \<Longrightarrow> quiet s t"
  by (auto simp: send_msg_def split: if_splits intro: quiet_write)

lemma quiet_conf_dev: "new_dev_from_conf cf u s = Inr (f, t) \<Longrightarrow> quiet s t"
  by (rule quiet_registry)
    (auto simp: new_dev_from_conf_def bindE_Inr_conv Let_def alloc_dev_def upd_dev_def split: option.splits prod.splits)

lemma quiet_alloc: "alloc_dev d s = (p, t) \<Longrightarrow> quiet s t"
  by (rule quiet_registry) (auto simp: alloc_dev_def)

lemma quiet_make: "make_device b found s = Inr (p, t) \<Longrightarrow> quiet s t"
  using quiet_trans [OF quiet_alloc [OF surjective_pairing] quiet_conf(1)]
  by (auto simp: make_device_def bindE_Inr_conv Let_def split_def split: option.splits if_splits)

lemma quiet_announce: "announce_device dumping bev p s = Inr t \<Longrightarrow> quiet s t"
  by (auto simp: announce_device_def send_register_def Let_def bindE_Inr_conv split: if_splits
      intro: quiet_trans [OF quiet_send quiet_send])

lemma quiet_build:
  assumes "generic_build_device dumping b bev s = Inr t"
  shows "quiet s t"
proof -
  obtain found s1 p s2 where s: "new_dev_from_conf (coll_conf s) (b_uid b) s = Inr (found, s1)"
      "make_device b found s1 = Inr (p, s2)" "announce_device dumping bev p (insert_device p s2) = Inr t"
    using assms by (auto simp: generic_build_device_def bindE_Inr_conv)
  show ?thesis
    using quiet_conf_dev [OF s(1)] quiet_make [OF s(2)] quiet_announce [OF s(3)] quiet_dev(2) quiet_trans by metis
qed

lemma spa_keeps_refl [simp]: "spa_keeps s s"
  by (simp add: spa_keeps_def)

lemma spa_keeps_trans: "spa_keeps a b \<Longrightarrow> spa_keeps b c \<Longrightarrow> spa_keeps a c"
  by (simp add: spa_keeps_def)

lemma quiet_fold:
  assumes "foldE f xs s = Inr t" and "\<And>x u v. f x u = Inr v \<Longrightarrow> quiet u v"
  shows "quiet s t"
  using assms(1) by (rule foldE_inv) (auto intro: quiet_trans assms(2))

section \<open>Requests\<close>

text \<open>What a request changes is the output to the spa, by whole frames.\<close>

definition spa_sent :: "'a spa_scheme \<Rightarrow> 'a spa_scheme \<Rightarrow> bool" where
  "spa_sent s t \<longleftrightarrow>
     t = s \<or> (\<exists>out fs. spa_out s = Some out \<and> spa_frames fs \<and> t = s\<lparr>spa_out := Some (out @ fs)\<rparr>)"

lemma sent_refl [simp]: "spa_sent s s"
  by (simp add: spa_sent_def)

lemma sent_trans: "spa_sent a b \<Longrightarrow> spa_sent b c \<Longrightarrow> spa_sent a c"
  unfolding spa_sent_def using spa_frames_append by fastforce

lemma write_sent: "spa_write bs s = Inr t \<Longrightarrow> spa_frames bs \<Longrightarrow> spa_sent s t"
  by (auto simp: spa_write_def spa_sent_def split: option.splits)

lemma sent_keeps:
  assumes "spa_sent s t"
  shows "spa_keeps s t"
proof -
  have "gview (s\<lparr>spa_out := x\<rparr>) = gview s" for x by (simp add: gview_def)
  moreover have "spa_ok (s\<lparr>spa_out := Some (out @ fs)\<rparr>)" if "spa_ok s" "spa_out s = Some out" "spa_frames fs" for out fs
    using that spa_frames_append by (simp add: spa_ok_def)
  ultimately show ?thesis using assms by (auto simp: spa_sent_def spa_keeps_def)
qed

lemma config_req_sent: "send_config_req s = Inr t \<Longrightarrow> spa_sent s t"
  using write_sent commands_framed(4) by (auto simp: send_config_req_def)

lemma switch_sent:
  assumes "spa_chg_switch_cb p v s = Inr t"
  shows "spa_sent s t"
proof -
  have one: "spa_sent u w" if "spa_write (control_msg c) u = Inr w" for c and u w :: "'a spa_scheme"
    using write_sent [OF that commands_framed(1)] .
  have all: "spa_sent s w" if "foldE (\<lambda>_. spa_write (control_msg c)) xs s = Inr w" for c w and xs :: "nat list"
    using that by (rule foldE_inv) (auto intro: sent_trans one)
  show ?thesis
  proof (cases "d_loc (dmem s p)")
    case (Some loc)
    then obtain cur where cur: "get_byte (dmem s p) DATALOC_DATA = Inr cur"
      using assms by (auto simp: spa_chg_switch_cb_def bindE_Inr_conv)
    show ?thesis
    proof (cases "spa_control loc")
      case None
      with assms Some cur show ?thesis by (simp add: spa_chg_switch_cb_def split: if_splits)
    next
      case (Some cm)
      with assms \<open>d_loc _ = _\<close> cur show ?thesis
        by (cases cm; cases "snd cm") (auto simp: spa_chg_switch_cb_def split: if_splits intro: one all)
    qed
  qed (use assms in \<open>simp add: spa_chg_switch_cb_def\<close>)
qed

lemma chg_sent: "spa_chg_cb p s = Inr t \<Longrightarrow> spa_sent s t"
  by (auto simp: spa_chg_cb_def bindE_Inr_conv spa_chg_temp_cb_def Let_def
      split: option.splits subtype.splits if_splits intro: switch_sent write_sent commands_framed)

lemma is_ok_sent: "spa_is_ok e s = Inr (ok, t) \<Longrightarrow> spa_sent s t"
  by (auto simp: spa_is_ok_def bindE_Inr_conv split: if_splits intro: config_req_sent)

interpretation spa_requests: coll_kept spa_keeps "spa_hooks e" for e
proof (unfold_locales, goal_cases)
  case (2 s1 s2 s3)
  then show ?case by (rule spa_keeps_trans)
next
  case (4 st d)
  show ?case by (rule quiet_keeps, rule quiet_registry) simp
next
  case (5 st u)
  show ?case by (rule quiet_keeps, rule quiet_registry) simp
next
  case (7 st u p g)
  show ?case by (rule quiet_keeps, rule quiet_registry) simp
next
  case (8 st u k g)
  show ?case by (rule quiet_keeps, rule quiet_registry) simp
next
  case (11 b m st st')
  then show ?case by (intro quiet_keeps quiet_write)
next
  case (12 st ok st')
  then show ?case by (auto simp: spa_hooks_def intro: sent_keeps is_ok_sent)
next
  case (15 p st st')
  then show ?case by (auto simp: spa_hooks_def intro: sent_keeps chg_sent)
qed (auto simp: spa_hooks_def weak_stubs_def intro: quiet_keeps quiet_registry quiet_conf)

lemma keeps_gview: "spa_keeps s t \<Longrightarrow> gview s = gview t"
  by (simp add: spa_keeps_def)

lemma spa_ghooks_truncate: "hooks.truncate (spa_ghooks e) = spa_hooks e"
  by (simp add: spa_ghooks_def hooks.defs spa_hooks_def weak_stubs_def)

interpretation spa_conn: conn_hooks "spa_hooks e" "spa_ghooks e" for e
proof (unfold_locales, goal_cases)
  case (11 b m st st')
  then show ?case by (rule write_bev_view)
next
  case (12 st ok st')
  then show ?case by (auto simp: spa_hooks_def intro: keeps_gview sent_keeps is_ok_sent)
next
  case (15 p st st')
  then show ?case by (auto simp: spa_hooks_def intro: keeps_gview sent_keeps chg_sent)
next
  case 21
  show ?case by (rule spa_ghooks_truncate)
qed (auto simp: spa_hooks_def spa_ghooks_def hooks.defs weak_stubs_def gview_def upd_dev_def upd_grp_def
    insert_device_def new_devgroup_def add_dev_group_def add_group_group_def alloc_dev_def Let_def)

section \<open>The spa's messages\<close>

text \<open>Steps that change no more of the collector's own state than the scale.\<close>

definition cview :: "'a spa_scheme \<Rightarrow> spaconfig \<times> u8 list \<times> u8 list \<times> bool \<times> u8 list option \<times> disc" where
  "cview s = ((spacfg s)\<lparr>sp_tscale := 0\<rparr>, mac_suffix s, prev_stat s, devices_ready s, spa_out s, spa_disc s)"

definition mild :: "'a spa_scheme \<Rightarrow> 'a spa_scheme \<Rightarrow> bool" where
  "mild s t \<longleftrightarrow> gview s = gview t \<and> cview s = cview t"

lemma mild_refl [simp]: "mild s s"
  by (simp add: mild_def)

lemma mild_trans: "mild a b \<Longrightarrow> mild b c \<Longrightarrow> mild a c"
  by (simp add: mild_def)

lemma quiet_mild: "quiet s t \<Longrightarrow> mild s t"
  by (simp add: quiet_def mild_def sview_def cview_def)

lemma mild_ok:
  assumes "mild s t" and "spa_ok s"
  shows "spa_ok t"
proof -
  have c: "(spacfg s)\<lparr>sp_tscale := 0\<rparr> = (spacfg t)\<lparr>sp_tscale := 0\<rparr>"
    using assms(1) by (simp add: mild_def cview_def)
  have "f (spacfg s) = f (spacfg t)" if "\<And>x. f (x\<lparr>sp_tscale := 0\<rparr>) = f x" for f :: "spaconfig \<Rightarrow> 'b"
    using arg_cong [OF c, of f] that by simp
  note f = this [of pump_array] this [of light_array] this [of aux_array] this [of sp_trange] this [of done_conf]
    this [of done_panel] this [of done_status]
  show ?thesis using assms f by (simp add: mild_def cview_def spa_ok_def split: option.splits)
qed

lemma mild_keeps: "mild s t \<Longrightarrow> spa_keeps s t"
  using mild_ok by (auto simp: spa_keeps_def mild_def)

lemma mild_scale: "mild s (upd_cfg (\<lambda>c. c\<lparr>sp_tscale := x\<rparr>) s)"
  by (simp add: mild_def cview_def upd_cfg_def gview_def)

lemmas bind_quiet = bind_kept [where R = quiet, OF _ _ _ quiet_trans]
lemmas bind_mild = bind_kept [where R = mild, OF _ _ _ mild_trans]

lemma device_quiet: "spa_device tags a b c d f l sc s = Inr t \<Longrightarrow> quiet s t"
  unfolding spa_device_def by (rule quiet_build)

lemma switches_quiet:
  assumes "spa_switches tags s = Inr t"
  shows "quiet s t"
proof -
  have fold: "quiet u v" if "foldE (\<lambda>i. spa_device tags (a i) (b i) c d f (l i) sc) xs u = Inr v"
    for a b c d f l sc u v and xs :: "nat list"
    using that by (rule quiet_fold) (rule device_quiet)
  have opt: "quiet u v" if "(if x then spa_device tags a b c d f l sc u else Inr u) = Inr v" for x a b c d f l sc u v
    using that by (auto split: if_splits intro: device_quiet)
  from assms show ?thesis
    unfolding spa_switches_def
    by - (erule bind_quiet, erule fold, erule bind_quiet, erule opt, erule bind_quiet, erule fold,
        erule bind_quiet, erule fold, erule opt)
qed

lemma sensors_mild:
  assumes "spa_sensors tags s = Inr t"
  shows "mild s t"
proof -
  let ?scaled = "\<lambda>st1. case find_device_byuid st1 (spa_uid st1 ''-curtemp'') of None \<Rightarrow> st1
    | Some p \<Rightarrow> upd_cfg (\<lambda>c. c\<lparr>sp_tscale := int (unat (d_scale (dmem st1 p)))\<rparr>) st1"
  have sc: "mild u (?scaled u)" for u by (simp add: mild_scale split: option.split)
  note dev = quiet_mild [OF device_quiet]
  obtain s1 where s1: "spa_device tags ''-curtemp'' ''Spa Curent Temp'' PROTO_POOL DEVICE_SENSOR SUBTYPE_TEMP None
      (word_of_int (sp_tscale (spacfg s))) s = Inr s1"
    using assms by (auto simp: spa_sensors_def bindE_Inr_conv)
  have "mild (?scaled s1) t"
    using assms s1 unfolding spa_sensors_def Let_def
    by simp (erule bind_mild, erule dev, erule bind_mild, erule dev, erule bind_mild, erule dev, erule dev)
  with dev [OF s1] sc show ?thesis using mild_trans by blast
qed

lemma init_keeps:
  assumes "init_balboa_devs e s = Inr t" and "spa_out s \<noteq> None"
  shows "spa_keeps s t"
proof (cases "mac_suffix s = [0, 0, 0] \<or> \<not> done_conf (spacfg s) \<or> \<not> done_panel (spacfg s) \<or> \<not> done_status (spacfg s)")
  case True
  with assms(1) show ?thesis by (auto simp: init_balboa_devs_def split: if_splits)
next
  case False
  then obtain tags s1 s2 where s2: "spa_switches tags s = Inr s1" "spa_sensors tags s1 = Inr s2"
    and t: "t = s2\<lparr>devices_ready := True, prev_stat := replicate 23 0\<rparr>"
    using assms(1) by (auto simp: init_balboa_devs_def bindE_Inr_conv split: if_splits)
  have m: "mild s s2"
    using quiet_mild [OF switches_quiet [OF s2(1)]] sensors_mild [OF s2(2)] by (rule mild_trans)
  then have c: "(spacfg s)\<lparr>sp_tscale := 0\<rparr> = (spacfg s2)\<lparr>sp_tscale := 0\<rparr>" and o: "spa_out s2 = spa_out s"
    and mac: "mac_suffix s2 = mac_suffix s"
    by (simp_all add: mild_def cview_def)
  have "done_conf (spacfg s2)" "done_panel (spacfg s2)" "done_status (spacfg s2)"
    using False arg_cong [OF c, of done_conf] arg_cong [OF c, of done_panel] arg_cong [OF c, of done_status] by simp_all
  moreover have "gview s = gview t" using m by (simp add: t mild_def gview_def)
  ultimately show ?thesis
    using mild_ok [OF m] assms(2) False o mac by (auto simp: spa_keeps_def t spa_ok_def)
qed

lemma cfg_keeps:
  assumes "\<And>c. length (pump_array (f c)) = length (pump_array c) \<and> length (light_array (f c)) = length (light_array c) \<and>
      length (aux_array (f c)) = length (aux_array c) \<and> (sp_trange (f c) = sp_trange c \<or> sp_trange (f c) \<in> {0, 1}) \<and>
      (done_conf c \<longrightarrow> done_conf (f c)) \<and> (done_panel c \<longrightarrow> done_panel (f c)) \<and> (done_status c \<longrightarrow> done_status (f c))"
  shows "spa_keeps s (upd_cfg f s)"
  using assms [of "spacfg s"] by (auto simp: spa_keeps_def upd_cfg_def gview_def spa_ok_def split: option.splits)

lemma bit_two: "drop_bit 2 (x AND 4) = (if bit x 2 then 1 else (0 :: u8))"
proof (rule bit_word_eqI)
  fix i assume "i < LENGTH(8)"
  have "(4 :: u8) = push_bit 2 1" by simp
  then have "bit (4 :: u8) (2 + i) \<longleftrightarrow> i = 0" by (simp only: bit_push_bit_iff) (auto simp: bit_1_iff)
  then show "bit (drop_bit 2 (x AND 4)) i = bit (if bit x 2 then 1 else (0 :: u8)) i"
    by (cases i) (simp_all add: bit_drop_bit_eq bit_and_iff bit_1_iff)
qed

lemma trange_bound: "int (unat (drop_bit 2 (x AND 4 :: u8))) \<in> {0, 1}"
  unfolding bit_two by simp

lemma lastupd_keeps: "spa_keeps s (s\<lparr>spa_lastupd := x\<rparr>)"
  by (simp add: spa_keeps_def gview_def spa_ok_def split: option.split)

lemma config_resp_keeps:
  assumes "parse_config_resp e data s = Inr t" and "spa_out s \<noteq> None"
  shows "spa_keeps s t"
proof -
  let ?s1 = "if mac_suffix s = [0, 0, 0] then s\<lparr>mac_suffix := [data ! 11, data ! 12, data ! 13]\<rparr> else s"
  let ?s2 = "?s1\<lparr>spa_lastupd := ce_now e\<rparr>"
  have "spa_keeps s ?s1" by (auto simp: spa_keeps_def gview_def spa_ok_def split: option.splits)
  then have 2: "spa_keeps s ?s2" using lastupd_keeps spa_keeps_trans by blast
  have 3: "spa_keeps ?s2 (upd_cfg (\<lambda>c. c\<lparr>done_conf := True\<rparr>) ?s2)" by (rule cfg_keeps) simp
  have "t = ?s2 \<or> init_balboa_devs e (upd_cfg (\<lambda>c. c\<lparr>done_conf := True\<rparr>) ?s2) = Inr t"
    using assms(1) by (auto simp: parse_config_resp_def within_def Let_def bindE_Inr_conv split: if_splits)
  moreover have "spa_out (upd_cfg (\<lambda>c. c\<lparr>done_conf := True\<rparr>) ?s2) \<noteq> None" using assms(2) by (simp add: upd_cfg_def)
  ultimately show ?thesis using 2 3 init_keeps spa_keeps_trans by blast
qed

lemma length_set_if [simp]: "length (set_if b i xs) = length xs"
  by (simp add: set_if_def)

lemma panel_resp_keeps:
  assumes "parse_panel_config_resp e data s = Inr t" and "spa_out s \<noteq> None"
  shows "spa_keeps s t"
proof -
  let ?s1 = "s\<lparr>spa_lastupd := ce_now e\<rparr>"
  consider "t = ?s1"
    | c where "panel_config data (spacfg s) = Inr c" "init_balboa_devs e (?s1\<lparr>spacfg := c\<rparr>) = Inr t"
    using assms(1) by (auto simp: parse_panel_config_resp_def within_def Let_def bindE_Inr_conv split: if_splits)
  then show ?thesis
  proof cases
    case (2 c)
    have "spa_keeps ?s1 (?s1\<lparr>spacfg := c\<rparr>)"
      using 2(1) by (auto simp: panel_config_def Let_def spa_keeps_def gview_def spa_ok_def split: if_splits option.splits)
    moreover have "spa_keeps (?s1\<lparr>spacfg := c\<rparr>) t" using 2(2) by (rule init_keeps) (use assms(2) in simp)
    ultimately show ?thesis using lastupd_keeps spa_keeps_trans by blast
  qed (use lastupd_keeps in blast)
qed

lemma reading_quiet: "spa_reading full suffix v s = Inr (b, t) \<Longrightarrow> quiet s t"
proof -
  assume run: "spa_reading full suffix v s = Inr (b, t)"
  show "quiet s t"
  proof (cases "find_device_byuid s (spa_uid s suffix)")
    case (Some p)
    let ?s1 = "upd_dev p (\<lambda>d. store_data_dev d DATALOC_DATA v) s"
    let ?s2 = "if full then upd_dev p (\<lambda>d. d\<lparr>d_scale := word_of_int (sp_tscale (spacfg ?s1))\<rparr>) ?s1 else ?s1"
    obtain m where m: "send_msg (gnhastd_out ?s2) m ?s2 = Inr t"
      using run Some by (cases full) (auto simp: spa_reading_def Let_def bindE_Inr_conv split: if_splits)
    have "quiet s ?s1" "quiet ?s1 ?s2" by simp_all
    then have "quiet s ?s2" by (rule quiet_trans)
    with quiet_send [OF m] show ?thesis by (blast intro: quiet_trans)
  qed (use run in \<open>simp add: spa_reading_def\<close>)
qed

lemma readings_quiet: "spa_readings full rs s = Inr (b, t) \<Longrightarrow> quiet s t"
proof (induction full rs s rule: spa_readings.induct)
  case (2 full suffix v rs s)
  then show ?case
    by (auto simp: bindE_Inr_conv split: if_splits intro: reading_quiet quiet_trans)
qed simp

lemma readings_keeps: "spa_readings full rs s = Inr (b, t) \<Longrightarrow> spa_keeps s t"
  by (intro quiet_keeps readings_quiet)

lemma status_values_keeps:
  assumes "status_values data s = Inr (j, t)" and "29 \<le> length data"
  shows "spa_keeps s t"
proof -
  let ?scale = "if bit (data ! 14) 0 then 1 else 0 :: int"
  let ?s1 = "upd_cfg (\<lambda>c. c\<lparr>sp_tscale := ?scale\<rparr>) s"
  let ?tr = "drop_bit 2 (data ! 15 AND 0x04)"
  let ?tr_cfg = "\<lambda>u. upd_cfg (\<lambda>c. c\<lparr>sp_trange := int (unat ?tr)\<rparr>) u"
  have 1: "spa_keeps s ?s1" by (rule mild_keeps) (rule mild_scale)
  have tr: "spa_keeps u (?tr_cfg u)" for u :: "'a spa_scheme"
    by (rule cfg_keeps) (use trange_bound [of "data ! 15"] in simp)
  have st: "spa_keeps u (u\<lparr>prev_stat := take 23 (drop 6 data)\<rparr>)" for u :: "'a spa_scheme"
    using assms(2) by (simp add: spa_keeps_def gview_def spa_ok_def split: option.split)
  obtain ok2 s2 where r2: "spa_readings (?scale \<noteq> sp_tscale (spacfg s))
      [(''-curtemp'', spa_temp ?scale (data ! 7)), (''-settemp'', spa_temp ?scale (data ! 25))] ?s1 = Inr (ok2, s2)"
    using assms(1) by (auto simp: status_values_def Let_def bindE_Inr_conv)
  have 2: "spa_keeps s s2" using 1 readings_keeps [OF r2] by (rule spa_keeps_trans)
  show ?thesis
  proof (cases ok2)
    case False
    with assms(1) r2 2 show ?thesis by (simp add: status_values_def Let_def)
  next
    case True
    let ?heat = "map as_word [(''-heatmode'', heat_mode (data ! 10)), (''-heatstate'', drop_bit 4 (data ! 15 AND 0x30))]"
    obtain ok3 s3 where r3: "spa_readings False ?heat s2 = Inr (ok3, s3)"
      using assms(1) r2 True by (auto simp: status_values_def Let_def bindE_Inr_conv)
    have 3: "spa_keeps s s3" using 2 readings_keeps [OF r3] by (rule spa_keeps_trans)
    have 4: "spa_keeps s (?tr_cfg s3)" using 3 tr by (rule spa_keeps_trans)
    have "t = s3 \<or> (\<exists>ok4 s4. spa_readings False (map as_word ((''-temprange'', ?tr) # switch_readings (spacfg s3) data))
          (?tr_cfg s3) = Inr (ok4, s4) \<and> (t = s4 \<or> t = s4\<lparr>prev_stat := take 23 (drop 6 data)\<rparr>))"
      using assms(1) unfolding status_values_def Let_def r2 bindE_simps split
      by (simp only: True r3 bindE_simps split not_True_eq_False if_False)
        (auto simp: bindE_Inr_conv split: if_splits)
    then show ?thesis using 3 4 readings_keeps st spa_keeps_trans by blast
  qed
qed

lemma spa_status_keeps:
  assumes "parse_status_update e data s = Inr (j, t)" and "spa_out s \<noteq> None"
  shows "spa_keeps s t"
proof (cases "devices_ready s")
  case True
  let ?s1 = "s\<lparr>spa_lastupd := ce_now e\<rparr>"
  from True assms(1) have "29 \<le> length data" "t = ?s1 \<or> status_values data ?s1 = Inr (j, t)"
    by (auto simp: parse_status_update_def within_def Let_def split: if_splits)
  then show ?thesis using lastupd_keeps status_values_keeps spa_keeps_trans by blast
next
  case False
  let ?f = "\<lambda>c. c\<lparr>sp_tscale := (if bit (data ! 14) 0 then 1 else 0),
      sp_trange := int (unat (drop_bit 2 (data ! 15 AND 0x04))), done_status := True\<rparr>"
  have run: "init_balboa_devs e (upd_cfg ?f s) = Inr t"
    using False assms(1) by (auto simp: parse_status_update_def within_def bindE_Inr_conv split: if_splits)
  have "spa_keeps s (upd_cfg ?f s)"
    by (rule cfg_keeps) (use trange_bound [of "data ! 15"] in simp)
  moreover have "spa_keeps (upd_cfg ?f s) t"
    using run by (rule init_keeps) (use assms(2) in \<open>simp add: upd_cfg_def\<close>)
  ultimately show ?thesis by (rule spa_keeps_trans)
qed

lemma message_keeps:
  assumes "balboa_message e data s = Inr t" and "spa_out s \<noteq> None"
  shows "spa_keeps s t"
proof -
  have handled: "spa_keeps s u" if "handle_balboa_msg e data s = Inr (j, u)" for j u
    using that assms(2)
    by (auto simp: handle_balboa_msg_def bindE_Inr_conv split: option.splits balboa_mtype.splits
        intro: config_resp_keeps spa_status_keeps panel_resp_keeps)
  have asked: "spa_keeps u t" if "ask_again e j u = Inr t" for j u
    using that by (auto simp: ask_again_def split: if_splits option.splits intro: sent_keeps config_req_sent)
  consider "t = s" | j u where "handle_balboa_msg e data s = Inr (j, u)" "ask_again e j u = Inr t"
    using assms(1) unfolding balboa_message_def Let_def within_def
    by (auto simp: bindE_Inr_conv split: if_split_asm)
  then show ?thesis
  proof cases
    case (2 j u)
    have "spa_keeps u t" using 2(2) by (rule asked)
    with handled [OF 2(1)] show ?thesis by (rule spa_keeps_trans)
  qed simp
qed

lemma input_keeps: "spa_keeps s (s\<lparr>spa_input := x\<rparr>)"
  by (simp add: spa_keeps_def gview_def spa_ok_def split: option.split)

lemma read_keeps:
  assumes "balboa_buf_read_cb e s = Inr t" and "spa_out s \<noteq> None"
  shows "spa_keeps s t"
proof -
  obtain data rest where take: "balboa_take (spa_input s) = (data, rest)" by fastforce
  have run: "(if length (spa_input s) < 2 \<or> spa_input s ! 0 \<noteq> M_START then Inr s
      else balboa_message e data (s\<lparr>spa_input := rest\<rparr>)) = Inr t"
    using assms(1) unfolding balboa_buf_read_cb_def Let_def take split .
  show ?thesis
  proof (cases "length (spa_input s) < 2 \<or> spa_input s ! 0 \<noteq> M_START")
    case True
    with run show ?thesis by simp
  next
    case False
    with run have "balboa_message e data (s\<lparr>spa_input := rest\<rparr>) = Inr t" by (simp only: if_False)
    then have "spa_keeps (s\<lparr>spa_input := rest\<rparr>) t" by (rule message_keeps) (use assms(2) in simp)
    with input_keeps show ?thesis by (rule spa_keeps_trans)
  qed
qed

section \<open>All events\<close>

lemma spa_connect_ok: "spa_ok s \<Longrightarrow> spa_ok (spa_connect_cb s)"
  by (simp add: spa_ok_def spa_connect_cb_def)

lemma spa_connect_view [simp]: "gview (spa_connect_cb s) = gview s"
  by (simp add: spa_connect_cb_def gview_def)

lemma spa_event_keeps:
  assumes "balboa_connect_event_cb w s = Inr t"
  shows "spa_keeps s t"
proof -
  consider "t = s" | "t = spa_connect_cb s"
    | u where "send_config_req s = Inr u" "send_panel_req 0 1 u = Inr t"
    using assms by (auto simp: balboa_connect_event_cb_def bindE_Inr_conv split: conn_event.splits if_splits)
  then show ?thesis
  proof cases
    case (3 u)
    have "spa_sent u t" using 3(2) by (auto simp: send_panel_req_def intro: write_sent commands_framed)
    with config_req_sent [OF 3(1)] show ?thesis by (blast intro: sent_keeps sent_trans)
  qed (simp_all add: spa_keeps_def spa_connect_ok)
qed

lemma disc_read_length: "cb_d30303_read from dgram d = Inr d' \<Longrightarrow> length (disc_list d') = length (disc_list d)"
  by (auto simp: cb_d30303_read_def Let_def split: option.splits if_splits)

lemma disc_end_length: "cb_end_d30303 d = Inr (d', f) \<Longrightarrow> length (disc_list d') = length (disc_list d)"
  by (auto simp: cb_end_d30303_def Let_def bindE_Inr_conv split: option.splits if_splits)

lemma sview_server [simp]:
  "sview (upd_conn c f s) = sview s" "sview (new_bev c s) = sview s"
  "sview (s\<lparr>health_timers := ht\<rparr>) = sview s" "sview (s\<lparr>retry_timers := ht\<rparr>) = sview s"
  "sview (s\<lparr>need_rereg := b\<rparr>) = sview s" "sview (s\<lparr>loop_exit := b\<rparr>) = sview s"
  "sview (s\<lparr>stop_timers := n\<rparr>) = sview s" "sview (s\<lparr>stop_timers := n, loop_exit := b\<rparr>) = sview s"
  "sview (s\<lparr>bufs := bs\<rparr>) = sview s" "sview (s\<lparr>collector_instance := i\<rparr>) = sview s"
  by (simp_all add: sview_def upd_conn_def new_bev_def Let_def)

lemma write_sview: "write_bev b m s = Inr t \<Longrightarrow> sview t = sview s"
  using quiet_write [of b m s t] by (simp add: quiet_def)

lemma connect_sview: "generic_connect_server_cb c s = Inr t \<Longrightarrow> sview t = sview s"
  by (auto simp: generic_connect_server_cb_def Let_def bindE_Inr_conv write_sview split: if_splits)

lemma spa_fields: "gencoll.more s = gencoll.more t \<Longrightarrow> spa_ok s = spa_ok t"
  by (rule sview_ok) (cases s; cases t; simp add: sview_def)

interpretation spa_server: conn_kept spa_keeps "spa_hooks e" "spa_ghooks e" spa_ok for e
proof (unfold_locales, goal_cases)
  case 1
  show ?case by (rule spa_ghooks_truncate)
next
  case (4 st st')
  show ?case by (rule spa_fields) (rule 4(4))
qed (auto simp: spa_ghooks_def hooks.defs spa_keeps_def)

lemma keeps_both: "spa_keeps s t \<Longrightarrow> spa_ok s \<and> gen_ok s \<Longrightarrow> spa_ok t \<and> gen_ok t"
  using gview_ok by (auto simp: spa_keeps_def)

lemma scan_end_ok:
  assumes "spa_scan_end s = Inr t" and "spa_ok s \<and> gen_ok s"
  shows "spa_ok t \<and> gen_ok t"
proof -
  obtain d f where d: "cb_end_d30303 (spa_disc s) = Inr (d, f)"
    and t: "t = generic_cb_shutdown (s\<lparr>spa_disc := d\<rparr>) \<or> t = spa_connect_cb (s\<lparr>spa_disc := d\<rparr>)"
    using assms(1) by (auto simp: spa_scan_end_def d30303_found_cb_def Let_def bindE_Inr_conv split: option.splits)
  have "spa_keeps s (s\<lparr>spa_disc := d\<rparr>)"
    using disc_end_length [OF d] by (simp add: spa_keeps_def gview_def spa_ok_def split: option.split)
  then have ok: "spa_ok (s\<lparr>spa_disc := d\<rparr>) \<and> gen_ok (s\<lparr>spa_disc := d\<rparr>)" using keeps_both assms(2) by blast
  moreover have "gen_ok (generic_cb_shutdown (s\<lparr>spa_disc := d\<rparr>))"
    using ok by (auto simp: generic_cb_shutdown_def gen_ok_def gen_at_def)
  moreover have "spa_ok (generic_cb_shutdown u) = spa_ok u" for u :: "'a spa_scheme"
    by (rule sview_ok) (simp add: generic_cb_shutdown_def)
  moreover have "gen_ok (spa_connect_cb (s\<lparr>spa_disc := d\<rparr>))" using ok gview_ok spa_connect_view by blast
  ultimately show ?thesis using t spa_connect_ok by blast
qed

lemma spa_handle_ok:
  assumes "spa_handle e ev s = Inr t" "spa_enabled ev s" "\<not> loop_exit s" "spa_ok s \<and> gen_ok s"
  shows "spa_ok t \<and> gen_ok t"
proof (cases ev)
  case (Ev_server g)
  with assms show ?thesis using spa_server.gen_kept spa_conn.handle_keeps by fastforce
next
  case (Ev_answer a dgram)
  then obtain d where d: "cb_d30303_read a dgram (spa_disc s) = Inr d" "t = s\<lparr>spa_disc := d\<rparr>"
    using assms(1) by (auto simp: bindE_Inr_conv)
  have "spa_keeps s t"
    using disc_read_length [OF d(1)] by (simp add: d(2) spa_keeps_def gview_def spa_ok_def split: option.split)
  then show ?thesis using keeps_both assms(4) by blast
next
  case Ev_scan_end
  with assms show ?thesis using scan_end_ok by simp
next
  case (Ev_spa_conn w)
  with assms show ?thesis using keeps_both spa_event_keeps by simp blast
next
  case (Ev_spa_data bs)
  let ?s1 = "s\<lparr>spa_input := spa_input s @ bs\<rparr>"
  have "balboa_buf_read_cb e ?s1 = Inr t" "spa_out ?s1 \<noteq> None" using Ev_spa_data assms by simp_all
  from read_keeps [OF this] input_keeps show ?thesis using keeps_both assms(4) by blast
next
  case Ev_keepalive
  with assms show ?thesis using keeps_both sent_keeps config_req_sent by simp blast
qed

inductive spa_reach :: "spa \<Rightarrow> bool" where
  start: "balboa_main cf inst dumping bound = Inr st \<Longrightarrow> spa_reach st"
| step: "spa_reach st \<Longrightarrow> \<not> loop_exit st \<Longrightarrow> spa_enabled ev st \<Longrightarrow> spa_handle e ev st = Inr st' \<Longrightarrow> spa_reach st'"

lemma spa_main_ok:
  assumes "balboa_main cf inst dumping bound = Inr t"
  shows "spa_ok t \<and> gen_ok t"
proof -
  let ?s = "spa_start cf dumping bound"
  obtain s1 s2 where run: "generic_connect_server_cb 0 ?s = Inr s1"
      "write_bev (gnhastd_out (s1\<lparr>collector_instance := inst\<rparr>)) (gn_client_name (Some ''balboacoll'') inst)
         (s1\<lparr>collector_instance := inst\<rparr>) = Inr s2"
      "write_bev (gnhastd_out (s1\<lparr>collector_instance := inst\<rparr>)) gn_get_apiv s2 = Inr t"
    using assms by (auto simp: balboa_main_def Let_def bindE_Inr_conv)
  have g: "gnhastd_conn ?s = 0" by (simp add: spa_start_def registry.defs)
  obtain u where u: "generic_connect_server_cb 0 ?s = Inr u" "gview u = gview (new_bev 0 ?s)"
    using connect_total [of 0 ?s] g by auto
  have "gen_ok (new_bev 0 ?s)"
    by (rule new_bev_ok) (simp_all add: spa_start_def registry.defs)
  then have "gen_ok s1" using u run(1) gview_ok [OF u(2)] by simp
  then have "gen_ok (s1\<lparr>collector_instance := inst\<rparr>)" by (simp add: gen_ok_def gen_at_def live_def split: option.splits)
  then have "gen_ok t" using write_bev_view [OF run(2)] write_bev_view [OF run(3)] gview_ok by blast
  moreover have "spa_ok ?s"
    by (simp add: spa_ok_def spa_start_def registry.defs no_spaconfig_def MAX_PUMPS_def d30303_setup_def)
  moreover have "sview t = sview ?s"
    using connect_sview [OF run(1)] write_sview [OF run(2)] write_sview [OF run(3)] by simp
  ultimately show ?thesis using sview_ok by blast
qed

lemma spa_reach_ok: "spa_reach st \<Longrightarrow> spa_ok st \<and> gen_ok st"
proof (induction rule: spa_reach.induct)
  case (start cf inst dumping bound st)
  then show ?case by (rule spa_main_ok)
next
  case (step st ev e st')
  from step.hyps(4,3,2) step.IH show ?case by (rule spa_handle_ok)
qed

end
