(* ===== verification/Spa.thy ===== *)
theory Spa
  imports Spainv Protocol
begin

text \<open>
  Properties of the Balboa spa collector: its invariant, the frames that the checksum rejects, what a
  change request makes the spa do, and the places where the collector fails.
\<close>

section \<open>Frames\<close>

text \<open>
  C23. A frame that arrives with its start byte and its length byte as they were sent, but with a change
  within eight consecutive bits of the rest of the body or the checksum, is never taken for another one: the
  reader takes it off and does nothing else. A change of the length byte is not covered: another number of
  bytes would be taken.
\<close>

theorem damaged_frame_dropped:
  assumes "framed body" and "length body' = length body" and "hd body' = hd body"
    and "burst k (msg_bits (body' @ [cs])) (msg_bits (body @ [balboa_calc_cs body]))"
  shows "balboa_buf_read_cb e (st\<lparr>spa_input := [M_START] @ body' @ [cs, M_END] @ rest\<rparr>) = Inr (st\<lparr>spa_input := rest\<rparr>)"
proof -
  have "crc_bits crc_init (msg_bits (body' @ [cs])) \<noteq> crc_bits crc_init (msg_bits (body @ [balboa_calc_cs body]))"
    by (rule burst_detected) (rule assms(4))
  then have "balboa_calc_cs body' \<noteq> cs"
    using checksum_bits [of body' cs] checksum_bits [of body "balboa_calc_cs body"] by simp
  then show ?thesis unfolding read_frame [OF assms(1-3)] by (rule wrong_checksum)
qed

text \<open>A collector that is connected to a spa.\<close>

definition spa_booted :: spa where
  "spa_booted = projr (balboa_main no_conf 1 False True)"

definition calm_cenv :: cenv where
  "calm_cenv = \<lparr>ce_now = 1000, ce_open = True\<rparr>"

definition spa_answer :: string where
  "spa_answer = ''BWGSPA'' @ [CHR 0x0D, newline] @ ''00-15-27-37-ef-ed'' @ [CHR 0x0D, newline]"

lemma spa_booted: "balboa_main no_conf 1 False True = Inr spa_booted"
proof -
  have "\<not> isl (balboa_main no_conf 1 False True)" by code_simp
  then show ?thesis by (simp add: spa_booted_def)
qed

theorem damaged_frame_dropped_witness:
  "balboa_buf_read_cb calm_cenv
     (spa_booted\<lparr>spa_input := [M_START] @ [5, 0x0A, 0xBF, 0x05] @ [0x77, M_END] @ [1]\<rparr>) = Inr (spa_booted\<lparr>spa_input := [1]\<rparr>)"
proof (rule damaged_frame_dropped)
  show "framed [5, 0x0A, 0xBF, 0x04]" by (simp add: framed_def)
  show "burst (8 * 3) (msg_bits ([5, 0x0A, 0xBF, 0x05] @ [0x77]))
      (msg_bits ([5, 0x0A, 0xBF, 0x04] @ [balboa_calc_cs [5, 0x0A, 0xBF, 0x04]]))"
    using byte_burst [of 5 4 "[5, 0x0A, 0xBF]" "[0x77]"] unfolding config_checksum by simp
qed simp_all

section \<open>Requests\<close>

lemma takeWhile_stop:
  assumes "i < n" "\<not> P i"
  shows "length (takeWhile P [0..<n]) < n \<and> \<not> P (length (takeWhile P [0..<n])) \<and> (\<forall>j < length (takeWhile P [0..<n]). P j)"
proof -
  let ?k = "length (takeWhile P [0..<n])"
  have P: "P j" if "j < ?k" for j
  proof -
    have "?k \<le> n" using length_takeWhile_le [of P "[0..<n]"] by simp
    with that have "takeWhile P [0..<n] ! j = j" by (simp add: takeWhile_nth)
    with nth_mem [OF that] show ?thesis using set_takeWhileD by fastforce
  qed
  have "?k < n"
  proof (rule ccontr)
    assume "\<not> ?k < n"
    with P assms show False by simp
  qed
  with nth_length_takeWhile [of P "[0..<n]"] P show ?thesis by simp
qed

lemma presses_reach:
  assumes "goal < n"
  shows "presses n cur goal < n \<and> (cur + presses n cur goal) mod n = goal \<and>
    (\<forall>j < presses n cur goal. (cur + j) mod n \<noteq> goal)"
proof -
  let ?i = "(goal + (n - cur mod n)) mod n"
  have "cur mod n \<le> n" using assms by (simp add: less_imp_le_nat)
  then have "cur mod n + (goal + (n - cur mod n)) = goal + n" by simp
  then have "(cur mod n + (goal + (n - cur mod n))) mod n = goal" using assms by (simp only:) simp
  then have "(cur + ?i) mod n = goal" by (simp add: mod_simps)
  moreover have "?i < n" using assms by simp
  ultimately have "\<not> goal \<noteq> (cur + ?i) mod n" "?i < n" by simp_all
  from takeWhile_stop [OF this(2), of "\<lambda>i. goal \<noteq> (cur + i) mod n", OF this(1)]
  show ?thesis unfolding presses_def by metis
qed

lemma pump_control: "i < 6 \<Longrightarrow> spa_control (''p'' @ fmt_prec 2 (int i)) = Some (C_PUMP1 + of_nat i, Some 3)"
proof -
  have "list_all (\<lambda>i. spa_control (''p'' @ fmt_prec 2 (int i)) = Some (C_PUMP1 + of_nat i, Some 3)) [0..<6]"
    by code_simp
  then show "i < 6 \<Longrightarrow> ?thesis" by (simp add: list_all_iff)
qed

lemma press_fold:
  "spa_out s = Some out \<Longrightarrow>
    foldE (\<lambda>_. spa_write bs) xs s = Inr (s\<lparr>spa_out := Some (out @ concat (replicate (length xs) bs))\<rparr>)"
  by (induction xs arbitrary: s out) (auto simp: spa_write_def)

text \<open>
  C24. A change request for a pump is turned into presses of its key: the fewest that lead a pump
  that cycles through its three states from the present state to the wanted one.
\<close>

theorem change_request_presses:
  assumes "d_loc (dmem st p) = Some (''p'' @ fmt_prec 2 (int i))" and "i < 6"
    and "get_byte (dmem st p) DATALOC_DATA = Inr cur" and "unat goal < 3" and "spa_out st = Some out"
  shows "\<exists>k < 3. spa_chg_switch_cb p goal st =
      Inr (st\<lparr>spa_out := Some (out @ concat (replicate k (control_msg (C_PUMP1 + of_nat i))))\<rparr>) \<and>
    (unat cur + k) mod 3 = unat goal \<and> (\<forall>j < k. (unat cur + j) mod 3 \<noteq> unat goal)"
proof (cases "cur = goal")
  case True
  have "st\<lparr>spa_out := Some out\<rparr> = st" using assms(5) by simp
  then show ?thesis using True assms by (intro exI [of _ 0]) (simp add: spa_chg_switch_cb_def)
next
  case False
  let ?k = "presses 3 (unat cur) (unat goal)"
  have "spa_chg_switch_cb p goal st = foldE (\<lambda>_. spa_write (control_msg (C_PUMP1 + of_nat i))) [0..<?k] st"
    using False assms(1,3) pump_control [OF assms(2)] by (simp add: spa_chg_switch_cb_def)
  with presses_reach [OF assms(4), of "unat cur"] press_fold [OF assms(5), of _ "[0..<?k]"]
  show ?thesis by (intro exI [of _ ?k]) simp
qed

text \<open>A pump that is off and shall run at its second speed is pressed twice.\<close>

definition pump_coll :: spa where
  "pump_coll = (snd (alloc_dev ((new_device ''p'')\<lparr>d_loc := Some ''p01'', d_type := 1, d_subtype := 1\<rparr>) spa_booted))
     \<lparr>spa_out := Some []\<rparr>"

theorem change_request_presses_witness:
  "\<exists>k < 3. spa_chg_switch_cb 0 2 pump_coll = Inr (pump_coll\<lparr>spa_out := Some (concat (replicate k (control_msg 5)))\<rparr>) \<and>
     k mod 3 = 2"
proof -
  have dn: "dnext spa_booted = 0" by code_simp
  let ?d = "(new_device ''p'')\<lparr>d_loc := Some ''p01'', d_type := 1, d_subtype := 1\<rparr>"
  have d: "dmem pump_coll 0 = ?d" by (simp add: pump_coll_def alloc_dev_def dn)
  have b: "get_byte ?d DATALOC_DATA = Inr 0" by code_simp
  have l: "''p'' @ fmt_prec 2 (int 1) = ''p01''" by code_simp
  have "spa_out pump_coll = Some []" by (simp add: pump_coll_def)
  from change_request_presses [of pump_coll 0 1 0 2, OF _ _ _ _ this] show ?thesis
    by (auto simp: d b l [simplified] C_PUMP1_def)
qed

section \<open>Reachable states\<close>

text \<open>
  C22. In every reachable state what has been written to the spa is a sequence of well-formed frames
  with right checksums, the tables have their sizes, the index into the table of temperature limits
  is in range, devices exist only when the three answers they are made from have come in, and the
  server is connected, or a timer that connects again is pending, or the collector is stopping.
\<close>

theorem spa_invariant:
  assumes "spa_reach st"
  shows "(\<forall>out. spa_out st = Some out \<longrightarrow> (\<exists>bodies. list_all framed bodies \<and> out = concat (map spa_frame bodies))) \<and>
    length (pump_array (spacfg st)) = 6 \<and> length (prev_stat st) = 23 \<and> sp_trange (spacfg st) \<in> {0, 1} \<and>
    (devices_ready st \<longrightarrow> spa_out st \<noteq> None \<and> mac_suffix st \<noteq> [0, 0, 0] \<and>
       done_conf (spacfg st) \<and> done_panel (spacfg st) \<and> done_status (spacfg st)) \<and>
    (loop_exit st \<or> live (gnhastd_bev st) st \<or> retry_timers st = [gnhastd_conn st])"
proof -
  have ok: "spa_ok st" and g: "gen_at (gnhastd_conn st) st"
    using spa_reach_ok [OF assms] by (simp_all add: gen_ok_def)
  have "loop_exit st \<or> live (gnhastd_bev st) st \<or> retry_timers st = [gnhastd_conn st]"
    using gen_at_D(4,6) [OF g] by auto
  then show ?thesis using ok by (auto simp: spa_ok_def spa_frames_def MAX_PUMPS_def split: option.splits)
qed

definition spa_run :: "cenv \<Rightarrow> spa_event list \<Rightarrow> spa \<Rightarrow> spa res" where
  "spa_run e = foldE (\<lambda>ev st. if loop_exit st \<or> \<not> spa_enabled ev st then Inl FatalExit else spa_handle e ev st)"

lemma spa_run_reach: "spa_reach st \<Longrightarrow> spa_run e evs st = Inr st' \<Longrightarrow> spa_reach st'"
proof (induction evs arbitrary: st)
  case (Cons ev evs)
  then obtain u where "\<not> loop_exit st" "spa_enabled ev st" "spa_handle e ev st = Inr u" "spa_run e evs u = Inr st'"
    by (auto simp: spa_run_def bindE_Inr_conv split: if_splits)
  with Cons show ?case using spa_reach.step by blast
qed (simp add: spa_run_def)

text \<open>The spa answers the broadcast, is chosen and connected to.\<close>

definition joining :: "spa_event list" where
  "joining = [Ev_answer ''10.0.0.9'' (Some spa_answer), Ev_scan_end, Ev_spa_conn Ev_connected]"

definition spa_joined :: spa where
  "spa_joined = projr (spa_run calm_cenv joining spa_booted)"

lemma spa_joined: "spa_run calm_cenv joining spa_booted = Inr spa_joined"
    "spa_out spa_joined = Some (config_msg @ panel_msg 0 1)" "\<not> loop_exit spa_joined"
proof -
  have "map_option (\<lambda>st. (spa_out st, loop_exit st)) (case spa_run calm_cenv joining spa_booted of Inl _ \<Rightarrow> None | Inr st \<Rightarrow> Some st)
      = Some (Some (config_msg @ panel_msg 0 1), False)"
    by code_simp
  then show "spa_run calm_cenv joining spa_booted = Inr spa_joined"
    "spa_out spa_joined = Some (config_msg @ panel_msg 0 1)" "\<not> loop_exit spa_joined"
    by (auto simp: spa_joined_def split: sum.splits)
qed

lemma joined_reach: "spa_reach spa_joined"
  using spa_run_reach [OF spa_reach.start [OF spa_booted] spa_joined(1)] .

theorem spa_invariant_witness:
  "spa_out spa_joined = Some (config_msg @ panel_msg 0 1) \<and>
   (\<exists>bodies. list_all framed bodies \<and> config_msg @ panel_msg 0 1 = concat (map spa_frame bodies)) \<and>
   (live (gnhastd_bev spa_joined) spa_joined \<or> retry_timers spa_joined = [gnhastd_conn spa_joined])"
  using spa_invariant [OF joined_reach] spa_joined(2,3) by auto

section \<open>Failures\<close>

text \<open>
  The temperatures of a spa that is set to Celsius reach the server as Fahrenheit values, though
  the device was registered with the Celsius scale: the update asks for the scale with number 0.
\<close>

theorem celsius_sent_as_fahrenheit:
  assumes "find_device_byuid st (spa_uid st suffix) = Some p" and "d_name (dmem st p) \<noteq> None" and "d_proto (dmem st p) \<noteq> 0"
    and "dev_type_of (d_type (dmem st p)) = Some DEVICE_SENSOR" and "subtype_of (d_subtype (dmem st p)) = Some SUBTYPE_TEMP"
    and "d_scale (dmem st p) = 1" and "gnhastd_out st = Some k" and "bufs st k = Some out"
  shows "(\<exists>pre post. gn_register_device (dmem st p) = pre @ kv SC_SCALE ''1'' @ post) \<and>
    (\<exists>st'. spa_reading False suffix v st = Inr (True, st') \<and> d_data (dmem st' p) = v \<and>
      bufs st' k = Some (out @ ''upd '' @ kv SC_UID (d_uid (dmem st p)) @ '' '' @
        kv SC_TEMP (fmt_f (gn_scale_temp v 1 0)) @ [newline]))"
proof
  let ?d = "dmem st p"
  obtain name where name: "d_name ?d = Some name" using assms(2) by blast
  have "dev_type_of 0 \<noteq> Some DEVICE_SENSOR" "subtype_of 0 \<noteq> Some SUBTYPE_TEMP" by code_simp+
  then have reg: "\<not> unregistered ?d" using assms(3-5) by (auto simp: unregistered_def)
  have one: "fmt_b 1 = ''1''" by code_simp
  show "\<exists>pre post. gn_register_device ?d = pre @ kv SC_SCALE ''1'' @ post"
    by (rule exI [of _ "''reg '' @ kv SC_UID (d_uid ?d) @ '' '' @ kvq SC_NAME name @ '' '' @
          (case d_rrdname ?d of None \<Rightarrow> [] | Some r \<Rightarrow> kv SC_RRDNAME r @ '' '')"],
        rule exI [of _ "'' '' @ kv SC_DEVTYPE (fmt_b (d_type ?d)) @ '' '' @ kv SC_PROTO (fmt_b (d_proto ?d)) @ '' '' @
          kv SC_SUBTYPE (fmt_b (d_subtype ?d)) @ [newline]"])
      (simp add: gn_register_device_def name reg assms(6) one)
  let ?d1 = "store_data_dev ?d DATALOC_DATA v"
  have w: "store_width d = Some W64 \<and> get_width d = Some W64 \<and> datatype_dev d = DATATYPE_DOUBLE \<and> argdev_sc d = Some SC_TEMP"
    if "d_type d = d_type ?d" "d_subtype d = d_subtype ?d" for d
    using that assms(4,5)
    by (simp add: store_width_def store_subtype_width_def get_width_def get_subtype_width_def datatype_dev_def argdev_sc_def)
  let ?cleared = "?d\<lparr>d_last := d_data ?d, d_flags := CLEAR_FLAG (d_flags ?d) DEVFLAG_NODATA\<rparr>"
  have d1: "?d1 = ?cleared\<lparr>d_data := v\<rparr>"
    using w [of ?cleared] by (simp add: store_data_dev_def Let_def set_loc_def)
  have "argdev ?d1 = sc_name SC_TEMP" by (rule argdev_name) (use w [of ?d1] in \<open>simp add: d1\<close>)
  moreover have "GNC_GET_SCALE 0 = 0" by code_simp
  moreover have "QUERY_BIT (0 :: u32) x = False" for x by (simp add: QUERY_BIT_def)
  moreover have "unregistered ?d1 = unregistered ?d" by (simp add: unregistered_def d1)
  moreover have "get_data_dev ?d1 DATALOC_DATA b = v" for b
    using w [of ?d1] by (simp add: d1 get_data_dev_def data_loc_def)
  ultimately have msg: "gn_update_device ?d1 0 = Inr (''upd '' @ kv SC_UID (d_uid ?d) @ '' '' @
      kv SC_TEMP (fmt_f (gn_scale_temp v 1 0)) @ [newline])"
    using name reg w [of ?d1] assms(5,6)
    by (simp add: gn_update_device_def d1 update_values_def gn_maybe_scale_def kv_def split: option.split)
  show "\<exists>st'. spa_reading False suffix v st = Inr (True, st') \<and> d_data (dmem st' p) = v \<and>
      bufs st' k = Some (out @ ''upd '' @ kv SC_UID (d_uid ?d) @ '' '' @ kv SC_TEMP (fmt_f (gn_scale_temp v 1 0)) @ [newline])"
    using msg assms(1,7,8)
    by (simp add: spa_reading_def Let_def send_msg_def write_bev_def gnhastd_out_def upd_dev_def d1)
qed

text \<open>A spa of 37 degrees Celsius is reported with the same temperature in Fahrenheit.\<close>

definition celsius_dev :: device where
  "celsius_dev = (new_device ''000000-curtemp'')\<lparr>d_name := Some ''Spa'', d_type := dev_type_code DEVICE_SENSOR,
     d_proto := proto_code PROTO_POOL, d_subtype := subtype_code SUBTYPE_TEMP, d_scale := 1\<rparr>"

definition celsius_coll :: spa where
  "celsius_coll = insert_device 0 (snd (alloc_dev celsius_dev spa_booted))"

theorem celsius_sent_as_fahrenheit_witness:
  "\<exists>st' out. bufs celsius_coll 0 = Some out \<and>
     spa_reading False ''-curtemp'' (dbl_of_int 37) celsius_coll = Inr (True, st') \<and>
     bufs st' 0 = Some (out @ ''upd '' @ kv SC_UID ''000000-curtemp'' @ '' '' @ kv SC_TEMP (fmt_f (CTOF (dbl_of_int 37))) @ [newline])"
proof -
  let ?d = "dmem celsius_coll 0"
  let ?u = "''000000-curtemp''"
  have dn: "dnext spa_booted = 0" and mac: "mac_suffix spa_booted = [0, 0, 0]" and none: "devtab spa_booted ?u = None"
    and out: "gnhastd_out spa_booted = Some 0" and buf: "bufs spa_booted 0 \<noteq> None"
    by code_simp+
  have "(d_proto celsius_dev \<noteq> 0, dev_type_of (d_type celsius_dev), subtype_of (d_subtype celsius_dev), d_uid celsius_dev,
      d_scale celsius_dev, d_name celsius_dev) = (True, Some DEVICE_SENSOR, Some SUBTYPE_TEMP, ?u, 1, Some ''Spa'')"
    by code_simp
  note dev = this [unfolded prod.inject]
  have d: "?d = celsius_dev\<lparr>d_onq_all := True, d_flags := SET_FLAG (d_flags celsius_dev) DEVFLAG_NODATA\<rparr>"
    by (simp add: celsius_coll_def insert_device_def alloc_dev_def dn upd_dev_def celsius_dev_def new_device_def Let_def)
  have uid: "spa_uid celsius_coll ''-curtemp'' = ?u"
  proof -
    have "mac_suffix celsius_coll = [0, 0, 0]"
      by (simp add: celsius_coll_def insert_device_def alloc_dev_def upd_dev_def Let_def mac)
    moreover have "hex_text True [0, 0, 0] @ ''-curtemp'' = ?u" by code_simp
    ultimately show ?thesis by (simp only: spa_uid_def)
  qed
  have "find_device_byuid celsius_coll ?u = Some 0"
    using dev none by (simp add: celsius_coll_def insert_device_def alloc_dev_def dn upd_dev_def Let_def find_eta rb_insert_def)
  moreover have "gnhastd_out celsius_coll = Some 0" "bufs celsius_coll 0 \<noteq> None"
    using out buf by (simp_all add: celsius_coll_def insert_device_def alloc_dev_def upd_dev_def Let_def gnhastd_out_def)
  ultimately show ?thesis
    using celsius_sent_as_fahrenheit [of celsius_coll "''-curtemp''" 0 0 _ "dbl_of_int 37"] dev
    by (auto simp: uid d gn_scale_temp_def scale_at_def tscales_def enum_at_def)
qed

text \<open>
  Until the spa has been found, the first ping of the server, check of its own health or reminder
  ends the collector: each asks the spa for its configuration through a null pointer.
\<close>

theorem early_ping_faults:
  assumes "balboa_main cf inst dumping bound = Inr st" and "15 \<le> ce_now e"
  shows "coll_ping (spa_hooks e) e args st = Inl NullDeref \<and>
    generic_collector_health_cb (spa_ghooks e) c st = Inl NullDeref \<and> spa_handle e Ev_keepalive st = Inl NullDeref"
proof -
  obtain s1 s2 where run: "generic_connect_server_cb 0 (spa_start cf dumping bound) = Inr s1"
      "write_bev (gnhastd_out (s1\<lparr>collector_instance := inst\<rparr>)) (gn_client_name (Some ''balboacoll'') inst)
         (s1\<lparr>collector_instance := inst\<rparr>) = Inr s2"
      "write_bev (gnhastd_out (s1\<lparr>collector_instance := inst\<rparr>)) gn_get_apiv s2 = Inr st"
    using assms(1) by (auto simp: balboa_main_def Let_def bindE_Inr_conv)
  have "sview st = sview (spa_start cf dumping bound)"
    using connect_sview [OF run(1)] write_sview [OF run(2)] write_sview [OF run(3)] by simp
  then have "spa_out st = None" "spa_lastupd st = 0" by (simp_all add: sview_def spa_start_def registry.defs)
  then have "spa_is_ok e st = Inl NullDeref" "send_config_req st = Inl NullDeref"
    using assms(2) by (simp_all add: spa_is_ok_def send_config_req_def spa_write_def)
  then show ?thesis
    by (simp add: coll_ping_def generic_collector_health_cb_def spa_ghooks_def spa_hooks_def hooks.defs)
qed

theorem early_ping_faults_witness: "coll_ping (spa_hooks calm_cenv) calm_cenv [] spa_booted = Inl NullDeref"
  using early_ping_faults [OF spa_booted, of calm_cenv] by (simp add: calm_cenv_def)

text \<open>
  A message that arrives in two parts is lost, and the stream with it: the first part is taken
  for the whole, completed with zeros and dropped for its checksum; if the rest does not begin with
  the start byte nothing is read any more, whatever follows.
\<close>

theorem split_message_ends_stream:
  assumes "framed body" and "spa_frame body = x @ b # y" and "2 \<le> length x" and "b \<noteq> M_START"
    and "balboa_calc_cs (take (length body) (tl x @ replicate (length body) 0)) \<noteq> 0" and "spa_input st = []"
  shows "spa_receive ((e, x) # (e', b # y) # ds) st = Inr (st\<lparr>spa_input := b # y @ concat (map snd ds)\<rparr>)"
proof -
  let ?n = "length body"
  obtain c bs where body: "body = c # bs" using assms(1) by (cases body) (auto simp: framed_def)
  have c: "unat c = ?n + 1" using assms(1) by (simp add: framed_def body)
  have all: "length x + 1 + length y = ?n + 3"
    using arg_cong [OF assms(2), of length] by (simp add: spa_frame_def)
  have y: "y \<noteq> []"
  proof
    assume "y = []"
    then have "last (spa_frame body) = b" using assms(2) by simp
    with assms(4) show False by (simp add: spa_frame_def M_START_def M_END_def)
  qed
  then have short: "length x \<le> ?n + 1" using all by (cases y) auto
  obtain xs where x: "x = M_START # c # xs"
    using assms(2,3) by (cases x; cases "tl x") (auto simp: spa_frame_def body)
  let ?data = "x @ replicate (?n + 3 - length x) 0"
  have take: "balboa_take x = (?data, [])"
    using short by (simp add: balboa_take_def Let_def x c)
  have len: "length ?data = ?n + 3" using short by simp
  have "take ?n (zs @ replicate i 0) = take ?n (zs @ replicate j 0)"
    if "?n \<le> length zs + i" "?n \<le> length zs + j" for i j and zs :: "u8 list"
    using that by (simp add: min.absorb1)
  from this [of "tl x" "?n + 3 - length x" ?n] have "take ?n (drop 1 ?data) = take ?n (tl x @ replicate ?n 0)"
    using short by (simp add: x)
  moreover have "?data ! (?n + 1) = 0" using short by (simp add: nth_append)
  ultimately have "balboa_message e ?data s = Inr s" for s :: "'a spa_scheme"
    using assms(5) len by (simp add: balboa_message_def Let_def within_def)
  then have first: "spa_handle e (Ev_spa_data x) st = Inr st"
    using take assms(6) by (simp add: balboa_buf_read_cb_def Let_def x)
  have second: "spa_handle e' (Ev_spa_data (b # y)) st = Inr (st\<lparr>spa_input := b # y\<rparr>)"
    using assms(4,6) by (simp add: balboa_buf_read_cb_def Let_def)
  have "spa_receive ds (st\<lparr>spa_input := b # y\<rparr>) = Inr (st\<lparr>spa_input := b # y @ concat (map snd ds)\<rparr>)"
    using out_of_sync [OF assms(4), of "st\<lparr>spa_input := b # y\<rparr>" y ds] by simp
  then show ?thesis using first second by (simp add: spa_receive_def)
qed

theorem split_message_ends_stream_witness:
  "spa_receive [(calm_cenv, [0x7E, 5, 0x0A, 0xBF]), (calm_cenv, [0x04, 0x77, 0x7E]), (calm_cenv, spa_frame [5, 0x0A, 0xBF, 0x04])]
     spa_booted = Inr (spa_booted\<lparr>spa_input := [0x04, 0x77, 0x7E] @ spa_frame [5, 0x0A, 0xBF, 0x04]\<rparr>)"
proof -
  have "framed [5, 0x0A, 0xBF, 0x04]" by (simp add: framed_def)
  moreover have "spa_frame [5, 0x0A, 0xBF, 0x04] = [0x7E, 5, 0x0A, 0xBF] @ 0x04 # [0x77, 0x7E]"
    unfolding spa_frame_def config_checksum by (simp add: M_START_def M_END_def)
  moreover have "(0x04 :: u8) \<noteq> M_START" by (simp add: M_START_def)
  moreover have "balboa_calc_cs (take 4 (tl [0x7E, 5, 0x0A, 0xBF] @ replicate 4 0)) \<noteq> 0" by code_simp
  moreover have "spa_input spa_booted = []" by code_simp
  ultimately show ?thesis
    using split_message_ends_stream [of "[5, 0x0A, 0xBF, 0x04]" "[0x7E, 5, 0x0A, 0xBF]" "0x04" "[0x77, 0x7E]" spa_booted
        calm_cenv calm_cenv "[(calm_cenv, spa_frame [5, 0x0A, 0xBF, 0x04])]"]
    by simp
qed

section \<open>Finding the spa\<close>

lemma disc_reads:
  assumes "list_all (\<lambda>(a, t). length t < 2048) ds" and "length (disc_list d) = 16"
    and "\<And>i. disc_count d \<le> i \<Longrightarrow> i < 16 \<Longrightarrow> disc_list d ! i = no_resp"
  shows "\<exists>d'. foldE (\<lambda>(a, t). cb_d30303_read a (Some t)) ds d = Inr d' \<and> disc_ev d' = disc_ev d \<and>
    dd_hostname d' = dd_hostname d \<and> dd_mac_prefix d' = dd_mac_prefix d \<and> dd_url d' = dd_url d \<and>
    length (disc_list d') = 16 \<and>
    (\<forall>i < 16. disc_list d' ! i =
       (if i < disc_count d then disc_list d ! i
        else if i < 15 \<and> i - disc_count d < length ds
        then (case dgram_entry (fst (ds ! (i - disc_count d))) (snd (ds ! (i - disc_count d))) of
                None \<Rightarrow> no_resp | Some r \<Rightarrow> r)
        else no_resp))"
  using assms
proof (induction ds arbitrary: d)
  case (Cons q ds)
  obtain a t where q: "q = (a, t)" by fastforce
  let ?n = "disc_count d"
  obtain d1 where d1: "cb_d30303_read a (Some t) d = Inr d1" "disc_ev d1 = disc_ev d" "dd_hostname d1 = dd_hostname d"
      "dd_mac_prefix d1 = dd_mac_prefix d" "dd_url d1 = dd_url d" "disc_count d1 = ?n + 1"
      "disc_list d1 = (if 15 \<le> ?n then disc_list d else
         (disc_list d)[?n := (case dgram_entry a t of None \<Rightarrow> disc_list d ! ?n | Some r \<Rightarrow> r)])"
    using Cons.prems(1) q
    by (cases "15 \<le> ?n"; cases "dgram_entry a t") (auto simp: cb_d30303_read_def Let_def MAX_D30303_DEVS_def)
  have fresh: "disc_list d1 ! i = no_resp" if "disc_count d1 \<le> i" "i < 16" for i
    using that Cons.prems(3) [of i] by (simp add: d1)
  have "length (disc_list d1) = 16" using Cons.prems(2) by (simp add: d1)
  from Cons.IH [OF _ this fresh] Cons.prems(1) obtain d' where
    d': "foldE (\<lambda>(a, t). cb_d30303_read a (Some t)) ds d1 = Inr d'" "disc_ev d' = disc_ev d" "dd_hostname d' = dd_hostname d"
      "dd_mac_prefix d' = dd_mac_prefix d" "dd_url d' = dd_url d" "length (disc_list d') = 16"
    and nth: "\<And>i. i < 16 \<Longrightarrow> disc_list d' ! i =
       (if i < disc_count d1 then disc_list d1 ! i
        else if i < 15 \<and> i - disc_count d1 < length ds
        then (case dgram_entry (fst (ds ! (i - disc_count d1))) (snd (ds ! (i - disc_count d1))) of
                None \<Rightarrow> no_resp | Some r \<Rightarrow> r)
        else no_resp)"
    by (auto simp: d1)
  have "disc_list d' ! i = (if i < ?n then disc_list d ! i
        else if i < 15 \<and> i - ?n < length (q # ds)
        then (case dgram_entry (fst ((q # ds) ! (i - ?n))) (snd ((q # ds) ! (i - ?n))) of
                None \<Rightarrow> no_resp | Some r \<Rightarrow> r)
        else no_resp)" if i: "i < 16" for i
  proof -
    consider "i < ?n" | "i = ?n" | j where "i = Suc (?n + j)"
      using less_iff_Suc_add [of ?n i] by fastforce
    then show ?thesis
    proof cases
      case 1
      with nth [OF i] show ?thesis by (simp add: d1)
    next
      case 2
      with nth [OF i] Cons.prems(2,3) i show ?thesis by (auto simp: d1 q split: option.split)
    next
      case (3 j)
      then have "i - ?n = Suc j" "i - disc_count d1 = j" "\<not> i < disc_count d1" by (simp_all add: d1)
      with nth [OF i] 3 show ?thesis by simp
    qed
  qed
  with d1 d' show ?case by (simp add: q)
qed auto

definition entry_of :: "string \<times> string \<Rightarrow> disc_resp" where
  "entry_of q = (case dgram_entry (fst q) (snd q) of None \<Rightarrow> no_resp | Some r \<Rightarrow> r)"

lemma entry_search:
  "disc_search None (Some m) ip (map entry_of qs @ replicate n no_resp) =
     Inr (map_option (\<lambda>r. ''http://'' @ the (dr_ipaddr r)) (find (mac_matches (Some m)) (List.map_filter (\<lambda>(a, t). dgram_entry a t) qs)))"
proof (induction qs arbitrary: ip)
  case Nil
  have "disc_search None (Some m) ip (replicate n no_resp) = Inr None" for ip
    by (induction n arbitrary: ip) (simp_all add: name_matches_def mac_matches_def no_resp_def)
  then show ?case by (simp add: map_filter_simps)
next
  case (Cons q qs)
  have "mac_matches (Some m) no_resp = False" by (simp add: mac_matches_def no_resp_def)
  moreover have "dr_ipaddr r \<noteq> None" if "dgram_entry (fst q) (snd q) = Some r" for r
    using that by (auto simp: dgram_entry_def Let_def split: if_splits)
  ultimately show ?case
    using Cons.IH by (cases "dgram_entry (fst q) (snd q)")
      (auto simp: entry_of_def name_matches_def http_url_def map_filter_simps split_def)
qed

text \<open>
  The spa that the collector connects to is the first among the first fifteen answers whose
  hardware address begins with the prefix; when there is none the collector stops.
\<close>

theorem discovery_picks_first:
  assumes "list_all (\<lambda>(a, t). length t < 2048) ds"
  shows "\<exists>d d'. foldE (\<lambda>(a, t). cb_d30303_read a (Some t)) ds (d30303_setup True (Some m) None) = Inr d \<and>
    cb_end_d30303 d = Inr (d', map_option (\<lambda>r. (''http://'' @ the (dr_ipaddr r), None))
      (find (mac_matches (Some m)) (List.map_filter (\<lambda>(a, t). dgram_entry a t) (take 15 ds))))"
proof -
  let ?d0 = "d30303_setup True (Some m) None"
  have d0: "length (disc_list ?d0) = 16" "disc_count ?d0 = 0" "disc_ev ?d0" "dd_hostname ?d0 = None"
      "dd_mac_prefix ?d0 = Some m" "dd_url ?d0 = None" "\<And>i. i < 16 \<Longrightarrow> disc_list ?d0 ! i = no_resp"
    by (simp_all add: d30303_setup_def MAX_D30303_DEVS_def)
  from disc_reads [OF assms d0(1) d0(7)] d0 obtain d where
      d: "foldE (\<lambda>(a, t). cb_d30303_read a (Some t)) ds ?d0 = Inr d" "disc_ev d" "dd_hostname d = None"
        "dd_mac_prefix d = Some m" "dd_url d = None" "length (disc_list d) = 16"
      and nth: "\<And>i. i < 16 \<Longrightarrow> disc_list d ! i = (if i < 15 \<and> i < length ds then entry_of (ds ! i) else no_resp)"
    by (auto simp: entry_of_def)
  let ?qs = "take 15 ds"
  have "disc_list d = map entry_of ?qs @ replicate (16 - length ?qs) no_resp"
    using d(6) by (intro nth_equalityI) (auto simp: nth nth_append)
  then show ?thesis
    using d by (auto simp: cb_end_d30303_def Let_def entry_search split: option.split)
qed

theorem discovery_picks_first_witness:
  "\<exists>d d'. foldE (\<lambda>(a, t). cb_d30303_read a (Some t)) [(''10.0.0.7'', ''hello''), (''10.0.0.9'', spa_answer)]
       (d30303_setup True (Some ''00-15-27'') None) = Inr d \<and>
     cb_end_d30303 d = Inr (d', Some (''http://10.0.0.9'', None))"
proof -
  let ?ds = "[(''10.0.0.7'', ''hello''), (''10.0.0.9'', spa_answer)]"
  have "map_option (\<lambda>r. (''http://'' @ the (dr_ipaddr r), None))
      (find (mac_matches (Some ''00-15-27'')) (List.map_filter (\<lambda>(a, t). dgram_entry a t) (take 15 ?ds))) =
    Some (''http://10.0.0.9'', None :: string option)"
    by code_simp
  moreover have "list_all (\<lambda>(a, t). length t < 2048) ?ds" by code_simp
  ultimately show ?thesis using discovery_picks_first [of ?ds "''00-15-27''"] by metis
qed

end
