(* ===== verification/Ad2usb.thy ===== *)
theory Ad2usb
  imports Genconn Build Scan
begin

text \<open>
  \<^verbatim>\<open>ad2usbcoll/collector.c\<close>: the collector for an alarm panel behind an AD2USB adapter. The panel
  repeats its display every few seconds; while a zone is open it cycles through the open zones. A
  counter for each zone, counted down with every pass over the input, says when a zone that is no
  longer shown counts as closed.
\<close>

section \<open>State\<close>

datatype alarmstatus = ALARM_READY | ALARM_STAY | ALARM_NIGHTSTAY | ALARM_INSTANTMAX | ALARM_AWAY | ALARM_FAULT

definition alarmstatuses :: "alarmstatus list" where
  "alarmstatuses = [ALARM_READY, ALARM_STAY, ALARM_NIGHTSTAY, ALARM_INSTANTMAX, ALARM_AWAY, ALARM_FAULT]"

definition alarmstatus_code :: "alarmstatus \<Rightarrow> int" where
  "alarmstatus_code s = int (enum_index s alarmstatuses)"

definition alarmtext :: "string list" where
  "alarmtext = [''Ready'', ''Stay'', ''Stay/Night'', ''Instant/Max'', ''Away'', ''Fault'']"

text \<open>
  The options \<^verbatim>\<open>zones\<close>, \<^verbatim>\<open>seccode\<close> and \<^verbatim>\<open>logfaults\<close>, the globals of the collector, and the
  connection to the adapter: what has been written to it, and its input. \<open>ad_conn_made\<close>:
  \<^verbatim>\<open>gnhastd_conn\<close> is set. \<open>wake_pending\<close>: the timer of \<^verbatim>\<open>ad2usb_wake_up\<close> is pending. The uid
  prefix is taken to fit in the buffers of 256 bytes.
\<close>

record ad2usb = gencoll +
  ad_zones :: int
  ad_seccode :: int
  ad_logfaults :: bool
  ad_dumping :: bool
  ad_prefix :: string
  ad_conn_made :: bool
  first_update :: bool
  zonefaults :: "int list"
  ad_lastupd :: int
  ad_out :: string
  ad_input :: "u8 list"
  wake_pending :: bool

definition ad_uid :: "'a ad2usb_scheme \<Rightarrow> string \<Rightarrow> string" where
  "ad_uid st suffix = ad_prefix st @ ''-'' @ suffix"

definition ad_find :: "'a ad2usb_scheme \<Rightarrow> string \<Rightarrow> dptr option" where
  "ad_find st suffix = find_device_byuid st (ad_uid st suffix)"

definition ad_write :: "string \<Rightarrow> 'a ad2usb_scheme \<Rightarrow> 'a ad2usb_scheme" where
  "ad_write m st = st\<lparr>ad_out := ad_out st @ m\<rparr>"

definition zone_name :: "int \<Rightarrow> string" where
  "zone_name n = ''zone'' @ int_dec n"

text \<open>\<^verbatim>\<open>for (i=0; i < zones; i++)\<close>.\<close>

definition zone_range :: "int \<Rightarrow> nat list" where
  "zone_range zones = [0..<nat zones]"

section \<open>Requests of the server\<close>

definition ad_is_ok :: "cenv \<Rightarrow> 'a ad2usb_scheme \<Rightarrow> (bool \<times> 'a ad2usb_scheme) res" where
  "ad_is_ok e st = Inr (ce_now e - ad_lastupd st < 60, st)"

text \<open>The key of a state; the key of \<^verbatim>\<open>ALARM_NIGHTSTAY\<close> is pressed twice.\<close>

definition alarm_button :: "alarmstatus option \<Rightarrow> int option" where
  "alarm_button s =
     (case s of
        Some ALARM_READY \<Rightarrow> Some 1 | Some ALARM_STAY \<Rightarrow> Some 3 | Some ALARM_NIGHTSTAY \<Rightarrow> Some 33
      | Some ALARM_INSTANTMAX \<Rightarrow> Some 7 | Some ALARM_AWAY \<Rightarrow> Some 2 | _ \<Rightarrow> None)"

definition ad_chg_cb :: "dptr \<Rightarrow> 'a ad2usb_scheme \<Rightarrow> 'a ad2usb_scheme res" where
  "ad_chg_cb p st =
     (if get_width (dmem st p) = Some W32 \<or> get_width (dmem st p) = Some W64 then Inl OutOfBounds
      else if ad_seccode st = 0 then Inr st
      else if ad_uid st ''status'' \<noteq> d_uid (dmem st p) then Inr st
      else bindE (get_byte (dmem st p) DATALOC_CHANGE) (\<lambda>state.
             case alarm_button (enum_at alarmstatuses (unat state)) of
               None \<Rightarrow> Inr st
             | Some button \<Rightarrow> Inr (ad_write (fmt_prec 4 (ad_seccode st) @ int_dec button) st)))"

definition ad_hooks :: "cenv \<Rightarrow> 'a ad2usb_scheme hooks" where
  "ad_hooks e = weak_stubs\<lparr>collector_is_ok := ad_is_ok e, coll_chg_cb := ad_chg_cb\<rparr>"

definition ad_ghooks :: "cenv \<Rightarrow> 'a ad2usb_scheme ghooks" where
  "ad_ghooks e = hooks.extend (ad_hooks e) \<lparr>genconn_connect_cb = (\<lambda>_ _ st. Inr st)\<rparr>"

section \<open>Devices\<close>

text \<open>
  \<^verbatim>\<open>store_data_dev\<close> from a variable of type \<^verbatim>\<open>int\<close>: for a device of 64 bits more than the
  variable is read.
\<close>

definition store_int :: "int \<Rightarrow> device \<Rightarrow> device res" where
  "store_int v d =
     (if store_width d = Some W64 then Inl OutOfBounds else Inr (store_data_dev d DATALOC_DATA (word_of_int v)))"

definition ad_new_int_dev :: "subtype \<Rightarrow> int \<Rightarrow> string \<Rightarrow> 'a ad2usb_scheme \<Rightarrow> 'a ad2usb_scheme res" where
  "ad_new_int_dev subtype val suffix st =
     (let uid = ad_uid st suffix
      in bindE (provide_device
                  ((new_device uid)\<lparr>d_loc := Some uid, d_type := dev_type_code DEVICE_SENSOR,
                     d_proto := proto_code PROTO_SENSOR_AD2USB, d_subtype := subtype_code subtype\<rparr>) st) (\<lambda>(p, st1).
         bindE (store_int val (dmem st1 p)) (\<lambda>d.
           let st2 = upd_dev p (\<lambda>_. d) st1
           in if \<not> ad_dumping st2 \<and> d_name d \<noteq> None \<and> ad_conn_made st2
              then bindE (send_register (gnhastd_out st2) p st2) (\<lambda>st3. send_update (gnhastd_out st3) p st3)
              else Inr st2)))"

text \<open>The line that is logged.\<close>

definition maybe_log_status :: "device \<Rightarrow> int \<Rightarrow> 'a ad2usb_scheme \<Rightarrow> string res" where
  "maybe_log_status d val st =
     (let uid = d_uid d; name = (case d_name d of None \<Rightarrow> [] | Some n \<Rightarrow> n)
      in if \<not> ad_logfaults st then Inr []
         else if strstr ''lowbat'' uid
         then Inr (''uid:'' @ uid @ '' '' @ name @ '' '' @ (if val \<noteq> 0 then ''Failure'' else ''OK''))
         else if strstr ''acpower'' uid
         then Inr (''uid:'' @ uid @ '' '' @ name @ '' '' @ (if val \<noteq> 0 then ''On'' else ''Off''))
         else if subtype_of (d_subtype d) = Some SUBTYPE_SWITCH
         then Inr (''uid:'' @ uid @ '' '' @ name @ '' '' @ (if val \<noteq> 0 then ''faulted'' else ''clear''))
         else if subtype_of (d_subtype d) = Some SUBTYPE_ALARMSTATUS
         then if 0 \<le> val \<and> val < int (length alarmtext)
              then Inr (name @ '' status changed to '' @ alarmtext ! nat val) else Inl OutOfBounds
         else Inr [])"

text \<open>
  A value is stored in its device, and sent when it has changed or no pass over the input has ended
  yet. The previous value is read for a device with a name only.
\<close>

definition ad_update_int_dev :: "int \<Rightarrow> string \<Rightarrow> bool \<Rightarrow> 'a ad2usb_scheme \<Rightarrow> 'a ad2usb_scheme res" where
  "ad_update_int_dev val suffix transmit st =
     (case ad_find st suffix of
        None \<Rightarrow> Inl FatalExit
      | Some p \<Rightarrow>
          bindE (if get_width (dmem st p) = None \<and> d_name (dmem st p) = None then Inr 0
                 else get_byte (dmem st p) DATALOC_DATA) (\<lambda>prevval.
          bindE (store_int val (dmem st p)) (\<lambda>d.
            let st1 = upd_dev p (\<lambda>_. d) st
            in if d_name d \<noteq> None \<and> (int (unat prevval) \<noteq> val \<or> first_update st1) \<and> transmit
               then bindE (send_update (gnhastd_out st1) p st1) (\<lambda>st2.
                    bindE (maybe_log_status d val st2) (\<lambda>_. Inr st2))
               else Inr st1)))"

definition ensure_int_dev :: "subtype \<Rightarrow> int \<Rightarrow> string \<Rightarrow> 'a ad2usb_scheme \<Rightarrow> 'a ad2usb_scheme res" where
  "ensure_int_dev subtype val suffix st =
     (if ad_find st suffix = None then ad_new_int_dev subtype val suffix st else Inr st)"

definition ad_maybe_dump_conf :: "cenv \<Rightarrow> int \<Rightarrow> 'a ad2usb_scheme \<Rightarrow> 'a ad2usb_scheme res" where
  "ad_maybe_dump_conf e zones st =
     bindE (foldE (\<lambda>i. ensure_int_dev SUBTYPE_SWITCH 0 (zone_name (int i + 1))) (zone_range zones) st) (\<lambda>st1.
     bindE (ensure_int_dev SUBTYPE_ALARMSTATUS 0 ''status'' st1) (\<lambda>st2.
     bindE (ensure_int_dev SUBTYPE_SWITCH 0 ''lowbat'' st2) (\<lambda>st3.
     bindE (ensure_int_dev SUBTYPE_SWITCH 1 ''acpower'' st3) (\<lambda>st4.
     bindE (ensure_int_dev SUBTYPE_SWITCH 1 ''fire'' st4) (\<lambda>st5.
       if ad_dumping st5
       then bindE (dump_conf st5 0 (ce_open e) (coll_conf st5)) (\<lambda>_. Inl CleanExit)
       else Inr st5)))))"

section \<open>Expanders and relays\<close>

definition extratype :: "string list" where
  "extratype = [''none'', ''exp'', ''rel'']"

text \<open>
  The three numbers of \<^verbatim>\<open>%d,%d,%d\<close>; where one is missing the variables that are used next are
  not set.
\<close>

definition scan_exp :: "string \<Rightarrow> (int \<times> int \<times> int) option" where
  "scan_exp s =
     (case scan_d s of
        Some (addr, c # r) \<Rightarrow>
          if c \<noteq> CHR '','' then None
          else (case scan_d r of
                  Some (inp, c' # r') \<Rightarrow>
                    if c' \<noteq> CHR '','' then None
                    else (case scan_d r' of Some (val, _) \<Rightarrow> Some (sint addr, sint inp, sint val) | None \<Rightarrow> None)
                | _ \<Rightarrow> None)
      | _ \<Rightarrow> None)"

text \<open>\<^verbatim>\<open>strcmp\<close> is not 0 for texts that differ.\<close>

definition exp_type :: "string \<Rightarrow> nat" where
  "exp_type p = (if p \<noteq> ''!EXP'' then 1 else if p \<noteq> ''!REL'' then 2 else 0)"

definition exp_name :: "nat \<Rightarrow> int \<Rightarrow> int \<Rightarrow> string" where
  "exp_name type addr inp = extratype ! type @ ''-'' @ fmt_prec 2 addr @ ''-'' @ fmt_prec 2 inp"

text \<open>A device that is not known yet is made, and the configuration written.\<close>

definition build_exp :: "cenv \<Rightarrow> int \<Rightarrow> string \<Rightarrow> 'a ad2usb_scheme \<Rightarrow> 'a ad2usb_scheme res" where
  "build_exp e val suffix st =
     bindE (ad_new_int_dev SUBTYPE_SWITCH val suffix st) (\<lambda>st1.
     bindE (dump_conf st1 0 (ce_open e) (coll_conf st1)) (\<lambda>(cf, out).
       Inr (st1\<lparr>coll_conf := cf, coll_conf_file := (case out of None \<Rightarrow> coll_conf_file st1 | Some f \<Rightarrow> Some f)\<rparr>)))"

definition ad2usb_handle_exp :: "cenv \<Rightarrow> string \<Rightarrow> nat \<Rightarrow> 'a ad2usb_scheme \<Rightarrow> 'a ad2usb_scheme res" where
  "ad2usb_handle_exp e data len st =
     (if len < 10 then Inr st
      else case strtok (CHR '':'') data of
             p # q # _ \<Rightarrow>
               (case scan_exp q of
                  None \<Rightarrow> Inl Uninit
                | Some (addr, inp, val) \<Rightarrow>
                    let suffix = exp_name (exp_type p) addr inp
                    in bindE (if ad_find st suffix = None then build_exp e val suffix st else Inr st)
                         (ad_update_int_dev val suffix True))
           | _ \<Rightarrow> Inr st)"

section \<open>Wireless sensors\<close>

text \<open>The bit of a loop, counted from 1.\<close>

definition rfx_bit :: "nat \<Rightarrow> nat" where
  "rfx_bit i = (if i = 1 then 7 else if i = 2 then 5 else if i = 3 then 4 else 6)"

definition rfx_name :: "int \<Rightarrow> nat \<Rightarrow> string" where
  "rfx_name serial i = fmt_prec 7 serial @ ''-l'' @ nat_dec i"

definition rfx_signal :: "u8 option \<Rightarrow> nat \<Rightarrow> string \<Rightarrow> 'a ad2usb_scheme \<Rightarrow> 'a ad2usb_scheme res" where
  "rfx_signal msg b suffix st =
     (if ad_find st suffix = None then Inr st
      else case msg of None \<Rightarrow> Inl Uninit | Some m \<Rightarrow> ad_update_int_dev (if bit m b then 1 else 0) suffix True st)"

text \<open>\<^verbatim>\<open>%d,%hhx\<close>.\<close>

definition scan_rfx :: "string \<Rightarrow> (int \<times> u8 option) option" where
  "scan_rfx s =
     (case scan_d s of
        None \<Rightarrow> None
      | Some (serial, r) \<Rightarrow>
          Some (sint serial, if r \<noteq> [] \<and> hd r = CHR '','' then map_option (\<lambda>(v, _). ucast v) (scan_x (tl r)) else None))"

definition ad2usb_handle_rfx :: "string \<Rightarrow> nat \<Rightarrow> 'a ad2usb_scheme \<Rightarrow> 'a ad2usb_scheme res" where
  "ad2usb_handle_rfx data len st =
     (if len \<noteq> 15 then Inr st
      else case strtok (CHR '':'') data of
             _ # q # _ \<Rightarrow>
               (case scan_rfx q of
                  None \<Rightarrow> Inl Uninit
                | Some (serial, msg) \<Rightarrow>
                    bindE (foldE (\<lambda>i. rfx_signal msg (rfx_bit i) (rfx_name serial i)) [1..<5] st)
                      (rfx_signal msg 1 (fmt_prec 7 serial @ ''-lowbat'')))
           | _ \<Rightarrow> Inr st)"

section \<open>The panel's display\<close>

definition HIT_STAR :: string where "HIT_STAR = ''Hit * for faults''"

text \<open>The state shown by the bits of the first section; \<open>multi\<close>: several zones are open.\<close>

definition std_status :: "string \<Rightarrow> alarmstatus option" where
  "std_status p =
     (if p ! 1 = CHR ''1'' then Some ALARM_READY
      else if p ! 2 = CHR ''1'' then Some ALARM_AWAY
      else if p ! 3 = CHR ''1'' then Some ALARM_STAY
      else if p ! 13 = CHR ''1'' then Some ALARM_INSTANTMAX
      else if p ! 16 = CHR ''1'' then Some ALARM_NIGHTSTAY
      else None)"

definition std_fault :: "string \<Rightarrow> bool \<Rightarrow> bool" where
  "std_fault p multi \<longleftrightarrow> list_all (\<lambda>i. p ! i = CHR ''0'') [1, 2, 3, 13, 16] \<and> \<not> multi"

definition update_status :: "alarmstatus \<Rightarrow> 'a ad2usb_scheme \<Rightarrow> 'a ad2usb_scheme res" where
  "update_status s = ad_update_int_dev (alarmstatus_code s) ''status'' True"

definition update_bit :: "char \<Rightarrow> string \<Rightarrow> 'a ad2usb_scheme \<Rightarrow> 'a ad2usb_scheme res" where
  "update_bit c suffix st =
     (if c = CHR ''1'' then ad_update_int_dev 1 suffix True st
      else if c = CHR ''0'' then ad_update_int_dev 0 suffix True st
      else Inr st)"

text \<open>The device \<^verbatim>\<open>fire\<close> follows the bit of the battery.\<close>

definition std_flags :: "string \<Rightarrow> bool \<Rightarrow> 'a ad2usb_scheme \<Rightarrow> 'a ad2usb_scheme res" where
  "std_flags p multi st =
     bindE (case std_status p of None \<Rightarrow> Inr st | Some s \<Rightarrow> update_status s st) (\<lambda>st1.
     bindE (if std_fault p multi then update_status ALARM_FAULT st1 else Inr st1) (\<lambda>st2.
     bindE (update_bit (p ! 8) ''acpower'' st2) (\<lambda>st3.
     bindE (update_bit (p ! 12) ''lowbat'' st3)
       (update_bit (p ! 12) ''fire''))))"

text \<open>The elements of \<^verbatim>\<open>zonefaults\<close> that a loop over the zones reads must be there.\<close>

definition zone_array :: "'a ad2usb_scheme \<Rightarrow> 'b res \<Rightarrow> 'b res" where
  "zone_array st r = (if nat (ad_zones st) \<le> length (zonefaults st) then r else Inl OutOfBounds)"

definition open_zones :: "'a ad2usb_scheme \<Rightarrow> int" where
  "open_zones st = int (length (filter (\<lambda>i. 0 < zonefaults st ! i) (zone_range (ad_zones st))))"

text \<open>
  The zone of the second section is open. For zone 8 the text is looked at that \<^verbatim>\<open>strtok\<close> has cut
  after the first section, \<open>p\<close>.
\<close>

definition zone_open :: "string \<Rightarrow> string \<Rightarrow> 'a ad2usb_scheme \<Rightarrow> 'a ad2usb_scheme res" where
  "zone_open p q st =
     zone_array st
       (case scan_d q of
          None \<Rightarrow> Inl Uninit
        | Some (v, _) \<Rightarrow>
            let val = sint v
            in if val = 8 \<and> strstr ''FAULT '' p then Inr st
               else bindE (ad_update_int_dev 1 (zone_name val) True st) (\<lambda>st1.
                      if 1 \<le> val \<and> val \<le> int (length (zonefaults st1))
                      then Inr (st1\<lparr>zonefaults := (zonefaults st1)[nat (val - 1) := open_zones st + 3]\<rparr>)
                      else Inl OutOfBounds))"

definition zone_value :: "int \<Rightarrow> nat \<Rightarrow> 'a ad2usb_scheme \<Rightarrow> 'a ad2usb_scheme res" where
  "zone_value v i st =
     (if ad_find st (zone_name (int i + 1)) = None then Inr st else ad_update_int_dev v (zone_name (int i + 1)) True st)"

definition zones_closed :: "'a ad2usb_scheme \<Rightarrow> 'a ad2usb_scheme res" where
  "zones_closed st =
     zone_array st
       (foldE (\<lambda>i st. zone_value 0 i (st\<lparr>zonefaults := (zonefaults st)[i := 0]\<rparr>)) (zone_range (ad_zones st)) st)"

text \<open>The buffer with the answer is freed after each of the two writes.\<close>

definition std_answer :: "bool \<Rightarrow> bool \<Rightarrow> 'a ad2usb_scheme \<Rightarrow> 'a ad2usb_scheme res" where
  "std_answer hit fault st =
     (let st1 = (if hit then ad_write (''*'' @ [newline]) st else st)
      in if \<not> fault then Inr st1
         else if hit then Inl UseAfterFree
         else Inr (ad_write [newline] st1))"

text \<open>A section that is missing is a null pointer.\<close>

definition ad2usb_handle_std :: "string \<Rightarrow> 'a ad2usb_scheme \<Rightarrow> 'a ad2usb_scheme res" where
  "ad2usb_handle_std data st =
     (let multi = strcasestr HIT_STAR data
      in case strtok (CHR '','') data of
           [] \<Rightarrow> Inl NullDeref
         | p # secs \<Rightarrow>
             if length p < 22 then Inr st
             else
               let fault = std_fault p multi
               in bindE (std_flags p multi st) (\<lambda>st1.
                  case secs of
                    [] \<Rightarrow> Inl NullDeref
                  | q # secs1 \<Rightarrow>
                      bindE (if fault then zone_open p q st1 else if \<not> multi then zones_closed st1 else Inr st1) (\<lambda>st2.
                        case secs1 of
                          _ # r # _ \<Rightarrow> std_answer (strcasestr HIT_STAR r) fault st2
                        | _ \<Rightarrow> Inl NullDeref)))"

section \<open>Reading\<close>

definition ad_line :: "cenv \<Rightarrow> u8 list \<Rightarrow> 'a ad2usb_scheme \<Rightarrow> 'a ad2usb_scheme res" where
  "ad_line e line st =
     (let data = text_of line; len = length line
      in if 2 < len \<and> data \<noteq> [] \<and> hd data = CHR ''['' then ad2usb_handle_std data st
         else if strstr ''!RFX:'' data then ad2usb_handle_rfx data len st
         else if strstr ''!EXP:'' data \<or> strstr ''!REL:'' data then ad2usb_handle_exp e data len st
         else Inr st)"

text \<open>
  The loop over the lines of the buffer; an empty line ends it. \<open>passes\<close> counts the lines, and the
  rest of the buffer is returned.
\<close>

function ad_read_lines ::
    "cenv \<Rightarrow> nat \<Rightarrow> u8 list \<Rightarrow> 'a ad2usb_scheme \<Rightarrow> (nat \<times> u8 list \<times> 'a ad2usb_scheme) res" where
  "ad_read_lines e passes buf st =
     (case readln buf of
        None \<Rightarrow> Inr (passes, buf, st)
      | Some (line, rest) \<Rightarrow>
          if line = [] then Inr (passes, rest, st)
          else bindE (ad_line e line st) (ad_read_lines e (passes + 1) rest))"
  by pat_completeness auto
termination
  by (relation "measure (\<lambda>(e, n, buf, st). length buf)") (auto dest: readln_shorter)

declare ad_read_lines.simps [simp del]

text \<open>One round of the counters; a zone whose counter runs out is closed.\<close>

definition count_down :: "nat \<Rightarrow> 'a ad2usb_scheme \<Rightarrow> 'a ad2usb_scheme res" where
  "count_down i st =
     (let j = zonefaults st ! i;
          st1 = (if 0 < j then st\<lparr>zonefaults := (zonefaults st)[i := j - 1]\<rparr> else st)
      in if zonefaults st1 ! i = 0 \<and> 0 < j then zone_value 0 i st1 else Inr st1)"

definition count_zones :: "'a ad2usb_scheme \<Rightarrow> 'a ad2usb_scheme res" where
  "count_zones st =
     bindE (zone_array st (foldE count_down (zone_range (ad_zones st)) st)) (\<lambda>st1. Inr (st1\<lparr>first_update := False\<rparr>))"

definition ad2usb_buf_read_cb :: "cenv \<Rightarrow> 'a ad2usb_scheme \<Rightarrow> 'a ad2usb_scheme res" where
  "ad2usb_buf_read_cb e st =
     bindE (ad_read_lines e 0 (ad_input st) (st\<lparr>ad_lastupd := ce_now e\<rparr>)) (\<lambda>(passes, rest, st1).
       let st2 = st1\<lparr>ad_input := rest\<rparr> in if passes = 0 then Inr st2 else count_zones st2)"

text \<open>The timer callback is called once, after a second.\<close>

definition ad2usb_wake_up :: "'a ad2usb_scheme \<Rightarrow> 'a ad2usb_scheme" where
  "ad2usb_wake_up st = (ad_write [newline, CHR 0x0D] st)\<lparr>wake_pending := False\<rparr>"

section \<open>Start-up\<close>

definition ad_parse_devices :: "'a ad2usb_scheme \<Rightarrow> 'a ad2usb_scheme res" where
  "ad_parse_devices st =
     foldE (\<lambda>sec st.
         bindE (new_dev_from_conf (coll_conf st) (cs_title sec) st) (\<lambda>(found, st1).
           case found of
             None \<Rightarrow> Inl NullDeref
           | Some p \<Rightarrow>
               let st2 = insert_device p st1
               in if \<not> ad_dumping st2 \<and> d_name (dmem st2 p) \<noteq> None
                  then send_register (gnhastd_out st2) p st2 else Inr st2))
       (cf_devices (coll_conf st)) st"

text \<open>
  The state when \<^verbatim>\<open>main\<close> has read the configuration \<open>cf\<close> with its options; \<open>uidprefix\<close> and
  \<open>dumping\<close> are from the command line.
\<close>

record ad_options =
  ao_zones :: int
  ao_seccode :: int
  ao_logfaults :: bool
  ao_instance :: int
  ao_prefix :: string
  ao_dumping :: bool

definition ad_start :: "conf \<Rightarrow> ad_options \<Rightarrow> cenv \<Rightarrow> ad2usb" where
  "ad_start cf opts e = registry.extend empty_registry
     \<lparr>bufs = (\<lambda>_. None), bufnext = 0, gnhastd_bev = None, coll_alarms = [],
      coll_conf = cf, coll_conf_file = None, min_proto_version = 0, rrd_freed = (\<lambda>_. False),
      conns = (\<lambda>_. \<lparr>cn_bev = None, cn_connected = False, cn_shutdown = False, cn_kind = ''gnhastd'', cn_cname = Some ''ad2usbcoll''\<rparr>),
      gnhastd_conn = 0, need_rereg = False, collector_instance = 1, retry_timers = [], health_timers = [],
      stop_timers = 0, loop_exit = False,
      ad_zones = ao_zones opts, ad_seccode = ao_seccode opts, ad_logfaults = ao_logfaults opts,
      ad_dumping = ao_dumping opts, ad_prefix = ao_prefix opts, ad_conn_made = False, first_update = True,
      zonefaults = [], ad_lastupd = ce_now e, ad_out = [], ad_input = [], wake_pending = False\<rparr>"

text \<open>
  \<open>zopt\<close> is the option \<^verbatim>\<open>-z\<close>, 0 when it is not given. For a negative number the allocation fails.
\<close>

definition ad2usb_main :: "conf \<Rightarrow> ad_options \<Rightarrow> int \<Rightarrow> cenv \<Rightarrow> ad2usb res" where
  "ad2usb_main cf opts zopt e =
     (let st = ad_start cf opts e; zones = (if zopt = 0 then ad_zones st else zopt)
      in bindE (ad_maybe_dump_conf e zones st) (\<lambda>st1.
         if zones < 0 then Inl FatalExit else
         bindE (generic_connect_server_cb 0 (st1\<lparr>zonefaults := replicate (nat zones) 0, ad_conn_made := True\<rparr>)) (\<lambda>st2.
         let st3 = st2\<lparr>collector_instance := ao_instance opts\<rparr>
         in bindE (write_bev (gnhastd_out st3) (gn_client_name (Some ''ad2usbcoll'') (ao_instance opts)) st3) (\<lambda>st4.
            ad_parse_devices (st4\<lparr>wake_pending := True\<rparr>)))))"

datatype ad_event =
    Ad_server gevent
  | Ad_data "u8 list"
  | Ad_serial_error
  | Ad_wake

fun ad_enabled :: "ad_event \<Rightarrow> 'a ad2usb_scheme \<Rightarrow> bool" where
  "ad_enabled (Ad_server g) st = gen_enabled g st"
| "ad_enabled Ad_wake st = wake_pending st"
| "ad_enabled _ st = True"

fun ad_handle :: "cenv \<Rightarrow> ad_event \<Rightarrow> 'a ad2usb_scheme \<Rightarrow> 'a ad2usb_scheme res" where
  "ad_handle e (Ad_server g) st = gen_handle (ad_ghooks e) e g st"
| "ad_handle e (Ad_data bs) st = ad2usb_buf_read_cb e (st\<lparr>ad_input := ad_input st @ bs\<rparr>)"
| "ad_handle e Ad_serial_error st = Inr st"
| "ad_handle e Ad_wake st = Inr (ad2usb_wake_up st)"

end
