(* ===== verification/Panelinv.thy ===== *)
theory Panelinv
  imports Ad2usb Collinv Lifecycle
begin

text \<open>
  What the alarm panel's collector keeps: the fault counters stay in their array and their range, and
  nothing but the known key sequences is sent to the panel. It holds beside the invariant of the
  connection to the server, whose contract the collector's callbacks meet.
\<close>

section \<open>The invariant\<close>

definition panel_keys :: "int \<Rightarrow> string \<Rightarrow> bool" where
  "panel_keys code m \<longleftrightarrow>
     m \<in> {''*'' @ [newline], [newline], [newline, CHR 0x0D]} \<or>
     code \<noteq> 0 \<and> (\<exists>b \<in> {1, 2, 3, 7, 33}. m = fmt_prec 4 code @ int_dec b)"

definition panel_sent :: "int \<Rightarrow> string \<Rightarrow> bool" where
  "panel_sent code out \<longleftrightarrow> (\<exists>ms. list_all (panel_keys code) ms \<and> out = concat ms)"

definition counters_ok :: "int \<Rightarrow> int list \<Rightarrow> bool" where
  "counters_ok zones zs \<longleftrightarrow> list_all (\<lambda>z. 0 \<le> z \<and> z \<le> int (nat zones) + 3) zs"

text \<open>The options, the number of counters, and whether the connection is made.\<close>

definition ad_fixed :: "'a ad2usb_scheme \<Rightarrow> int \<times> int \<times> bool \<times> bool \<times> string \<times> bool \<times> nat" where
  "ad_fixed s = (ad_zones s, ad_seccode s, ad_logfaults s, ad_dumping s, ad_prefix s, ad_conn_made s, length (zonefaults s))"

text \<open>A device found under a uid has that uid.\<close>

definition dev_keys :: "'a registry_scheme \<Rightarrow> bool" where
  "dev_keys s \<longleftrightarrow> (\<forall>u p. devtab s u = Some p \<longrightarrow> p < dnext s \<and> d_uid (dmem s p) = u)"

definition ad_ok :: "'a ad2usb_scheme \<Rightarrow> bool" where
  "ad_ok s \<longleftrightarrow> dev_keys s \<and> counters_ok (ad_zones s) (zonefaults s) \<and> panel_sent (ad_seccode s) (ad_out s)"

definition ad_keeps :: "'a ad2usb_scheme \<Rightarrow> 'a ad2usb_scheme \<Rightarrow> bool" where
  "ad_keeps s t \<longleftrightarrow> gview s = gview t \<and> ad_fixed s = ad_fixed t \<and> (ad_ok s \<longrightarrow> ad_ok t)"

lemma ad_keeps_refl [simp]: "ad_keeps s s"
  by (simp add: ad_keeps_def)

lemma ad_keeps_trans: "ad_keeps a b \<Longrightarrow> ad_keeps b c \<Longrightarrow> ad_keeps a c"
  by (simp add: ad_keeps_def)

text \<open>Steps that leave the counters and the panel alone.\<close>

definition ad_calm :: "'a ad2usb_scheme \<Rightarrow> 'a ad2usb_scheme \<Rightarrow> bool" where
  "ad_calm s t \<longleftrightarrow> gview s = gview t \<and> ad_fixed s = ad_fixed t \<and> zonefaults s = zonefaults t \<and> ad_out s = ad_out t \<and>
     first_update s = first_update t \<and> ad_input s = ad_input t \<and> (dev_keys s \<longrightarrow> dev_keys t)"

lemma ad_calm_refl [simp]: "ad_calm s s"
  by (simp add: ad_calm_def)

lemma ad_calm_trans: "ad_calm a b \<Longrightarrow> ad_calm b c \<Longrightarrow> ad_calm a c"
  by (simp add: ad_calm_def)

lemma calm_keeps: "ad_calm s t \<Longrightarrow> ad_keeps s t"
  by (simp add: ad_calm_def ad_keeps_def ad_ok_def ad_fixed_def)

lemma calm_registry: "registry.more s = registry.more t \<Longrightarrow> (dev_keys s \<Longrightarrow> dev_keys t) \<Longrightarrow> ad_calm s t"
  by (cases s; cases t) (simp add: ad_calm_def gview_def ad_fixed_def)

lemma keys_same: "devtab s = devtab t \<Longrightarrow> dnext s = dnext t \<Longrightarrow> dmem s = dmem t \<Longrightarrow> dev_keys s \<longleftrightarrow> dev_keys t"
  by (simp add: dev_keys_def)

lemma keys_upd: "dev_keys s \<Longrightarrow> d_uid (f (dmem s p)) = d_uid (dmem s p) \<Longrightarrow> dev_keys (upd_dev p f s)"
  by (simp add: dev_keys_def upd_dev_def)

lemma keys_alloc: "dev_keys s \<Longrightarrow> dev_keys (snd (alloc_dev d s))"
  by (force simp: dev_keys_def alloc_dev_def less_Suc_eq)

lemma keys_insert: "dev_keys s \<Longrightarrow> p < dnext s \<Longrightarrow> dev_keys (insert_device p s)"
  by (auto simp: dev_keys_def rb_insert_def split: if_splits)

lemma calm_conf: "ad_calm s (s\<lparr>coll_conf := cf\<rparr>)" "ad_calm s (s\<lparr>coll_conf := cf, coll_conf_file := cff\<rparr>)"
    "ad_calm s (s\<lparr>rrd_freed := x\<rparr>)" "ad_calm s (s\<lparr>ad_lastupd := n\<rparr>)"
  by (simp_all add: ad_calm_def gview_def ad_fixed_def dev_keys_def)

lemma calm_upd: "d_uid (f (dmem s p)) = d_uid (dmem s p) \<Longrightarrow> ad_calm s (upd_dev p f s)"
  by (rule calm_registry) (simp add: upd_dev_def, rule keys_upd)

lemma calm_insert: "(dev_keys s \<Longrightarrow> p < dnext s) \<Longrightarrow> ad_calm s (insert_device p s)"
  by (rule calm_registry) (simp_all add: keys_insert)

lemma calm_alloc: "ad_calm s (snd (alloc_dev d s))"
  by (rule calm_registry) (simp_all add: keys_alloc)

lemma calm_write: "write_bev b m s = Inr t \<Longrightarrow> ad_calm s t"
  using write_bev_view [of b m s t] by (auto simp: ad_calm_def ad_fixed_def dev_keys_def write_bev_def split: option.splits)

lemma calm_send: "send_msg b m s = Inr t \<Longrightarrow> ad_calm s t"
  by (auto simp: send_msg_def split: if_splits intro: calm_write)

lemma calm_announce: "send_register b p s = Inr t \<Longrightarrow> ad_calm s t" "send_update b p s = Inr t \<Longrightarrow> ad_calm s t"
  by (auto simp: send_register_def send_update_def Let_def bindE_Inr_conv intro: calm_send split: if_splits)

lemma load_dev_uid: "load_dev sec d = Inr d' \<Longrightarrow> d_uid d' = d_uid d"
  using load_dev_view [of sec d d'] by (simp add: dev_view_def)

lemma calm_conf_dev:
  assumes "new_dev_from_conf cf u s = Inr (f, t)"
  shows "ad_calm s t" and "f = Some p \<Longrightarrow> dev_keys s \<Longrightarrow> p < dnext t"
proof -
  consider "f = None" "t = s"
    | q d sec where "f = Some q" "t = upd_dev q (\<lambda>_. d) s" "devtab s u = Some q" "load_dev sec (dmem s q) = Inr d"
    | d sec where "f = Some (dnext s)" "t = upd_dev (dnext s) (\<lambda>_. d) (snd (alloc_dev (new_device u) s))"
        "load_dev sec (new_device u) = Inr d"
  proof (cases "find_devconf_byuid cf u")
    case (Some i)
    show ?thesis
    proof (cases "devtab s u")
      case None
      with assms Some obtain d where "load_dev (cf_devices cf ! i) (new_device u) = Inr d"
          "f = Some (dnext s)" "t = upd_dev (dnext s) (\<lambda>_. d) (snd (alloc_dev (new_device u) s))"
        by (auto simp: new_dev_from_conf_def bindE_Inr_conv find_eta alloc_dev_def)
      then show ?thesis using that(3) by blast
    next
      case other: (Some q)
      with assms Some obtain d where "load_dev (cf_devices cf ! i) (dmem s q) = Inr d" "f = Some q" "t = upd_dev q (\<lambda>_. d) s"
        by (auto simp: new_dev_from_conf_def bindE_Inr_conv find_eta)
      then show ?thesis using that(2) other by blast
    qed
  next
    case None
    with assms have "f = None" "t = s" by (simp_all add: new_dev_from_conf_def)
    then show ?thesis by (rule that(1))
  qed
  then have "ad_calm s t \<and> (f = Some p \<longrightarrow> dev_keys s \<longrightarrow> p < dnext t)"
  proof cases
    case (2 q d sec)
    then show ?thesis using load_dev_uid [OF 2(4)] by (auto simp: dev_keys_def intro!: calm_upd)
  next
    case (3 d sec)
    have "ad_calm (snd (alloc_dev (new_device u) s)) t"
      unfolding 3(2) by (rule calm_upd) (use load_dev_uid [OF 3(3)] in \<open>simp add: alloc_dev_def\<close>)
    with calm_alloc have "ad_calm s t" by (rule ad_calm_trans)
    then show ?thesis using 3 by (simp add: alloc_dev_def)
  qed simp
  then show "ad_calm s t" "f = Some p \<Longrightarrow> dev_keys s \<Longrightarrow> p < dnext t" by blast+
qed

lemma calm_load:
  assumes "new_dev_from_conf cf u s = Inr (Some p, t)"
  shows "ad_calm s (insert_device p t)"
proof -
  have "gview t = gview (insert_device p t)" "ad_fixed t = ad_fixed (insert_device p t)"
    "zonefaults t = zonefaults (insert_device p t)" "ad_out t = ad_out (insert_device p t)"
    "first_update t = first_update (insert_device p t)" "ad_input t = ad_input (insert_device p t)"
    by (simp_all add: gview_def ad_fixed_def insert_device_def Let_def upd_dev_def)
  with calm_conf_dev(1) [OF assms] calm_conf_dev(2) [OF assms refl] keys_insert [of t p] show ?thesis by (simp add: ad_calm_def)
qed

lemma calm_provide:
  assumes "provide_device d s = Inr (p, t)"
  shows "ad_calm s t"
proof -
  obtain found s1 s2 where s: "new_dev_from_conf (coll_conf s) (d_uid d) s = Inr (found, s1)"
      "(case found of Some p \<Rightarrow> Inr (p, s1)
        | None \<Rightarrow> bindE (new_conf_from_dev (coll_conf s1) d) (\<lambda>cf. let (p, st2) = alloc_dev d s1 in Inr (p, st2\<lparr>coll_conf := cf\<rparr>)))
       = Inr (p, s2)" "t = insert_device p s2"
    using assms by (auto simp: provide_device_def bindE_Inr_conv)
  have 1: "ad_calm s s1" using s(1) by (rule calm_conf_dev)
  show ?thesis
  proof (cases found)
    case None
    then obtain cf where s2: "s2 = (snd (alloc_dev d s1))\<lparr>coll_conf := cf\<rparr>" "p = dnext s1"
      using s(2) by (auto simp: bindE_Inr_conv alloc_dev_def Let_def)
    have "ad_calm s1 s2" unfolding s2(1) using ad_calm_trans [OF calm_alloc calm_conf(1)] .
    moreover have "ad_calm s2 t" unfolding s(3) by (rule calm_insert) (simp add: s2 alloc_dev_def)
    ultimately show ?thesis using 1 ad_calm_trans by blast
  next
    case (Some q)
    then have q: "q = p" "s2 = s1" using s(2) by simp_all
    then show ?thesis unfolding s(3) q(2) using s(1) Some calm_load by simp
  qed
qed

lemma store_int_uid: "store_int v d = Inr d' \<Longrightarrow> d_uid d' = d_uid d"
  by (auto simp: store_int_def split: if_splits)

lemma new_runs:
  assumes "ad_new_int_dev sub v suf s = Inr t"
  obtains dev p s1 d where "provide_device dev s = Inr (p, s1)" "d_uid dev = ad_uid s suf" "store_int v (dmem s1 p) = Inr d"
    "t = upd_dev p (\<lambda>_. d) s1 \<or> (\<exists>b c u. send_register b p (upd_dev p (\<lambda>_. d) s1) = Inr u \<and> send_update c p u = Inr t)"
proof -
  define dev where "dev = (new_device (ad_uid s suf))\<lparr>d_loc := Some (ad_uid s suf), d_type := dev_type_code DEVICE_SENSOR,
    d_proto := proto_code PROTO_SENSOR_AD2USB, d_subtype := subtype_code sub\<rparr>"
  have uid: "d_uid dev = ad_uid s suf" by (simp add: dev_def new_device_def)
  obtain p s1 d where run: "provide_device dev s = Inr (p, s1)" "store_int v (dmem s1 p) = Inr d"
      "(if \<not> ad_dumping (upd_dev p (\<lambda>_. d) s1) \<and> d_name d \<noteq> None \<and> ad_conn_made (upd_dev p (\<lambda>_. d) s1)
        then bindE (send_register (gnhastd_out (upd_dev p (\<lambda>_. d) s1)) p (upd_dev p (\<lambda>_. d) s1))
               (\<lambda>st3. send_update (gnhastd_out st3) p st3)
        else Inr (upd_dev p (\<lambda>_. d) s1)) = Inr t"
    using assms unfolding ad_new_int_dev_def Let_def dev_def [symmetric] bindE_Inr_conv split_paired_Ex split by blast
  from run(3) have "t = upd_dev p (\<lambda>_. d) s1 \<or>
      (\<exists>b c u. send_register b p (upd_dev p (\<lambda>_. d) s1) = Inr u \<and> send_update c p u = Inr t)"
    unfolding bindE_Inr_conv by (auto simp only: bindE_Inr_conv split: if_splits)
  with run(1) uid run(2) show thesis by (rule that)
qed

lemma calm_new:
  assumes "ad_new_int_dev sub v suf s = Inr t"
  shows "ad_calm s t"
  using assms
proof (rule new_runs)
  fix dev p s1 d
  assume s: "provide_device dev s = Inr (p, s1)" "store_int v (dmem s1 p) = Inr d"
    and t: "t = upd_dev p (\<lambda>_. d) s1 \<or> (\<exists>b c u. send_register b p (upd_dev p (\<lambda>_. d) s1) = Inr u \<and> send_update c p u = Inr t)"
  from t have "ad_calm (upd_dev p (\<lambda>_. d) s1) t"
    by (auto intro: ad_calm_trans [OF calm_announce(1) calm_announce(2)])
  moreover have "ad_calm s1 (upd_dev p (\<lambda>_. d) s1)" by (rule calm_upd) (rule store_int_uid [OF s(2)])
  ultimately show ?thesis using calm_provide [OF s(1)] ad_calm_trans by blast
qed

lemma calm_ensure: "ensure_int_dev sub v suf s = Inr t \<Longrightarrow> ad_calm s t"
  by (auto simp: ensure_int_dev_def split: if_splits intro: calm_new)

lemma update_runs:
  assumes "ad_update_int_dev v suf tr s = Inr t"
  obtains p d where "ad_find s suf = Some p" "store_int v (dmem s p) = Inr d"
    "t = upd_dev p (\<lambda>_. d) s \<or> send_update (gnhastd_out (upd_dev p (\<lambda>_. d) s)) p (upd_dev p (\<lambda>_. d) s) = Inr t"
  using assms by (auto simp: ad_update_int_dev_def Let_def bindE_Inr_conv split: option.splits if_splits)

lemma calm_update:
  assumes "ad_update_int_dev v suf tr s = Inr t"
  shows "ad_calm s t"
  using assms
proof (rule update_runs)
  fix p d
  assume d: "store_int v (dmem s p) = Inr d"
    and t: "t = upd_dev p (\<lambda>_. d) s \<or> send_update (gnhastd_out (upd_dev p (\<lambda>_. d) s)) p (upd_dev p (\<lambda>_. d) s) = Inr t"
  have "ad_calm s (upd_dev p (\<lambda>_. d) s)" by (rule calm_upd) (rule store_int_uid [OF d])
  then show ?thesis using t calm_announce(2) ad_calm_trans by blast
qed

lemma calm_fold:
  assumes "foldE f xs s = Inr t" and "\<And>x u v. f x u = Inr v \<Longrightarrow> ad_calm u v"
  shows "ad_calm s t"
  using assms(1) by (rule foldE_inv) (auto intro: ad_calm_trans assms(2))

lemmas bind_calm = bind_kept [where R = ad_calm, OF _ _ _ ad_calm_trans]
lemmas bind_ad = bind_kept [where R = ad_keeps, OF _ _ _ ad_keeps_trans]

section \<open>The panel's output\<close>

lemma panel_sent_append: "panel_sent c out \<Longrightarrow> panel_keys c m \<Longrightarrow> panel_sent c (out @ m)"
proof -
  assume "panel_sent c out" and m: "panel_keys c m"
  then obtain ms where "list_all (panel_keys c) ms" "out = concat ms" by (auto simp: panel_sent_def)
  with m have "list_all (panel_keys c) (ms @ [m])" "out @ m = concat (ms @ [m])" by simp_all
  then show ?thesis unfolding panel_sent_def by blast
qed

lemma panel_sent_Nil [simp]: "panel_sent c []"
  unfolding panel_sent_def by (rule exI [of _ "[]"]) simp

lemma ad_write_keeps:
  assumes "panel_keys (ad_seccode s) m"
  shows "ad_keeps s (ad_write m s)"
  using assms panel_sent_append
  by (simp add: ad_keeps_def ad_write_def gview_def ad_fixed_def ad_ok_def dev_keys_def)

lemma ad_chg_keeps:
  assumes "ad_chg_cb p s = Inr t"
  shows "ad_keeps s t"
proof -
  consider "t = s" | b where "ad_seccode s \<noteq> 0" "b \<in> {1, 2, 3, 7, 33}" "t = ad_write (fmt_prec 4 (ad_seccode s) @ int_dec b) s"
    using assms
    by (auto simp: ad_chg_cb_def alarm_button_def bindE_Inr_conv split: if_splits option.splits alarmstatus.splits)
  then show ?thesis
  proof cases
    case (2 b)
    then have "panel_keys (ad_seccode s) (fmt_prec 4 (ad_seccode s) @ int_dec b)" unfolding panel_keys_def by blast
    then show ?thesis unfolding 2(3) by (rule ad_write_keeps)
  qed simp
qed

interpretation ad_requests: coll_kept ad_keeps "ad_hooks e" for e
proof (unfold_locales, goal_cases)
  case (2 s1 s2 s3)
  then show ?case by (rule ad_keeps_trans)
next
  case (3 st p f)
  then show ?case by (intro calm_keeps calm_upd) simp
next
  case (4 st d)
  have "ad_calm (snd (alloc_dev d st)) (insert_device (dnext st) (snd (alloc_dev d st)))"
    by (rule calm_insert) (simp add: alloc_dev_def)
  then show ?case using calm_keeps ad_calm_trans [OF calm_alloc] by blast
next
  case (5 st u)
  show ?case by (rule calm_keeps, rule calm_registry) (simp_all add: dev_keys_def)
next
  case (6 st g nm)
  show ?case by (rule calm_keeps, rule calm_registry) (simp_all add: dev_keys_def upd_grp_def)
next
  case (7 st u p g)
  show ?case by (rule calm_keeps, rule calm_registry) (simp_all add: dev_keys_def add_dev_group_def upd_grp_def)
next
  case (8 st u k g)
  show ?case by (rule calm_keeps, rule calm_registry) (simp_all add: dev_keys_def add_group_group_def upd_grp_def)
next
  case (11 b m st st')
  then show ?case by (intro calm_keeps calm_write)
next
  case (15 p st st')
  then show ?case by (auto simp: ad_hooks_def intro: ad_chg_keeps)
qed (auto simp: ad_hooks_def ad_is_ok_def weak_stubs_def intro: calm_keeps calm_registry calm_conf)

lemma ad_keeps_gview: "ad_keeps s t \<Longrightarrow> gview s = gview t"
  by (simp add: ad_keeps_def)

lemma ad_ghooks_truncate: "hooks.truncate (ad_ghooks e) = ad_hooks e"
  by (simp add: ad_ghooks_def hooks.defs ad_hooks_def weak_stubs_def)

interpretation ad_conn: conn_hooks "ad_hooks e" "ad_ghooks e" for e
proof (unfold_locales, goal_cases)
  case (11 b m st st')
  then show ?case by (rule write_bev_view)
next
  case (15 p st st')
  then show ?case by (auto simp: ad_hooks_def intro: ad_keeps_gview ad_chg_keeps)
next
  case 21
  show ?case by (rule ad_ghooks_truncate)
qed (auto simp: ad_hooks_def ad_is_ok_def ad_ghooks_def hooks.defs weak_stubs_def gview_def upd_dev_def upd_grp_def
    insert_device_def new_devgroup_def add_dev_group_def add_group_group_def alloc_dev_def Let_def)

section \<open>The panel's lines\<close>

lemma exp_runs:
  assumes run: "ad2usb_handle_exp e data len s = Inr t"
  obtains "t = s" | p a i v where
    "bindE (if ad_find s (exp_name (exp_type p) a i) = None then build_exp e v (exp_name (exp_type p) a i) s else Inr s)
       (ad_update_int_dev v (exp_name (exp_type p) a i) True) = Inr t"
proof (cases "strtok (CHR '':'') data" rule: remdups_adj.cases)
  case (3 p q ts)
  show thesis
  proof (cases "len < 10 \<or> scan_exp q = None")
    case True
    with run 3 have "t = s" by (auto simp: ad2usb_handle_exp_def split: if_splits)
    then show thesis by (rule that(1))
  next
    case False
    then obtain a i v where "scan_exp q = Some (a, i, v)" by (cases "scan_exp q") auto
    with False run 3 have "bindE (if ad_find s (exp_name (exp_type p) a i) = None then build_exp e v (exp_name (exp_type p) a i) s
        else Inr s) (ad_update_int_dev v (exp_name (exp_type p) a i) True) = Inr t"
      by (simp add: ad2usb_handle_exp_def Let_def)
    then show thesis by (rule that(2))
  qed
next
  case 1
  with run have "t = s" by (simp add: ad2usb_handle_exp_def split: if_splits)
  then show thesis by (rule that(1))
next
  case (2 p)
  with run have "t = s" by (simp add: ad2usb_handle_exp_def split: if_splits)
  then show thesis by (rule that(1))
qed

lemma calm_exp: "ad2usb_handle_exp e data len s = Inr t \<Longrightarrow> ad_calm s t"
proof -
  have build: "ad_calm s u" if "build_exp e v suf s = Inr u" for v suf u
    using that by (auto simp: build_exp_def bindE_Inr_conv intro: ad_calm_trans [OF calm_new calm_conf(2)])
  assume "ad2usb_handle_exp e data len s = Inr t"
  then show ?thesis
  proof (rule exp_runs)
    fix p a i v
    assume "bindE (if ad_find s (exp_name (exp_type p) a i) = None then build_exp e v (exp_name (exp_type p) a i) s else Inr s)
        (ad_update_int_dev v (exp_name (exp_type p) a i) True) = Inr t"
    then show ?thesis by (rule bind_calm) (auto split: if_splits intro: build calm_update)
  qed simp
qed

lemma calm_signal: "rfx_signal msg b suf s = Inr t \<Longrightarrow> ad_calm s t"
  by (auto simp: rfx_signal_def split: if_splits option.splits intro: calm_update)

lemma rfx_runs:
  assumes run: "ad2usb_handle_rfx data len s = Inr t"
  obtains "t = s" | serial msg where "bindE (foldE (\<lambda>i. rfx_signal msg (rfx_bit i) (rfx_name serial i)) [1..<5] s)
      (rfx_signal msg 1 (fmt_prec 7 serial @ ''-lowbat'')) = Inr t"
proof (cases "strtok (CHR '':'') data" rule: remdups_adj.cases)
  case (3 p q ts)
  show thesis
  proof (cases "len \<noteq> 15 \<or> scan_rfx q = None")
    case True
    with run 3 have "t = s" by (auto simp: ad2usb_handle_rfx_def split: if_splits)
    then show thesis by (rule that(1))
  next
    case False
    then obtain serial msg where "scan_rfx q = Some (serial, msg)" by (cases "scan_rfx q") auto
    with False run 3 have "bindE (foldE (\<lambda>i. rfx_signal msg (rfx_bit i) (rfx_name serial i)) [1..<5] s)
        (rfx_signal msg 1 (fmt_prec 7 serial @ ''-lowbat'')) = Inr t"
      by (simp add: ad2usb_handle_rfx_def)
    then show thesis by (rule that(2))
  qed
next
  case 1
  with run have "t = s" by (simp add: ad2usb_handle_rfx_def split: if_splits)
  then show thesis by (rule that(1))
next
  case (2 p)
  with run have "t = s" by (simp add: ad2usb_handle_rfx_def split: if_splits)
  then show thesis by (rule that(1))
qed

lemma calm_rfx: "ad2usb_handle_rfx data len s = Inr t \<Longrightarrow> ad_calm s t"
proof (erule rfx_runs)
  fix serial msg
  assume "bindE (foldE (\<lambda>i. rfx_signal msg (rfx_bit i) (rfx_name serial i)) [1..<5] s)
      (rfx_signal msg 1 (fmt_prec 7 serial @ ''-lowbat'')) = Inr t"
  then show ?thesis by (rule bind_calm) (auto intro: calm_fold calm_signal)
qed simp

lemma calm_flags:
  assumes "std_flags p multi s = Inr t"
  shows "ad_calm s t"
proof -
  have b: "ad_calm u v" if "update_bit c suf u = Inr v" for c suf and u v :: "'a ad2usb_scheme"
    using that by (auto simp: update_bit_def split: if_splits intro: calm_update)
  have st: "ad_calm u v" if "(case x of None \<Rightarrow> Inr u | Some a \<Rightarrow> update_status a u) = Inr v"
    for x and u v :: "'a ad2usb_scheme"
    using that by (auto simp: update_status_def split: option.splits intro: calm_update)
  have f: "ad_calm u v" if "(if x then update_status a u else Inr u) = Inr v" for x a and u v :: "'a ad2usb_scheme"
    using that by (auto simp: update_status_def split: if_splits intro: calm_update)
  from assms show ?thesis
    unfolding std_flags_def
    by - (erule bind_calm, erule st, erule bind_calm, erule f, erule bind_calm, erule b, erule bind_calm, erule b, erule b)
qed

section \<open>The counters\<close>

lemma counters_set:
  assumes "counters_ok n zs" and "i < length zs \<Longrightarrow> 0 \<le> z \<and> z \<le> int (nat n) + 3"
  shows "counters_ok n (zs[i := z])"
proof (cases "i < length zs")
  case True
  then show ?thesis
    using assms set_update_subset_insert [of zs i z] by (auto simp: counters_ok_def list_all_iff)
qed (use assms in \<open>simp add: list_update_beyond\<close>)

lemma counter_keeps:
  assumes "ad_ok s \<Longrightarrow> i < length (zonefaults s) \<Longrightarrow> 0 \<le> z \<and> z \<le> int (nat (ad_zones s)) + 3"
  shows "ad_keeps s (s\<lparr>zonefaults := (zonefaults s)[i := z]\<rparr>)"
  using assms counters_set [of "ad_zones s" "zonefaults s" i z]
  by (auto simp: ad_keeps_def gview_def ad_fixed_def ad_ok_def dev_keys_def)

lemma open_zones_bound: "0 \<le> open_zones s \<and> open_zones s \<le> int (nat (ad_zones s))"
proof -
  have "length (filter (\<lambda>i. 0 < zonefaults s ! i) (zone_range (ad_zones s))) \<le> nat (ad_zones s)"
    by (rule order_trans [OF length_filter_le]) (simp add: zone_range_def)
  then show ?thesis by (simp only: open_zones_def of_nat_le_iff of_nat_0_le_iff simp_thms)
qed

lemma calm_value: "zone_value v i s = Inr t \<Longrightarrow> ad_calm s t"
  by (auto simp: zone_value_def split: if_splits intro: calm_update)

lemma open_runs:
  assumes "zone_open p q s = Inr t"
  obtains "t = s" | v r s1 where "scan_d q = Some (v, r)" "ad_update_int_dev 1 (zone_name (sint v)) True s = Inr s1"
      "t = s1\<lparr>zonefaults := (zonefaults s1)[nat (sint v - 1) := open_zones s + 3]\<rparr>" "1 \<le> sint v"
proof (cases "scan_d q")
  case (Some vr)
  obtain v r where vr: "vr = (v, r)" by fastforce
  show thesis
  proof (cases "sint v = 8 \<and> strstr ''FAULT '' p")
    case True
    with assms Some vr that(1) show thesis by (simp add: zone_open_def zone_array_def split: if_splits)
  next
    case False
    obtain s1 where "ad_update_int_dev 1 (zone_name (sint v)) True s = Inr s1" "1 \<le> sint v"
        "t = s1\<lparr>zonefaults := (zonefaults s1)[nat (sint v - 1) := open_zones s + 3]\<rparr>"
      using assms False Some vr by (auto simp: zone_open_def zone_array_def Let_def bindE_Inr_conv split: if_splits)
    with Some vr that(2) show thesis by blast
  qed
qed (use assms in \<open>simp add: zone_open_def zone_array_def split: if_splits\<close>)

lemma open_keeps:
  assumes "zone_open p q s = Inr t"
  shows "ad_keeps s t"
  using assms
proof (rule open_runs)
  fix v :: u32 and s1
  assume u: "ad_update_int_dev 1 (zone_name (sint v)) True s = Inr s1"
    and t: "t = s1\<lparr>zonefaults := (zonefaults s1)[nat (sint v - 1) := open_zones s + 3]\<rparr>"
  have c: "ad_calm s s1" using u by (rule calm_update)
  then have "ad_zones s1 = ad_zones s" by (simp add: ad_calm_def ad_fixed_def)
  then have "ad_keeps s1 t" unfolding t using open_zones_bound [of s] by (intro counter_keeps) simp
  with calm_keeps [OF c] show ?thesis by (rule ad_keeps_trans)
qed simp

lemma closed_keeps:
  assumes "zones_closed s = Inr t"
  shows "ad_keeps s t"
proof -
  have "foldE (\<lambda>i st. zone_value 0 i (st\<lparr>zonefaults := (zonefaults st)[i := 0]\<rparr>)) (zone_range (ad_zones s)) s = Inr t"
    using assms by (simp add: zones_closed_def zone_array_def split: if_splits)
  moreover have "ad_keeps u v" if "zone_value 0 i (u\<lparr>zonefaults := (zonefaults u)[i := 0]\<rparr>) = Inr v" for i and u v :: "'a ad2usb_scheme"
    using ad_keeps_trans [OF counter_keeps calm_keeps [OF calm_value [OF that]]] by simp
  ultimately show ?thesis by - (erule foldE_inv, auto intro: ad_keeps_trans)
qed

lemma answer_keeps: "std_answer hit fault s = Inr t \<Longrightarrow> ad_keeps s t"
  by (auto simp: std_answer_def Let_def panel_keys_def split: if_splits intro: ad_write_keeps)

lemma std_runs:
  assumes "ad2usb_handle_std data s = Inr t"
  obtains "t = s" | p q x r ts s1 s2 where "strtok (CHR '','') data = p # q # x # r # ts"
      "std_flags p (strcasestr HIT_STAR data) s = Inr s1"
      "(if std_fault p (strcasestr HIT_STAR data) then zone_open p q s1
        else if \<not> strcasestr HIT_STAR data then zones_closed s1 else Inr s1) = Inr s2"
      "std_answer (strcasestr HIT_STAR r) (std_fault p (strcasestr HIT_STAR data)) s2 = Inr t"
proof (cases "strtok (CHR '','') data")
  case (Cons p secs)
  let ?multi = "strcasestr HIT_STAR data"
  have run: "(if length p < 22 then Inr s else bindE (std_flags p ?multi s) (\<lambda>st1.
      case secs of [] \<Rightarrow> Inl NullDeref
      | q # secs1 \<Rightarrow>
          bindE (if std_fault p ?multi then zone_open p q st1 else if \<not> ?multi then zones_closed st1 else Inr st1) (\<lambda>st2.
            case secs1 of _ # r # _ \<Rightarrow> std_answer (strcasestr HIT_STAR r) (std_fault p ?multi) st2 | _ \<Rightarrow> Inl NullDeref)))
      = Inr t"
    using assms unfolding ad2usb_handle_std_def Let_def Cons list.case .
  show thesis
  proof (cases "length p < 22")
    case False
    with run obtain s1 where s1: "std_flags p ?multi s = Inr s1" by (auto simp: bindE_Inr_conv)
    with run False obtain q secs1 where q: "secs = q # secs1" by (auto split: list.splits)
    with run False s1 obtain s2 where
      s2: "(if std_fault p ?multi then zone_open p q s1 else if \<not> ?multi then zones_closed s1 else Inr s1) = Inr s2"
      by (auto simp only: if_False bindE_simps list.case bindE_Inr_conv)
    have "(case secs1 of _ # r # _ \<Rightarrow> std_answer (strcasestr HIT_STAR r) (std_fault p ?multi) s2 | _ \<Rightarrow> Inl NullDeref) = Inr t"
      using run unfolding s1 q bindE_simps list.case s2 by (simp only: False if_False)
    then show thesis using that(2) Cons q s1 s2 by (auto split: list.splits)
  qed (use run that(1) in simp)
qed (use assms in \<open>simp add: ad2usb_handle_std_def\<close>)

lemma panel_std_keeps:
  assumes "ad2usb_handle_std data s = Inr t"
  shows "ad_keeps s t"
  using assms
proof (rule std_runs)
  fix p q x r ts s1 s2
  assume f: "std_flags p (strcasestr HIT_STAR data) s = Inr s1"
    and z: "(if std_fault p (strcasestr HIT_STAR data) then zone_open p q s1
        else if \<not> strcasestr HIT_STAR data then zones_closed s1 else Inr s1) = Inr s2"
    and a: "std_answer (strcasestr HIT_STAR r) (std_fault p (strcasestr HIT_STAR data)) s2 = Inr t"
  have "ad_keeps s1 s2" using z by (auto split: if_splits intro: open_keeps closed_keeps)
  with calm_keeps [OF calm_flags [OF f]] answer_keeps [OF a] show ?thesis by (blast intro: ad_keeps_trans)
qed simp

lemma ad_line_keeps: "ad_line e l s = Inr t \<Longrightarrow> ad_keeps s t"
  by (auto simp: ad_line_def Let_def split: if_splits intro: panel_std_keeps calm_keeps calm_rfx calm_exp)

lemma ad_lines_keeps: "ad_read_lines e n buf s = Inr (m, rest, t) \<Longrightarrow> ad_keeps s t"
proof (induction e n buf s rule: ad_read_lines.induct)
  case (1 e n buf s)
  show ?case
  proof (cases "readln buf")
    case None
    with 1(2) show ?thesis by (simp add: ad_read_lines.simps [of e n buf])
  next
    case (Some lr)
    then obtain l r where lr: "readln buf = Some (l, r)" by fastforce
    show ?thesis
    proof (cases "l = []")
      case False
      with 1(2) lr obtain u where u: "ad_line e l s = Inr u" "ad_read_lines e (n + 1) r u = Inr (m, rest, t)"
        by (auto simp: ad_read_lines.simps [of e n buf] bindE_Inr_conv)
      from 1(1) [OF lr refl False u(2)] ad_line_keeps [OF u(1)] show ?thesis by (blast intro: ad_keeps_trans)
    qed (use 1(2) lr in \<open>simp add: ad_read_lines.simps [of e n buf]\<close>)
  qed
qed

lemma count_down_keeps:
  assumes "count_down i s = Inr t"
  shows "ad_keeps s t"
proof -
  let ?s1 = "if 0 < zonefaults s ! i then s\<lparr>zonefaults := (zonefaults s)[i := zonefaults s ! i - 1]\<rparr> else s"
  have 1: "ad_keeps s ?s1"
    by (auto intro!: counter_keeps simp: ad_ok_def counters_ok_def list_all_length simp del: int_nat_eq; fastforce)
  have "ad_keeps ?s1 t"
    using assms by (auto simp: count_down_def Let_def split: if_splits intro: calm_keeps calm_value)
  with 1 show ?thesis by (rule ad_keeps_trans)
qed

lemma first_keeps: "ad_keeps s (s\<lparr>first_update := b\<rparr>)" "ad_keeps s (s\<lparr>ad_input := bs\<rparr>)" "ad_keeps s (s\<lparr>wake_pending := b\<rparr>)"
  by (simp_all add: ad_keeps_def gview_def ad_fixed_def ad_ok_def dev_keys_def)

lemma count_keeps:
  assumes "count_zones s = Inr t"
  shows "ad_keeps s t"
proof -
  obtain u where u: "foldE count_down (zone_range (ad_zones s)) s = Inr u" "t = u\<lparr>first_update := False\<rparr>"
    using assms by (auto simp: count_zones_def zone_array_def bindE_Inr_conv split: if_splits)
  from u(1) have "ad_keeps s u" by (rule foldE_inv) (auto intro: ad_keeps_trans count_down_keeps)
  then show ?thesis unfolding u(2) using first_keeps(1) by (rule ad_keeps_trans)
qed

lemma ad_read_keeps:
  assumes "ad2usb_buf_read_cb e s = Inr t"
  shows "ad_keeps s t"
proof -
  obtain n rest u where u: "ad_read_lines e 0 (ad_input s) (s\<lparr>ad_lastupd := ce_now e\<rparr>) = Inr (n, rest, u)"
      "t = u\<lparr>ad_input := rest\<rparr> \<or> count_zones (u\<lparr>ad_input := rest\<rparr>) = Inr t"
    using assms by (auto simp: ad2usb_buf_read_cb_def Let_def bindE_Inr_conv split: if_splits)
  have "ad_keeps s (u\<lparr>ad_input := rest\<rparr>)"
    using ad_keeps_trans [OF ad_keeps_trans [OF calm_keeps [OF calm_conf(4)] ad_lines_keeps [OF u(1)]] first_keeps(2)] .
  with u(2) show ?thesis using ad_keeps_trans count_keeps by blast
qed

section \<open>All events\<close>

lemma ad_fields:
  assumes "gencoll.more s = gencoll.more t"
  shows "ad_fixed s = ad_fixed t" "zonefaults s = zonefaults t" "ad_out s = ad_out t"
  using assms by (cases s; cases t; simp add: ad_fixed_def)+

interpretation ad_server: conn_kept ad_keeps "ad_hooks e" "ad_ghooks e" "\<lambda>s. ad_ok s \<and> ad_fixed s = k" for e k
proof (unfold_locales, goal_cases)
  case 1
  show ?case by (rule ad_ghooks_truncate)
next
  case (4 st st')
  then have "dev_keys st = dev_keys st'" by (intro keys_same)
  with ad_fields [OF 4(4)] show ?case by (auto simp: ad_ok_def ad_fixed_def)
qed (auto simp: ad_ghooks_def hooks.defs ad_keeps_def)

lemma ad_both: "ad_keeps s t \<Longrightarrow> (ad_ok s \<and> ad_fixed s = k) \<and> gen_ok s \<Longrightarrow> (ad_ok t \<and> ad_fixed t = k) \<and> gen_ok t"
  using gview_ok by (auto simp: ad_keeps_def)

lemma ad_handle_ok:
  assumes "ad_handle e ev s = Inr t" "ad_enabled ev s" "\<not> loop_exit s" "(ad_ok s \<and> ad_fixed s = k) \<and> gen_ok s"
  shows "(ad_ok t \<and> ad_fixed t = k) \<and> gen_ok t"
proof (cases ev)
  case (Ad_server g)
  with assms(1) have run: "gen_handle (ad_ghooks e) e g s = Inr t" by simp
  have "ad_ok t \<and> ad_fixed t = k" using run by (rule ad_server.gen_kept) (use assms(4) in blast)
  moreover have "gen_ok t" using ad_conn.handle_keeps [OF _ _ _ run] assms(2,3,4) Ad_server by simp
  ultimately show ?thesis by blast
next
  case (Ad_data bs)
  with assms(1) have "ad2usb_buf_read_cb e (s\<lparr>ad_input := ad_input s @ bs\<rparr>) = Inr t" by simp
  from ad_keeps_trans [OF first_keeps(2) ad_read_keeps [OF this]] assms(4) show ?thesis by (rule ad_both)
next
  case Ad_serial_error
  with assms show ?thesis by simp
next
  case Ad_wake
  have "ad_keeps s (ad_write [newline, CHR 0x0D] s)" by (rule ad_write_keeps) (simp add: panel_keys_def)
  then have "ad_keeps s t" using Ad_wake assms(1) ad_keeps_trans [OF _ first_keeps(3)] by (auto simp: ad2usb_wake_up_def)
  then show ?thesis using assms(4) by (rule ad_both)
qed

lemma calm_dump_conf:
  assumes "ad_maybe_dump_conf e z s = Inr t"
  shows "ad_calm s t"
proof -
  have "ad_calm u v" if "(if b then bindE r (\<lambda>_. Inl CleanExit) else Inr u) = Inr v"
    for b r and u v :: "'a ad2usb_scheme"
    using that by (auto simp: bindE_Inr_conv split: if_splits)
  note last = this
  from assms show ?thesis
    unfolding ad_maybe_dump_conf_def
    by - (erule bind_calm, erule calm_fold, erule calm_ensure, (erule bind_calm, erule calm_ensure)+, erule last)
qed

lemma calm_parse: "ad_parse_devices s = Inr t \<Longrightarrow> ad_calm s t"
  unfolding ad_parse_devices_def
  by (erule calm_fold)
    (auto simp: bindE_Inr_conv Let_def split: option.splits if_splits
      intro: calm_load ad_calm_trans [OF calm_load calm_announce(1)])

definition ad_setting :: "ad_options \<Rightarrow> int \<Rightarrow> int \<times> int \<times> bool \<times> bool \<times> string \<times> bool \<times> nat" where
  "ad_setting opts zopt = (ao_zones opts, ao_seccode opts, ao_logfaults opts, ao_dumping opts, ao_prefix opts, True,
     nat (if zopt = 0 then ao_zones opts else zopt))"

lemma ad_main_ok:
  assumes "ad2usb_main cf opts zopt e = Inr t"
  shows "(ad_ok t \<and> ad_fixed t = ad_setting opts zopt) \<and> gen_ok t"
proof -
  let ?s = "ad_start cf opts e" and ?z = "if zopt = 0 then ao_zones opts else zopt"
  have z: "ad_zones ?s = ao_zones opts" by (simp add: ad_start_def registry.defs)
  obtain s1 s2 s4 where run: "ad_maybe_dump_conf e ?z ?s = Inr s1"
      "generic_connect_server_cb 0 (s1\<lparr>zonefaults := replicate (nat ?z) 0, ad_conn_made := True\<rparr>) = Inr s2"
      "write_bev (gnhastd_out (s2\<lparr>collector_instance := ao_instance opts\<rparr>))
        (gn_client_name (Some ''ad2usbcoll'') (ao_instance opts)) (s2\<lparr>collector_instance := ao_instance opts\<rparr>) = Inr s4"
      "ad_parse_devices (s4\<lparr>wake_pending := True\<rparr>) = Inr t"
    using assms unfolding ad2usb_main_def Let_def z by (auto simp: bindE_Inr_conv split: if_splits)
  let ?s1 = "s1\<lparr>zonefaults := replicate (nat ?z) 0, ad_conn_made := True\<rparr>" and ?s3 = "s2\<lparr>collector_instance := ao_instance opts\<rparr>"
  have c1: "ad_calm ?s s1" using run(1) by (rule calm_dump_conf)
  then have gv: "gview ?s = gview ?s1" by (simp add: ad_calm_def gview_def)
  have "ad_ok ?s1 \<and> ad_fixed ?s1 = ad_setting opts zopt"
    using c1 by (auto simp: ad_calm_def ad_fixed_def ad_ok_def ad_setting_def ad_start_def registry.defs counters_ok_def
        list_all_iff dev_keys_def empty_registry_def)
  then have 2: "ad_ok s2 \<and> ad_fixed s2 = ad_setting opts zopt"
    using ad_server.connect_own [OF run(2)] by blast
  have "gnhastd_conn ?s1 = 0" using gview_D(5) [OF gv] by (simp add: ad_start_def registry.defs)
  then obtain u where u: "generic_connect_server_cb 0 ?s1 = Inr u" "gview u = gview (new_bev 0 ?s1)"
    using connect_total [of 0 ?s1] by auto
  have "gen_ok (new_bev 0 ?s1)"
    by (rule new_bev_ok) (use gview_D [OF gv, symmetric] in \<open>simp_all add: ad_start_def registry.defs\<close>)
  then have "gen_ok s2" using u run(2) gview_ok [OF u(2)] by simp
  then have 3: "(ad_ok ?s3 \<and> ad_fixed ?s3 = ad_setting opts zopt) \<and> gen_ok ?s3"
    using 2 by (simp add: gen_ok_def gen_at_def live_def ad_ok_def ad_fixed_def dev_keys_def split: option.splits)
  have "ad_keeps ?s3 t"
    using ad_keeps_trans [OF ad_keeps_trans [OF calm_keeps [OF calm_write [OF run(3)]] first_keeps(3)]
        calm_keeps [OF calm_parse [OF run(4)]]] .
  then show ?thesis using 3 by (rule ad_both)
qed

inductive ad_reach :: "ad_options \<Rightarrow> int \<Rightarrow> ad2usb \<Rightarrow> bool" for opts zopt where
  start: "ad2usb_main cf opts zopt e = Inr st \<Longrightarrow> ad_reach opts zopt st"
| step: "ad_reach opts zopt st \<Longrightarrow> \<not> loop_exit st \<Longrightarrow> ad_enabled ev st \<Longrightarrow> ad_handle e ev st = Inr st' \<Longrightarrow>
    ad_reach opts zopt st'"

lemma ad_reach_ok: "ad_reach opts zopt st \<Longrightarrow> (ad_ok st \<and> ad_fixed st = ad_setting opts zopt) \<and> gen_ok st"
proof (induction rule: ad_reach.induct)
  case (start cf e st)
  then show ?case by (rule ad_main_ok)
next
  case (step st ev e st')
  from step.hyps(4,3,2) step.IH show ?case by (rule ad_handle_ok)
qed

end
