(* ===== verification/Zones.thy ===== *)
theory Zones
  imports Panelinv
begin

text \<open>
  One zone of the alarm panel over the messages and the passes: which steps leave its counter and its
  device alone, and how a pass counts it down. The uids of the collector's other devices differ from
  those of the zones.
\<close>

section \<open>Names\<close>

lemma nat_dec_inject: "nat_dec m = nat_dec n \<longleftrightarrow> m = n"
  using scan_nat_dec by metis

lemma int_dec_inject: "int_dec i = int_dec j \<longleftrightarrow> i = j"
proof -
  have no: "CHR ''-'' # x \<noteq> nat_dec n" for x n
    using nat_dec_digits [of "CHR ''-''" n] by (auto simp: is_digit_def dest: sym)
  show ?thesis using no no [symmetric] by (auto simp: int_dec_def nat_dec_inject)
qed

lemma zone_name_inject: "zone_name i = zone_name j \<longleftrightarrow> i = j"
  by (simp add: zone_name_def int_dec_inject)

lemma ad_uid_inject: "ad_uid s a = ad_uid s b \<longleftrightarrow> a = b"
  by (simp add: ad_uid_def)

text \<open>A name that does not begin like the name of a zone.\<close>

definition other_name :: "string \<Rightarrow> bool" where
  "other_name a \<longleftrightarrow> a \<noteq> [] \<and> hd a \<noteq> CHR ''z''"

lemma other_zone: "other_name a \<Longrightarrow> a \<noteq> zone_name i"
  by (auto simp: other_name_def zone_name_def)

lemma fmt_prec_hd:
  assumes "0 < n"
  shows "fmt_prec n i \<noteq> [] \<and> (hd (fmt_prec n i) = CHR ''-'' \<or> is_digit (hd (fmt_prec n i)))"
proof -
  have ne: "pad_zeros n (nat_dec m) \<noteq> []" for m by (simp add: pad_zeros_def)
  have digit: "is_digit c" if "c \<in> set (pad_zeros n (nat_dec m))" for c m
    using that nat_dec_digits [of c m] by (auto simp: pad_zeros_def is_digit_def)
  have "is_digit (hd (pad_zeros n (nat_dec (nat i))))" by (rule digit) (rule hd_in_set [OF ne])
  then show ?thesis using ne by (auto simp: fmt_prec_def)
qed

lemma other_names:
  "other_name ''status''" "other_name ''acpower''" "other_name ''lowbat''" "other_name ''fire''"
  "other_name (rfx_name serial i)" "other_name (fmt_prec 7 serial @ x)" "other_name (exp_name (exp_type p) a b)"
proof -
  have "other_name (fmt_prec 7 serial @ y)" for y
    using fmt_prec_hd [of 7 serial] by (auto simp: other_name_def is_digit_def)
  then show "other_name (rfx_name serial i)" "other_name (fmt_prec 7 serial @ x)" by (auto simp: rfx_name_def)
  show "other_name (exp_name (exp_type p) a b)" by (simp add: exp_type_def exp_name_def extratype_def other_name_def)
qed (simp_all add: other_name_def)

section \<open>A zone\<close>

text \<open>The device \<open>p\<close> of the zone with the index \<open>i\<close>, a value of one byte.\<close>

definition zone_at :: "nat \<Rightarrow> dptr \<Rightarrow> 'a ad2usb_scheme \<Rightarrow> bool" where
  "zone_at i p s \<longleftrightarrow> dev_keys s \<and> ad_find s (zone_name (int i + 1)) = Some p \<and> store_width (dmem s p) = Some W8 \<and>
     i < length (zonefaults s) \<and> int i < ad_zones s"

definition zone_byte :: "dptr \<Rightarrow> 'a ad2usb_scheme \<Rightarrow> u8" where
  "zone_byte p s = ucast (d_data (dmem s p))"

definition same_zone :: "nat \<Rightarrow> dptr \<Rightarrow> 'a ad2usb_scheme \<Rightarrow> 'a ad2usb_scheme \<Rightarrow> bool" where
  "same_zone i p s t \<longleftrightarrow>
     (zone_at i p s \<longrightarrow> zone_at i p t \<and> zonefaults t ! i = zonefaults s ! i \<and> zone_byte p t = zone_byte p s)"

lemma same_refl [simp]: "same_zone i p s s"
  by (simp add: same_zone_def)

lemma same_trans: "same_zone i p a b \<Longrightarrow> same_zone i p b c \<Longrightarrow> same_zone i p a c"
  by (simp add: same_zone_def)

lemmas bind_same = bind_kept [where R = "same_zone i p" for i p, OF _ _ _ same_trans]

lemma fold_same:
  assumes "foldE f xs s = Inr t" and "\<And>x u v. x \<in> set xs \<Longrightarrow> f x u = Inr v \<Longrightarrow> same_zone i p u v"
  shows "same_zone i p s t"
  using assms(1) by (rule foldE_inv) (auto intro: same_trans assms(2))

text \<open>What a step must leave alone.\<close>

lemma same_view:
  assumes "ad_calm s t" and "ad_find t (zone_name (int i + 1)) = ad_find s (zone_name (int i + 1))"
    and "\<And>q. ad_find s (zone_name (int i + 1)) = Some q \<Longrightarrow> dev_keys s \<Longrightarrow> dmem t q = dmem s q"
  shows "same_zone i p s t"
proof -
  have "zonefaults t = zonefaults s" "ad_zones t = ad_zones s" "dev_keys s \<Longrightarrow> dev_keys t"
    using assms(1) by (simp_all add: ad_calm_def ad_fixed_def)
  then show ?thesis using assms(2,3) by (simp add: same_zone_def zone_at_def zone_byte_def)
qed

lemma write_registry: "write_bev b m s = Inr t \<Longrightarrow> dmem t = dmem s \<and> devtab t = devtab s"
  by (auto simp: write_bev_def split: option.splits)

lemma send_registry: "send_msg b m s = Inr t \<Longrightarrow> dmem t = dmem s \<and> devtab t = devtab s"
  by (auto simp: send_msg_def write_registry split: if_splits)

lemma announce_registry:
  "send_register b p s = Inr t \<Longrightarrow> dmem t = dmem s \<and> devtab t = devtab s"
  "send_update b p s = Inr t \<Longrightarrow> dmem t = dmem s \<and> devtab t = devtab s"
  by (auto simp: send_register_def send_update_def Let_def bindE_Inr_conv dest: send_registry split: if_splits)

lemma find_prefix: "ad_prefix t = ad_prefix s \<Longrightarrow> devtab t = devtab s \<Longrightarrow> ad_find t a = ad_find s a"
  by (simp add: ad_find_def ad_uid_def find_eta)

lemma calm_prefix: "ad_calm s t \<Longrightarrow> ad_prefix t = ad_prefix s"
  by (simp add: ad_calm_def ad_fixed_def)

lemma update_at:
  assumes "ad_update_int_dev v suf tr s = Inr t"
  obtains q d where "ad_find s suf = Some q" "store_int v (dmem s q) = Inr d" "dmem t = (dmem s)(q := d)" "devtab t = devtab s"
  using assms
proof (rule update_runs)
  fix q d
  assume q: "ad_find s suf = Some q" "store_int v (dmem s q) = Inr d"
    and t: "t = upd_dev q (\<lambda>_. d) s \<or> send_update (gnhastd_out (upd_dev q (\<lambda>_. d) s)) q (upd_dev q (\<lambda>_. d) s) = Inr t"
  have "dmem t = (dmem s)(q := d) \<and> devtab t = devtab s"
    using t announce_registry(2) by (fastforce simp: upd_dev_def)
  with q that show thesis by blast
qed

lemma found_apart:
  assumes "dev_keys s" "ad_find s a = Some q" "ad_find s b = Some q"
  shows "a = b"
proof -
  have "d_uid (dmem s q) = ad_uid s a" "d_uid (dmem s q) = ad_uid s b"
    using assms unfolding dev_keys_def ad_find_def find_eta by blast+
  then show ?thesis using ad_uid_inject by metis
qed

lemma update_same:
  assumes "ad_update_int_dev v suf tr s = Inr t" and "suf \<noteq> zone_name (int i + 1)"
  shows "same_zone i p s t"
  using assms(1)
proof (rule update_at)
  fix q d
  assume q: "ad_find s suf = Some q" "dmem t = (dmem s)(q := d)" "devtab t = devtab s"
  have c: "ad_calm s t" using assms(1) by (rule calm_update)
  show ?thesis
    by (rule same_view [OF c find_prefix [OF calm_prefix [OF c] q(3)]])
      (use q assms(2) found_apart in auto)
qed

lemma update_other: "ad_update_int_dev v suf tr s = Inr t \<Longrightarrow> other_name suf \<Longrightarrow> same_zone i p s t"
  by (erule update_same) (rule other_zone)

lemma value_same: "zone_value v j s = Inr t \<Longrightarrow> j \<noteq> i \<Longrightarrow> same_zone i p s t"
  by (auto simp: zone_value_def split: if_splits intro: update_same simp: zone_name_inject)

lemma counter_same: "j \<noteq> i \<Longrightarrow> same_zone i p s (s\<lparr>zonefaults := (zonefaults s)[j := z]\<rparr>)"
  by (simp add: same_zone_def zone_at_def zone_byte_def ad_find_def ad_uid_def find_eta dev_keys_def)

text \<open>A new device has a key of its own.\<close>

lemma provide_new:
  assumes "provide_device dev s = Inr (q, s1)" and none: "devtab s (d_uid dev) = None"
  shows "q = dnext s \<and> (\<forall>u. u \<noteq> d_uid dev \<longrightarrow> devtab s1 u = devtab s u) \<and> (\<forall>x. x \<noteq> q \<longrightarrow> dmem s1 x = dmem s x)"
proof (cases "find_devconf_byuid (coll_conf s) (d_uid dev)")
  case None
  then obtain cf where "q = dnext s" "s1 = insert_device q ((snd (alloc_dev dev s))\<lparr>coll_conf := cf\<rparr>)"
    using assms by (auto simp: provide_device_def new_dev_from_conf_def bindE_Inr_conv alloc_dev_def Let_def)
  then show ?thesis by (simp add: alloc_dev_def rb_insert_def)
next
  case (Some i)
  then obtain d where "load_dev (cf_devices (coll_conf s) ! i) (new_device (d_uid dev)) = Inr d" and q: "q = dnext s"
      and s1: "s1 = insert_device q (upd_dev q (\<lambda>_. d) (snd (alloc_dev (new_device (d_uid dev)) s)))"
    using assms by (auto simp: provide_device_def new_dev_from_conf_def bindE_Inr_conv alloc_dev_def find_eta)
  moreover have "d_uid d = d_uid dev" using load_dev_uid [OF calculation(1)] by (simp add: new_device_def)
  ultimately show ?thesis by (simp add: alloc_dev_def rb_insert_def)
qed

lemma new_same:
  assumes "ad_new_int_dev sub v suf s = Inr t" and "ad_find s suf = None"
  shows "same_zone i p s t"
  using assms(1)
proof (rule new_runs)
  fix dev q s1 d
  assume s: "provide_device dev s = Inr (q, s1)" "d_uid dev = ad_uid s suf" "store_int v (dmem s1 q) = Inr d"
      "t = upd_dev q (\<lambda>_. d) s1 \<or> (\<exists>b c u. send_register b q (upd_dev q (\<lambda>_. d) s1) = Inr u \<and> send_update c q u = Inr t)"
  have none: "devtab s (d_uid dev) = None" using assms(2) s(2) by (simp add: ad_find_def find_eta)
  have prov: "q = dnext s" "\<And>u. u \<noteq> d_uid dev \<Longrightarrow> devtab s1 u = devtab s u" "\<And>x. x \<noteq> q \<Longrightarrow> dmem s1 x = dmem s x"
    using provide_new [OF s(1) none] by blast+
  have t: "dmem t = (dmem s1)(q := d)" "devtab t = devtab s1"
    using s(4) announce_registry by (fastforce simp: upd_dev_def)+
  have c: "ad_calm s t" using assms(1) by (rule calm_new)
  show ?thesis
  proof (cases "ad_find s (zone_name (int i + 1))")
    case None
    then show ?thesis by (simp add: same_zone_def zone_at_def)
  next
    case (Some x)
    then have "ad_uid s (zone_name (int i + 1)) \<noteq> d_uid dev" using none by (auto simp: ad_find_def find_eta)
    then have f: "ad_find t (zone_name (int i + 1)) = ad_find s (zone_name (int i + 1))"
      using prov(2) t(2) calm_prefix [OF c] by (simp add: ad_find_def ad_uid_def find_eta)
    show ?thesis
      by (rule same_view [OF c f]) (use prov(1,3) t(1) in \<open>auto simp: dev_keys_def ad_find_def find_eta\<close>)
  qed
qed

section \<open>Messages\<close>

lemma conf_same: "same_zone i p s (s\<lparr>coll_conf := cf, coll_conf_file := cff\<rparr>)"
  by (simp add: same_zone_def zone_at_def zone_byte_def ad_find_def ad_uid_def find_eta dev_keys_def)

lemma exp_same: "ad2usb_handle_exp e data len s = Inr t \<Longrightarrow> same_zone i p s t"
proof -
  have build: "same_zone i p s u" if "build_exp e v suf s = Inr u" "ad_find s suf = None" for v suf u
    using that by (auto simp: build_exp_def bindE_Inr_conv intro: same_trans [OF new_same conf_same])
  assume "ad2usb_handle_exp e data len s = Inr t"
  then show ?thesis
  proof (rule exp_runs)
    fix q a b v
    assume "bindE (if ad_find s (exp_name (exp_type q) a b) = None then build_exp e v (exp_name (exp_type q) a b) s else Inr s)
        (ad_update_int_dev v (exp_name (exp_type q) a b) True) = Inr t"
    then show ?thesis
      by (rule bind_same) (auto split: if_splits intro: build update_other other_names)
  qed simp
qed

lemma signal_same: "rfx_signal msg b suf s = Inr t \<Longrightarrow> other_name suf \<Longrightarrow> same_zone i p s t"
  by (auto simp: rfx_signal_def split: if_splits option.splits intro: update_other)

lemma rfx_same: "ad2usb_handle_rfx data len s = Inr t \<Longrightarrow> same_zone i p s t"
proof -
  assume "ad2usb_handle_rfx data len s = Inr t"
  then show ?thesis
  proof (rule rfx_runs)
    fix serial msg
    assume "bindE (foldE (\<lambda>i. rfx_signal msg (rfx_bit i) (rfx_name serial i)) [1..<5] s)
        (rfx_signal msg 1 (fmt_prec 7 serial @ ''-lowbat'')) = Inr t"
    then show ?thesis
      by (rule bind_same) (auto intro: fold_same signal_same other_names)
  qed simp
qed

lemma flags_same:
  assumes "std_flags q multi s = Inr t"
  shows "same_zone i p s t"
proof -
  have u: "same_zone i p u w" if "ad_update_int_dev v suf True u = Inr w" "other_name suf" for v suf and u w :: "'a ad2usb_scheme"
    using that by (rule update_other)
  have b: "same_zone i p u w" if "update_bit c suf u = Inr w" "other_name suf" for c suf and u w :: "'a ad2usb_scheme"
    using that by (auto simp: update_bit_def split: if_splits intro: u)
  have st: "same_zone i p u w" if "(case x of None \<Rightarrow> Inr u | Some a \<Rightarrow> update_status a u) = Inr w"
    for x and u w :: "'a ad2usb_scheme"
    using that by (auto simp: update_status_def split: option.splits intro: u other_names)
  have f: "same_zone i p u w" if "(if x then update_status a u else Inr u) = Inr w" for x a and u w :: "'a ad2usb_scheme"
    using that by (auto simp: update_status_def split: if_splits intro: u other_names)
  from assms show ?thesis
    unfolding std_flags_def
    by - (erule bind_same, erule st, erule bind_same, erule f, erule bind_same, erule b, rule other_names(2),
        erule bind_same, erule b, rule other_names(3), erule b, rule other_names(4))
qed

lemma answer_same: "std_answer hit fault s = Inr t \<Longrightarrow> same_zone i p s t"
  by (auto simp: std_answer_def Let_def ad_write_def same_zone_def zone_at_def zone_byte_def ad_find_def ad_uid_def
      find_eta dev_keys_def split: if_splits)

lemma open_same:
  assumes "zone_open q r s = Inr t" and "\<And>v x. scan_d r = Some (v, x) \<Longrightarrow> sint v \<noteq> int i + 1"
  shows "same_zone i p s t"
  using assms(1)
proof (rule open_runs)
  fix v :: u32 and x s1
  assume v: "scan_d r = Some (v, x)" "1 \<le> sint v"
    and u: "ad_update_int_dev 1 (zone_name (sint v)) True s = Inr s1"
    and t: "t = s1\<lparr>zonefaults := (zonefaults s1)[nat (sint v - 1) := open_zones s + 3]\<rparr>"
  have n: "sint v \<noteq> int i + 1" using assms(2) v(1) by blast
  have "same_zone i p s s1" using u by (rule update_same) (simp add: zone_name_inject n)
  moreover have "same_zone i p s1 t" unfolding t by (rule counter_same) (use n v(2) in auto)
  ultimately show ?thesis by (rule same_trans)
qed simp

section \<open>Closing\<close>

text \<open>The zone rests or is closed.\<close>

definition zone_step :: "nat \<Rightarrow> dptr \<Rightarrow> 'a ad2usb_scheme \<Rightarrow> 'a ad2usb_scheme \<Rightarrow> bool" where
  "zone_step i p s t \<longleftrightarrow>
     (zone_at i p s \<longrightarrow> zone_at i p t \<and>
        (zonefaults t ! i = zonefaults s ! i \<and> zone_byte p t = zone_byte p s \<or> zonefaults t ! i = 0 \<and> zone_byte p t = 0))"

lemma step_same: "same_zone i p s t \<Longrightarrow> zone_step i p s t"
  by (simp add: same_zone_def zone_step_def)

lemma step_trans: "zone_step i p a b \<Longrightarrow> zone_step i p b c \<Longrightarrow> zone_step i p a c"
  by (auto simp: zone_step_def)

lemma store_byte: "store_int v d = Inr d' \<Longrightarrow> store_width d = Some W8 \<Longrightarrow>
    store_width d' = Some W8 \<and> ucast (d_data d') = (word_of_int v :: u8)"
proof -
  assume "store_int v d = Inr d'" and w: "store_width d = Some W8"
  then have d': "d' = store_data_dev d DATALOC_DATA (word_of_int v)" by (auto simp: store_int_def split: if_splits)
  have "ucast (copy W8 (word_of_int v) x) = (word_of_int v :: u8)" for x
    by (rule bit_word_eqI) (auto simp: bit_simps bit_copy)
  moreover have cong: "store_width (d\<lparr>d_last := x, d_flags := y\<rparr>) = Some W8" for x y
    using w store_width_cong [of "d\<lparr>d_last := x, d_flags := y\<rparr>" d] by simp
  moreover have "store_width d' = store_width d" by (rule store_width_cong) (simp_all add: d')
  ultimately show ?thesis using w by (simp add: d' store_data_dev_def Let_def set_loc_def)
qed

lemma update_zone:
  assumes "ad_update_int_dev v (zone_name (int i + 1)) tr s = Inr t" and "zone_at i p s"
  shows "zone_at i p t \<and> zonefaults t ! i = zonefaults s ! i \<and> zone_byte p t = word_of_int v"
  using assms(1)
proof (rule update_at)
  fix q d
  assume q: "ad_find s (zone_name (int i + 1)) = Some q" "store_int v (dmem s q) = Inr d"
    and t: "dmem t = (dmem s)(q := d)" "devtab t = devtab s"
  have p: "q = p" "store_width (dmem s p) = Some W8" using assms(2) q(1) by (auto simp: zone_at_def)
  have c: "ad_calm s t" using assms(1) by (rule calm_update)
  then have "dev_keys t" "zonefaults t = zonefaults s" "ad_zones t = ad_zones s"
    using assms(2) by (simp_all add: ad_calm_def ad_fixed_def zone_at_def)
  then show ?thesis
    using assms(2) store_byte [OF q(2)] p t find_prefix [OF calm_prefix [OF c] t(2)]
    by (simp add: zone_at_def zone_byte_def)
qed

lemma close_zone:
  assumes "zone_value 0 i (s\<lparr>zonefaults := (zonefaults s)[i := 0]\<rparr>) = Inr t" and "zone_at i p s"
  shows "zone_at i p t \<and> zonefaults t ! i = 0 \<and> zone_byte p t = 0"
proof -
  let ?s = "s\<lparr>zonefaults := (zonefaults s)[i := 0]\<rparr>"
  have at: "zone_at i p ?s" "zonefaults ?s ! i = 0"
    using assms(2) by (simp_all add: zone_at_def ad_find_def ad_uid_def find_eta dev_keys_def)
  then have "ad_find ?s (zone_name (int i + 1)) \<noteq> None" by (simp add: zone_at_def)
  with assms(1) have "ad_update_int_dev 0 (zone_name (int i + 1)) True ?s = Inr t" by (simp add: zone_value_def)
  from update_zone [OF this at(1)] at(2) show ?thesis by simp
qed

lemma closed_step:
  assumes "zones_closed s = Inr t"
  shows "zone_step i p s t"
proof -
  have one: "zone_step i p u w" if "zone_value 0 j (u\<lparr>zonefaults := (zonefaults u)[j := 0]\<rparr>) = Inr w"
    for j and u w :: "'a ad2usb_scheme"
  proof (cases "j = i")
    case True
    with that close_zone [of i u w p] show ?thesis by (auto simp: zone_step_def)
  next
    case False
    then show ?thesis using step_same [OF same_trans [OF counter_same value_same [OF that]]] by blast
  qed
  have "foldE (\<lambda>i st. zone_value 0 i (st\<lparr>zonefaults := (zonefaults st)[i := 0]\<rparr>)) (zone_range (ad_zones s)) s = Inr t"
    using assms by (simp add: zones_closed_def zone_array_def split: if_splits)
  then show ?thesis
    by (rule foldE_inv [where P = "zone_step i p s"]) (auto simp: step_same intro: step_trans one)
qed

text \<open>A line that shows the zone with the index \<open>i\<close> as open.\<close>

definition shows_open :: "nat \<Rightarrow> u8 list \<Rightarrow> bool" where
  "shows_open i line =
     (let data = text_of line
      in 2 < length line \<and> data \<noteq> [] \<and> hd data = CHR ''['' \<and>
         (case strtok (CHR '','') data of
            p # q # _ \<Rightarrow>
              std_fault p (strcasestr HIT_STAR data) \<and> (case scan_d q of Some (v, _) \<Rightarrow> sint v = int i + 1 | None \<Rightarrow> False)
          | _ \<Rightarrow> False))"

lemma std_step:
  assumes "ad2usb_handle_std data s = Inr t"
    and "\<And>q r ts v x. strtok (CHR '','') data = q # r # ts \<Longrightarrow> std_fault q (strcasestr HIT_STAR data) \<Longrightarrow>
      scan_d r = Some (v, x) \<Longrightarrow> sint v \<noteq> int i + 1"
  shows "zone_step i p s t"
  using assms(1)
proof (rule std_runs)
  fix q r x y ts s1 s2
  assume tok: "strtok (CHR '','') data = q # r # x # y # ts"
    and f: "std_flags q (strcasestr HIT_STAR data) s = Inr s1"
    and z: "(if std_fault q (strcasestr HIT_STAR data) then zone_open q r s1
        else if \<not> strcasestr HIT_STAR data then zones_closed s1 else Inr s1) = Inr s2"
    and a: "std_answer (strcasestr HIT_STAR y) (std_fault q (strcasestr HIT_STAR data)) s2 = Inr t"
  have "zone_step i p s1 s2"
  proof (cases "std_fault q (strcasestr HIT_STAR data)")
    case True
    with z open_same [of q r s1 s2 i p] assms(2) [OF tok True] show ?thesis by (auto intro: step_same)
  next
    case False
    with z show ?thesis by (auto split: if_splits intro: closed_step step_same)
  qed
  with step_same [OF flags_same [OF f]] step_same [OF answer_same [OF a]] show ?thesis by (blast intro: step_trans)
qed (simp add: step_same)

lemma line_step:
  assumes "ad_line e line s = Inr t" and "\<not> shows_open i line"
  shows "zone_step i p s t"
proof (cases "2 < length line \<and> text_of line \<noteq> [] \<and> hd (text_of line) = CHR ''[''")
  case True
  with assms(1) have "ad2usb_handle_std (text_of line) s = Inr t" by (simp add: ad_line_def)
  then show ?thesis by (rule std_step) (use assms(2) True in \<open>auto simp: shows_open_def Let_def\<close>)
next
  case False
  with assms(1) have "same_zone i p s t"
    by (auto simp: ad_line_def Let_def split: if_splits intro: rfx_same exp_same)
  then show ?thesis by (rule step_same)
qed

section \<open>Passes\<close>

text \<open>Lines as the adapter sends them.\<close>

definition good_line :: "u8 list \<Rightarrow> bool" where
  "good_line l \<longleftrightarrow> l \<noteq> [] \<and> 10 \<notin> set l"

definition packet :: "u8 list list \<Rightarrow> u8 list" where
  "packet ls = concat (map (\<lambda>l. l @ [13, 10]) ls)"

lemma readln_line: "10 \<notin> set l \<Longrightarrow> readln (l @ [13, 10] @ r) = Some (l, r)"
proof -
  assume l: "10 \<notin> set l"
  then have "\<And>x. x \<in> set l \<Longrightarrow> x \<noteq> 10" by blast
  then have "takeWhile (\<lambda>b. b \<noteq> 10) (l @ [13, 10] @ r) = l @ [13]" "dropWhile (\<lambda>b. b \<noteq> 10) (l @ [13, 10] @ r) = 10 # r"
    by (simp_all add: takeWhile_append2 dropWhile_append2)
  then show ?thesis by (simp add: readln_def Let_def)
qed

lemma read_packet:
  "list_all good_line ls \<Longrightarrow>
    ad_read_lines e n (packet ls) s = bindE (foldE (ad_line e) ls s) (\<lambda>t. Inr (n + length ls, [], t))"
proof (induction ls arbitrary: n s)
  case Nil
  then show ?case by (simp add: packet_def ad_read_lines.simps [of e n "[]"] readln_def)
next
  case (Cons l ls)
  then have l: "l \<noteq> []" "readln (packet (l # ls)) = Some (l, packet ls)"
    using readln_line [of l "packet ls"] by (simp_all add: good_line_def packet_def)
  show ?case
    using Cons l by (cases "ad_line e l s") (simp_all add: ad_read_lines.simps [of e n "packet (l # ls)"])
qed

lemma count_other: "count_down j s = Inr t \<Longrightarrow> j \<noteq> i \<Longrightarrow> same_zone i p s t"
  by (auto simp: count_down_def Let_def split: if_splits intro: counter_same value_same same_trans [OF counter_same value_same])

lemma count_one:
  assumes "count_down i s = Inr t" and "zone_at i p s" and "0 \<le> zonefaults s ! i"
  shows "zone_at i p t \<and> zonefaults t ! i = max 0 (zonefaults s ! i - 1) \<and>
    (zonefaults t ! i = 0 \<longrightarrow> zone_byte p t = (if zonefaults s ! i = 0 then zone_byte p s else 0))"
proof -
  have i: "i < length (zonefaults s)" using assms(2) by (simp add: zone_at_def)
  have at: "zone_at i p (s\<lparr>zonefaults := zs\<rparr>)" if "length zs = length (zonefaults s)" for zs
    using assms(2) that by (simp add: zone_at_def ad_find_def ad_uid_def find_eta dev_keys_def)
  consider "zonefaults s ! i = 0" | "zonefaults s ! i = 1" | "1 < zonefaults s ! i" using assms(3) by linarith
  then show ?thesis
  proof cases
    case 2
    then have "zone_value 0 i (s\<lparr>zonefaults := (zonefaults s)[i := 0]\<rparr>) = Inr t"
      using assms(1) i by (simp add: count_down_def Let_def)
    from close_zone [OF this assms(2)] 2 show ?thesis by simp
  next
    case 3
    then have "t = s\<lparr>zonefaults := (zonefaults s)[i := zonefaults s ! i - 1]\<rparr>"
      using assms(1) i by (simp add: count_down_def Let_def)
    with 3 at i show ?thesis by simp
  qed (use assms in \<open>simp add: count_down_def\<close>)
qed

lemma count_input:
  assumes "count_zones s = Inr t"
  shows "ad_input t = ad_input s"
proof -
  have one: "ad_input v = ad_input u" if "count_down j u = Inr v" for j and u v :: "'a ad2usb_scheme"
    using that calm_value [of 0 j] by (fastforce simp: count_down_def Let_def ad_calm_def split: if_splits)
  obtain u where u: "foldE count_down (zone_range (ad_zones s)) s = Inr u" "t = u\<lparr>first_update := False\<rparr>"
    using assms by (auto simp: count_zones_def zone_array_def bindE_Inr_conv split: if_splits)
  from u(1) have "ad_input u = ad_input s" by (rule foldE_inv) (auto dest: one)
  with u(2) show ?thesis by simp
qed

lemma count_pass:
  assumes "count_zones s = Inr t" and "zone_at i p s" and "0 \<le> zonefaults s ! i"
  shows "zone_at i p t \<and> zonefaults t ! i = max 0 (zonefaults s ! i - 1) \<and>
    (zonefaults t ! i = 0 \<longrightarrow> zone_byte p t = (if zonefaults s ! i = 0 then zone_byte p s else 0))"
proof -
  obtain u where u: "foldE count_down (zone_range (ad_zones s)) s = Inr u" "t = u\<lparr>first_update := False\<rparr>"
    using assms(1) by (auto simp: count_zones_def zone_array_def bindE_Inr_conv split: if_splits)
  have "i < nat (ad_zones s)" using assms(2) by (auto simp: zone_at_def)
  then have "zone_range (ad_zones s) = [0..<i] @ i # [Suc i..<nat (ad_zones s)]"
    unfolding zone_range_def by (metis less_imp_le_nat upt_add_eq_append upt_conv_Cons le_add_diff_inverse zero_le plus_nat.add_0)
  with u(1) obtain v w where run: "foldE count_down [0..<i] s = Inr v" "count_down i v = Inr w"
      "foldE count_down [Suc i..<nat (ad_zones s)] w = Inr u"
    by (auto simp: foldE_append bindE_Inr_conv)
  have 1: "same_zone i p s v" using run(1) by (rule fold_same) (auto intro: count_other)
  have 2: "same_zone i p w u" using run(3) by (rule fold_same) (auto intro: count_other)
  have v: "zone_at i p v" "zonefaults v ! i = zonefaults s ! i" "zone_byte p v = zone_byte p s"
    using 1 assms(2) by (auto simp: same_zone_def)
  have w: "zone_at i p w" using count_one [OF run(2) v(1)] v(2) assms(3) by simp
  have "zone_at i p t = zone_at i p u" "zonefaults t = zonefaults u" "zone_byte p t = zone_byte p u"
    unfolding u(2) by (simp_all add: zone_at_def zone_byte_def ad_find_def ad_uid_def find_eta dev_keys_def)
  then show ?thesis
    using count_one [OF run(2) v(1)] v assms(3) 2 w by (simp add: same_zone_def)
qed

text \<open>A pass that does not show the zone.\<close>

lemma pass_step:
  assumes run: "ad_handle e (Ad_data (packet ls)) s = Inr t" and "ls \<noteq> []" "list_all good_line ls"
    and "list_all (\<lambda>l. \<not> shows_open i l) ls" and "ad_input s = []" "zone_at i p s" "0 \<le> zonefaults s ! i"
    and shut: "zonefaults s ! i = 0 \<Longrightarrow> zone_byte p s = 0"
  shows "zone_at i p t \<and> ad_input t = [] \<and> 0 \<le> zonefaults t ! i \<and> zonefaults t ! i \<le> max 0 (zonefaults s ! i - 1) \<and>
    (zonefaults t ! i = 0 \<longrightarrow> zone_byte p t = 0)"
proof -
  let ?s = "s\<lparr>ad_input := packet ls, ad_lastupd := ce_now e\<rparr>"
  obtain u where u: "foldE (ad_line e) ls ?s = Inr u" "count_zones (u\<lparr>ad_input := []\<rparr>) = Inr t"
    using run assms(2,3,5) by (auto simp: ad2usb_buf_read_cb_def Let_def read_packet bindE_Inr_conv)
  have frame: "zone_at i p (v\<lparr>ad_input := x\<rparr>) = zone_at i p v" "zone_at i p (v\<lparr>ad_lastupd := n\<rparr>) = zone_at i p v"
    "zone_byte p (v\<lparr>ad_input := x\<rparr>) = zone_byte p v" "zone_byte p (v\<lparr>ad_lastupd := n\<rparr>) = zone_byte p v"
    for x n and v :: "'a ad2usb_scheme"
    by (simp_all add: zone_at_def zone_byte_def ad_find_def ad_uid_def find_eta dev_keys_def)
  have one: "zone_step i p v w" if "l \<in> set ls" "ad_line e l v = Inr w" for l and v w :: "'a ad2usb_scheme"
    using line_step [OF that(2)] that(1) assms(4) by (auto simp: list_all_iff)
  have "zone_step i p ?s u"
    using u(1) by (rule foldE_inv [where P = "zone_step i p ?s"]) (auto simp: step_same intro: step_trans one)
  then have u': "zone_at i p u" "zonefaults u ! i = zonefaults s ! i \<and> zone_byte p u = zone_byte p s \<or> zonefaults u ! i = 0 \<and> zone_byte p u = 0"
    using assms(6) frame by (auto simp: zone_step_def)
  then have "0 \<le> zonefaults u ! i" "zonefaults u ! i = 0 \<longrightarrow> zone_byte p u = 0" "zonefaults u ! i \<le> zonefaults s ! i"
    using assms(7) shut by auto
  then show ?thesis
    using count_pass [OF u(2), of i p] u'(1) frame count_input [OF u(2)] by (auto split: if_splits)
qed

end
