(* ===== verification/Panelstart.thy ===== *)
theory Panelstart
  imports Panelinv
begin

text \<open>
  The start of the alarm panel's collector succeeds when the configuration holds no devices but those
  it makes itself.
\<close>

definition own_types :: "subtype set" where
  "own_types = {SUBTYPE_SWITCH, SUBTYPE_ALARMSTATUS}"

definition sec_ok :: "devsec \<Rightarrow> bool" where
  "sec_ok sec \<longleftrightarrow> cs_name sec = None \<and> cs_hargs sec = [] \<and> cs_tags sec = [] \<and>
     cs_type sec = int (unat (dev_type_code DEVICE_SENSOR)) \<and>
     (\<exists>t \<in> own_types. cs_subtype sec = int (unat (subtype_code t)))"

definition unnamed :: "'a ad2usb_scheme \<Rightarrow> bool" where
  "unnamed s \<longleftrightarrow> list_all sec_ok (cf_devices (coll_conf s)) \<and> (\<forall>p. d_name (dmem s p) = None)"

lemma own_width:
  assumes "d_type d = dev_type_code DEVICE_SENSOR" "d_subtype d = subtype_code t" "t \<in> own_types"
  shows "store_width d = Some W8"
proof -
  have "dev_type_of (dev_type_code DEVICE_SENSOR) = Some DEVICE_SENSOR" by code_simp
  then show ?thesis using assms by (auto simp: store_width_def own_types_def store_subtype_width_def)
qed

lemma load_own:
  assumes "sec_ok sec" "d_name d = None"
  obtains d' where "load_dev sec d = Inr d'" "d_name d' = None" "store_width d' = Some W8"
proof -
  obtain t where t: "t \<in> own_types" "cs_subtype sec = int (unat (subtype_code t))" using assms(1) by (auto simp: sec_ok_def)
  obtain d' where d': "load_dev sec d = Inr d'" and n: "d_name d' = None"
      and ty: "d_type d' = dev_type_code DEVICE_SENSOR" "d_subtype d' = subtype_code t"
    using assms t by (simp add: load_dev_def Let_def sec_ok_def or_else_def load_flags_def load_waters_def)
  show thesis using d' n own_width [OF ty t(1)] by (rule that)
qed

lemma conf_own:
  assumes "find_devconf_byuid cf (d_uid d) = None" "list_all sec_ok (cf_devices cf)"
    and "d_name d = None" "d_rrdname d = None" "d_hargs d = NullArr" "d_tags d = NullArr"
    and "d_type d = dev_type_code DEVICE_SENSOR" "d_subtype d = subtype_code t" "t \<in> own_types"
  obtains cf' where "new_conf_from_dev cf d = Inr cf'" "list_all sec_ok (cf_devices cf')"
proof -
  have c: "subtype_code t \<noteq> 0" "dev_type_code DEVICE_SENSOR \<noteq> 0"
    using assms(9) by (auto simp: own_types_def) (code_simp+)
  obtain sec where sec: "fill_devsec d (new_devsec (d_uid d)) = Inr sec"
    by (simp add: fill_devsec_def Let_def set_strs_def assms(5,6))
  have "cs_name sec = None" "cs_hargs sec = []" "cs_tags sec = []" "cs_type sec = int (unat (dev_type_code DEVICE_SENSOR))"
    "cs_subtype sec = int (unat (subtype_code t))"
    using sec assms c
    by (auto simp: fill_devsec_def Let_def set_strs_def set_scale_def set_waters_def or_else_def new_devsec_def own_types_def)
  then have "sec_ok sec" using assms(9) by (auto simp: sec_ok_def)
  then show thesis
    using that sec assms(1,2) by (simp add: new_conf_from_dev_def with_devsec_def)
qed

lemma find_titled_Some: "find_titled f t ss = Some i \<Longrightarrow> i < length ss"
  by (induction ss arbitrary: i) (auto split: if_splits)

lemma from_conf_own:
  assumes "unnamed s" and "find_devconf_byuid (coll_conf s) u = Some i"
  obtains p s' where "new_dev_from_conf (coll_conf s) u s = Inr (Some p, s')" "unnamed s'" "store_width (dmem s' p) = Some W8"
proof -
  have "i < length (cf_devices (coll_conf s))"
    using assms(2) find_titled_Some by (simp add: find_devconf_byuid_def)
  then have sec: "sec_ok (cf_devices (coll_conf s) ! i)" using assms(1) by (simp add: unnamed_def list_all_length)
  define ps1 where "ps1 = (case find_device_byuid s u of Some p \<Rightarrow> (p, s) | None \<Rightarrow> alloc_dev (new_device u) s)"
  have u: "unnamed (snd ps1)"
    using assms(1) by (simp add: ps1_def unnamed_def alloc_dev_def new_device_def split: option.split)
  then have "d_name (dmem (snd ps1) (fst ps1)) = None" by (simp add: unnamed_def)
  then obtain d where d: "load_dev (cf_devices (coll_conf s) ! i) (dmem (snd ps1) (fst ps1)) = Inr d"
      "d_name d = None" "store_width d = Some W8"
    by (rule load_own [OF sec])
  have "new_dev_from_conf (coll_conf s) u s = Inr (Some (fst ps1), upd_dev (fst ps1) (\<lambda>_. d) (snd ps1))"
    using assms(2) d(1) by (simp add: new_dev_from_conf_def Let_def ps1_def split_def)
  moreover have "unnamed (upd_dev (fst ps1) (\<lambda>_. d) (snd ps1))" using u d(2) by (simp add: unnamed_def upd_dev_def)
  ultimately show thesis using that d(3) by (simp add: upd_dev_def)
qed

lemma insert_unnamed [simp]: "unnamed (insert_device p s) = unnamed s"
proof -
  have "coll_conf (insert_device p s) = coll_conf s" "d_name (dmem (insert_device p s) q) = d_name (dmem s q)" for q
    by (simp_all add: insert_device_def Let_def upd_dev_def)
  then show ?thesis by (simp add: unnamed_def)
qed

lemma provide_own:
  assumes "unnamed s" and "d_name d = None" "d_rrdname d = None" "d_hargs d = NullArr" "d_tags d = NullArr"
    and "d_type d = dev_type_code DEVICE_SENSOR" "d_subtype d = subtype_code t" "t \<in> own_types"
  obtains p s' where "provide_device d s = Inr (p, s')" "unnamed s'" "store_width (dmem s' p) = Some W8"
proof (cases "find_devconf_byuid (coll_conf s) (d_uid d)")
  case None
  obtain cf where cf: "new_conf_from_dev (coll_conf s) d = Inr cf" "list_all sec_ok (cf_devices cf)"
    by (rule conf_own [OF None _ assms(2-8)]) (use assms(1) in \<open>simp add: unnamed_def\<close>)
  let ?s = "insert_device (dnext s) ((snd (alloc_dev d s))\<lparr>coll_conf := cf\<rparr>)"
  have "provide_device d s = Inr (dnext s, ?s)"
    using None cf(1) by (simp add: provide_device_def new_dev_from_conf_def alloc_dev_def Let_def)
  moreover have "unnamed ((snd (alloc_dev d s))\<lparr>coll_conf := cf\<rparr>)"
    using assms(1,2) cf(2) by (simp add: unnamed_def alloc_dev_def)
  then have "unnamed ?s" by simp
  moreover have "store_width (dmem ?s (dnext s)) = Some W8"
    by (rule own_width) (use assms(6-8) in \<open>simp_all add: alloc_dev_def\<close>)
  ultimately show thesis by (rule that)
next
  case (Some i)
  obtain p s1 where s1: "new_dev_from_conf (coll_conf s) (d_uid d) s = Inr (Some p, s1)"
      "unnamed s1" "store_width (dmem s1 p) = Some W8"
    by (rule from_conf_own [OF assms(1) Some])
  have "provide_device d s = Inr (p, insert_device p s1)" using s1(1) by (simp add: provide_device_def)
  moreover have "unnamed (insert_device p s1)" using s1(2) by simp
  moreover have "store_width (dmem (insert_device p s1) p) = store_width (dmem s1 p)"
    by (rule store_width_cong) simp_all
  ultimately show thesis using s1(3) that by simp
qed

lemma new_own:
  assumes "unnamed s" and "t \<in> own_types"
  obtains s' where "ad_new_int_dev t v suf s = Inr s'" "unnamed s'"
proof -
  define dev where "dev = (new_device (ad_uid s suf))\<lparr>d_loc := Some (ad_uid s suf), d_type := dev_type_code DEVICE_SENSOR,
    d_proto := proto_code PROTO_SENSOR_AD2USB, d_subtype := subtype_code t\<rparr>"
  obtain p s1 where s1: "provide_device dev s = Inr (p, s1)" "unnamed s1" "store_width (dmem s1 p) = Some W8"
    by (rule provide_own [OF assms(1), of dev t]) (simp_all add: dev_def new_device_def assms(2))
  let ?d = "store_data_dev (dmem s1 p) DATALOC_DATA (word_of_int v)"
  have n: "d_name ?d = None" using s1(2) by (simp add: unnamed_def)
  have "ad_new_int_dev t v suf s = Inr (upd_dev p (\<lambda>_. ?d) s1)"
    using s1 n unfolding ad_new_int_dev_def Let_def dev_def [symmetric] by (simp add: store_int_def)
  moreover have "unnamed (upd_dev p (\<lambda>_. ?d) s1)" using s1(2) n by (simp add: unnamed_def upd_dev_def)
  ultimately show thesis by (rule that)
qed

lemma ensure_own: "unnamed s \<Longrightarrow> t \<in> own_types \<Longrightarrow> \<exists>s'. ensure_int_dev t v suf s = Inr s' \<and> unnamed s'"
proof -
  assume "unnamed s" "t \<in> own_types"
  then obtain s' where "ad_new_int_dev t v suf s = Inr s'" "unnamed s'" by (rule new_own)
  with \<open>unnamed s\<close> show ?thesis by (auto simp: ensure_int_dev_def)
qed

lemma devices_own:
  assumes "unnamed s" and "\<not> ad_dumping s"
  obtains s' where "ad_maybe_dump_conf e zones s = Inr s'" "unnamed s'"
proof -
  have t: "SUBTYPE_SWITCH \<in> own_types" "SUBTYPE_ALARMSTATUS \<in> own_types" by (simp_all add: own_types_def)
  obtain s1 where s1: "foldE (\<lambda>i. ensure_int_dev SUBTYPE_SWITCH 0 (zone_name (int i + 1))) (zone_range zones) s = Inr s1" "unnamed s1"
    using foldE_total [of unnamed s "zone_range zones" "\<lambda>i. ensure_int_dev SUBTYPE_SWITCH 0 (zone_name (int i + 1))"]
      assms(1) ensure_own t(1) by blast
  obtain s2 where s2: "ensure_int_dev SUBTYPE_ALARMSTATUS 0 ''status'' s1 = Inr s2" "unnamed s2" using ensure_own s1(2) t(2) by blast
  obtain s3 where s3: "ensure_int_dev SUBTYPE_SWITCH 0 ''lowbat'' s2 = Inr s3" "unnamed s3" using ensure_own s2(2) t(1) by blast
  obtain s4 where s4: "ensure_int_dev SUBTYPE_SWITCH 1 ''acpower'' s3 = Inr s4" "unnamed s4" using ensure_own s3(2) t(1) by blast
  obtain s5 where s5: "ensure_int_dev SUBTYPE_SWITCH 1 ''fire'' s4 = Inr s5" "unnamed s5" using ensure_own s4(2) t(1) by blast
  have "ad_calm s s1" using s1(1) by (rule calm_fold) (rule calm_ensure)
  then have "ad_calm s s5"
    using calm_ensure [OF s2(1)] calm_ensure [OF s3(1)] calm_ensure [OF s4(1)] calm_ensure [OF s5(1)]
    by (blast intro: ad_calm_trans)
  then have "\<not> ad_dumping s5" using assms(2) by (simp add: ad_calm_def ad_fixed_def)
  then have "ad_maybe_dump_conf e zones s = Inr s5" by (simp add: ad_maybe_dump_conf_def s1 s2 s3 s4 s5)
  then show thesis using s5(2) by (rule that)
qed

lemma write_unnamed: "write_bev b m s = Inr t \<Longrightarrow> unnamed t = unnamed s"
  by (auto simp: write_bev_def unnamed_def split: option.splits)

lemma parse_own:
  assumes "unnamed s"
  shows "\<exists>s'. ad_parse_devices s = Inr s' \<and> unnamed s'"
proof -
  let ?f = "\<lambda>sec st. bindE (new_dev_from_conf (coll_conf st) (cs_title sec) st) (\<lambda>(found, st1).
           case found of
             None \<Rightarrow> Inl NullDeref
           | Some p \<Rightarrow>
               let st2 = insert_device p st1
               in if \<not> ad_dumping st2 \<and> d_name (dmem st2 p) \<noteq> None
                  then send_register (gnhastd_out st2) p st2 else Inr st2)"
  let ?P = "\<lambda>st. unnamed st \<and> coll_conf st = coll_conf s"
  have "\<exists>t'. ?f sec t = Inr t' \<and> ?P t'" if "sec \<in> set (cf_devices (coll_conf s))" "?P t" for sec t
  proof -
    note t = that
    have "find_titled cs_title (cs_title sec) ss \<noteq> None" if "sec \<in> set ss" for ss using that by (induction ss) auto
    from this [OF t(1)] obtain i where i: "find_devconf_byuid (coll_conf t) (cs_title sec) = Some i"
      using t(2) by (auto simp: find_devconf_byuid_def)
    obtain p t1 where t1: "new_dev_from_conf (coll_conf t) (cs_title sec) t = Inr (Some p, t1)" "unnamed t1"
      using t(2) i by (blast intro: from_conf_own)
    have "coll_conf t1 = coll_conf t"
      using t1(1) by (auto simp: new_dev_from_conf_def bindE_Inr_conv Let_def alloc_dev_def upd_dev_def split: option.splits)
    moreover have "d_name (dmem t1 p) = None" "coll_conf (insert_device p t1) = coll_conf t1"
      using t1(2) by (simp_all add: unnamed_def insert_device_def Let_def upd_dev_def)
    ultimately show ?thesis using t1 t(2) by simp
  qed
  from foldE_total [of ?P s "cf_devices (coll_conf s)" ?f, OF _ this] assms show ?thesis by (auto simp: ad_parse_devices_def)
qed

lemma connect_unnamed: "generic_connect_server_cb c s = Inr t \<Longrightarrow> unnamed t = unnamed s"
proof -
  have "unnamed (new_bev c s) = unnamed s" by (simp add: unnamed_def new_bev_def Let_def upd_conn_def)
  then show "generic_connect_server_cb c s = Inr t \<Longrightarrow> unnamed t = unnamed s"
    by (auto simp: generic_connect_server_cb_def Let_def bindE_Inr_conv write_unnamed split: if_splits)
qed

lemma start_total:
  assumes "list_all sec_ok (cf_devices cf)" and "\<not> ao_dumping opts" and "0 \<le> ao_zones opts"
  shows "\<exists>st. ad2usb_main cf opts 0 e = Inr st"
proof -
  let ?s = "ad_start cf opts e" and ?z = "ao_zones opts"
  have z: "ad_zones ?s = ?z" "\<not> ad_dumping ?s" "unnamed ?s"
    using assms(1,2) by (simp_all add: ad_start_def registry.defs unnamed_def empty_registry_def new_device_def)
  obtain s1 where s1: "ad_maybe_dump_conf e ?z ?s = Inr s1" "unnamed s1" using z(2,3) by (blast intro: devices_own)
  let ?s1 = "s1\<lparr>zonefaults := replicate (nat ?z) 0, ad_conn_made := True\<rparr>"
  have g: "gview s1 = gview ?s" using calm_dump_conf [OF s1(1)] by (simp add: ad_calm_def)
  have "gnhastd_conn ?s1 = 0" using gview_D(5) [OF g] by (simp add: ad_start_def registry.defs)
  then obtain s2 where s2: "generic_connect_server_cb 0 ?s1 = Inr s2" "gview s2 = gview (new_bev 0 ?s1)"
    using connect_total [of 0 ?s1] by auto
  let ?s3 = "s2\<lparr>collector_instance := ao_instance opts\<rparr>"
  have "unnamed ?s1" using s1(2) by (simp add: unnamed_def)
  then have "unnamed ?s3" using connect_unnamed [OF s2(1)] by (simp add: unnamed_def)
  have "live (gnhastd_out (new_bev 0 ?s1)) (new_bev 0 ?s1)"
    using \<open>gnhastd_conn ?s1 = 0\<close> by (simp add: gnhastd_out_def new_bev_def Let_def live_Some)
  then have "live (gnhastd_out s2) s2"
    using live_view [OF s2(2)] gview_D(1,5) [OF s2(2)] by (simp add: gnhastd_out_def)
  then have "live (gnhastd_out ?s3) ?s3" by (simp add: gnhastd_out_def live_def split: option.splits)
  then obtain s4 where s4: "write_bev (gnhastd_out ?s3) (gn_client_name (Some ''ad2usbcoll'') (ao_instance opts)) ?s3 = Inr s4"
    using write_bev_live by blast
  have "unnamed (s4\<lparr>wake_pending := True\<rparr>)" using write_unnamed [OF s4] \<open>unnamed ?s3\<close> by (simp add: unnamed_def)
  then obtain st where "ad_parse_devices (s4\<lparr>wake_pending := True\<rparr>) = Inr st" using parse_own by blast
  then have "ad2usb_main cf opts 0 e = Inr st"
    using assms(3) unfolding ad2usb_main_def Let_def z(1) by (simp add: s1(1) s2(1) s4)
  then show ?thesis ..
qed

end
