(* ===== verification/Panel.thy ===== *)
theory Panel
  imports Zones Panelstart
begin

text \<open>
  Properties of the alarm panel's collector: its invariant, how long a zone stays open after it was
  last shown, that the answer to the panel is never written twice, and the places where it is wrong.
\<close>

section \<open>Reachable states\<close>

text \<open>
  C33. In every reachable state each fault counter is between 0 and the number of zones plus three,
  there are as many as the start-up asked for, what has been sent to the panel is a sequence of the
  known keys, of which those that arm or disarm need a security code, and the server is connected,
  or a timer that connects again is pending, or the collector is stopping.
\<close>

theorem panel_invariant:
  assumes "ad_reach opts zopt st"
  shows "length (zonefaults st) = nat (if zopt = 0 then ao_zones opts else zopt) \<and>
    list_all (\<lambda>z. 0 \<le> z \<and> z \<le> int (nat (ao_zones opts)) + 3) (zonefaults st) \<and>
    (\<exists>ms. ad_out st = concat ms \<and> list_all (panel_keys (ao_seccode opts)) ms) \<and>
    (ao_seccode opts = 0 \<longrightarrow> set (ad_out st) \<subseteq> {CHR ''*'', newline, CHR 0x0D}) \<and>
    (loop_exit st \<or> live (gnhastd_bev st) st \<or> retry_timers st = [gnhastd_conn st])"
proof -
  have ok: "ad_ok st" and f: "ad_fixed st = ad_setting opts zopt" and g: "gen_at (gnhastd_conn st) st"
    using ad_reach_ok [OF assms] by (simp_all add: gen_ok_def)
  obtain ms where ms: "list_all (panel_keys (ao_seccode opts)) ms" "ad_out st = concat ms"
    using ok f by (auto simp: ad_ok_def panel_sent_def ad_fixed_def ad_setting_def)
  have "set (concat ms) \<subseteq> {CHR ''*'', newline, CHR 0x0D}" if "ao_seccode opts = 0"
    using ms(1) that by (induction ms) (auto simp: panel_keys_def)
  moreover have "loop_exit st \<or> live (gnhastd_bev st) st \<or> retry_timers st = [gnhastd_conn st]"
    using gen_at_D(4,6) [OF g] by auto
  ultimately show ?thesis
    using ok f ms by (auto simp: ad_ok_def ad_fixed_def ad_setting_def counters_ok_def)
qed

text \<open>A panel with two zones.\<close>

definition two_zones :: ad_options where
  "two_zones = \<lparr>ao_zones = 2, ao_seccode = 0, ao_logfaults = False, ao_instance = 1, ao_prefix = ''ad'', ao_dumping = False\<rparr>"

definition noon :: cenv where
  "noon = \<lparr>ce_now = 1000, ce_open = True\<rparr>"

theorem panel_invariant_witness:
  "\<exists>st. ad_reach two_zones 0 st \<and> length (zonefaults st) = 2 \<and> list_all (\<lambda>z. 0 \<le> z \<and> z \<le> 5) (zonefaults st) \<and>
     set (ad_out st) \<subseteq> {CHR ''*'', newline, CHR 0x0D}"
proof -
  obtain st where "ad2usb_main no_conf two_zones 0 noon = Inr st"
    using start_total [of no_conf two_zones noon] by (auto simp: no_conf_def two_zones_def)
  then have r: "ad_reach two_zones 0 st" by (rule ad_reach.start)
  with panel_invariant [OF r] show ?thesis by (intro exI [of _ st]) (simp add: two_zones_def)
qed

text \<open>A collector that is connected, with one zone that is open.\<close>

definition one_open :: ad2usb where
  "one_open =
     (let d = (new_device ''ad-zone1'')\<lparr>d_type := dev_type_code DEVICE_SENSOR, d_subtype := subtype_code SUBTYPE_SWITCH, d_data := 1\<rparr>
      in (insert_device 0 (snd (alloc_dev d (new_bev 0 (ad_start no_conf (two_zones\<lparr>ao_zones := 1\<rparr>) noon)))))
           \<lparr>zonefaults := [2]\<rparr>)"

definition bytes_of :: "string \<Rightarrow> u8 list" where
  "bytes_of s = map (\<lambda>c. of_nat (of_char c)) s"

section \<open>The answer to the panel\<close>

text \<open>The server is connected, and a run that does not touch freed storage as long as it is.\<close>

definition ad_up :: "'a ad2usb_scheme \<Rightarrow> bool" where
  "ad_up s \<longleftrightarrow> live (gnhastd_out s) s"

definition sound :: "'a ad2usb_scheme res \<Rightarrow> bool" where
  "sound r \<longleftrightarrow> r \<noteq> Inl UseAfterFree \<and> (\<forall>t. r = Inr t \<longrightarrow> ad_up t)"

lemma sound_simps [simp]: "sound (Inr s) \<longleftrightarrow> ad_up s" "sound (Inl f) \<longleftrightarrow> f \<noteq> UseAfterFree"
  by (auto simp: sound_def)

lemma sound_bind: "sound r \<Longrightarrow> (\<And>u. ad_up u \<Longrightarrow> sound (g u)) \<Longrightarrow> sound (bindE r g)"
  by (cases r) (auto simp: sound_def)

lemma sound_fold: "ad_up s \<Longrightarrow> (\<And>x u. ad_up u \<Longrightarrow> sound (f x u)) \<Longrightarrow> sound (foldE f xs s)"
  by (induction xs arbitrary: s) (auto intro: sound_bind)

lemma up_view: "gview s = gview t \<Longrightarrow> ad_up s \<longleftrightarrow> ad_up t"
  using live_view [of s t "gnhastd_out s"] gview_D [of s t] by (simp add: ad_up_def gnhastd_out_def)

lemma up_frame [simp]:
  "ad_up (s\<lparr>zonefaults := zs\<rparr>) \<longleftrightarrow> ad_up s" "ad_up (ad_write m s) \<longleftrightarrow> ad_up s" "ad_up (upd_dev p f s) \<longleftrightarrow> ad_up s"
  by (rule up_view, simp add: gview_def ad_write_def upd_dev_def)+

lemma send_live:
  assumes "ad_up s"
  shows "sound (send_update (gnhastd_out s) p s)"
proof -
  obtain m where m: "gn_update_device (dmem s p) GNC_NOSCALE = Inr m"
    using gn_update_plain [OF noscale_bits(1-3)] by blast
  show ?thesis
  proof (cases "m = []")
    case False
    obtain t where t: "write_bev (gnhastd_out s) m s = Inr t"
      using assms write_bev_live [of "gnhastd_out s" s m] by (auto simp: ad_up_def)
    with assms up_view [OF write_bev_view [OF t]] False m show ?thesis by (simp add: send_update_def send_msg_def)
  qed (use assms m in \<open>simp add: send_update_def send_msg_def\<close>)
qed

lemma update_sound: "ad_up s \<Longrightarrow> sound (ad_update_int_dev v suf tr s)"
proof -
  assume up: "ad_up s"
  have sent: "sound (bindE (send_update (gnhastd_out u) p u) (\<lambda>st2. bindE (maybe_log_status d v st2) (\<lambda>_. Inr st2)))"
    if "ad_up u" for u :: "'a ad2usb_scheme" and p d
    by (rule sound_bind) (auto simp: that send_live maybe_log_status_def Let_def)
  show ?thesis
  proof (cases "ad_find s suf")
    case (Some p)
    have g: "get_byte d l = Inl f \<Longrightarrow> f \<noteq> UseAfterFree" for d l f
      by (auto simp: get_byte_def split: option.splits width.splits)
    show ?thesis
      unfolding ad_update_int_dev_def Some Let_def
      by (cases "get_byte (dmem s p) DATALOC_DATA"; cases "store_int v (dmem s p)")
        (use up g sent in \<open>auto simp: store_int_def split: if_splits\<close>)
  qed (simp add: ad_update_int_dev_def)
qed

lemma flags_sound: "ad_up s \<Longrightarrow> sound (std_flags p multi s)"
  unfolding std_flags_def
  by (intro sound_bind) (auto simp: update_status_def update_bit_def update_sound split: option.split)

lemma open_sound: "ad_up s \<Longrightarrow> sound (zone_open p q s)"
  by (auto simp: zone_open_def zone_array_def Let_def split: option.split intro!: sound_bind update_sound)

lemma closed_sound: "ad_up s \<Longrightarrow> sound (zones_closed s)"
  by (auto simp: zones_closed_def zone_array_def zone_value_def intro!: sound_fold update_sound)

text \<open>
  C35. As long as the server is connected, a message of the panel never makes the collector use freed
  storage: the buffer of the answer is freed after each of two writes, but a text that asks for the
  second one rules out the first.
\<close>

theorem panel_answer_safe:
  fixes st :: "'a ad2usb_scheme"
  assumes "live (gnhastd_out st) st"
  shows "ad2usb_handle_std data st \<noteq> Inl UseAfterFree"
proof (cases "strtok (CHR '','') data")
  case Nil
  then show ?thesis by (simp add: ad2usb_handle_std_def)
next
  case (Cons p secs)
  let ?multi = "strcasestr HIT_STAR data"
  have up: "ad_up st" using assms by (simp add: ad_up_def)
  have answer: "sound (std_answer (strcasestr HIT_STAR r) (std_fault p ?multi) u)"
    if "ad_up u" "r \<in> set (strtok (CHR '','') data)" for r u
    using that strcasestr_token [OF that(2), of HIT_STAR] by (auto simp: std_answer_def std_fault_def Let_def)
  let ?zones = "\<lambda>q u. if std_fault p ?multi then zone_open p q u else if \<not> ?multi then zones_closed u else Inr u"
  have zones: "sound (?zones q u)" if "ad_up u" for q and u :: "'a ad2usb_scheme"
    using that open_sound closed_sound by auto
  have "sound (bindE (std_flags p ?multi st) (\<lambda>st1.
      case secs of [] \<Rightarrow> Inl NullDeref
      | q # secs1 \<Rightarrow> bindE (?zones q st1) (\<lambda>st2.
            case secs1 of _ # r # _ \<Rightarrow> std_answer (strcasestr HIT_STAR r) (std_fault p ?multi) st2 | _ \<Rightarrow> Inl NullDeref)))"
  proof (rule sound_bind [OF flags_sound [OF up]])
    fix u :: "'a ad2usb_scheme"
    assume u: "ad_up u"
    show "sound (case secs of [] \<Rightarrow> Inl NullDeref
      | q # secs1 \<Rightarrow> bindE (?zones q u) (\<lambda>st2.
            case secs1 of _ # r # _ \<Rightarrow> std_answer (strcasestr HIT_STAR r) (std_fault p ?multi) st2 | _ \<Rightarrow> Inl NullDeref))"
    proof (cases secs)
      case (Cons q secs1)
      show ?thesis unfolding Cons list.case
      proof (rule sound_bind [OF zones [OF u]])
        fix w :: "'a ad2usb_scheme"
        assume "ad_up w"
        then show "sound (case secs1 of _ # r # _ \<Rightarrow> std_answer (strcasestr HIT_STAR r) (std_fault p ?multi) w | _ \<Rightarrow> Inl NullDeref)"
          using answer [of w] Cons \<open>strtok _ data = p # secs\<close> by (cases secs1 rule: remdups_adj.cases) simp_all
      qed
    qed simp
  qed
  then show ?thesis unfolding ad2usb_handle_std_def Let_def Cons list.case by (auto simp: sound_def)
qed

theorem panel_answer_safe_witness:
  "ad2usb_handle_std ''[00000001000000000000],001,[f7],FAULT 01'' one_open \<noteq> Inl UseAfterFree"
proof (rule panel_answer_safe)
  have "case gnhastd_out one_open of None \<Rightarrow> False | Some k \<Rightarrow> bufs one_open k \<noteq> None" by code_simp
  then show "live (gnhastd_out one_open) one_open" by (simp add: live_def)
qed

section \<open>Closing a zone\<close>

text \<open>
  C34. A zone whose counter is \<open>n\<close> is closed after at most \<open>n\<close> passes that do not show it as open,
  whatever else they bring: its counter is 0 and so is the value of its device.
\<close>

theorem zone_closes:
  assumes "foldE (\<lambda>(e, ls). ad_handle e (Ad_data (packet ls))) passes st = Inr st'"
    and "list_all (\<lambda>(e, ls). ls \<noteq> [] \<and> list_all good_line ls \<and> list_all (\<lambda>l. \<not> shows_open i l) ls) passes"
    and "zone_at i p st" and "ad_input st = []"
    and "0 < zonefaults st ! i" and "zonefaults st ! i \<le> int (length passes)"
  shows "zonefaults st' ! i = 0 \<and> zone_byte p st' = 0"
proof -
  have "zonefaults st' ! i = 0 \<and> zone_byte p st' = 0"
    if "foldE (\<lambda>(e, ls). ad_handle e (Ad_data (packet ls))) ps s = Inr st'"
      "list_all (\<lambda>(e, ls). ls \<noteq> [] \<and> list_all good_line ls \<and> list_all (\<lambda>l. \<not> shows_open i l) ls) ps"
      "zone_at i p s" "ad_input s = []" "0 \<le> zonefaults s ! i" "zonefaults s ! i \<le> int (length ps)"
      "zonefaults s ! i = 0 \<longrightarrow> zone_byte p s = 0" for ps s
    using that
  proof (induction ps arbitrary: s)
    case (Cons x ps)
    obtain e ls where x: "x = (e, ls)" by fastforce
    with Cons.prems(1) obtain t where t: "ad_handle e (Ad_data (packet ls)) s = Inr t"
        "foldE (\<lambda>(e, ls). ad_handle e (Ad_data (packet ls))) ps t = Inr st'"
      by (auto simp only: foldE.simps x split bindE_Inr_conv)
    have t': "zone_at i p t \<and> ad_input t = [] \<and> 0 \<le> zonefaults t ! i \<and>
        zonefaults t ! i \<le> max 0 (zonefaults s ! i - 1) \<and> (zonefaults t ! i = 0 \<longrightarrow> zone_byte p t = 0)"
      using t(1) by (rule pass_step) (use Cons.prems x in auto)
    with Cons.prems(2,6) show ?case by (intro Cons.IH [OF t(2)]) auto
  qed simp
  from this [OF assms(1-4) _ assms(6)] assms(5) show ?thesis by simp
qed

definition two_passes :: "(cenv \<times> u8 list list) list" where
  "two_passes = [(noon, [bytes_of ''OK'']), (noon, [bytes_of ''OK''])]"

theorem zone_closes_witness:
  "\<exists>st'. foldE (\<lambda>(e, ls). ad_handle e (Ad_data (packet ls))) two_passes one_open = Inr st' \<and>
     zonefaults one_open ! 0 = 2 \<and> zone_byte 0 one_open = 1 \<and> zonefaults st' ! 0 = 0 \<and> zone_byte 0 st' = 0"
proof -
  let ?r = "foldE (\<lambda>(e, ls). ad_handle e (Ad_data (packet ls))) two_passes one_open"
  have "\<not> isl ?r" by code_simp
  then obtain st' where st': "?r = Inr st'" by (cases ?r) auto
  have f: "ad_find one_open (zone_name 1) = Some 0 \<and> store_width (dmem one_open 0) = Some W8 \<and>
      zonefaults one_open = [2] \<and> ad_zones one_open = 1 \<and> ad_input one_open = [] \<and> zone_byte 0 one_open = 1"
    by code_simp
  have "dev_keys one_open"
    by (simp add: one_open_def Let_def dev_keys_def alloc_dev_def rb_insert_def new_bev_def upd_conn_def ad_start_def
        registry.defs empty_registry_def new_device_def)
  then have "zone_at 0 0 one_open" using f by (simp add: zone_at_def)
  moreover have "list_all (\<lambda>(e, ls). ls \<noteq> [] \<and> list_all good_line ls \<and> list_all (\<lambda>l. \<not> shows_open 0 l) ls) two_passes"
    by code_simp
  ultimately show ?thesis using zone_closes [OF st', of 0 0] st' f by (auto simp: two_passes_def)
qed

section \<open>Expanders\<close>

text \<open>
  C36. A message of an expander sets the device of the relay with the same numbers, and a message of a
  relay that of the expander: the tests of the two keywords are inverted.
\<close>

theorem expander_taken_for_relay:
  assumes "scan_exp q = Some (addr, inp, val)" and "q \<noteq> []" and "CHR '':'' \<notin> set q" and "10 \<le> len"
    and "ad_find st (''rel-'' @ fmt_prec 2 addr @ ''-'' @ fmt_prec 2 inp) \<noteq> None"
    and "ad_find st (''exp-'' @ fmt_prec 2 addr @ ''-'' @ fmt_prec 2 inp) \<noteq> None"
  shows "ad2usb_handle_exp e (''!EXP:'' @ q) len st = ad_update_int_dev val (''rel-'' @ fmt_prec 2 addr @ ''-'' @ fmt_prec 2 inp) True st \<and>
    ad2usb_handle_exp e (''!REL:'' @ q) len st = ad_update_int_dev val (''exp-'' @ fmt_prec 2 addr @ ''-'' @ fmt_prec 2 inp) True st"
proof -
  have tok: "strtok (CHR '':'') (w @ CHR '':'' # q) = [w, q]" if "w \<noteq> []" "CHR '':'' \<notin> set w" for w
    using that assms(2,3) strtok_word by simp
  obtain a b where "ad_find st (''rel-'' @ fmt_prec 2 addr @ ''-'' @ fmt_prec 2 inp) = Some a"
      "ad_find st (''exp-'' @ fmt_prec 2 addr @ ''-'' @ fmt_prec 2 inp) = Some b"
    using assms(5,6) by blast
  then show ?thesis
    using assms(1,4) tok [of "''!EXP''"] tok [of "''!REL''"] by (simp add: ad2usb_handle_exp_def Let_def exp_type_def exp_name_def extratype_def)
qed

text \<open>A collector that knows both devices.\<close>

definition both_known :: ad2usb where
  "both_known = one_open\<lparr>devtab := (devtab one_open)(''ad-exp-07-01'' \<mapsto> 0, ''ad-rel-07-01'' \<mapsto> 0)\<rparr>"

theorem expander_taken_for_relay_witness:
  "ad2usb_handle_exp noon ''!EXP:07,01,01'' 14 both_known = ad_update_int_dev 1 ''rel-07-01'' True both_known"
proof -
  have n: "fmt_prec 2 7 = ''07''" "fmt_prec 2 1 = ''01''" "scan_exp ''07,01,01'' = Some (7, 1, 1)" by code_simp+
  have "ad_find both_known ''exp-07-01'' = Some 0 \<and> ad_find both_known ''rel-07-01'' = Some 0" by code_simp
  with expander_taken_for_relay [OF n(3), of 14 both_known noon] show ?thesis by (simp add: n)
qed

end
