(* ===== verification/Moncoll.thy ===== *)
theory Moncoll
  imports Genconn
begin

text \<open>
  \<^verbatim>\<open>moncoll/collector.c\<close>: the collector that watches other collectors. The server tells it which of
  them are alive; it looks itself whether their processes are, ends those that are stuck, starts them
  again, and raises an alarm for one that has to be started too often.
\<close>

section \<open>State\<close>

text \<open>A section \<^verbatim>\<open>monitored\<close> of the configuration; a string without a default may be missing.\<close>

record monsec =
  ms_name :: "string option"
  ms_uid :: "string option"
  ms_path :: "string option"
  ms_args :: "string option"
  ms_pidfile :: "string option"
  ms_service :: string
  ms_systemd :: int
  ms_instance :: int

text \<open>\<^verbatim>\<open>moncol_t\<close>: the strings of the section and what is known of the process.\<close>

record moncol =
  mn_sec :: monsec
  mn_pid :: int
  mn_status :: int      \<comment> \<open>\<^verbatim>\<open>systemd_status\<close>\<close>
  mn_alive :: int
  mn_kills :: int       \<comment> \<open>\<^verbatim>\<open>kill_attempts\<close>\<close>
  mn_passes :: int
  mn_restarts :: int

text \<open>What is done to the system: a command is run, or a signal sent to a process.\<close>

datatype mon_act = Run string | Term int | Kill int

text \<open>
  \<open>check_timers\<close>: pending one-shot timers of \<^verbatim>\<open>cb_checkpids\<close>, beside the one that repeats.
\<close>

record moncoll = gencoll +
  monitored :: "moncol list"
  restart_running :: bool
  check_timers :: nat
  mon_acts :: "mon_act list"

text \<open>
  What the system answers for the collector at a place of the list: the status of a command run with
  \<^verbatim>\<open>system\<close>, whether there is no process with an id, and the first 127 bytes of a file.
\<close>

record mon_env =
  mv_system :: "nat \<Rightarrow> string \<Rightarrow> u32"
  mv_gone :: "nat \<Rightarrow> int \<Rightarrow> bool"
  mv_file :: "nat \<Rightarrow> string \<Rightarrow> string option"

definition wifexited :: "u32 \<Rightarrow> bool" where
  "wifexited s \<longleftrightarrow> uint s mod 128 = 0"

definition wexitstatus :: "u32 \<Rightarrow> int" where
  "wexitstatus s = uint s div 256 mod 256"

definition FEED_RATE :: int where "FEED_RATE = 5"

definition ALCHAN :: u32 where "ALCHAN = 2 ^ 7"

text \<open>\<^verbatim>\<open>%s\<close> for a pointer that may be NULL, and \<^verbatim>\<open>snprintf\<close> into 512 bytes.\<close>

definition show_str :: "string option \<Rightarrow> string" where
  "show_str s = (case s of None \<Rightarrow> ''(null)'' | Some t \<Rightarrow> t)"

definition cut512 :: "string \<Rightarrow> string" where
  "cut512 = take 511"

definition inc :: "int \<Rightarrow> int res" where
  "inc n = (if n < 2 ^ 31 - 1 then Inr (n + 1) else Inl IntOverflow)"

definition upd_mon :: "nat \<Rightarrow> (moncol \<Rightarrow> moncol) \<Rightarrow> 'a moncoll_scheme \<Rightarrow> 'a moncoll_scheme" where
  "upd_mon i f st = st\<lparr>monitored := (monitored st)[i := f (monitored st ! i)]\<rparr>"

definition act :: "mon_act \<Rightarrow> 'a moncoll_scheme \<Rightarrow> 'a moncoll_scheme" where
  "act a st = st\<lparr>mon_acts := mon_acts st @ [a]\<rparr>"

definition check_soon :: "'a moncoll_scheme \<Rightarrow> 'a moncoll_scheme" where
  "check_soon st = st\<lparr>check_timers := check_timers st + 1\<rparr>"

section \<open>What the server says\<close>

fun find_mon :: "string \<Rightarrow> nat \<Rightarrow> moncol list \<Rightarrow> nat option res" where
  "find_mon u i [] = Inr None"
| "find_mon u i (m # ms) =
     (case ms_uid (mn_sec m) of
        None \<Rightarrow> Inl NullDeref
      | Some v \<Rightarrow> if u = v then Inr (Some i) else find_mon u (i + 1) ms)"

definition mon_upd_cb :: "dptr \<Rightarrow> 'a moncoll_scheme \<Rightarrow> 'a moncoll_scheme res" where
  "mon_upd_cb p st =
     bindE (if get_width (dmem st p) = Some W32 \<or> get_width (dmem st p) = Some W64 then Inl OutOfBounds
            else find_mon (d_uid (dmem st p)) 0 (monitored st)) (\<lambda>found.
       case found of
         None \<Rightarrow> Inr st
       | Some i \<Rightarrow>
           if get_width (dmem st p) = None then Inl Uninit
           else Inr (upd_mon i (\<lambda>m. m\<lparr>mn_alive := int (unat (ucast (d_data (dmem st p)) :: u8))\<rparr>) st))"

definition mon_hooks :: "'a moncoll_scheme hooks" where
  "mon_hooks = weak_stubs\<lparr>collector_is_ok := (\<lambda>st. Inr (True, st)), coll_upd_cb := mon_upd_cb\<rparr>"

definition mon_ghooks :: "'a moncoll_scheme ghooks" where
  "mon_ghooks = hooks.extend mon_hooks \<lparr>genconn_connect_cb = (\<lambda>_ _ st. Inr st)\<rparr>"

section \<open>Alarms and start-up\<close>

definition mon_aluid :: "moncol \<Rightarrow> 'a moncoll_scheme \<Rightarrow> string" where
  "mon_aluid m st =
     cut512 (''MONC-'' @ int_dec (collector_instance st) @ ''_'' @ show_str (ms_name (mn_sec m)) @ ''-'' @
       int_dec (ms_instance (mn_sec m)))"

definition mon_alarm :: "moncol \<Rightarrow> string \<Rightarrow> int \<Rightarrow> 'a moncoll_scheme \<Rightarrow> 'a moncoll_scheme res" where
  "mon_alarm m txt sev st = write_bev (gnhastd_out st) (gn_setalarm (mon_aluid m st) (Some txt) sev ALCHAN) st"

definition new_mon :: "monsec \<Rightarrow> moncol" where
  "new_mon s = \<lparr>mn_sec = s, mn_pid = -1, mn_status = 0, mn_alive = -1, mn_kills = 0, mn_passes = 0, mn_restarts = 0\<rparr>"

text \<open>The requests for the state of a collector, now and every five seconds.\<close>

definition mon_feed :: "monsec \<Rightarrow> string" where
  "mon_feed s =
     (let u = show_str (ms_uid s)
      in ''ldevs '' @ kv SC_UID u @ [newline] @ ''feed '' @ kv SC_UID u @ '' '' @ kv SC_RATE (int_dec FEED_RATE) @ [newline])"

definition setup_monitor :: "monsec \<Rightarrow> 'a moncoll_scheme \<Rightarrow> 'a moncoll_scheme res" where
  "setup_monitor s st =
     (let m = new_mon s; st1 = st\<lparr>monitored := monitored st @ [m]\<rparr>
      in bindE (write_bev (gnhastd_out st1) (mon_feed s) st1) (mon_alarm m ''nada'' 0))"

definition setup_monitors :: "monsec list \<Rightarrow> 'a moncoll_scheme \<Rightarrow> 'a moncoll_scheme res" where
  "setup_monitors = foldE setup_monitor"

section \<open>Ending and starting\<close>

definition SYSTEMCTL :: string where "SYSTEMCTL = ''systemctl --no-ask-password --no-pager -q ''"

definition uses_systemd :: "moncol \<Rightarrow> bool" where
  "uses_systemd m \<longleftrightarrow> ms_systemd (mn_sec m) \<noteq> 0 \<and> 1 < length (ms_service (mn_sec m))"

text \<open>A service that is down is started; one that is up but does not answer is stopped.\<close>

definition start_service ::
    "(string \<Rightarrow> u32) \<Rightarrow> moncol \<Rightarrow> 'a moncoll_scheme \<Rightarrow> (moncol \<times> 'a moncoll_scheme) res" where
  "start_service sys m st =
     bindE (inc (mn_restarts m)) (\<lambda>r.
       let m1 = m\<lparr>mn_restarts := r, mn_kills := 0\<rparr>;
           cmd = cut512 (SYSTEMCTL @ ''start '' @ ms_service (mn_sec m));
           st1 = act (Run cmd) st
       in Inr (if wifexited (sys cmd) \<and> wexitstatus (sys cmd) \<noteq> 0 then (m1, st1)
               else (m1\<lparr>mn_alive := 1\<rparr>, check_soon st1)))"

definition stop_service :: "moncol \<Rightarrow> 'a moncoll_scheme \<Rightarrow> (moncol \<times> 'a moncoll_scheme) res" where
  "stop_service m st =
     bindE (inc (mn_kills m)) (\<lambda>k.
       let cmd = cut512 (SYSTEMCTL @ (if 5 < k then ''--signal=SIGKILL kill '' else ''stop '') @ ms_service (mn_sec m))
       in Inr (m\<lparr>mn_kills := k\<rparr>, check_soon (act (Run cmd) st)))"

definition start_command :: "monsec \<Rightarrow> string" where
  "start_command s =
     cut512 (if ms_args s = None \<or> ms_args s = Some [] then show_str (ms_path s)
             else show_str (ms_path s) @ '' '' @ show_str (ms_args s))"

definition start_process ::
    "(string \<Rightarrow> u32) \<Rightarrow> moncol \<Rightarrow> 'a moncoll_scheme \<Rightarrow> (moncol \<times> 'a moncoll_scheme) res" where
  "start_process sys m st =
     bindE (inc (mn_restarts m)) (\<lambda>r.
       let m1 = m\<lparr>mn_restarts := r, mn_kills := 0\<rparr>;
           cmd = start_command (mn_sec m);
           st1 = act (Run cmd) st
       in Inr (if sys cmd \<noteq> 0 then (m1, st1) else (m1\<lparr>mn_alive := 1\<rparr>, check_soon st1)))"

definition kill_process :: "moncol \<Rightarrow> 'a moncoll_scheme \<Rightarrow> (moncol \<times> 'a moncoll_scheme) res" where
  "kill_process m st =
     bindE (inc (mn_kills m)) (\<lambda>k. Inr (m\<lparr>mn_kills := k\<rparr>, if 5 < k then act (Kill (mn_pid m)) st else st))"

text \<open>A collector that is not alive. A process is asked to end, and started when there is none.\<close>

definition revive ::
    "(string \<Rightarrow> u32) \<Rightarrow> (int \<Rightarrow> bool) \<Rightarrow> moncol \<Rightarrow> 'a moncoll_scheme \<Rightarrow> (moncol \<times> 'a moncoll_scheme) res" where
  "revive sys gone m st =
     (if uses_systemd m then if mn_status m \<noteq> 0 then start_service sys m st else stop_service m st
      else if mn_pid m < 1 then start_process sys m st
      else let st1 = act (Term (mn_pid m)) st
           in if gone (mn_pid m) then start_process sys m st1 else kill_process m st1)"

definition fast_text :: "moncol \<Rightarrow> string" where
  "fast_text m = cut512 (''Collector '' @ show_str (ms_uid (mn_sec m)) @ '' is restarting too fast'')"

definition fast_alarm :: "moncol \<Rightarrow> 'a moncoll_scheme \<Rightarrow> 'a moncoll_scheme res" where
  "fast_alarm m st =
     (if 10 < mn_passes m \<and> 5 \<le> mn_restarts m
      then if mn_restarts m * 5 < 2 ^ 31 then mon_alarm m (fast_text m) (mn_restarts m * 5) st else Inl IntOverflow
      else Inr st)"

definition restart_one :: "mon_env \<Rightarrow> nat \<Rightarrow> 'a moncoll_scheme \<Rightarrow> 'a moncoll_scheme res" where
  "restart_one v i st =
     (let m = monitored st ! i
      in bindE (inc (mn_passes m)) (\<lambda>n.
         let m1 = m\<lparr>mn_passes := n\<rparr>
         in if mn_alive m1 \<noteq> 0
            then let m2 = (if 60 < n then m1\<lparr>mn_passes := 0, mn_restarts := 0\<rparr> else m1);
                     st1 = upd_mon i (\<lambda>_. m2) st
                 in if 10 < mn_passes m2 \<and> mn_restarts m2 = 0 then mon_alarm m2 ''nada'' 0 st1 else Inr st1
            else bindE (revive (mv_system v i) (mv_gone v i) m1 st) (\<lambda>(m2, st1).
                   fast_alarm m2 (upd_mon i (\<lambda>_. m2) st1))))"

definition cb_restart_collectors :: "mon_env \<Rightarrow> 'a moncoll_scheme \<Rightarrow> 'a moncoll_scheme res" where
  "cb_restart_collectors v st = foldE (restart_one v) [0..<length (monitored st)] st"

section \<open>Looking at the processes\<close>

text \<open>The command for a service is printed into 512 bytes without a limit.\<close>

definition is_active :: "moncol \<Rightarrow> string" where
  "is_active m = SYSTEMCTL @ ''is-active '' @ ms_service (mn_sec m)"

definition service_state :: "u32 \<Rightarrow> moncol \<Rightarrow> moncol" where
  "service_state s m =
     (if wifexited s
      then m\<lparr>mn_alive := (if wexitstatus s \<noteq> 0 then 0 else mn_alive m), mn_status := wexitstatus s\<rparr> else m)"

definition check_service :: "(string \<Rightarrow> u32) \<Rightarrow> nat \<Rightarrow> moncol \<Rightarrow> 'a moncoll_scheme \<Rightarrow> 'a moncoll_scheme res" where
  "check_service sys i m st =
     (if 512 \<le> length (is_active m) then Inl OutOfBounds
      else Inr (upd_mon i (service_state (sys (is_active m))) (act (Run (is_active m)) st)))"

definition check_process ::
    "(int \<Rightarrow> bool) \<Rightarrow> (string \<Rightarrow> string option) \<Rightarrow> nat \<Rightarrow> moncol \<Rightarrow> 'a moncoll_scheme \<Rightarrow> 'a moncoll_scheme res" where
  "check_process gone file i m st =
     (case ms_pidfile (mn_sec m) of
        None \<Rightarrow> Inl NullDeref
      | Some f \<Rightarrow>
          (case file f of
             None \<Rightarrow> Inr st
           | Some p \<Rightarrow>
               let pid = sint (c_atoi (c_string p))
               in Inr (upd_mon i (\<lambda>m. m\<lparr>mn_pid := pid, mn_alive := (if gone pid then 0 else mn_alive m)\<rparr>) st)))"

definition check_one :: "mon_env \<Rightarrow> nat \<Rightarrow> 'a moncoll_scheme \<Rightarrow> 'a moncoll_scheme res" where
  "check_one v i st =
     (let m = monitored st ! i
      in if uses_systemd m then check_service (mv_system v i) i m st
         else check_process (mv_gone v i) (mv_file v i) i m st)"

text \<open>The timer for the restarts starts with the first call.\<close>

definition cb_checkpids :: "mon_env \<Rightarrow> 'a moncoll_scheme \<Rightarrow> 'a moncoll_scheme res" where
  "cb_checkpids v st =
     bindE (foldE (check_one v) [0..<length (monitored st)] st) (\<lambda>st1. Inr (st1\<lparr>restart_running := True\<rparr>))"

section \<open>The collector\<close>

definition mon_start :: moncoll where
  "mon_start = registry.extend empty_registry
     \<lparr>bufs = (\<lambda>_. None), bufnext = 0, gnhastd_bev = None, coll_alarms = [],
      coll_conf = \<lparr>cf_devices = [], cf_devgroups = []\<rparr>, coll_conf_file = None, min_proto_version = 0, rrd_freed = (\<lambda>_. False),
      conns = (\<lambda>_. \<lparr>cn_bev = None, cn_connected = False, cn_shutdown = False, cn_kind = ''gnhastd'', cn_cname = Some ''moncoll''\<rparr>),
      gnhastd_conn = 0, need_rereg = False, collector_instance = 1, retry_timers = [], health_timers = [],
      stop_timers = 0, loop_exit = False,
      monitored = [], restart_running = False, check_timers = 0, mon_acts = []\<rparr>"

definition mon_main :: "monsec list \<Rightarrow> int \<Rightarrow> conf \<Rightarrow> mon_env \<Rightarrow> moncoll res" where
  "mon_main secs inst cf v =
     bindE (generic_connect_server_cb 0 (mon_start\<lparr>coll_conf := cf\<rparr>)) (\<lambda>st1.
     let st2 = st1\<lparr>collector_instance := inst\<rparr>
     in bindE (write_bev (gnhastd_out st2) (gn_client_name (Some ''moncoll'') inst) st2) (\<lambda>st3.
        bindE (setup_monitors secs st3) (cb_checkpids v)))"

datatype mon_event =
    Mon_server gevent
  | Mon_check
  | Mon_check_soon
  | Mon_restart

fun mon_enabled :: "mon_event \<Rightarrow> 'a moncoll_scheme \<Rightarrow> bool" where
  "mon_enabled (Mon_server g) st = gen_enabled g st"
| "mon_enabled Mon_check st = True"
| "mon_enabled Mon_check_soon st = (0 < check_timers st)"
| "mon_enabled Mon_restart st = restart_running st"

fun mon_handle :: "cenv \<Rightarrow> mon_env \<Rightarrow> mon_event \<Rightarrow> 'a moncoll_scheme \<Rightarrow> 'a moncoll_scheme res" where
  "mon_handle e v (Mon_server g) st = gen_handle mon_ghooks e g st"
| "mon_handle e v Mon_check st = cb_checkpids v st"
| "mon_handle e v Mon_check_soon st = cb_checkpids v (st\<lparr>check_timers := check_timers st - 1\<rparr>)"
| "mon_handle e v Mon_restart st = cb_restart_collectors v st"

end
