(* ===== verification/Moninv.thy ===== *)
theory Moninv
  imports Moncoll Collinv
begin

text \<open>
  What the monitor of collectors keeps: its counters are in range, signals go to processes with a
  positive id, and a process that is killed has been asked to end first. Its callbacks meet the
  contracts of the connection to the server.
\<close>

section \<open>The invariant\<close>

text \<open>\<open>prev\<close> is what was done just before.\<close>

fun acts_ok :: "mon_act option \<Rightarrow> mon_act list \<Rightarrow> bool" where
  "acts_ok prev [] = True"
| "acts_ok prev (Run c # as) = acts_ok (Some (Run c)) as"
| "acts_ok prev (Term p # as) = (1 \<le> p \<and> acts_ok (Some (Term p)) as)"
| "acts_ok prev (Kill p # as) = (prev = Some (Term p) \<and> acts_ok (Some (Kill p)) as)"

lemma acts_append:
  "acts_ok prev (as @ [Run c]) = acts_ok prev as"
  "acts_ok prev (as @ [Term p]) = (acts_ok prev as \<and> 1 \<le> p)"
  "acts_ok prev (as @ [Term p, Kill p]) = (acts_ok prev as \<and> 1 \<le> p)"
  "acts_ok prev (as @ [Term p, Run c]) = (acts_ok prev as \<and> 1 \<le> p)"
  by (induction prev as rule: acts_ok.induct) auto

definition mon_fine :: "moncol \<Rightarrow> bool" where
  "mon_fine m \<longleftrightarrow> 0 \<le> mn_restarts m \<and> mn_restarts m \<le> mn_passes m \<and> 0 \<le> mn_kills m \<and>
     -1 \<le> mn_alive m \<and> mn_alive m \<le> 255 \<and> 0 \<le> mn_status m \<and> mn_status m \<le> 255"

definition mon_ok :: "'a moncoll_scheme \<Rightarrow> bool" where
  "mon_ok s \<longleftrightarrow> list_all mon_fine (monitored s) \<and> acts_ok None (mon_acts s)"

definition mon_secs :: "'a moncoll_scheme \<Rightarrow> monsec list" where
  "mon_secs s = map mn_sec (monitored s)"

definition mon_keeps :: "'a moncoll_scheme \<Rightarrow> 'a moncoll_scheme \<Rightarrow> bool" where
  "mon_keeps s t \<longleftrightarrow> gview s = gview t \<and> mon_secs s = mon_secs t \<and> (mon_ok s \<longrightarrow> mon_ok t)"

lemma mon_keeps_refl [simp]: "mon_keeps s s"
  by (simp add: mon_keeps_def)

lemma mon_keeps_trans: "mon_keeps a b \<Longrightarrow> mon_keeps b c \<Longrightarrow> mon_keeps a c"
  by (simp add: mon_keeps_def)

text \<open>Steps that leave the monitor's own state as it is.\<close>

lemma mon_fields: "gencoll.more s = gencoll.more t \<Longrightarrow> monitored s = monitored t \<and> mon_acts s = mon_acts t"
  by (cases s; cases t) simp

lemma mon_same: "gview s = gview t \<Longrightarrow> monitored s = monitored t \<Longrightarrow> mon_acts s = mon_acts t \<Longrightarrow> mon_keeps s t"
  by (simp add: mon_keeps_def mon_ok_def mon_secs_def)

lemma mon_registry: "registry.more s = registry.more t \<Longrightarrow> mon_keeps s t"
  by (rule mon_same) (cases s; cases t; simp add: gview_def)+

lemma mon_write: "write_bev b m s = Inr t \<Longrightarrow> mon_keeps s t"
  using write_bev_view [of b m s t] by (intro mon_same) (auto simp: write_bev_def split: option.splits)

section \<open>The steps\<close>

text \<open>A collector in the list is replaced, and something is done.\<close>

lemma mon_replace:
  assumes "i < length (monitored s)" and "mn_sec m = mn_sec (monitored s ! i)"
    and "gview t = gview s" "monitored t = monitored s"
    and "mon_fine (monitored s ! i) \<Longrightarrow> mon_fine m" and "acts_ok None (mon_acts s) \<Longrightarrow> acts_ok None (mon_acts t)"
  shows "mon_keeps s (upd_mon i (\<lambda>_. m) t)"
proof -
  have "map mn_sec ((monitored s)[i := m]) = map mn_sec (monitored s)"
    using assms(1,2) by (simp add: map_update list_update_same_conv)
  moreover have "list_all mon_fine ((monitored s)[i := m])" if "list_all mon_fine (monitored s)"
    using that assms(1,5) by (auto simp: list_all_length nth_list_update)
  moreover have "gview (upd_mon i (\<lambda>_. m) t) = gview t" by (simp add: gview_def upd_mon_def)
  ultimately show ?thesis
    using assms(3,4,6) by (simp add: mon_keeps_def mon_secs_def mon_ok_def upd_mon_def)
qed

lemma inc_Inr [simp]: "inc n = Inr k \<longleftrightarrow> n < 2 ^ 31 - 1 \<and> k = n + 1"
  by (auto simp: inc_def)

lemma act_simps [simp]:
  "gview (act a s) = gview s" "monitored (act a s) = monitored s" "mon_acts (act a s) = mon_acts s @ [a]"
  "gview (check_soon s) = gview s" "monitored (check_soon s) = monitored s" "mon_acts (check_soon s) = mon_acts s"
  by (simp_all add: act_def check_soon_def gview_def)

lemma started_fine:
  assumes "start_service sys m s = Inr (m2, t) \<or> start_process sys m s = Inr (m2, t)"
  shows "mn_sec m2 = mn_sec m \<and> mn_passes m2 = mn_passes m \<and> mn_restarts m2 = mn_restarts m + 1 \<and> mn_kills m2 = 0 \<and>
    mn_status m2 = mn_status m \<and> mn_alive m2 \<in> {mn_alive m, 1} \<and> gview t = gview s \<and> monitored t = monitored s \<and>
    (\<exists>c. mon_acts t = mon_acts s @ [Run c])"
  using assms by (auto simp: start_service_def start_process_def Let_def bindE_Inr_conv split: if_splits)

lemma stopped_fine:
  assumes "stop_service m s = Inr (m2, t)"
  shows "m2 = m\<lparr>mn_kills := mn_kills m + 1\<rparr> \<and> gview t = gview s \<and> monitored t = monitored s \<and>
    (\<exists>c. mon_acts t = mon_acts s @ [Run c])"
  using assms by (auto simp: stop_service_def Let_def bindE_Inr_conv)

lemma revived:
  assumes "revive sys gone m s = Inr (m2, t)"
  shows "mn_sec m2 = mn_sec m" "gview t = gview s" "monitored t = monitored s"
    and "mon_fine (m\<lparr>mn_passes := n\<rparr>) \<Longrightarrow> mn_passes m = n + 1 \<Longrightarrow> mon_fine m2"
    and "acts_ok None (mon_acts s) \<Longrightarrow> acts_ok None (mon_acts t)"
proof -
  consider "start_service sys m s = Inr (m2, t) \<or> start_process sys m s = Inr (m2, t)"
    | "1 \<le> mn_pid m" "start_process sys m (act (Term (mn_pid m)) s) = Inr (m2, t)"
    | "stop_service m s = Inr (m2, t)"
    | "1 \<le> mn_pid m" "kill_process m (act (Term (mn_pid m)) s) = Inr (m2, t)"
    using assms by (auto simp: revive_def Let_def split: if_splits)
  then have "mn_sec m2 = mn_sec m \<and> gview t = gview s \<and> monitored t = monitored s \<and>
    (mon_fine (m\<lparr>mn_passes := n\<rparr>) \<longrightarrow> mn_passes m = n + 1 \<longrightarrow> mon_fine m2) \<and>
    (acts_ok None (mon_acts s) \<longrightarrow> acts_ok None (mon_acts t))"
  proof cases
    case 1
    from started_fine [OF this] show ?thesis by (auto simp: mon_fine_def acts_append)
  next
    case 2
    from started_fine [OF disjI2 [OF 2(2)]] 2(1) show ?thesis by (auto simp: mon_fine_def acts_append)
  next
    case 3
    from stopped_fine [OF this] show ?thesis by (auto simp: mon_fine_def acts_append)
  next
    case 4
    then show ?thesis by (auto simp: kill_process_def bindE_Inr_conv mon_fine_def acts_append)
  qed
  then show "mn_sec m2 = mn_sec m" "gview t = gview s" "monitored t = monitored s"
    "mon_fine (m\<lparr>mn_passes := n\<rparr>) \<Longrightarrow> mn_passes m = n + 1 \<Longrightarrow> mon_fine m2"
    "acts_ok None (mon_acts s) \<Longrightarrow> acts_ok None (mon_acts t)"
    by blast+
qed

lemma alarm_keeps: "mon_alarm m x sev s = Inr t \<Longrightarrow> mon_keeps s t" "fast_alarm m s = Inr t \<Longrightarrow> mon_keeps s t"
  by (auto simp: mon_alarm_def fast_alarm_def intro: mon_write split: if_splits)

lemma restart_keeps:
  assumes "restart_one v i s = Inr t" and i: "i < length (monitored s)"
  shows "mon_keeps s t"
proof -
  let ?m = "monitored s ! i" and ?m1 = "(monitored s ! i)\<lparr>mn_passes := mn_passes (monitored s ! i) + 1\<rparr>"
  show ?thesis
  proof (cases "mn_alive ?m = 0")
    case True
    then obtain m2 u where u: "revive (mv_system v i) (mv_gone v i) ?m1 s = Inr (m2, u)"
        "fast_alarm m2 (upd_mon i (\<lambda>_. m2) u) = Inr t"
      using assms(1) by (auto simp: restart_one_def Let_def bindE_Inr_conv)
    have "?m1\<lparr>mn_passes := mn_passes ?m\<rparr> = ?m" by simp
    with revived(4) [OF u(1), of "mn_passes ?m"] have "mon_fine ?m \<Longrightarrow> mon_fine m2" by simp
    then have "mon_keeps s (upd_mon i (\<lambda>_. m2) u)"
      using i revived(1-3,5) [OF u(1)] by (intro mon_replace) simp_all
    with alarm_keeps(2) [OF u(2)] show ?thesis by (blast intro: mon_keeps_trans)
  next
    case False
    let ?m2 = "if 60 < mn_passes ?m1 then ?m1\<lparr>mn_passes := 0, mn_restarts := 0\<rparr> else ?m1"
    have "mon_keeps s (upd_mon i (\<lambda>_. ?m2) s)"
      using i by (intro mon_replace) (auto simp: mon_fine_def)
    moreover have "t = upd_mon i (\<lambda>_. ?m2) s \<or> mon_alarm ?m2 ''nada'' 0 (upd_mon i (\<lambda>_. ?m2) s) = Inr t"
      using assms(1) False by (auto simp: restart_one_def Let_def bindE_Inr_conv split: if_splits)
    ultimately show ?thesis using alarm_keeps(1) mon_keeps_trans by blast
  qed
qed

lemma secs_length: "mon_secs s = mon_secs t \<Longrightarrow> length (monitored s) = length (monitored t)"
  unfolding mon_secs_def by (rule map_eq_imp_length_eq)

text \<open>A loop over the collectors.\<close>

lemma each_keeps:
  assumes "foldE f xs s = Inr t" and "\<forall>i \<in> set xs. i < length (monitored s)"
    and "\<And>i u v. f i u = Inr v \<Longrightarrow> i < length (monitored u) \<Longrightarrow> mon_keeps u v"
  shows "mon_keeps s t"
  using assms(1,2)
proof (induction xs arbitrary: s)
  case (Cons i xs)
  then obtain u where u: "f i s = Inr u" "foldE f xs u = Inr t" by (auto simp: bindE_Inr_conv)
  have k: "mon_keeps s u" using u(1) Cons.prems(2) by (auto intro: assms(3))
  then have "length (monitored s) = length (monitored u)" by (intro secs_length) (simp add: mon_keeps_def)
  then have "mon_keeps u t" using Cons.prems(2) by (intro Cons.IH [OF u(2)]) simp
  with k show ?case by (rule mon_keeps_trans)
qed simp

lemma restarts_keep: "cb_restart_collectors v s = Inr t \<Longrightarrow> mon_keeps s t"
  unfolding cb_restart_collectors_def by (erule each_keeps) (auto intro: restart_keeps)

lemma service_state_fine: "mn_sec (service_state x m) = mn_sec m" "mon_fine m \<Longrightarrow> mon_fine (service_state x m)"
proof -
  have w: "0 \<le> wexitstatus x \<and> wexitstatus x \<le> 255"
    using pos_mod_bound [of 256 "uint x div 256"] by (simp add: wexitstatus_def)
  show "mn_sec (service_state x m) = mn_sec m" "mon_fine m \<Longrightarrow> mon_fine (service_state x m)"
    using w by (simp_all add: service_state_def mon_fine_def)
qed

lemma mon_check_keeps:
  assumes "check_one v i s = Inr t" and i: "i < length (monitored s)"
  shows "mon_keeps s t"
proof (cases "uses_systemd (monitored s ! i)")
  case True
  let ?m = "service_state (mv_system v i (is_active (monitored s ! i))) (monitored s ! i)"
  have "t = upd_mon i (\<lambda>_. ?m) (act (Run (is_active (monitored s ! i))) s)"
    using True assms(1) by (simp add: check_one_def check_service_def upd_mon_def Let_def split: if_splits)
  then show ?thesis using i by (auto intro!: mon_replace simp: service_state_fine acts_append)
next
  case False
  show ?thesis
  proof (cases "Option.bind (ms_pidfile (mn_sec (monitored s ! i))) (mv_file v i)")
    case None
    with False assms(1) have "t = s" by (auto simp: check_one_def check_process_def Let_def split: option.splits)
    then show ?thesis by simp
  next
    case (Some p)
    let ?pid = "sint (c_atoi (c_string p))"
    let ?m = "(monitored s ! i)\<lparr>mn_pid := ?pid, mn_alive := (if mv_gone v i ?pid then 0 else mn_alive (monitored s ! i))\<rparr>"
    have "t = upd_mon i (\<lambda>_. ?m) s"
      using False assms(1) Some
      by (cases "mv_gone v i ?pid") (auto simp: check_one_def check_process_def Let_def upd_mon_def bind_eq_Some_conv)
    moreover have "mon_keeps s (upd_mon i (\<lambda>_. ?m) s)" using i by (intro mon_replace) (simp_all add: mon_fine_def)
    ultimately show ?thesis by simp
  qed
qed

lemma plain_keeps: "mon_keeps s (s\<lparr>restart_running := b\<rparr>)" "mon_keeps s (s\<lparr>check_timers := n\<rparr>)"
  by (rule mon_same; simp add: gview_def)+

lemma checks_keep:
  assumes "cb_checkpids v s = Inr t"
  shows "mon_keeps s t"
proof -
  obtain u where u: "foldE (check_one v) [0..<length (monitored s)] s = Inr u" "t = u\<lparr>restart_running := True\<rparr>"
    using assms by (auto simp: cb_checkpids_def bindE_Inr_conv)
  have "mon_keeps s u" using u(1) by (rule each_keeps) (auto intro: mon_check_keeps)
  then show ?thesis unfolding u(2) using plain_keeps(1) by (rule mon_keeps_trans)
qed

section \<open>The server's side\<close>

lemma find_mon_bound: "find_mon u k ms = Inr (Some i) \<Longrightarrow> k \<le> i \<and> i < k + length ms"
  by (induction u k ms rule: find_mon.induct) (auto split: option.splits if_splits)

lemma mon_upd_keeps:
  assumes "mon_upd_cb p s = Inr t"
  shows "mon_keeps s t"
proof -
  have b: "-1 \<le> int (unat x) \<and> int (unat x) \<le> 255" for x :: u8
  proof -
    have "unat x < 256" using unsigned_less [of x] by simp
    moreover have "0 \<le> int (unat x)" by (rule of_nat_0_le_iff)
    ultimately show ?thesis by linarith
  qed
  consider "t = s" | i x where "find_mon (d_uid (dmem s p)) 0 (monitored s) = Inr (Some i)"
      "t = upd_mon i (\<lambda>_. (monitored s ! i)\<lparr>mn_alive := int (unat (x :: u8))\<rparr>) s"
    using assms by (auto simp: mon_upd_cb_def bindE_Inr_conv upd_mon_def split: if_splits option.splits)
  then show ?thesis
  proof cases
    case (2 i x)
    show ?thesis unfolding 2(2)
      using find_mon_bound [OF 2(1)] b [of x] by (intro mon_replace) (auto simp: mon_fine_def)
  qed simp
qed

lemma mon_keeps_gview: "mon_keeps s t \<Longrightarrow> gview s = gview t"
  by (simp add: mon_keeps_def)

lemma mon_ghooks_truncate: "hooks.truncate mon_ghooks = mon_hooks"
  by (simp add: mon_ghooks_def hooks.defs mon_hooks_def weak_stubs_def)

interpretation mon_requests: coll_kept mon_keeps mon_hooks
proof (unfold_locales, goal_cases)
  case (2 s1 s2 s3)
  then show ?case by (rule mon_keeps_trans)
next
  case (10 st cf cff)
  show ?case by (rule mon_same) (simp_all add: gview_def)
next
  case (9 st x)
  show ?case by (rule mon_same) (simp_all add: gview_def)
next
  case (11 b m st st')
  then show ?case by (rule mon_write)
next
  case (13 p st st')
  then show ?case by (auto simp: mon_hooks_def intro: mon_upd_keeps)
qed (auto simp: mon_hooks_def weak_stubs_def upd_dev_def upd_grp_def intro: mon_registry)

interpretation mon_conn: conn_hooks mon_hooks mon_ghooks
proof (unfold_locales, goal_cases)
  case (11 b m st st')
  then show ?case by (rule write_bev_view)
next
  case (13 p st st')
  then show ?case by (auto simp: mon_hooks_def intro: mon_keeps_gview mon_upd_keeps)
next
  case 21
  show ?case by (rule mon_ghooks_truncate)
qed (auto simp: mon_hooks_def mon_ghooks_def hooks.defs weak_stubs_def gview_def upd_dev_def upd_grp_def
    insert_device_def new_devgroup_def add_dev_group_def add_group_group_def alloc_dev_def Let_def)

interpretation mon_server: conn_kept mon_keeps mon_hooks mon_ghooks "\<lambda>s. mon_ok s \<and> mon_secs s = k" for k
proof (unfold_locales, goal_cases)
  case 1
  show ?case by (rule mon_ghooks_truncate)
next
  case (4 st st')
  from mon_fields [OF 4(4)] show ?case by (simp add: mon_ok_def mon_secs_def)
qed (auto simp: mon_ghooks_def hooks.defs mon_keeps_def)

text \<open>
  Whatever the server says, of a collector it changes no more than whether it is alive, and nothing is
  done to a process because of it.
\<close>

definition apart_from_alive :: "'a moncoll_scheme \<Rightarrow> moncol list \<times> mon_act list" where
  "apart_from_alive s = (map (\<lambda>m. m\<lparr>mn_alive := 0\<rparr>) (monitored s), mon_acts s)"

lemma apart_fields: "gencoll.more s = gencoll.more t \<Longrightarrow> apart_from_alive s = apart_from_alive t"
  by (auto simp: apart_from_alive_def dest: mon_fields)

lemma apart_registry: "registry.more s = registry.more t \<Longrightarrow> apart_from_alive s = apart_from_alive t"
  by (rule apart_fields) (cases s; cases t; simp)

lemma apart_write: "write_bev b m s = Inr t \<Longrightarrow> apart_from_alive s = apart_from_alive t"
  by (rule apart_fields) (auto simp: write_bev_def split: option.splits)

lemma map_update_same: "f y = f (xs ! i) \<Longrightarrow> map f (xs[i := y]) = map f xs"
  by (cases "i < length xs") (simp_all add: map_update list_update_same_conv list_update_beyond)

lemma apart_upd: "mon_upd_cb p s = Inr t \<Longrightarrow> apart_from_alive s = apart_from_alive t"
  by (auto simp: mon_upd_cb_def bindE_Inr_conv upd_mon_def apart_from_alive_def map_update_same
      split: if_splits option.splits)

interpretation mon_told: conn_kept "\<lambda>s t. apart_from_alive s = apart_from_alive t" mon_hooks mon_ghooks
  "\<lambda>s. apart_from_alive s = k" for k
proof (unfold_locales, goal_cases)
  case (11 b m st st')
  then show ?case by (rule apart_write)
next
  case (13 p st st')
  then show ?case by (auto simp: mon_hooks_def intro: apart_upd)
next
  case 21
  show ?case by (rule mon_ghooks_truncate)
next
  case (24 st st')
  from apart_fields [OF 24(4)] show ?case by simp
qed (auto simp: mon_ghooks_def mon_hooks_def hooks.defs weak_stubs_def upd_dev_def upd_grp_def
    intro: apart_registry apart_fields)

lemma server_leaves:
  assumes "gen_handle mon_ghooks e g s = Inr t"
  shows "mon_acts t = mon_acts s" and "length (monitored t) = length (monitored s)"
    and "i < length (monitored s) \<Longrightarrow> monitored t ! i = (monitored s ! i)\<lparr>mn_alive := mn_alive (monitored t ! i)\<rparr>"
proof -
  let ?f = "\<lambda>m. m\<lparr>mn_alive := 0\<rparr> :: moncol"
  have "apart_from_alive t = apart_from_alive s" using assms refl by (rule mon_told.gen_kept)
  then have a: "mon_acts t = mon_acts s" "map ?f (monitored t) = map ?f (monitored s)" by (simp_all add: apart_from_alive_def)
  note l = map_eq_imp_length_eq [OF a(2)]
  show "mon_acts t = mon_acts s" "length (monitored t) = length (monitored s)" by (rule a(1)) (rule l)
  assume "i < length (monitored s)"
  with a(2) l have "?f (monitored t ! i) = ?f (monitored s ! i)" by (metis nth_map)
  then show "monitored t ! i = (monitored s ! i)\<lparr>mn_alive := mn_alive (monitored t ! i)\<rparr>"
    by (cases "monitored t ! i"; cases "monitored s ! i") simp
qed

section \<open>All events\<close>

lemma mon_both: "mon_keeps s t \<Longrightarrow> (mon_ok s \<and> mon_secs s = k) \<and> gen_ok s \<Longrightarrow> (mon_ok t \<and> mon_secs t = k) \<and> gen_ok t"
  using gview_ok by (auto simp: mon_keeps_def)

lemma mon_handle_ok:
  assumes "mon_handle e v ev s = Inr t" "mon_enabled ev s" "\<not> loop_exit s" "(mon_ok s \<and> mon_secs s = k) \<and> gen_ok s"
  shows "(mon_ok t \<and> mon_secs t = k) \<and> gen_ok t"
proof (cases ev)
  case (Mon_server g)
  with assms(1) have run: "gen_handle mon_ghooks e g s = Inr t" by simp
  have "mon_ok t \<and> mon_secs t = k" using run by (rule mon_server.gen_kept) (use assms(4) in blast)
  moreover have "gen_ok t" using mon_conn.handle_keeps [OF _ _ _ run] assms(2,3,4) Mon_server by simp
  ultimately show ?thesis by blast
next
  case Mon_check
  with assms(1) have "mon_keeps s t" by (simp add: checks_keep)
  then show ?thesis using assms(4) by (rule mon_both)
next
  case Mon_check_soon
  with assms(1) have "cb_checkpids v (s\<lparr>check_timers := check_timers s - 1\<rparr>) = Inr t" by simp
  from mon_keeps_trans [OF plain_keeps(2) checks_keep [OF this]] assms(4) show ?thesis by (rule mon_both)
next
  case Mon_restart
  with assms(1) have "mon_keeps s t" by (simp add: restarts_keep)
  then show ?thesis using assms(4) by (rule mon_both)
qed

lemma setup_ok:
  assumes "setup_monitors secs s = Inr t" and "mon_ok s" "gen_ok s"
  shows "mon_ok t \<and> mon_secs t = mon_secs s @ secs \<and> gen_ok t"
  using assms
proof (induction secs arbitrary: s)
  case (Cons x secs)
  let ?s1 = "s\<lparr>monitored := monitored s @ [new_mon x]\<rparr>"
  obtain u w where u: "write_bev (gnhastd_out ?s1) (mon_feed x) ?s1 = Inr u" "mon_alarm (new_mon x) ''nada'' 0 u = Inr w"
      "setup_monitors secs w = Inr t"
    using Cons.prems(1) by (auto simp: setup_monitors_def setup_monitor_def Let_def bindE_Inr_conv)
  have "mon_ok ?s1" "mon_secs ?s1 = mon_secs s @ [x]" "gview s = gview ?s1"
    using Cons.prems(2) by (simp_all add: mon_ok_def mon_secs_def new_mon_def mon_fine_def gview_def)
  with mon_keeps_trans [OF mon_write [OF u(1)] alarm_keeps(1) [OF u(2)]] Cons.prems(3)
  have "mon_ok w" "mon_secs w = mon_secs s @ [x]" "gen_ok w" using gview_ok [of s ?s1] gview_ok [of ?s1 w] by (auto simp: mon_keeps_def)
  with Cons.IH [OF u(3)] show ?case by simp
qed (simp add: setup_monitors_def)

lemma mon_main_ok:
  assumes "mon_main secs inst cf v = Inr t"
  shows "(mon_ok t \<and> mon_secs t = secs) \<and> gen_ok t"
proof -
  let ?s = "mon_start\<lparr>coll_conf := cf\<rparr>" and ?s2 = "\<lambda>s1. s1\<lparr>collector_instance := inst\<rparr>"
  obtain s1 s3 s4 where run: "generic_connect_server_cb 0 ?s = Inr s1"
      "write_bev (gnhastd_out (s1\<lparr>collector_instance := inst\<rparr>)) (gn_client_name (Some ''moncoll'') inst)
        (s1\<lparr>collector_instance := inst\<rparr>) = Inr s3"
      "setup_monitors secs s3 = Inr s4" "cb_checkpids v s4 = Inr t"
    using assms by (auto simp: mon_main_def Let_def bindE_Inr_conv)
  have s: "mon_ok ?s" "mon_secs ?s = []" "gen_start ?s" "gnhastd_conn ?s = 0"
    by (simp_all add: mon_start_def registry.defs mon_ok_def mon_secs_def gen_start_def)
  have g: "gen_ok s1" using mon_conn.reach_ok [OF gen_reach.connect [OF s(3)]] run(1) s(4) by simp
  have "mon_ok s1 \<and> mon_secs s1 = []" using mon_server.connect_own [OF run(1)] s by simp
  with g have "(mon_ok (?s2 s1) \<and> mon_secs (?s2 s1) = []) \<and> gen_ok (?s2 s1)"
    by (simp add: mon_ok_def mon_secs_def gen_ok_def gen_at_def live_def split: option.splits)
  with mon_write [OF run(2)] have "(mon_ok s3 \<and> mon_secs s3 = []) \<and> gen_ok s3" by (rule mon_both)
  with setup_ok [OF run(3)] have "(mon_ok s4 \<and> mon_secs s4 = secs) \<and> gen_ok s4" by simp
  with checks_keep [OF run(4)] show ?thesis by (rule mon_both)
qed

inductive mon_reach :: "monsec list \<Rightarrow> moncoll \<Rightarrow> bool" for secs where
  start: "mon_main secs inst cf v = Inr st \<Longrightarrow> mon_reach secs st"
| step: "mon_reach secs st \<Longrightarrow> \<not> loop_exit st \<Longrightarrow> mon_enabled ev st \<Longrightarrow> mon_handle e v ev st = Inr st' \<Longrightarrow> mon_reach secs st'"

lemma mon_reach_ok: "mon_reach secs st \<Longrightarrow> (mon_ok st \<and> mon_secs st = secs) \<and> gen_ok st"
proof (induction rule: mon_reach.induct)
  case (start inst cf v st)
  then show ?case by (rule mon_main_ok)
next
  case (step st ev e v st')
  from step.hyps(4,3,2) step.IH show ?case by (rule mon_handle_ok)
qed

end
