(* ===== verification/Monitor.thy ===== *)
theory Monitor
  imports Moninv Protocol
begin

text \<open>
  Properties of the monitor of collectors: its invariant, that a process that does not answer is ended
  and one that is gone started again, and that the alarms it raises reach the server's list.
\<close>

section \<open>Passes over the list\<close>

text \<open>Nothing that has been done or written is taken back.\<close>

definition grows :: "'a moncoll_scheme \<Rightarrow> 'a moncoll_scheme \<Rightarrow> bool" where
  "grows s t \<longleftrightarrow> (\<exists>as. mon_acts t = mon_acts s @ as) \<and> check_timers s \<le> check_timers t \<and>
     (\<forall>k x. bufs s k = Some x \<longrightarrow> (\<exists>y. bufs t k = Some (x @ y)))"

lemma grows_refl [simp]: "grows s s"
  by (simp add: grows_def)

lemma grows_trans: "grows a b \<Longrightarrow> grows b c \<Longrightarrow> grows a c"
  unfolding grows_def by (metis append.assoc order_trans)

lemma grows_D: "grows s t \<Longrightarrow> a \<in> set (mon_acts s) \<Longrightarrow> a \<in> set (mon_acts t)"
  by (auto simp: grows_def)

lemma grows_parts [simp]: "grows s (act a s)" "grows s (check_soon s)" "grows s (upd_mon i f s)"
  by (simp_all add: grows_def act_def check_soon_def upd_mon_def)

lemma grows_upd: "grows s t \<Longrightarrow> grows s (upd_mon i f t)"
  by (erule grows_trans) (rule grows_parts(3))

lemma alarm_grows:
  "mon_alarm m x sev s = Inr t \<Longrightarrow> grows s t \<and> monitored t = monitored s"
  "fast_alarm m s = Inr t \<Longrightarrow> grows s t \<and> monitored t = monitored s"
  by (auto simp: mon_alarm_def fast_alarm_def write_bev_def grows_def split: option.splits if_splits)

lemma revive_grows: "revive sys gone m s = Inr (m2, t) \<Longrightarrow> grows s t \<and> monitored t = monitored s"
  by (auto simp: revive_def start_service_def stop_service_def start_process_def kill_process_def Let_def bindE_Inr_conv
      grows_def act_def check_soon_def split: if_splits)

text \<open>One step of a loop, and the loop seen from one place.\<close>

definition one_place :: "nat \<Rightarrow> 'a moncoll_scheme \<Rightarrow> 'a moncoll_scheme \<Rightarrow> bool" where
  "one_place i s t \<longleftrightarrow> grows s t \<and> (\<exists>m. monitored t = (monitored s)[i := m])"

lemma restart_place:
  assumes "restart_one v i s = Inr t"
  shows "one_place i s t"
proof (cases "mn_alive (monitored s ! i) = 0")
  case True
  let ?m1 = "(monitored s ! i)\<lparr>mn_passes := mn_passes (monitored s ! i) + 1\<rparr>"
  obtain m2 u where u: "revive (mv_system v i) (mv_gone v i) ?m1 s = Inr (m2, u)"
      "fast_alarm m2 (upd_mon i (\<lambda>_. m2) u) = Inr t"
    using assms True by (auto simp: restart_one_def Let_def bindE_Inr_conv)
  note a = alarm_grows(2) [OF u(2)] and r = revive_grows [OF u(1)]
  have "grows s t" using grows_upd [OF conjunct1 [OF r]] conjunct1 [OF a] by (rule grows_trans)
  moreover have "monitored t = (monitored s)[i := m2]" using a r by (simp add: upd_mon_def)
  ultimately show ?thesis unfolding one_place_def by blast
next
  case False
  then obtain m where "t = upd_mon i (\<lambda>_. m) s \<or> mon_alarm m ''nada'' 0 (upd_mon i (\<lambda>_. m) s) = Inr t"
    using assms by (auto simp: restart_one_def Let_def bindE_Inr_conv split: if_splits)
  then have "grows (upd_mon i (\<lambda>_. m) s) t \<and> monitored t = monitored (upd_mon i (\<lambda>_. m) s)"
    by (auto dest!: alarm_grows(1))
  then have "grows s t" "monitored t = (monitored s)[i := m]"
    using grows_trans [OF grows_parts(3)] by (auto simp: upd_mon_def)
  then show ?thesis unfolding one_place_def by blast
qed

lemma check_place:
  assumes "check_one v i s = Inr t"
  shows "one_place i s t"
proof -
  have "\<exists>f u. t = upd_mon i f u \<and> grows s u \<and> monitored u = monitored s"
  proof (cases "uses_systemd (monitored s ! i)")
    case True
    with assms have "t = upd_mon i (service_state (mv_system v i (is_active (monitored s ! i)))) (act (Run (is_active (monitored s ! i))) s)"
      by (simp add: check_one_def check_service_def Let_def split: if_splits)
    then show ?thesis by (metis grows_parts(1) act_simps(2))
  next
    case False
    have "upd_mon i (\<lambda>m. m) s = s" by (simp add: upd_mon_def)
    with False assms show ?thesis
      by (auto simp: check_one_def check_process_def Let_def split: option.splits) (metis grows_refl)+
  qed
  then obtain f u where u: "t = upd_mon i f u" "grows s u" "monitored u = monitored s" by blast
  have "grows s t" unfolding u(1) using u(2) by (rule grows_upd)
  moreover have "monitored t = (monitored s)[i := f (monitored s ! i)]" by (simp add: u upd_mon_def)
  ultimately show ?thesis unfolding one_place_def by blast
qed

lemma loop_elsewhere:
  assumes "foldE f xs s = Inr t" and "i \<notin> set xs" and "\<And>j u w. f j u = Inr w \<Longrightarrow> one_place j u w"
  shows "grows s t \<and> monitored t ! i = monitored s ! i \<and> length (monitored t) = length (monitored s)"
  using assms(1,2)
proof (induction xs arbitrary: s)
  case (Cons j xs)
  then obtain u where u: "f j s = Inr u" "foldE f xs u = Inr t" by (auto simp: bindE_Inr_conv)
  from assms(3) [OF u(1)] obtain m where "grows s u" "monitored u = (monitored s)[j := m]" by (auto simp: one_place_def)
  with Cons.IH [OF u(2)] Cons.prems(2) show ?case by (auto intro: grows_trans)
qed simp

lemma loop_at:
  assumes "foldE f [0..<n] s = Inr t" and "i < n" and "\<And>j u w. f j u = Inr w \<Longrightarrow> one_place j u w"
  obtains u w where "foldE f [0..<i] s = Inr u" "f i u = Inr w" "foldE f [Suc i..<n] w = Inr t"
    "grows s u" "monitored u ! i = monitored s ! i" "length (monitored u) = length (monitored s)"
    "grows w t" "monitored t ! i = monitored w ! i" "length (monitored t) = length (monitored w)"
proof -
  have "[0..<n] = [0..<i] @ i # [Suc i..<n]"
    using assms(2) upt_add_eq_append [of 0 i "n - i"] upt_conv_Cons [of i n] by simp
  with assms(1) obtain u w where r: "foldE f [0..<i] s = Inr u" "f i u = Inr w" "foldE f [Suc i..<n] w = Inr t"
    by (auto simp: foldE_append bindE_Inr_conv)
  have "grows s u \<and> monitored u ! i = monitored s ! i \<and> length (monitored u) = length (monitored s)"
    using r(1) by (rule loop_elsewhere) (auto intro: assms(3))
  moreover have "grows w t \<and> monitored t ! i = monitored w ! i \<and> length (monitored t) = length (monitored w)"
    using r(3) by (rule loop_elsewhere) (auto intro: assms(3))
  ultimately show thesis using r by (intro that) blast+
qed

lemma restarts_at:
  assumes "cb_restart_collectors v s = Inr t" and "i < length (monitored s)"
  obtains u w where "grows s u" "monitored u ! i = monitored s ! i" "length (monitored u) = length (monitored s)"
    "restart_one v i u = Inr w" "grows w t" "monitored t ! i = monitored w ! i" "length (monitored t) = length (monitored s)"
    "mon_keeps s u"
proof -
  obtain u w where r: "foldE (restart_one v) [0..<i] s = Inr u" "restart_one v i u = Inr w"
    "grows s u" "monitored u ! i = monitored s ! i" "length (monitored u) = length (monitored s)"
    "grows w t" "monitored t ! i = monitored w ! i" "length (monitored t) = length (monitored w)"
    using assms(1) [unfolded cb_restart_collectors_def] assms(2) by (rule loop_at) (auto intro: restart_place)
  have "mon_keeps s u" using r(1) by (rule each_keeps) (use assms(2) in \<open>auto intro: restart_keeps\<close>)
  moreover have "length (monitored w) = length (monitored u)" using restart_place [OF r(2)] by (auto simp: one_place_def)
  ultimately show thesis using r by (intro that) auto
qed

lemma checks_at:
  assumes "cb_checkpids v s = Inr t" and "i < length (monitored s)"
  obtains u w where "grows s u" "monitored u ! i = monitored s ! i" "length (monitored u) = length (monitored s)"
    "check_one v i u = Inr w" "grows w t" "monitored t ! i = monitored w ! i" "length (monitored t) = length (monitored s)"
proof -
  obtain t1 where t1: "foldE (check_one v) [0..<length (monitored s)] s = Inr t1" "t = t1\<lparr>restart_running := True\<rparr>"
    using assms(1) by (auto simp: cb_checkpids_def bindE_Inr_conv)
  have t: "grows w t \<longleftrightarrow> grows w t1" "monitored t = monitored t1" for w by (simp_all add: t1(2) grows_def)
  obtain u w where r: "check_one v i u = Inr w"
    "grows s u" "monitored u ! i = monitored s ! i" "length (monitored u) = length (monitored s)"
    "grows w t1" "monitored t1 ! i = monitored w ! i" "length (monitored t1) = length (monitored w)"
    using t1(1) assms(2) by (rule loop_at) (auto intro: check_place)
  moreover have "length (monitored w) = length (monitored u)" using check_place [OF r(1)] by (auto simp: one_place_def)
  ultimately show thesis using t by (intro that) auto
qed

text \<open>A collector that a pass finds dead, in its state before and after.\<close>

lemma dead_pass:
  assumes "restart_one v i u = Inr w" and "i < length (monitored u)" and "monitored u ! i = m"
    and "\<not> uses_systemd m" "mn_alive m = 0" and "1 \<le> mn_pid m" "\<not> mv_gone v i (mn_pid m)"
  shows "monitored w ! i = m\<lparr>mn_passes := mn_passes m + 1, mn_kills := mn_kills m + 1\<rparr>"
    and "5 \<le> mn_kills m \<Longrightarrow> Kill (mn_pid m) \<in> set (mon_acts w)"
proof -
  let ?m1 = "m\<lparr>mn_passes := mn_passes m + 1\<rparr>"
  obtain m2 x where r: "revive (mv_system v i) (mv_gone v i) ?m1 u = Inr (m2, x)"
      "fast_alarm m2 (upd_mon i (\<lambda>_. m2) x) = Inr w"
    using assms(1,3,5) by (auto simp: restart_one_def Let_def bindE_Inr_conv)
  have "\<not> uses_systemd ?m1" using assms(4) by (simp add: uses_systemd_def)
  with r(1) assms(6,7) have k: "kill_process ?m1 (act (Term (mn_pid m)) u) = Inr (m2, x)"
    by (simp add: revive_def Let_def)
  then have m2: "m2 = m\<lparr>mn_passes := mn_passes m + 1, mn_kills := mn_kills m + 1\<rparr>"
      "x = (if 5 < mn_kills m + 1 then act (Kill (mn_pid m)) (act (Term (mn_pid m)) u) else act (Term (mn_pid m)) u)"
    by (auto simp: kill_process_def bindE_Inr_conv)
  note a = alarm_grows(2) [OF r(2)]
  have "monitored w = (monitored u)[i := m2]" using a m2(2) by (simp add: upd_mon_def)
  then show "monitored w ! i = m\<lparr>mn_passes := mn_passes m + 1, mn_kills := mn_kills m + 1\<rparr>"
    using assms(2) m2(1) by simp
  show "Kill (mn_pid m) \<in> set (mon_acts w)" if "5 \<le> mn_kills m"
  proof (rule grows_D [OF conjunct1 [OF a]])
    show "Kill (mn_pid m) \<in> set (mon_acts (upd_mon i (\<lambda>_. m2) x))"
      using that by (simp add: m2(2) upd_mon_def)
  qed
qed

section \<open>A process that does not end\<close>

text \<open>
  A step for which the process is still there, and its file, when it is there, still names it. The
  server may say what it likes.
\<close>

definition still_there :: "nat \<Rightarrow> moncol \<Rightarrow> cenv \<times> mon_env \<times> mon_event \<Rightarrow> bool" where
  "still_there i m = (\<lambda>(e, v, ev). (case ev of Mon_server g \<Rightarrow> True | _ \<Rightarrow>
     \<not> mv_gone v i (mn_pid m) \<and>
     (case Option.bind (ms_pidfile (mn_sec m)) (mv_file v i) of
        None \<Rightarrow> True | Some p \<Rightarrow> sint (c_atoi (c_string p)) = mn_pid m)))"

text \<open>A run of the monitor, and the passes of it that find a collector dead.\<close>

abbreviation mon_run :: "(cenv \<times> mon_env \<times> mon_event) list \<Rightarrow> 'a moncoll_scheme \<Rightarrow> 'a moncoll_scheme res" where
  "mon_run \<equiv> foldE (\<lambda>(e, v, ev). mon_handle e v ev)"

fun tries :: "nat \<Rightarrow> (cenv \<times> mon_env \<times> mon_event) list \<Rightarrow> 'a moncoll_scheme \<Rightarrow> nat" where
  "tries i [] s = 0"
| "tries i ((e, v, ev) # xs) s =
     (if ev = Mon_restart \<and> mn_alive (monitored s ! i) = 0 then 1 else 0) +
     (case mon_handle e v ev s of Inl _ \<Rightarrow> 0 | Inr t \<Rightarrow> tries i xs t)"

definition same_process :: "moncol \<Rightarrow> moncol \<Rightarrow> bool" where
  "same_process m m' \<longleftrightarrow> mn_sec m' = mn_sec m \<and> mn_pid m' = mn_pid m"

lemma looked_at:
  assumes "cb_checkpids v s = Inr t" and "i < length (monitored s)" and "still_there i m (e, v, Mon_check)"
    and "\<not> uses_systemd m" and "same_process m (monitored s ! i)"
  shows "grows s t \<and> length (monitored t) = length (monitored s) \<and> monitored t ! i = monitored s ! i"
proof -
  obtain u w where u: "grows s u" "monitored u ! i = monitored s ! i" "length (monitored u) = length (monitored s)"
    "check_one v i u = Inr w" "grows w t" "monitored t ! i = monitored w ! i" "length (monitored t) = length (monitored s)"
    using assms(1,2) by (rule checks_at)
  let ?m = "monitored u ! i"
  have m: "\<not> uses_systemd ?m" "mn_sec ?m = mn_sec m" "mn_pid ?m = mn_pid m"
    using assms(4,5) u(2) by (auto simp: same_process_def uses_systemd_def)
  have c: "check_process (mv_gone v i) (mv_file v i) i ?m u = Inr w" using u(4) m(1) by (simp add: check_one_def Let_def)
  have "w = u \<or> w = upd_mon i (\<lambda>x. x\<lparr>mn_pid := mn_pid m, mn_alive := mn_alive x\<rparr>) u"
  proof (cases "Option.bind (ms_pidfile (mn_sec m)) (mv_file v i)")
    case None
    with c m(2) show ?thesis by (auto simp: check_process_def Let_def split: option.splits)
  next
    case (Some p)
    with assms(3) have "sint (c_atoi (c_string p)) = mn_pid m" "\<not> mv_gone v i (mn_pid m)" by (auto simp: still_there_def)
    with c m(2) Some show ?thesis by (auto simp: check_process_def Let_def bind_eq_Some_conv)
  qed
  moreover have "?m\<lparr>mn_pid := mn_pid m, mn_alive := mn_alive ?m\<rparr> = ?m" using m(3) by simp
  ultimately have "monitored w ! i = ?m" using u(3) assms(2) by (auto simp: upd_mon_def)
  moreover have "grows u w" using check_place [OF u(4)] by (simp add: one_place_def)
  ultimately show ?thesis using u grows_trans by metis
qed

text \<open>A pass over a collector that is alive.\<close>

lemma alive_pass:
  assumes "restart_one v i u = Inr w" and "i < length (monitored u)" and "mn_alive (monitored u ! i) \<noteq> 0"
  shows "same_process (monitored u ! i) (monitored w ! i) \<and> mn_kills (monitored w ! i) = mn_kills (monitored u ! i)"
proof -
  let ?m1 = "(monitored u ! i)\<lparr>mn_passes := mn_passes (monitored u ! i) + 1\<rparr>"
  let ?m2 = "if 60 < mn_passes ?m1 then ?m1\<lparr>mn_passes := 0, mn_restarts := 0\<rparr> else ?m1"
  have "w = upd_mon i (\<lambda>_. ?m2) u \<or> mon_alarm ?m2 ''nada'' 0 (upd_mon i (\<lambda>_. ?m2) u) = Inr w"
    using assms(1,3) by (auto simp: restart_one_def Let_def bindE_Inr_conv split: if_splits)
  then have "monitored w = monitored (upd_mon i (\<lambda>_. ?m2) u)" by (auto dest: alarm_grows(1))
  then have "monitored w ! i = ?m2" using assms(2) by (simp add: upd_mon_def)
  then show ?thesis by (simp add: same_process_def)
qed

text \<open>
  What a step does to a process that does not end: the attempts are counted by the passes that find the
  collector dead, from the sixth on it is killed, and nothing takes this back.
\<close>

lemma stuck_step:
  assumes run: "mon_handle e v ev s = Inr t" and i: "i < length (monitored s)" and m: "same_process m (monitored s ! i)"
    and there: "still_there i m (e, v, ev)" and "\<not> uses_systemd m" "1 \<le> mn_pid m"
  defines "dead \<equiv> ev = Mon_restart \<and> mn_alive (monitored s ! i) = 0"
  shows "length (monitored t) = length (monitored s) \<and> same_process m (monitored t ! i) \<and>
    mn_kills (monitored t ! i) = mn_kills (monitored s ! i) + (if dead then 1 else 0) \<and>
    set (mon_acts s) \<subseteq> set (mon_acts t) \<and>
    (dead \<and> 5 \<le> mn_kills (monitored s ! i) \<longrightarrow> Kill (mn_pid m) \<in> set (mon_acts t))"
proof -
  have looked: ?thesis if c: "cb_checkpids v (s\<lparr>check_timers := n\<rparr>) = Inr t" "ev \<in> {Mon_check, Mon_check_soon}" for n
  proof -
    have "still_there i m (e, v, Mon_check)" using there c(2) by (auto simp: still_there_def)
    with c(1) have "grows (s\<lparr>check_timers := n\<rparr>) t \<and> length (monitored t) = length (monitored s) \<and> monitored t ! i = monitored s ! i"
      using looked_at [of v "s\<lparr>check_timers := n\<rparr>" t i m e] i m assms(5) by simp
    moreover from this have "set (mon_acts s) \<subseteq> set (mon_acts t)" by (auto simp: grows_def)
    moreover have "\<not> dead" using c(2) by (auto simp: dead_def)
    ultimately show ?thesis using m by simp
  qed
  show ?thesis
  proof (cases ev)
    case (Mon_server g)
    with run have g: "gen_handle mon_ghooks e g s = Inr t" by simp
    show ?thesis
      using server_leaves(1,2) [OF g] server_leaves(3) [OF g i] m Mon_server
      by (cases "monitored t ! i"; cases "monitored s ! i") (simp add: same_process_def dead_def)
  next
    case Mon_check
    have "cb_checkpids v (s\<lparr>check_timers := check_timers s\<rparr>) = Inr t" using run Mon_check by simp
    then show ?thesis by (rule looked) (simp add: Mon_check)
  next
    case Mon_check_soon
    with run have "cb_checkpids v (s\<lparr>check_timers := check_timers s - 1\<rparr>) = Inr t" by simp
    then show ?thesis by (rule looked) (simp add: Mon_check_soon)
  next
    case Mon_restart
    with run have "cb_restart_collectors v s = Inr t" by simp
    from this i obtain u w where u: "grows s u" "monitored u ! i = monitored s ! i"
      "length (monitored u) = length (monitored s)" "restart_one v i u = Inr w" "grows w t"
      "monitored t ! i = monitored w ! i" "length (monitored t) = length (monitored s)"
      by (rule restarts_at)
    let ?m = "monitored u ! i"
    have iu: "i < length (monitored u)" using i u(3) by simp
    have s: "set (mon_acts s) \<subseteq> set (mon_acts t)"
      using grows_D [OF u(1)] grows_D [OF u(5)] restart_place [OF u(4)] grows_D by (metis one_place_def subsetI)
    show ?thesis
    proof (cases "mn_alive ?m = 0")
      case True
      have p: "\<not> uses_systemd ?m" "1 \<le> mn_pid ?m" "\<not> mv_gone v i (mn_pid ?m)" "mn_pid ?m = mn_pid m"
        using m assms(5,6) u(2) there Mon_restart by (auto simp: same_process_def uses_systemd_def still_there_def)
      have "monitored w ! i = ?m\<lparr>mn_passes := mn_passes ?m + 1, mn_kills := mn_kills ?m + 1\<rparr>"
        by (rule dead_pass(1) [OF u(4) iu refl p(1) True p(2,3)])
      moreover have "Kill (mn_pid m) \<in> set (mon_acts t)" if "5 \<le> mn_kills ?m"
        using dead_pass(2) [OF u(4) iu refl p(1) True p(2,3) that] grows_D [OF u(5)] p(4) by simp
      ultimately show ?thesis using True u(2,6,7) s m Mon_restart by (simp add: dead_def same_process_def)
    next
      case False
      with alive_pass [OF u(4) iu] u(2,6,7) s m show ?thesis by (simp add: dead_def same_process_def)
    qed
  qed
qed

text \<open>
  C38. A process, run directly and not as a service, that does not end when it is asked to is killed with
  the sixth pass over the list that finds its collector dead. Between the passes the processes may be looked
  at as often as they are, and the server may send anything: updates of this and of other collectors, even
  that this one is alive for a while, or the end of the connection. The process is taken to stay there under
  its number, and its file, where it can be read, to name it.
\<close>

theorem stuck_process_killed:
  assumes "mon_run steps st = Inr st'"
    and "i < length (monitored st)" and "monitored st ! i = m"
    and "\<not> uses_systemd m" "1 \<le> mn_pid m" "0 \<le> mn_kills m"
    and "list_all (still_there i m) steps" and "6 \<le> tries i steps st"
  shows "Kill (mn_pid m) \<in> set (mon_acts st')"
proof -
  have "Kill (mn_pid m) \<in> set (mon_acts st')"
    if "mon_run xs s = Inr st'" "i < length (monitored s)" "same_process m (monitored s ! i)"
      "list_all (still_there i m) xs"
      "Kill (mn_pid m) \<in> set (mon_acts s) \<or> 6 \<le> mn_kills (monitored s ! i) + int (tries i xs s) \<and> 0 < tries i xs s"
    for xs s
    using that
  proof (induction xs arbitrary: s)
    case Nil
    then show ?case by simp
  next
    case (Cons x xs)
    obtain e v ev where x: "x = (e, v, ev)" by (cases x)
    obtain t where t: "mon_handle e v ev s = Inr t" "mon_run xs t = Inr st'"
      using Cons.prems(1) by (auto simp only: foldE.simps x split bindE_Inr_conv)
    have th: "still_there i m (e, v, ev)" "list_all (still_there i m) xs" using Cons.prems(4) x by simp_all
    let ?dead = "ev = Mon_restart \<and> mn_alive (monitored s ! i) = 0"
    have n: "tries i (x # xs) s = (if ?dead then 1 else 0) + tries i xs t" using t(1) by (simp add: x)
    note st = stuck_step [OF t(1) Cons.prems(2,3) th(1) assms(4,5)]
    show ?case
      by (rule Cons.IH [OF t(2)]) (use st Cons.prems(2,5) th(2) n in \<open>auto split: if_splits\<close>)
  qed
  note killed = this
  have "same_process m (monitored st ! i)" using assms(3) by (simp add: same_process_def)
  then show ?thesis using killed [OF assms(1,2) _ assms(7)] assms(3,6,8) by simp
qed

section \<open>A process that is gone\<close>

text \<open>How far the counters may be from their end.\<close>

definition far_from_end :: "moncol \<Rightarrow> bool" where
  "far_from_end m \<longleftrightarrow> mn_passes m < 2 ^ 28 \<and> mn_kills m < 2 ^ 28"

lemma alarm_live: "live (gnhastd_out s) s \<Longrightarrow> \<exists>t. mon_alarm m x sev s = Inr t"
  using write_bev_live unfolding mon_alarm_def by blast

lemma live_upd [simp]: "live b (upd_mon i f s) = live b s" "gnhastd_out (upd_mon i f s) = gnhastd_out s"
  by (simp_all add: live_def upd_mon_def gnhastd_out_def split: option.split)

lemma live_same: "gview s = gview t \<Longrightarrow> live (gnhastd_out s) s \<longleftrightarrow> live (gnhastd_out t) t"
  using live_view [of s t] gview_D(1,5) [of s t] by (simp add: gnhastd_out_def)

lemma restart_one_total:
  assumes "live (gnhastd_out s) s" and "mon_fine (monitored s ! i)" "far_from_end (monitored s ! i)"
  shows "\<exists>t. restart_one v i s = Inr t"
proof -
  let ?m = "monitored s ! i"
  let ?m1 = "?m\<lparr>mn_passes := mn_passes ?m + 1\<rparr>"
  have n: "mn_passes ?m < 2 ^ 31 - 1" "mn_kills ?m < 2 ^ 31 - 1" "mn_restarts ?m < 2 ^ 28"
    using assms(2,3) by (auto simp: mon_fine_def far_from_end_def)
  show ?thesis
  proof (cases "mn_alive ?m = 0")
    case True
    have "\<exists>m2 u. revive (mv_system v i) (mv_gone v i) ?m1 s = Inr (m2, u)"
      using n by (auto simp: revive_def start_service_def stop_service_def start_process_def kill_process_def Let_def inc_def)
    then obtain m2 u where u: "revive (mv_system v i) (mv_gone v i) ?m1 s = Inr (m2, u)" by blast
    have "mn_restarts m2 \<le> mn_restarts ?m + 1"
      using u by (auto simp: revive_def start_service_def stop_service_def start_process_def kill_process_def Let_def
          bindE_Inr_conv split: if_splits)
    moreover have "live (gnhastd_out u) u" using assms(1) live_same [OF revived(2) [OF u]] by simp
    ultimately have "\<exists>t. fast_alarm m2 (upd_mon i (\<lambda>_. m2) u) = Inr t"
      using alarm_live [of "upd_mon i (\<lambda>_. m2) u"] n(3) by (auto simp: fast_alarm_def)
    with u True n(1) show ?thesis by (simp add: restart_one_def Let_def inc_def)
  next
    case False
    have "\<exists>t. mon_alarm m ''nada'' 0 (upd_mon i (\<lambda>_. m) s) = Inr t" for m
      using alarm_live [of "upd_mon i (\<lambda>_. m) s"] assms(1) by simp
    with False n(1) show ?thesis by (simp add: restart_one_def Let_def inc_def)
  qed
qed

lemma restarts_total:
  assumes "live (gnhastd_out s) s" "mon_ok s" and "list_all far_from_end (monitored s)"
  shows "\<exists>t. cb_restart_collectors v s = Inr t"
proof -
  have "\<exists>t. foldE (restart_one v) xs u = Inr t"
    if "live (gnhastd_out u) u" "mon_ok u" "\<forall>i \<in> set xs. i < length (monitored u) \<and> far_from_end (monitored u ! i)"
      "distinct xs" for xs u
    using that
  proof (induction xs arbitrary: u)
    case (Cons i xs)
    have "mon_fine (monitored u ! i)" using Cons.prems(2,3) by (simp add: mon_ok_def list_all_length)
    then obtain w where w: "restart_one v i u = Inr w" using restart_one_total Cons.prems(1,3) by fastforce
    have k: "mon_keeps u w" using w Cons.prems(3) by (auto intro: restart_keeps)
    obtain m where m: "monitored w = (monitored u)[i := m]" using restart_place [OF w] by (auto simp: one_place_def)
    have "\<exists>t. foldE (restart_one v) xs w = Inr t"
    proof (rule Cons.IH)
      show "live (gnhastd_out w) w" "mon_ok w"
        using k Cons.prems(1,2) live_same [of u w] by (simp_all add: mon_keeps_def)
      show "\<forall>j \<in> set xs. j < length (monitored w) \<and> far_from_end (monitored w ! j)"
        using Cons.prems(3,4) m by (auto simp: nth_list_update)
    qed (use Cons.prems(4) in simp)
    then show ?case using w by simp
  qed simp
  note total = this
  show ?thesis unfolding cb_restart_collectors_def by (rule total) (use assms in \<open>auto simp: list_all_length\<close>)
qed

text \<open>The alarm is written behind what is there.\<close>

lemma alarm_written:
  assumes "mon_alarm m x sev s = Inr t"
  obtains k a where "gnhastd_out s = Some k" "bufs t k = Some (a @ gn_setalarm (mon_aluid m s) (Some x) sev ALCHAN)"
  using assms by (auto simp: mon_alarm_def write_bev_def split: option.splits)

lemma aluid_same: "gview s = gview t \<Longrightarrow> mn_sec m = mn_sec m' \<Longrightarrow> mon_aluid m s = mon_aluid m' t"
  by (simp add: mon_aluid_def gview_def)

lemma gone_pass:
  assumes "restart_one v i u = Inr w" and "i < length (monitored u)" and "monitored u ! i = m"
    and "\<not> uses_systemd m" "mn_alive m = 0" and "mn_pid m < 1 \<or> mv_gone v i (mn_pid m)"
  defines "up \<equiv> mv_system v i (start_command (mn_sec m)) = 0"
  shows "monitored w ! i = m\<lparr>mn_alive := (if up then 1 else 0), mn_kills := 0, mn_passes := mn_passes m + 1,
      mn_restarts := mn_restarts m + 1\<rparr>"
    and "Run (start_command (mn_sec m)) \<in> set (drop (length (mon_acts u)) (mon_acts w))"
    and "up \<Longrightarrow> check_timers u < check_timers w"
    and "10 \<le> mn_passes m \<Longrightarrow> 4 \<le> mn_restarts m \<Longrightarrow> \<exists>k a. gnhastd_out u = Some k \<and> bufs w k =
      Some (a @ gn_setalarm (mon_aluid m u) (Some (fast_text m)) (5 * (mn_restarts m + 1)) ALCHAN)"
proof -
  let ?m1 = "m\<lparr>mn_passes := mn_passes m + 1\<rparr>"
  obtain m2 x where r: "revive (mv_system v i) (mv_gone v i) ?m1 u = Inr (m2, x)"
      "fast_alarm m2 (upd_mon i (\<lambda>_. m2) x) = Inr w"
    using assms(1,3,5) by (auto simp: restart_one_def Let_def bindE_Inr_conv)
  have "\<not> uses_systemd ?m1" using assms(4) by (simp add: uses_systemd_def)
  with r(1) assms(6) obtain y where y: "start_process (mv_system v i) ?m1 y = Inr (m2, x)"
      "y = u \<or> y = act (Term (mn_pid m)) u"
    by (auto simp: revive_def Let_def split: if_splits)
  from y(1) have m2: "m2 = m\<lparr>mn_alive := (if up then 1 else 0), mn_kills := 0, mn_passes := mn_passes m + 1,
      mn_restarts := mn_restarts m + 1\<rparr>" and x: "mon_acts x = mon_acts y @ [Run (start_command (mn_sec m))]"
      "check_timers x = check_timers y + (if up then 1 else 0)" "monitored x = monitored y"
    using assms(5) by (auto simp: start_process_def Let_def bindE_Inr_conv up_def act_def check_soon_def split: if_splits)
  note a = alarm_grows(2) [OF r(2)]
  have "monitored w = (monitored u)[i := m2]" using a x(3) y(2) by (auto simp: upd_mon_def)
  then show "monitored w ! i = m\<lparr>mn_alive := (if up then 1 else 0), mn_kills := 0, mn_passes := mn_passes m + 1,
      mn_restarts := mn_restarts m + 1\<rparr>"
    using assms(2) m2 by simp
  obtain as where "mon_acts w = mon_acts x @ as" using a by (auto simp: grows_def upd_mon_def)
  then show "Run (start_command (mn_sec m)) \<in> set (drop (length (mon_acts u)) (mon_acts w))"
    using x(1) y(2) by auto
  show "check_timers u < check_timers w" if up
    using a that x(2) y(2) by (auto simp: grows_def upd_mon_def act_def)
  show "\<exists>k a. gnhastd_out u = Some k \<and> bufs w k =
      Some (a @ gn_setalarm (mon_aluid m u) (Some (fast_text m)) (5 * (mn_restarts m + 1)) ALCHAN)"
    if "10 \<le> mn_passes m" "4 \<le> mn_restarts m"
  proof -
    have "mon_alarm m2 (fast_text m2) (mn_restarts m2 * 5) (upd_mon i (\<lambda>_. m2) x) = Inr w"
      using r(2) that m2 by (auto simp: fast_alarm_def split: if_splits)
    then obtain k b where k: "gnhastd_out x = Some k"
        "bufs w k = Some (b @ gn_setalarm (mon_aluid m2 (upd_mon i (\<lambda>_. m2) x)) (Some (fast_text m2)) (mn_restarts m2 * 5) ALCHAN)"
      by (rule alarm_written) simp
    have g: "gview x = gview u" using revived(2) [OF r(1)] .
    have "gview (upd_mon i (\<lambda>_. m2) x) = gview x" by (simp add: upd_mon_def gview_def)
    with g have "mon_aluid m2 (upd_mon i (\<lambda>_. m2) x) = mon_aluid m u" by (intro aluid_same) (simp_all add: m2)
    moreover have "fast_text m2 = fast_text m" by (simp add: fast_text_def m2)
    moreover have "mn_restarts m2 * 5 = 5 * (mn_restarts m + 1)" by (simp add: m2)
    moreover have "gnhastd_out u = Some k" using k(1) gview_D(1,5) [OF g] by (simp add: gnhastd_out_def)
    ultimately show ?thesis using k(2) by auto
  qed
qed

text \<open>
  C39. While the server is connected and no counter has come near its end (2 to the 28), a pass over the list
  completes. A collector that is not run by systemd, is dead and whose process is gone is started in it; it
  counts as alive if the command succeeded, and its process is looked at soon. An alarm is written to the server with the
  fifth and every later start since the counters were last set back, but only if at least ten passes have been counted
  before: a collector that is started in each of its first five passes raises none yet.
\<close>

theorem dead_process_started:
  assumes "mon_reach secs st" and "live (gnhastd_bev st) st" and "list_all far_from_end (monitored st)"
    and "i < length (monitored st)" and "monitored st ! i = m"
    and "\<not> uses_systemd m" "mn_alive m = 0" and "mn_pid m < 1 \<or> mv_gone v i (mn_pid m)"
  shows "\<exists>st'. cb_restart_collectors v st = Inr st' \<and>
    Run (start_command (mn_sec m)) \<in> set (drop (length (mon_acts st)) (mon_acts st')) \<and>
    monitored st' ! i = m\<lparr>mn_alive := (if mv_system v i (start_command (mn_sec m)) = 0 then 1 else 0), mn_kills := 0,
      mn_passes := mn_passes m + 1, mn_restarts := mn_restarts m + 1\<rparr> \<and>
    (mv_system v i (start_command (mn_sec m)) = 0 \<longrightarrow> check_timers st < check_timers st') \<and>
    (10 \<le> mn_passes m \<and> 4 \<le> mn_restarts m \<longrightarrow>
      (\<exists>k a b. gnhastd_bev st = Some k \<and>
        bufs st' k = Some (a @ gn_setalarm (mon_aluid m st) (Some (fast_text m)) (5 * (mn_restarts m + 1)) ALCHAN @ b)))"
proof -
  have ok: "mon_ok st" "gnhastd_bev st = gnhastd_out st"
    using mon_reach_ok [OF assms(1)] gen_at_D(6) by (auto simp: gen_ok_def gnhastd_out_def)
  obtain st' where st': "cb_restart_collectors v st = Inr st'" using restarts_total ok assms(2,3) by metis
  obtain u w where u: "grows st u" "monitored u ! i = monitored st ! i" "length (monitored u) = length (monitored st)"
    "restart_one v i u = Inr w" "grows w st'" "monitored st' ! i = monitored w ! i" "mon_keeps st u"
    using st' assms(4) by (rule restarts_at)
  have i: "i < length (monitored u)" "monitored u ! i = m" using assms(4,5) u(2,3) by simp_all
  note pass = gone_pass [OF u(4) i assms(6-8)]
  have g: "gview st = gview u" using u(7) by (rule mon_keeps_gview)
  obtain as bs where as: "mon_acts u = mon_acts st @ as" "mon_acts st' = mon_acts w @ bs" using u(1,5) by (auto simp: grows_def)
  obtain cs where cs: "mon_acts w = mon_acts u @ cs" using restart_place [OF u(4)] by (auto simp: one_place_def grows_def)
  have "Run (start_command (mn_sec m)) \<in> set (drop (length (mon_acts st)) (mon_acts st'))"
    using pass(2) as cs by auto
  moreover have "check_timers st < check_timers st'" if "mv_system v i (start_command (mn_sec m)) = 0"
    using pass(3) [OF that] u(1,5) by (simp add: grows_def)
  moreover have "\<exists>k a b. gnhastd_bev st = Some k \<and>
      bufs st' k = Some (a @ gn_setalarm (mon_aluid m st) (Some (fast_text m)) (5 * (mn_restarts m + 1)) ALCHAN @ b)"
    if late: "10 \<le> mn_passes m" "4 \<le> mn_restarts m"
  proof -
    obtain k a where k: "gnhastd_out u = Some k" "bufs w k =
        Some (a @ gn_setalarm (mon_aluid m u) (Some (fast_text m)) (5 * (mn_restarts m + 1)) ALCHAN)"
      using pass(4) [OF late] by blast
    have "gnhastd_bev st = Some k" using k(1) ok(2) gview_D(1,5) [OF g] by (simp add: gnhastd_out_def)
    moreover have "\<exists>b. bufs st' k = Some ((a @ gn_setalarm (mon_aluid m u) (Some (fast_text m)) (5 * (mn_restarts m + 1)) ALCHAN) @ b)"
      using k(2) u(5) unfolding grows_def by blast
    ultimately show ?thesis using aluid_same [OF g, of m m] by auto
  qed
  ultimately show ?thesis using st' pass(1) u(6) by auto
qed

section \<open>All states\<close>

text \<open>
  C37. In every reachable state the list is that of the configuration, every collector's counters are in
  range and no more starts than passes are counted, signals have gone to processes with a positive id
  only, and none has been killed that was not asked to end just before. The server is connected, or a
  timer that connects again is pending, or the monitor is stopping.
\<close>

theorem monitor_invariant:
  assumes "mon_reach secs st"
  shows "map mn_sec (monitored st) = secs \<and>
    list_all (\<lambda>m. 0 \<le> mn_restarts m \<and> mn_restarts m \<le> mn_passes m \<and> 0 \<le> mn_kills m \<and> -1 \<le> mn_alive m \<and> mn_alive m \<le> 255)
      (monitored st) \<and>
    acts_ok None (mon_acts st) \<and>
    (loop_exit st \<or> live (gnhastd_bev st) st \<or> retry_timers st = [gnhastd_conn st])"
proof -
  have ok: "mon_ok st" "mon_secs st = secs" and g: "gen_at (gnhastd_conn st) st"
    using mon_reach_ok [OF assms] by (simp_all add: gen_ok_def)
  have "list_all (\<lambda>m. 0 \<le> mn_restarts m \<and> mn_restarts m \<le> mn_passes m \<and> 0 \<le> mn_kills m \<and> -1 \<le> mn_alive m \<and> mn_alive m \<le> 255)
      (monitored st)"
    using ok(1) by (auto simp: mon_ok_def mon_fine_def list_all_iff)
  with ok gen_at_D(4,6) [OF g] show ?thesis by (auto simp: mon_ok_def mon_secs_def)
qed

text \<open>One collector, whose process is 7; \<open>gone\<close>: there is no such process.\<close>

definition one_sec :: monsec where
  "one_sec = \<lparr>ms_name = Some ''owsrv'', ms_uid = Some ''c-1'', ms_path = Some ''/bin/owsrv'', ms_args = None,
     ms_pidfile = Some ''p'', ms_service = [], ms_systemd = 0, ms_instance = 1\<rparr>"

definition one_env :: "bool \<Rightarrow> mon_env" where
  "one_env gone = \<lparr>mv_system = (\<lambda>_ _. 0), mv_gone = (\<lambda>_ _. gone), mv_file = (\<lambda>_ _. Some ''7'')\<rparr>"

definition mon_up :: moncoll where
  "mon_up = projr (mon_main [one_sec] 1 no_conf (one_env True))"

lemma mon_up: "mon_main [one_sec] 1 no_conf (one_env True) = Inr mon_up"
proof -
  have "\<not> isl (mon_main [one_sec] 1 no_conf (one_env True))" by code_simp
  then show ?thesis by (cases "mon_main [one_sec] 1 no_conf (one_env True)") (simp_all add: mon_up_def)
qed

lemma mon_up_reach: "mon_reach [one_sec] mon_up"
  using mon_up by (rule mon_reach.start)

theorem monitor_invariant_witness:
  "mon_reach [one_sec] mon_up \<and> map mn_sec (monitored mon_up) = [one_sec] \<and> acts_ok None (mon_acts mon_up)"
  using monitor_invariant [OF mon_up_reach] mon_up_reach by simp

text \<open>
  Its process does not end, and the server says again between the passes that the collector, one of its
  devices, is dead.
\<close>

definition seen_dead :: device where
  "seen_dead = (new_device ''c-1'')\<lparr>d_name := Some ''owsrv'', d_type := dev_type_code DEVICE_SWITCH, d_subtype := subtype_code SUBTYPE_COLLECTOR\<rparr>"

definition stuck_mon :: moncoll where
  "stuck_mon = insert_device 0 (snd (alloc_dev seen_dead
     (mon_start\<lparr>monitored := [(new_mon one_sec)\<lparr>mn_pid := 7, mn_alive := 0\<rparr>], bufs := (\<lambda>_. None)(0 \<mapsto> []), bufnext := 1\<rparr>)))"

definition said :: "string \<Rightarrow> cenv \<times> mon_env \<times> mon_event" where
  "said n = (\<lparr>ce_now = 0, ce_open = True\<rparr>, one_env False, Mon_server (ReadEvent 0 [''upd uid:c-1 collector:'' @ n]))"

definition timer :: "mon_event \<Rightarrow> cenv \<times> mon_env \<times> mon_event" where
  "timer ev = (\<lparr>ce_now = 0, ce_open = True\<rparr>, one_env False, ev)"

definition six_tries :: "(cenv \<times> mon_env \<times> mon_event) list" where
  "six_tries = [timer Mon_restart, timer Mon_restart, timer Mon_restart, said ''0'', timer Mon_check, timer Mon_restart,
     timer Mon_restart, timer Mon_restart]"

theorem stuck_process_killed_witness:
  "\<exists>st'. mon_run six_tries stuck_mon = Inr st' \<and> Kill 7 \<in> set (mon_acts st')"
proof -
  let ?r = "mon_run six_tries stuck_mon" and ?m = "(new_mon one_sec)\<lparr>mn_pid := 7, mn_alive := 0\<rparr>"
  have "\<not> isl ?r \<and> tries 0 six_tries stuck_mon = 6" by code_simp
  then obtain st' where r: "?r = Inr st'" "tries 0 six_tries stuck_mon = 6" by (cases ?r) auto
  have f: "\<not> uses_systemd ?m \<and> mn_pid ?m = 7 \<and> mn_kills ?m = 0" by code_simp
  have "list_all (still_there 0 ?m) six_tries" by code_simp
  moreover have "monitored stuck_mon ! 0 = ?m \<and> length (monitored stuck_mon) = 1" by code_simp
  ultimately have "Kill (mn_pid ?m) \<in> set (mon_acts st')"
    using stuck_process_killed [OF r(1), of 0 ?m] f r(2) by simp
  with r(1) show ?thesis by auto
qed

theorem dead_process_started_witness:
  "\<exists>st'. cb_restart_collectors (one_env True) mon_up = Inr st' \<and>
     mn_alive (monitored mon_up ! 0) = 0 \<and> mn_alive (monitored st' ! 0) = 1 \<and> check_timers mon_up < check_timers st'"
proof -
  have f: "list_all far_from_end (monitored mon_up) \<and> length (monitored mon_up) = 1 \<and> \<not> uses_systemd (monitored mon_up ! 0) \<and>
      mn_alive (monitored mon_up ! 0) = 0 \<and> (case gnhastd_bev mon_up of None \<Rightarrow> False | Some k \<Rightarrow> bufs mon_up k \<noteq> None)"
    by code_simp
  then have "live (gnhastd_bev mon_up) mon_up" by (simp add: live_def)
  moreover have "mv_gone (one_env True) 0 p" "mv_system (one_env True) 0 c = 0" for p c by (simp_all add: one_env_def)
  ultimately show ?thesis
    using dead_process_started [OF mon_up_reach, of 0 "monitored mon_up ! 0" "one_env True"] f by auto
qed

section \<open>The alarm on the server\<close>

definition alarm_pairs :: "string \<Rightarrow> string \<Rightarrow> u32 \<Rightarrow> u32 \<Rightarrow> (sc \<times> string) list" where
  "alarm_pairs u t sev chan = [(SC_ALUID, u), (SC_ALTEXT, t), (SC_ALSEV, fmt_d sev), (SC_ALCHAN, fmt_u chan)]"

lemma fmt_u_plain: "plain (fmt_u w)"
  using u_strtoul.show_safe [of w] by (simp add: plain_def)

lemma alarm_words:
  fixes sev chan :: u32
  assumes "plain u" "quotable t"
  shows "parse_netcommand (butlast (gn_setalarm u (Some t) (sint sev) chan)) =
    Some (''setalarm'' # map (\<lambda>(n, v). kv n v) (alarm_pairs u t sev chan))"
proof -
  have w: "nc_words (''setalarm '' @ s) [] = ''setalarm'' # nc_words (dropWhile (\<lambda>x. x = CHR '' '') s) []" for s
    using nc_words_plain [of "''setalarm''" "CHR '' '' # s" "[]"] by (simp add: plain_def nc_words_space)
  show ?thesis
    using assms
    by (simp add: gn_setalarm_def parse_netcommand_def butlast_append w [simplified] nc_words_kv nc_words_kvq
        nc_words_kv_end alarm_pairs_def fmt_plain fmt_u_plain flip: fmt_d_def)
qed

lemma alarm_args:
  fixes u t :: string and sev chan :: u32
  defines "args \<equiv> pairs_args (alarm_pairs u t sev chan)"
  shows "str_arg args SC_ALUID = Some u" "str_arg args SC_ALTEXT = Some t" "int_arg args SC_ALSEV z = sint sev"
    "u_arg args SC_ALCHAN y = chan"
  by (simp_all add: args_def pairs_args_def alarm_pairs_def str_arg_def int_arg_def u_arg_def args_of_def last_of_def
      arg_c_def arg_i_def arg_u_def arg_ll_def arg_value_def d_atoi.read_show u_strtoul.read_show)

lemma alarm_read:
  fixes sev chan :: u32
  assumes "srv_ok st" and "plain u" "quotable t" and "CHR 0x00 \<notin> set u" "CHR 0x00 \<notin> set t"
  shows "\<exists>st'. run_line e c (butlast (gn_setalarm u (Some t) (sint sev) chan)) st = Inr (Some st') \<and>
    alarms st' = snd (update_alarm u (Some t) (sint sev) chan (alarms st))"
proof -
  let ?line = "butlast (gn_setalarm u (Some t) (sint sev) chan)"
  have "CHR 0x00 \<notin> set (gn_setalarm u (Some t) (sint sev) chan)"
    using assms(4,5) d_atoi.show_safe [of sev] u_strtoul.show_safe [of chan]
    by (simp add: gn_setalarm_def kv_nul kvq_nul flip: fmt_d_def)
  then have nul: "CHR 0x00 \<notin> set ?line" using in_set_butlastD by metis
  have "map c_tolower ''setalarm'' = ''setalarm''" by code_simp
  then have "map_of commands (map c_tolower ''setalarm'') = Some cmd_setalarm" by (simp add: commands_def)
  from run_pairs [OF alarm_words [OF assms(2,3)] nul this]
  have line: "run_line e c ?line st = bindE (cmd_setalarm e c (pairs_args (alarm_pairs u t sev chan)) st) (\<lambda>(r, st1). Inr (Some st1))" .
  let ?as = "snd (update_alarm u (Some t) (sint sev) chan (alarms st))"
  have "alarms_ok ?as" using update_alarm_ok [of "alarms st" u] assms(1) by (simp add: srv_ok_def)
  with assms(1) have "srv_ok (st\<lparr>alarms := ?as\<rparr>)" by (rule srv_ok_alarms)
  then have tell: "\<exists>st'. tell_clients P m (st\<lparr>alarms := ?as\<rparr>) = Inr st' \<and> alarms st' = ?as" for P m
    using tell_clients_effect [of "st\<lparr>alarms := ?as\<rparr>" P m] by auto
  obtain a as where upd: "update_alarm u (Some t) (sint sev) chan (alarms st) = (a, as)" by fastforce
  have "\<exists>st'. cmd_setalarm e c (pairs_args (alarm_pairs u t sev chan)) st = Inr (0, st') \<and> alarms st' = ?as"
  proof (cases a)
    case None
    obtain st' where "tell_clients (\<lambda>x. 0 < c_alarmwatch x) (gn_setalarm u (Some []) 0 0xFFFFFFFF) (st\<lparr>alarms := ?as\<rparr>) = Inr st'"
      "alarms st' = ?as" using tell by blast
    with None upd show ?thesis by (simp add: cmd_setalarm_def alarm_args)
  next
    case (Some al)
    obtain st' where "tell_clients (wants_alarm al) (alarm_text al) (st\<lparr>alarms := ?as\<rparr>) = Inr st'"
      "alarms st' = ?as" using tell by blast
    with Some upd show ?thesis by (simp add: cmd_setalarm_def alarm_args)
  qed
  then show ?thesis using line by auto
qed

lemma cut_chars: "c \<in> set (cut512 s) \<Longrightarrow> c \<in> set s"
  by (auto simp: cut512_def dest: in_set_takeD)

lemma int_dec_safe: "plain (int_dec i)" "CHR 0x00 \<notin> set (int_dec i)" "newline \<notin> set (int_dec i)"
  by (auto simp: plain_def word_char_def is_digit_def dest!: int_dec_chars)

lemma aluid_safe:
  assumes "ms_name (mn_sec m) = Some nm" "plain nm" "CHR 0x00 \<notin> set nm" "newline \<notin> set nm"
  shows "plain (mon_aluid m s)" "CHR 0x00 \<notin> set (mon_aluid m s)" "newline \<notin> set (mon_aluid m s)"
proof -
  let ?s = "''MONC-'' @ int_dec (collector_instance s) @ ''_'' @ nm @ ''-'' @ int_dec (ms_instance (mn_sec m))"
  have "mon_aluid m s = cut512 ?s" using assms(1) by (simp add: mon_aluid_def show_str_def)
  moreover have "plain ?s" "CHR 0x00 \<notin> set ?s" "newline \<notin> set ?s"
    using assms int_dec_safe by (simp_all add: plain_def)
  ultimately show "plain (mon_aluid m s)" "CHR 0x00 \<notin> set (mon_aluid m s)" "newline \<notin> set (mon_aluid m s)"
    unfolding plain_def by (metis cut_chars)+
qed

lemma fast_text_safe:
  assumes "ms_uid (mn_sec m) = Some u" and "set u \<inter> {quote_char, backslash, CHR 0x00, newline} = {}"
  shows "quotable (fast_text m)" "CHR 0x00 \<notin> set (fast_text m)" "newline \<notin> set (fast_text m)"
proof -
  let ?s = "''Collector '' @ u @ '' is restarting too fast''"
  have t: "fast_text m = cut512 ?s" using assms(1) by (simp add: fast_text_def show_str_def)
  have s: "quote_char \<notin> set ?s" "backslash \<notin> set ?s" "CHR 0x00 \<notin> set ?s" "newline \<notin> set ?s"
    using assms(2) by auto
  show "CHR 0x00 \<notin> set (fast_text m)" "newline \<notin> set (fast_text m)" unfolding t by (metis cut_chars s(3), metis cut_chars s(4))
  have "quote_char \<notin> set (fast_text m)" "backslash \<notin> set (fast_text m)" unfolding t by (metis cut_chars s(1), metis cut_chars s(2))
  then show "quotable (fast_text m)" unfolding quotable_def by (metis last_in_set)
qed

text \<open>
  C40. The alarm that the monitor raises for a collector that is started again and again reaches the
  server's list: the message is one line, and reading it changes the list as the alarm with the uid,
  the text and the severity of the monitor does. This needs a name without spaces, quotes, NULs and newlines,
  a uid without quotes, backslashes, NULs and newlines, and a severity, five times the starts, that is an \<^verbatim>\<open>int\<close>.
\<close>

theorem monitor_alarm_travels:
  assumes "reachable st"
    and "ms_name (mn_sec m) = Some nm" "plain nm" "CHR 0x00 \<notin> set nm" "newline \<notin> set nm"
    and "ms_uid (mn_sec m) = Some u" "set u \<inter> {quote_char, backslash, CHR 0x00, newline} = {}"
    and "0 \<le> mn_restarts m" "mn_restarts m * 5 < 2 ^ 31"
  shows "newline \<notin> set (butlast (gn_setalarm (mon_aluid m s) (Some (fast_text m)) (mn_restarts m * 5) ALCHAN)) \<and>
    (\<exists>st'. run_line e c (butlast (gn_setalarm (mon_aluid m s) (Some (fast_text m)) (mn_restarts m * 5) ALCHAN)) st = Inr (Some st') \<and>
      alarms st' = snd (update_alarm (mon_aluid m s) (Some (fast_text m)) (mn_restarts m * 5) ALCHAN (alarms st)))"
proof -
  note a = aluid_safe [OF assms(2-5), of s] and t = fast_text_safe [OF assms(6,7)]
  have "sint (word_of_int x :: u32) = x" if "0 \<le> x" "x < 2 ^ 31" for x
    using that by (simp add: int_word_sint)
  note small = this
  have sev: "sint (word_of_int (mn_restarts m * 5) :: u32) = mn_restarts m * 5"
    by (rule small) (use assms(8,9) in simp_all)
  have "newline \<notin> set (butlast (gn_setalarm (mon_aluid m s) (Some (fast_text m)) (mn_restarts m * 5) ALCHAN))"
    using a(3) t(3) int_dec_safe(3) fmt_u_int_dec [of ALCHAN]
    by (simp add: gn_setalarm_def butlast_append kv_simp kvq_def)
  moreover from alarm_read [OF reachable_ok [OF assms(1)] a(1) t(1) a(2) t(2), of e c "word_of_int (mn_restarts m * 5)" ALCHAN]
  have "\<exists>st'. run_line e c (butlast (gn_setalarm (mon_aluid m s) (Some (fast_text m)) (mn_restarts m * 5) ALCHAN)) st = Inr (Some st') \<and>
      alarms st' = snd (update_alarm (mon_aluid m s) (Some (fast_text m)) (mn_restarts m * 5) ALCHAN (alarms st))"
    unfolding sev .
  ultimately show ?thesis ..
qed

definition fast_mon :: moncol where
  "fast_mon = (new_mon one_sec)\<lparr>mn_passes := 12, mn_restarts := 6\<rparr>"

theorem monitor_alarm_travels_witness:
  "\<exists>st'. run_line calm 0 (butlast (gn_setalarm (mon_aluid fast_mon mon_up) (Some (fast_text fast_mon)) 30 ALCHAN)) lamp_state
     = Inr (Some st') \<and> map al_sev (alarms st') = [30] \<and> map al_uid (alarms st') = [''MONC-1_owsrv-1'']"
proof -
  have f: "ms_name (mn_sec fast_mon) = Some ''owsrv''" "ms_uid (mn_sec fast_mon) = Some ''c-1''" "mn_restarts fast_mon = 6"
    by (simp_all add: fast_mon_def new_mon_def one_sec_def)
  have "mon_aluid fast_mon mon_up = ''MONC-1_owsrv-1''" by code_simp
  moreover have "snd (update_alarm ''MONC-1_owsrv-1'' (Some (fast_text fast_mon)) 30 ALCHAN (alarms lamp_state)) =
      [\<lparr>al_uid = ''MONC-1_owsrv-1'', al_text = Some (fast_text fast_mon), al_sev = 30, al_chan = ALCHAN\<rparr>]"
    by (simp add: lamp_facts update_alarm_def find_alarm_by_aluid_def Let_def)
  moreover have "plain ''owsrv''" "CHR 0x00 \<notin> set ''owsrv''" "newline \<notin> set ''owsrv''" "set ''c-1'' \<inter> {quote_char, backslash, CHR 0x00, newline} = {}"
    by (simp_all add: plain_def)
  ultimately show ?thesis
    using monitor_alarm_travels [OF lamp_reachable f(1) _ _ _ f(2), of mon_up calm 0] f(3) by auto
qed

text \<open>
  The name is meant for display, but it is a part of the word that names the alarm: with a space in it the
  server gets the word up to there, the same for all collectors whose names begin alike.
\<close>

lemma name_with_space_cut:
  "parse_netcommand (butlast (gn_setalarm (mon_aluid (new_mon (one_sec\<lparr>ms_name := Some ''main owsrv''\<rparr>)) mon_start)
       (Some ''too fast'') 30 ALCHAN)) =
     Some [''setalarm'', ''aluid:MONC-1_main'', ''owsrv-1'', ''altext:too fast'', ''alsev:30'', ''alchan:128'']"
  "str_arg (parse_args [''aluid:MONC-1_main'', ''owsrv-1'', ''altext:too fast'', ''alsev:30'']) SC_ALUID =
     Some ''MONC-1_main''"
  by code_simp+

section \<open>After a loss of the connection\<close>

text \<open>
  The monitor introduces itself again when it has reconnected, but does not ask for the states of the
  collectors again: the server has dropped its feeds with the old connection.
\<close>

lemma reconnect_without_feeds:
  assumes "gen_ok st" "need_rereg st" "gnhastd_conn st \<in> set (retry_timers st)" "cn_cname (conns st (gnhastd_conn st)) = Some ''moncoll''"
    and "mon_handle e v (Mon_server (RetryTimer (gnhastd_conn st))) st = Inr st'"
  shows "\<exists>k. gnhastd_bev st' = Some k \<and>
    bufs st' k = Some (gn_client_name (Some ''moncoll'') (collector_instance st) @ gn_get_apiv) \<and> monitored st' = monitored st"
  using assms(2,4,5)
  by (auto simp: generic_connect_server_cb_def new_bev_def Let_def bindE_Inr_conv write_bev_def upd_conn_def)

end
