(* ===== verification/Spec2Isabelle.thy ===== *)
theory Spec2Isabelle
  imports Commands Correctness Collector Weather Energy Lights Spa Panel Monitor
begin

text \<open>
  \<^bold>\<open>gnhast\<close> is a home-automation server in C. Collectors (one per kind of hardware) connect to
  the daemon \<^verbatim>\<open>gnhastd\<close> over TCP, register devices and send updates; other clients list, watch
  and change devices, collect them in groups and listen to alarms. This library models the core of
  it and proves what makes it correct.

  \<^bold>\<open>Parts and theories.\<close>

  \<^item> \<^verbatim>\<open>Prelude\<close>, \<^verbatim>\<open>CString\<close>, \<^verbatim>\<open>Dbl\<close>: the result type \<open>'a res = fault + 'a\<close> (a fault is
    undefined behaviour or a signal: null or freed pointers, writes past an array, a double free,
    division by zero, signed overflow), the monadic fold over it, and what the code uses of the C
    library: \<^verbatim>\<open>strtok\<close>, \<^verbatim>\<open>atoi\<close>, \<^verbatim>\<open>strtod\<close>, \<^verbatim>\<open>printf\<close> conversions, \<^verbatim>\<open>qsort\<close>,
    \<^verbatim>\<open>bsearch\<close>, and doubles as their 64 bits. The value of a decimal number as a double and the
    arithmetic on doubles are computed on the bits.
  \<^item> \<^verbatim>\<open>Gnhast\<close>, \<^verbatim>\<open>Structs\<close> (\<^verbatim>\<open>common/gnhast.h\<close>, \<^verbatim>\<open>commands.h\<close>, \<^verbatim>\<open>common.h\<close>): the
    enumerations, the flags and macros, and the structures \<^verbatim>\<open>device_t\<close>, \<^verbatim>\<open>client_t\<close>,
    \<^verbatim>\<open>device_group_t\<close>, \<^verbatim>\<open>alarm_t\<close> as records. The server's state is the record \<open>server\<close>: heaps
    for devices, clients and groups (maps from pointers; a freed client is \<open>None\<close>), the red-black
    trees as maps from uids, and the tail queues as lists.
  \<^item> \<^verbatim>\<open>Netparser\<close> (\<^verbatim>\<open>common/netparser.c\<close>): splitting a line, the typed arguments and their table.
  \<^item> \<^verbatim>\<open>Devices\<close>, \<^verbatim>\<open>Registry\<close> (\<^verbatim>\<open>common/devices.c\<close>): typed data access, watermarks,
    handler arguments and tags, timers; and the tables of devices and groups.
  \<^item> \<^verbatim>\<open>Common\<close>, \<^verbatim>\<open>Alarms\<close>, \<^verbatim>\<open>Gncoll\<close>, \<^verbatim>\<open>Confparser\<close>: the files of these names under
    \<^verbatim>\<open>common/\<close>: helpers, the alarm list, every message the two sides exchange, and the
    conversion between configuration sections and devices or groups.
  \<^item> \<^verbatim>\<open>Server\<close>, \<^verbatim>\<open>Cmdhandler\<close>, \<^verbatim>\<open>Netloop\<close> (\<^verbatim>\<open>gnhastd/\<close>): the twenty command handlers, the
    handler processes of \<^verbatim>\<open>script_handler.c\<close>, reading, writing, closing, accepting and shutting
    down, the periodic callbacks and the start-up; the server as a transition system over the events
    libevent delivers.
  \<^item> \<^verbatim>\<open>Collcmd\<close> (\<^verbatim>\<open>common/collcmd.c\<close>) and \<^verbatim>\<open>Genconn\<close> (\<^verbatim>\<open>common/genconn.c\<close>): what every
    collector answers to the server, and the connections a collector keeps. Its state is the record
    \<open>collector\<close> (tables of devices, buffers by pointer with the bytes waiting in both directions),
    extended with the connections in \<open>gencoll\<close>. What a collector adds of its own (the callback of a
    changed device, the buffers of the hardware) is the record \<open>hooks\<close>.
  \<^item> \<^verbatim>\<open>Oldconn\<close>: the connections of the older collectors, which carry their own copy of that
    code. \<^verbatim>\<open>Build\<close>: how a collector makes devices at run time, shared text helpers.
  \<^item> \<^verbatim>\<open>Framing\<close>, \<^verbatim>\<open>Wmr918\<close> (\<^verbatim>\<open>wmr918coll/collector.c\<close>): the serial stream of the weather
    stations, cut into messages that are checked and decoded into devices.
  \<^item> \<^verbatim>\<open>Brulcoll\<close> (\<^verbatim>\<open>brulcoll/collector.c\<close>): the two formats of the Brultech energy monitors,
    the packets and the difference of two readings.
  \<^item> \<^verbatim>\<open>Plmqueue\<close>, \<^verbatim>\<open>Plmrecv\<close>, \<^verbatim>\<open>Insteon\<close> (\<^verbatim>\<open>insteoncoll/\<close>): the Insteon collector. The queue
    of commands with its states, timeouts and retries; the messages of the modem, byte by byte or as
    the text of a hub's web page; the device tables, the configuration and the callbacks.
  \<^item> \<^verbatim>\<open>Discover\<close> (\<^verbatim>\<open>common/30303_disc.c\<close>), \<^verbatim>\<open>Balboa\<close> (\<^verbatim>\<open>balboacoll/collector.c\<close>): finding
    the controller of a spa by broadcast, its frames with their checksum, its devices, its status and
    the requests, which are presses of its keys.
  \<^item> \<^verbatim>\<open>Scan\<close>: lines, substrings and the conversions of \<^verbatim>\<open>sscanf\<close>, which several collectors use.
    \<^verbatim>\<open>Ad2usb\<close> (\<^verbatim>\<open>ad2usbcoll/collector.c\<close>): the alarm panel. Its display, which cycles through the
    open zones, the counters that say when a zone that is no longer shown is closed, the messages of
    expanders and wireless sensors, and the keys that arm and disarm it.
  \<^item> \<^verbatim>\<open>Moncoll\<close> (\<^verbatim>\<open>moncoll/collector.c\<close>): the monitor of the other collectors, which ends those that
    are stuck, starts those that are gone, and raises alarms. What it does to the system is a list of
    commands and signals in its state.

  \<^bold>\<open>Groups of lemmas.\<close> \<^verbatim>\<open>Invariant\<close> states the invariant \<open>srv_ok\<close> and, as locales, the contract of a
  command handler and of an operation that keeps a view of the state; \<^verbatim>\<open>Preserve\<close> interprets
  the contract for every handler of the table, \<^verbatim>\<open>Lifecycle\<close> carries it through the network
  loop to every reachable state and shows which operations always complete. \<^verbatim>\<open>Effects\<close> says what
  the handlers change and send. \<^verbatim>\<open>Correctness\<close> and \<^verbatim>\<open>Commands\<close> hold the properties of the
  components and of the commands, \<^verbatim>\<open>Runs\<close> the concrete runs that the properties are applied to,
  and this theory the properties of the server as a whole. \<^verbatim>\<open>Collinv\<close> states the invariant of a
  collector's tables and, as locales, what its hooks have to keep; \<^verbatim>\<open>Protocol\<close> puts the two ends
  of the connection together (what one side writes, the other side reads as the same message, doubles
  as \<open>value_as_sent\<close> and \<open>arg_as_sent\<close> round them), and
  \<^verbatim>\<open>Collector\<close> holds the properties of the shared code of collectors. \<^verbatim>\<open>Weather\<close> and \<^verbatim>\<open>Energy\<close>
  are the properties of the weather and energy collectors. For Insteon, \<^verbatim>\<open>Modem\<close> says what one run
  of the queue does and that it returns, \<^verbatim>\<open>Modeminv\<close> carries the invariant of the queue through
  every callback to all reachable states, and \<^verbatim>\<open>Lights\<close> holds the properties. For the spa,
  \<^verbatim>\<open>Spaframe\<close> treats the checksum as a linear map on bits, \<^verbatim>\<open>Spainv\<close> shows that its callbacks meet
  the contracts of \<^verbatim>\<open>Collinv\<close> and carries its invariant to all reachable states, and \<^verbatim>\<open>Spa\<close> holds the
  properties. For the alarm panel, \<^verbatim>\<open>Panelinv\<close> does the same, \<^verbatim>\<open>Panelstart\<close> shows that the
  collector starts, \<^verbatim>\<open>Zones\<close> follows the counter and the device of one zone through a pass over the
  input, and \<^verbatim>\<open>Panel\<close> holds the properties. For the monitor, \<^verbatim>\<open>Moninv\<close> is the invariant and shows that
  the server's messages change no more of a collector than whether it is alive (\<open>mon_told\<close>), and
  \<^verbatim>\<open>Monitor\<close> looks at one collector through the passes over the list and follows an alarm to the
  server's list.

  \<^bold>\<open>Bounds and fuel.\<close> No definition of the server uses fuel: the loops of the source walk over finite
  lists or strings, or have a measure (\<open>c_gcd\<close>, \<open>c_lcm_loop\<close>, \<open>nc_words\<close>). \<open>shutdown_loop\<close> counts down
  the clients there were at its start, and \<open>shutdown_closes_all\<close> shows that this empties the queue.
  In the collectors the loops over received bytes have the length of what is left as their measure
  (\<open>frames_of\<close>, \<open>hubhtml_loop\<close>); two loops of the source need not end, \<open>stream_loop\<close> and
  \<open>plm_runq_loop\<close>, and are \<^verbatim>\<open>partial_function\<close>s into options, where \<open>None\<close> is a loop that never
  returns: \<open>runq_returns\<close> shows when the second does.
  Integers keep their width: \<open>u8\<close>, \<open>u32\<close> and \<open>u64\<close> are words, \<^verbatim>\<open>int\<close> is \<open>int\<close> with its overflow as
  a fault where the code computes with it.

  \<^bold>\<open>The environment.\<close> What the code reads from the system is an argument \<open>env\<close> of the handlers:
  the time, the results of \<^verbatim>\<open>access\<close>, \<^verbatim>\<open>socketpair\<close>, \<^verbatim>\<open>fork\<close> and \<^verbatim>\<open>fopen\<close>, and what
  uninitialised stack memory holds. No property assumes anything of it beyond what its statement says.
  The collectors have the same in \<open>cenv\<close>, \<open>wmr_env\<close>, \<open>plm_env\<close> and \<open>mon_env\<close>; the clock stands still during one
  callback.

  \<^bold>\<open>Not modelled.\<close> Logging, option parsing, daemonising, TLS and socket set-up, the child side
  of \<^verbatim>\<open>fork\<close>, the reading of files by \<^verbatim>\<open>libconfuse\<close> and of JSON by \<^verbatim>\<open>jsmn\<close>, GTK programs and the
  command-line tools (input and output over libraries), the remaining collectors, and vendored code.
  Of a collector's HTTP requests and socket operations only the fact that they were made is
  recorded; serial ports are opened outside the model, and the bytes written to the alarm panel are
  one text. Uids are taken to fit in the buffers of 256 bytes the collectors print them to. Memory that is only
  leaked is not tracked; frees are modelled where a later access could go wrong: the \<^verbatim>\<open>rrdname\<close> that
  \<open>coll_register\<close> leaves dangling faults when it is freed again or printed (\<open>send_register\<close>, \<open>spa_reading\<close>).
  Arrays on the stack that are read before they are filled are modelled where the program can get there
  (\<open>hub_look_at\<close>, with \<open>None\<close> for what has not been written), except in what is only logged.
\<close>

section \<open>The server as a whole\<close>

text \<open>
  C1. Every reachable state of the server keeps the invariant: the tables and queues of devices
  and groups agree, the clients on the queue are exactly the live ones, every watcher of a device
  is a live client and each client's count of watched devices is right, every device is on the
  queue of at most one client, links lead to devices of the table, and alarm uids are distinct.
\<close>

theorem server_invariant: "reachable st \<Longrightarrow> srv_ok st"
  by (rule reachable_ok)

theorem server_invariant_witness: "srv_ok lamp_state \<and> alldevs lamp_state = [0] \<and> clients lamp_state = [0, 1]"
  using server_invariant [OF lamp_reachable] lamp_facts by simp

text \<open>
  C2. In a reachable state an update command of a connected client always completes: every
  watcher it pushes the new value to is still allocated. Only a failing \<^verbatim>\<open>socketpair\<close> for a
  handler, which ends the server, is excluded.
\<close>

theorem update_completes:
  assumes "reachable st" and "c \<in> set (clients st)" and "e_sock e"
  shows "\<exists>r st'. cmd_update e c args st = Inr (r, st')"
  using assms by (intro cmd_update_total reachable_ok)

theorem update_completes_witness:
  "\<exists>r st'. cmd_update calm 0 (parse_args [''uid:lamp'', ''switch:1'']) lamp_state = Inr (r, st')"
  by (rule update_completes [OF lamp_reachable]) (simp_all add: lamp_facts calm_def)

text \<open>
  C4. Closing a connection in a reachable state completes and leaves no trace of the client: it
  is freed and off the queue, no device lists it as a watcher, the devices it registered have no
  collector any more, and the count of watched devices the code checks comes out as zero.
\<close>

theorem close_unlinks:
  assumes "reachable st" and "cli st c = Some x"
  shows "\<exists>st'. buf_error_cb e c st = Inr st' \<and> watched_left c st = Inr 0 \<and> cli st' c = None \<and>
    c \<notin> set (clients st') \<and> (\<forall>p. c \<notin> set (d_watchers (dmem st' p))) \<and>
    (\<forall>p \<in> set (c_devices x). d_collector (dmem st' p) = None \<and> \<not> d_onq_client (dmem st' p))"
proof -
  have ok: "srv_ok st" using assms(1) by (rule reachable_ok)
  obtain st' where run: "buf_error_cb e c st = Inr st'" using buf_error_total [OF assms(2)] by blast
  show ?thesis
    using run watched_left_0 [OF ok assms(2)] buf_error_unlinks [OF ok assms(2) run] by blast
qed

theorem close_unlinks_witness:
  "\<exists>st'. buf_error_cb calm 0 lamp_state = Inr st' \<and> d_collector (dmem st' 0) = None"
proof -
  obtain x where x: "cli lamp_state 0 = Some x" "c_devices x = [0]" using lamp_facts(5) by auto
  from close_unlinks [OF lamp_reachable x(1), of calm] x(2) show ?thesis by auto
qed

text \<open>
  C11. Shutting down a reachable server closes every connection and leaves no watcher and no
  client behind.
\<close>

theorem shutdown_closes_all:
  assumes "reachable st"
  shows "\<exists>st'. network_shutdown e st = Inr st' \<and> clients st' = [] \<and> (\<forall>c. cli st' c = None) \<and>
    (\<forall>p. d_watchers (dmem st' p) = [])"
proof -
  obtain st' where st': "network_shutdown e st = Inr st'" "srv_ok st'" "clients st' = []"
    using network_shutdown_ok [OF reachable_ok [OF assms], of e] by blast
  then have "cli st' c = None" for c by (simp add: srv_ok_def clients_ok_def)
  moreover have "d_watchers (dmem st' p) = []" for p
    using st' by (simp add: srv_ok_def watchers_ok_def)
  ultimately show ?thesis using st' by blast
qed

theorem shutdown_closes_all_witness:
  "\<exists>st'. network_shutdown calm lamp_state = Inr st' \<and> clients st' = []"
  using shutdown_closes_all [OF lamp_reachable, of calm] by blast

end
